(* ===== verification/Prelude.thy ===== *)
theory Prelude
  imports Main
begin

text \<open>
  Shared vocabulary of the development: the collections that the component theories
  extend (\<open>effect_simps\<close> for the effect monad, \<open>sql_defs\<close> for the translated SQL
  statements, \<open>machine_defs\<close> for the handlers of the event machines), reachability of
  a transition system with the contract under which an invariant holds in every
  reachable state, and generic lemmas on lists.
\<close>

named_theorems effect_simps "unfolding rules of the effect monad"
named_theorems sql_defs "definitions of the translated SQL statements"
named_theorems machine_defs "definitions of the event handlers"

section \<open>Reachable states and inductive invariants\<close>

inductive reach :: "('s \<Rightarrow> bool) \<Rightarrow> ('s \<Rightarrow> 's \<Rightarrow> bool) \<Rightarrow> 's \<Rightarrow> bool"
  for start :: "'s \<Rightarrow> bool" and step :: "'s \<Rightarrow> 's \<Rightarrow> bool" where
  reach_start: "start s \<Longrightarrow> reach start step s"
| reach_step: "reach start step s \<Longrightarrow> step s t \<Longrightarrow> reach start step t"

text \<open>
  The contract of an inductive invariant. A machine discharges the two laws once; every
  safety property of its reachable states is then a consequence of \<open>inv\<close>.
\<close>

locale invariant_machine =
  fixes start :: "'s \<Rightarrow> bool"
    and step :: "'s \<Rightarrow> 's \<Rightarrow> bool"
    and inv :: "'s \<Rightarrow> bool"
  assumes inv_start: "start s \<Longrightarrow> inv s"
    and inv_step: "inv s \<Longrightarrow> step s t \<Longrightarrow> inv t"
begin

lemma reachable_inv: "reach start step s \<Longrightarrow> inv s"
  by (induction rule: reach.induct) (auto intro: inv_start inv_step)

lemma reachable_mono:
  assumes "reach start step s" and "\<And>u. inv u \<Longrightarrow> P u"
  shows "P s"
  using reachable_inv[OF assms(1)] assms(2) by blast

end

text \<open>A run of a deterministic machine: one event after another.\<close>

fun run_events :: "('e \<Rightarrow> 's \<Rightarrow> 's) \<Rightarrow> 'e list \<Rightarrow> 's \<Rightarrow> 's" where
  "run_events h [] s = s"
| "run_events h (e # es) s = run_events h es (h e s)"

lemma run_events_append:
  "run_events h (xs @ ys) s = run_events h ys (run_events h xs s)"
  by (induction xs arbitrary: s) auto

text \<open>
  The contract of an invariant of an event handler, for machines whose next state is a
  function of the event.
\<close>

locale handler_invariant =
  fixes handle :: "'e \<Rightarrow> 's \<Rightarrow> 's"
    and inv :: "'s \<Rightarrow> bool"
  assumes handle_inv: "inv s \<Longrightarrow> inv (handle e s)"
begin

lemma run_inv: "inv s \<Longrightarrow> inv (run_events handle es s)"
  by (induction es arbitrary: s) (auto intro: handle_inv)

end

section \<open>Results\<close>

text \<open>
  A computation that may throw: \<open>Inl\<close> of the error, \<open>Inr\<close> of the value. \<open>bindE\<close> is
  sequencing, \<open>mapE\<close> the array \<open>map\<close> whose callback may throw.
\<close>

definition bindE :: "'e + 'a \<Rightarrow> ('a \<Rightarrow> 'e + 'b) \<Rightarrow> 'e + 'b" where
  "bindE m f = (case m of Inl e \<Rightarrow> Inl e | Inr a \<Rightarrow> f a)"

lemma bindE_simps [simp]: "bindE (Inl e) f = Inl e" "bindE (Inr a) f = f a"
  by (simp_all add: bindE_def)

lemma bindE_Inr: "bindE m f = Inr b \<longleftrightarrow> (\<exists>a. m = Inr a \<and> f a = Inr b)"
  by (cases m) auto

lemma bindE_Inl: "bindE m f = Inl e \<longleftrightarrow> m = Inl e \<or> (\<exists>a. m = Inr a \<and> f a = Inl e)"
  by (cases m) auto

fun mapE :: "('a \<Rightarrow> 'e + 'b) \<Rightarrow> 'a list \<Rightarrow> 'e + 'b list" where
  "mapE f [] = Inr []"
| "mapE f (x # xs) = bindE (f x) (\<lambda>y. bindE (mapE f xs) (\<lambda>ys. Inr (y # ys)))"

lemma mapE_Inr: "mapE f xs = Inr ys \<longleftrightarrow> list_all2 (\<lambda>x y. f x = Inr y) xs ys"
  by (induction xs arbitrary: ys) (auto simp: bindE_Inr list_all2_Cons1)

lemma mapE_memberD:
  assumes "mapE f xs = Inr ys" "y \<in> set ys"
  shows "\<exists>x \<in> set xs. f x = Inr y"
  using assms by (induction xs arbitrary: ys) (auto simp: bindE_Inr)

section \<open>Generic list lemmas\<close>

text \<open>Rows changed in place: what a filter counts before and after.\<close>

lemma length_filter_map_le:
  assumes "\<And>x. x \<in> set xs \<Longrightarrow> P (f x) \<Longrightarrow> P x"
  shows "length (filter P (map f xs)) \<le> length (filter P xs)"
  using assms by (induction xs) auto

lemma length_filter_map_eq:
  assumes "\<And>x. x \<in> set xs \<Longrightarrow> P (f x) = P x"
  shows "length (filter P (map f xs)) = length (filter P xs)"
  using assms by (induction xs) auto

lemma length_filter_filter_le:
  "length (filter P (filter Q xs)) \<le> length (filter P xs)"
  by (induction xs) auto

lemma distinct_map_filter': "distinct (map f xs) \<Longrightarrow> distinct (map f (filter P xs))"
  by (rule distinct_map_filter)

lemma map_map_same_key:
  assumes "\<And>x. k (f x) = k x"
  shows "map k (map f xs) = map k xs"
  using assms by simp

lemma distinct_key_unique:
  assumes "distinct (map k xs)" "x \<in> set xs" "y \<in> set xs" "k x = k y"
  shows "x = y"
  using assms by (meson distinct_map inj_onD)

lemma filter_key_unique:
  assumes "distinct (map k xs)" "x \<in> set xs"
  shows "filter (\<lambda>y. k y = k x) xs = [x]"
  using assms by (induction xs) (auto simp: filter_empty_conv image_iff)

lemma length_filter_key_le_1:
  "distinct (map k xs) \<Longrightarrow> length (filter (\<lambda>y. k y = v) xs) \<le> 1"
  by (induction xs) (auto simp: image_iff filter_empty_conv)

lemma takeWhile_take_filter_length: "length (take n (filter P xs)) \<le> n"
  by simp

text \<open>The first row of a query result, as \<open>result.rows[0]\<close>.\<close>

definition first_row :: "'a list \<Rightarrow> 'a option" where
  "first_row xs = (case xs of [] \<Rightarrow> None | x # _ \<Rightarrow> Some x)"

lemma first_row_simps [simp]:
  "first_row [] = None" "first_row (x # xs) = Some x"
  by (simp_all add: first_row_def)

lemma first_row_SomeD: "first_row xs = Some x \<Longrightarrow> x \<in> set xs"
  by (cases xs) auto

lemma first_row_None_iff: "first_row xs = None \<longleftrightarrow> xs = []"
  by (cases xs) auto

end
