(* ===== verification/JsString.thy ===== *)
theory JsString
  imports Prelude "HOL-Library.Sublist"
begin

text \<open>
  The string operations of the language that the program uses. A string is a list of
  characters with code points 0 to 255, on which a JavaScript string has one UTF-16 unit
  per character, so \<open>length\<close> agrees; text outside that range is not represented.
  White space, case mapping and slicing are written out on that range.
\<close>

section \<open>Trimming\<close>

definition is_js_space :: "char \<Rightarrow> bool" where
  "is_js_space c \<longleftrightarrow>
     (let n = (of_char c :: nat) in (9 \<le> n \<and> n \<le> 13) \<or> n = 32 \<or> n = 160)"

definition js_trim :: "string \<Rightarrow> string" where
  "js_trim s = rev (dropWhile is_js_space (rev (dropWhile is_js_space s)))"

lemma hd_dropWhile_not: "dropWhile P xs \<noteq> [] \<Longrightarrow> \<not> P (hd (dropWhile P xs))"
  by (induction xs) auto

lemma js_trim_id:
  assumes "s \<noteq> [] \<Longrightarrow> \<not> is_js_space (hd s)" "s \<noteq> [] \<Longrightarrow> \<not> is_js_space (last s)"
  shows "js_trim s = s"
proof (cases "s = []")
  case True
  then show ?thesis by (simp add: js_trim_def)
next
  case False
  with assms(1) have "dropWhile is_js_space s = s"
    by (cases s) auto
  moreover from False assms(2) have "dropWhile is_js_space (rev s) = rev s"
    by (cases s rule: rev_cases) auto
  ultimately show ?thesis by (simp add: js_trim_def)
qed

lemma length_dropWhile_le': "length (dropWhile P xs) \<le> length xs"
  by (induction xs) auto

lemma length_js_trim: "length (js_trim s) \<le> length s"
  unfolding js_trim_def
  by (metis length_dropWhile_le' length_rev order_trans)

lemma set_js_trim: "set (js_trim s) \<subseteq> set s"
  by (auto simp: js_trim_def dest!: set_dropWhileD)

lemma last_js_trim:
  assumes "js_trim s \<noteq> []"
  shows "\<not> is_js_space (last (js_trim s))"
proof -
  let ?d = "dropWhile is_js_space (rev (dropWhile is_js_space s))"
  from assms have "?d \<noteq> []" by (simp add: js_trim_def)
  then have "\<not> is_js_space (hd ?d)" by (rule hd_dropWhile_not)
  moreover have "last (js_trim s) = hd ?d"
    using \<open>?d \<noteq> []\<close> by (simp add: js_trim_def last_rev)
  ultimately show ?thesis by simp
qed

lemma hd_js_trim:
  assumes "js_trim s \<noteq> []"
  shows "\<not> is_js_space (hd (js_trim s))"
proof -
  let ?l = "dropWhile is_js_space s"
  from assms have ne: "?l \<noteq> []" unfolding js_trim_def by (metis dropWhile.simps(1) rev.simps(1))
  then have sp: "\<not> is_js_space (hd ?l)" by (rule hd_dropWhile_not)
  obtain a where split: "?l = js_trim s @ a"
  proof
    show "?l = js_trim s @ rev (takeWhile is_js_space (rev ?l))"
      unfolding js_trim_def
      by (metis rev_append rev_rev_ident takeWhile_dropWhile_id)
  qed
  then have "hd ?l = hd (js_trim s)" using assms by (metis hd_append2)
  with sp show ?thesis by simp
qed

lemma js_trim_idem [simp]: "js_trim (js_trim s) = js_trim s"
  by (rule js_trim_id) (auto dest: hd_js_trim last_js_trim)

section \<open>Case mapping\<close>

text \<open>
  Lower case on code points up to 255: the ASCII letters and the accented capitals
  192 to 222 except the multiplication sign 215. Upper case inverts it; the sharp s 223
  becomes two letters, and 181 and 255, whose capitals lie outside the range, stay.
\<close>

definition js_lower_char :: "char \<Rightarrow> char" where
  "js_lower_char c =
     (let n = (of_char c :: nat) in
      if (65 \<le> n \<and> n \<le> 90) \<or> (192 \<le> n \<and> n \<le> 222 \<and> n \<noteq> 215)
      then char_of (n + 32) else c)"

definition toLowerCase :: "string \<Rightarrow> string" where
  "toLowerCase s = map js_lower_char s"

definition js_upper_char :: "char \<Rightarrow> string" where
  "js_upper_char c =
     (let n = (of_char c :: nat) in
      if (97 \<le> n \<and> n \<le> 122) \<or> (224 \<le> n \<and> n \<le> 254 \<and> n \<noteq> 247)
      then [char_of (n - 32)]
      else if n = 223 then ''SS'' else [c])"

definition toUpperCase :: "string \<Rightarrow> string" where
  "toUpperCase s = concat (map js_upper_char s)"

lemma of_char_less_256: "(of_char c :: nat) < 256"
  by (metis nat_of_char_less_256)

lemma length_toLowerCase [simp]: "length (toLowerCase s) = length s"
  by (simp add: toLowerCase_def)

lemma js_lower_char_idem [simp]: "js_lower_char (js_lower_char c) = js_lower_char c"
proof -
  have "(of_char c :: nat) < 256" by (rule of_char_less_256)
  then show ?thesis
    by (auto simp: js_lower_char_def Let_def take_bit_eq_mod)
qed

lemma toLowerCase_idem [simp]: "toLowerCase (toLowerCase s) = toLowerCase s"
  by (simp add: toLowerCase_def)

section \<open>Splitting and searching\<close>

fun js_split :: "char \<Rightarrow> string \<Rightarrow> string list" where
  "js_split c [] = [[]]"
| "js_split c (x # xs) =
     (if x = c then [] # js_split c xs
      else (case js_split c xs of [] \<Rightarrow> [[x]] | w # ws \<Rightarrow> (x # w) # ws))"

lemma js_split_nonempty: "js_split c s \<noteq> []"
  by (cases s) (auto split: list.splits)

lemma js_split_no_sep: "c \<notin> set s \<Longrightarrow> js_split c s = [s]"
  by (induction s) auto

lemma js_split_append:
  "c \<notin> set s \<Longrightarrow> js_split c (s @ c # t) = s # js_split c t"
  by (induction s) auto

lemma js_split_parts: "w \<in> set (js_split c s) \<Longrightarrow> c \<notin> set w"
proof (induction s arbitrary: w)
  case Nil
  then show ?case by simp
next
  case (Cons x xs)
  then show ?case
    using js_split_nonempty[of c xs]
    by (cases "js_split c xs") (auto split: if_splits)
qed

text \<open>\<open>[...].join(sep)\<close> for a one-character separator.\<close>

fun js_join :: "char \<Rightarrow> string list \<Rightarrow> string" where
  "js_join c [] = []"
| "js_join c [w] = w"
| "js_join c (w # v # ws) = w @ c # js_join c (v # ws)"

lemma js_split_join:
  assumes "ws \<noteq> []" "\<And>w. w \<in> set ws \<Longrightarrow> c \<notin> set w"
  shows "js_split c (js_join c ws) = ws"
  using assms
  by (induction c ws rule: js_join.induct) (auto simp: js_split_no_sep js_split_append)

lemma js_join_split: "js_join c (js_split c s) = s"
proof (induction s)
  case Nil
  then show ?case by simp
next
  case (Cons x xs)
  obtain w ws where sp: "js_split c xs = w # ws"
    using js_split_nonempty by (cases "js_split c xs") auto
  with Cons show ?case by (cases ws) auto
qed

text \<open>\<open>s.startsWith(p)\<close>.\<close>

definition startsWith :: "string \<Rightarrow> string \<Rightarrow> bool" where
  "startsWith s p \<longleftrightarrow> take (length p) s = p"

lemma startsWith_append [simp]: "startsWith (p @ s) p"
  by (simp add: startsWith_def)

lemma startsWith_iff: "startsWith s p \<longleftrightarrow> (\<exists>t. s = p @ t)"
  unfolding startsWith_def by (metis append_eq_conv_conj)

text \<open>
  \<open>s.lastIndexOf(c)\<close>, with None for -1, and the text before and after the last
  occurrence, as \<open>slice(0, i)\<close> and \<open>slice(i + 1)\<close>.
\<close>

fun lastIndexOf :: "string \<Rightarrow> char \<Rightarrow> nat option" where
  "lastIndexOf [] c = None"
| "lastIndexOf (x # xs) c =
     (case lastIndexOf xs c of
        Some i \<Rightarrow> Some (Suc i)
      | None \<Rightarrow> if x = c then Some 0 else None)"

lemma lastIndexOf_None: "lastIndexOf s c = None \<longleftrightarrow> c \<notin> set s"
  by (induction s) (auto split: option.splits)

lemma lastIndexOf_append:
  "c \<notin> set t \<Longrightarrow> lastIndexOf (s @ c # t) c = Some (length s)"
proof (induction s)
  case Nil
  then show ?case by (auto simp: lastIndexOf_None[THEN iffD2])
next
  case (Cons x s)
  then show ?case by simp
qed

lemma lastIndexOf_SomeD:
  "lastIndexOf s c = Some i \<Longrightarrow>
     i < length s \<and> s ! i = c \<and> c \<notin> set (drop (Suc i) s)"
proof (induction s arbitrary: i)
  case Nil
  then show ?case by simp
next
  case (Cons x xs)
  then show ?case
    by (auto split: option.splits if_splits simp: lastIndexOf_None)
qed

section \<open>Decimal text and base64url\<close>

definition digit_char :: "nat \<Rightarrow> char" where
  "digit_char d = char_of (48 + d)"

fun show_nat :: "nat \<Rightarrow> string" where
  "show_nat n = (if n < 10 then [digit_char n] else show_nat (n div 10) @ [digit_char (n mod 10)])"

declare show_nat.simps [simp del]

definition b64_char :: "nat \<Rightarrow> char" where
  "b64_char n =
     ''ABCDEFGHIJKLMNOPQRSTUVWXYZabcdefghijklmnopqrstuvwxyz0123456789-_'' ! n"

text \<open>\<open>buffer.toString("base64url")\<close> on a list of bytes, without padding.\<close>

fun base64url :: "nat list \<Rightarrow> string" where
  "base64url [] = []"
| "base64url [a] = [b64_char (a div 4 mod 64), b64_char (a * 16 mod 64)]"
| "base64url [a, b] =
     [b64_char (a div 4 mod 64), b64_char ((a * 16 + b div 16) mod 64),
      b64_char (b * 4 mod 64)]"
| "base64url (a # b # c # bs) =
     [b64_char (a div 4 mod 64), b64_char ((a * 16 + b div 16) mod 64),
      b64_char ((b * 4 + c div 64) mod 64), b64_char (c mod 64)] @ base64url bs"

definition b64_alphabet :: "char set" where
  "b64_alphabet =
     set ''ABCDEFGHIJKLMNOPQRSTUVWXYZabcdefghijklmnopqrstuvwxyz0123456789-_''"

lemma b64_char_in: "n < 64 \<Longrightarrow> b64_char n \<in> b64_alphabet"
  unfolding b64_char_def b64_alphabet_def by (rule nth_mem) simp

lemma base64url_alphabet: "set (base64url bs) \<subseteq> b64_alphabet"
  by (induction bs rule: base64url.induct) (auto intro!: b64_char_in)

lemma b64_no_dot: "CHR ''.'' \<notin> b64_alphabet" and b64_no_dollar: "CHR ''$'' \<notin> b64_alphabet"
  by (simp_all add: b64_alphabet_def)

lemma base64url_no_dot: "CHR ''.'' \<notin> set (base64url bs)"
  using base64url_alphabet b64_no_dot by blast

lemma base64url_no_dollar: "CHR ''$'' \<notin> set (base64url bs)"
  using base64url_alphabet b64_no_dollar by blast

end
