(* ===== verification/Database.thy ===== *)
theory Database
  imports JsString
begin

text \<open>
  The PostgreSQL state the backend shares and the effects of its client code. Tables are
  lists of rows (backend/sql/*.sql); a SQL statement of the source is a function on the
  tables that may raise a constraint violation. The effect monad is what the services
  see of the driver: \<open>pool.connect\<close>, \<open>client.query\<close>, BEGIN, COMMIT, ROLLBACK and
  \<open>client.release\<close>. Any query may fail at any point (\<open>query_fails\<close>), a failed
  statement aborts its transaction until ROLLBACK, and NOW() is the start time of the
  transaction. Times are milliseconds.
\<close>

section \<open>Rows\<close>

type_synonym uuid = string
type_synonym time = int

datatype job_status = PENDING | PROCESSING | RETRYING | COMPLETED | FAILED | CANCELLED

fun status_text :: "job_status \<Rightarrow> string" where
  "status_text PENDING = ''PENDING''"
| "status_text PROCESSING = ''PROCESSING''"
| "status_text RETRYING = ''RETRYING''"
| "status_text COMPLETED = ''COMPLETED''"
| "status_text FAILED = ''FAILED''"
| "status_text CANCELLED = ''CANCELLED''"

text \<open>The columns returned to the application, then the columns only SQL reads.\<close>

record JobRecord =
  job_id :: uuid
  original_file_name :: string
  input_object_key :: string
  status :: job_status
  progress :: int
  result_object_keys :: "(string \<times> string) list option"
  error_message :: "string option"
  storage_expires_at :: "time option"
  storage_deleted_at :: "time option"
  created_at :: time
  updated_at :: time

record job = JobRecord +
  owner_id :: uuid
  processing_worker_id :: "string option"
  processing_started_at :: "time option"
  processing_heartbeat_at :: "time option"
  processing_attempts :: nat
  cleanup_claim_id :: "uuid option"
  cleanup_claimed_at :: "time option"
  cleanup_attempts :: nat
  cleanup_error_message :: "string option"
  owner_deleted_at :: "time option"

datatype event_status = EvPENDING | EvPUBLISHED

record outbox_event =
  event_id :: uuid
  topic :: string
  event_key :: string
  payload :: "(string \<times> string) list"
  event_status :: event_status
  attempts :: nat
  last_error :: "string option"
  event_created_at :: time
  published_at :: "time option"

record user =
  user_id :: uuid
  username :: string
  password_hash :: string
  user_created_at :: time
  user_updated_at :: time

record user_session =
  session_id :: uuid
  session_user_id :: uuid
  token_hash :: string
  expires_at :: time
  revoked_at :: "time option"
  session_created_at :: time
  last_seen_at :: time

datatype worker_state = IDLE | BUSY

record worker_instance =
  worker_id :: string
  worker_status :: worker_state
  heartbeat_timeout_seconds :: int
  last_heartbeat_at :: time

record database =
  jobs :: "job list"
  outbox_events :: "outbox_event list"
  users :: "user list"
  user_sessions :: "user_session list"
  worker_instances :: "worker_instance list"

definition active_status :: "job_status \<Rightarrow> bool" where
  "active_status st \<longleftrightarrow> st \<in> {PENDING, PROCESSING, RETRYING}"

definition terminal_status :: "job_status \<Rightarrow> bool" where
  "terminal_status st \<longleftrightarrow> st \<in> {COMPLETED, FAILED, CANCELLED}"

lemma active_iff_not_terminal: "active_status st \<longleftrightarrow> \<not> terminal_status st"
  by (cases st) (simp_all add: active_status_def terminal_status_def)

lemma active_status_simps [simp]:
  "active_status PENDING" "active_status PROCESSING" "active_status RETRYING"
  "\<not> active_status COMPLETED" "\<not> active_status FAILED" "\<not> active_status CANCELLED"
  by (simp_all add: active_status_def)

text \<open>Statuses in the order of their texts, as \<open>ORDER BY status\<close> sorts them.\<close>

fun status_rank :: "job_status \<Rightarrow> nat" where
  "status_rank CANCELLED = 0"
| "status_rank COMPLETED = 1"
| "status_rank FAILED = 2"
| "status_rank PENDING = 3"
| "status_rank PROCESSING = 4"
| "status_rank RETRYING = 5"

lemma status_rank_inj: "status_rank a = status_rank b \<Longrightarrow> a = b"
  by (cases a; cases b) simp_all

instantiation job_status :: linorder
begin
definition less_eq_job_status :: "job_status \<Rightarrow> job_status \<Rightarrow> bool" where
  "less_eq_job_status a b = (status_rank a \<le> status_rank b)"
definition less_job_status :: "job_status \<Rightarrow> job_status \<Rightarrow> bool" where
  "less_job_status a b = (status_rank a < status_rank b)"
instance
  by intro_classes (auto simp: less_eq_job_status_def less_job_status_def dest: status_rank_inj)
end

section \<open>Statements\<close>

text \<open>Errors the services throw or let through.\<close>

datatype error =
    DatabaseError string
  | UniqueViolation string
  | CheckViolation string
  | ForeignKeyViolation string
  | DuplicateUploadJobError JobRecord
  | ActiveJobLimitError nat
  | UploadValidationError string
  | ObjectStorageError string
  | PlainError string

type_synonym 'a stmt = "(nat \<Rightarrow> uuid) \<Rightarrow> time \<Rightarrow> database \<Rightarrow> error + ('a \<times> database)"

definition update_where :: "('r \<Rightarrow> bool) \<Rightarrow> ('r \<Rightarrow> 'r) \<Rightarrow> 'r list \<Rightarrow> 'r list" where
  "update_where P f rows = map (\<lambda>r. if P r then f r else r) rows"

definition updated_rows :: "('r \<Rightarrow> bool) \<Rightarrow> ('r \<Rightarrow> 'r) \<Rightarrow> 'r list \<Rightarrow> 'r list" where
  "updated_rows P f rows = map f (filter P rows)"

definition delete_where :: "('r \<Rightarrow> bool) \<Rightarrow> 'r list \<Rightarrow> 'r list" where
  "delete_where P rows = filter (\<lambda>r. \<not> P r) rows"

definition order_by_desc :: "('r \<Rightarrow> time) \<Rightarrow> 'r list \<Rightarrow> 'r list" where
  "order_by_desc k rows = sort_key (\<lambda>r. - k r) rows"

text \<open>\<open>INTERVAL '1 hour'\<close> and its fellows.\<close>

definition hours :: "nat \<Rightarrow> time" where "hours n = int n * 3600000"
definition minutes :: "nat \<Rightarrow> time" where "minutes n = int n * 60000"
definition seconds :: "int \<Rightarrow> time" where "seconds n = n * 1000"
definition days :: "nat \<Rightarrow> time" where "days n = int n * 86400000"

definition coalesce :: "'a option \<Rightarrow> 'a \<Rightarrow> 'a option" where
  "coalesce x d = (case x of None \<Rightarrow> Some d | Some v \<Rightarrow> Some v)"

lemma set_update_where:
  "set (update_where P f rows) = f ` {r \<in> set rows. P r} \<union> {r \<in> set rows. \<not> P r}"
  by (auto simp: update_where_def)

lemma update_where_id: "(\<And>r. r \<in> set rows \<Longrightarrow> \<not> P r) \<Longrightarrow> update_where P f rows = rows"
  by (simp add: update_where_def map_idI)

lemma map_update_where_key:
  "(\<And>r. k (f r) = k r) \<Longrightarrow> map k (update_where P f rows) = map k rows"
  by (simp add: update_where_def)

lemma length_update_where [simp]: "length (update_where P f rows) = length rows"
  by (simp add: update_where_def)

lemma updated_rows_empty_iff: "updated_rows P f rows = [] \<longleftrightarrow> (\<forall>r \<in> set rows. \<not> P r)"
  by (auto simp: updated_rows_def filter_empty_conv)

lemma first_updated_row:
  "first_row (updated_rows P f rows) = Some r' \<Longrightarrow>
     \<exists>r \<in> set rows. P r \<and> r' = f r"
  by (auto simp: updated_rows_def dest!: first_row_SomeD)

lemma set_order_by_desc [simp]: "set (order_by_desc k rows) = set rows"
  by (simp add: order_by_desc_def)

lemma distinct_order_by_desc: "distinct (map h rows) \<Longrightarrow> distinct (map h (order_by_desc k rows))"
  by (simp add: order_by_desc_def distinct_map)

section \<open>Effects\<close>

record world =
  query_fails :: "nat \<Rightarrow> bool"
  clock :: "nat \<Rightarrow> time"
  random_uuid :: "nat \<Rightarrow> nat \<Rightarrow> uuid"

record exec =
  tick :: nat
  txn_now :: time
  db :: database
  snapshot :: "database option"
  aborted :: bool
  clients :: nat

type_synonym 'a eff = "world \<Rightarrow> exec \<Rightarrow> (error + 'a) \<times> exec"

definition returnM :: "'a \<Rightarrow> 'a eff" where
  "returnM a w s = (Inr a, s)"

definition throwM :: "error \<Rightarrow> 'a eff" where
  "throwM e w s = (Inl e, s)"

definition bindM :: "'a eff \<Rightarrow> ('a \<Rightarrow> 'b eff) \<Rightarrow> 'b eff" where
  "bindM m f w s =
     (case m w s of
        (Inl e, s1) \<Rightarrow> (Inl e, s1)
      | (Inr a, s1) \<Rightarrow> f a w s1)"

definition thenM :: "'a eff \<Rightarrow> 'b eff \<Rightarrow> 'b eff" where
  "thenM m n = bindM m (\<lambda>_. n)"

text \<open>One statement on a connection; outside a transaction it commits by itself.\<close>

definition client_query :: "'a stmt \<Rightarrow> 'a eff" where
  "client_query q w s =
     (let t = tick s;
          s1 = s\<lparr>tick := Suc t,
                 txn_now := (if snapshot s = None then clock w t else txn_now s)\<rparr>;
          failed = s1\<lparr>aborted := (snapshot s \<noteq> None)\<rparr>
      in if query_fails w t then (Inl (DatabaseError ''query failed''), failed)
         else if aborted s then (Inl (DatabaseError ''current transaction is aborted''), s1)
         else case q (random_uuid w t) (txn_now s1) (db s) of
                Inl e \<Rightarrow> (Inl e, failed)
              | Inr (a, d) \<Rightarrow> (Inr a, s1\<lparr>db := d\<rparr>))"

definition client_begin :: "unit eff" where
  "client_begin w s =
     (let t = tick s; s1 = s\<lparr>tick := Suc t\<rparr>
      in if query_fails w t then (Inl (DatabaseError ''BEGIN failed''), s1)
         else (Inr (), s1\<lparr>txn_now := clock w t, snapshot := Some (db s), aborted := False\<rparr>))"

definition restored :: "exec \<Rightarrow> exec" where
  "restored s =
     s\<lparr>db := (case snapshot s of Some d \<Rightarrow> d | None \<Rightarrow> db s), snapshot := None,
       aborted := False\<rparr>"

text \<open>COMMIT of an aborted transaction rolls back; a failed COMMIT commits nothing.\<close>

definition client_commit :: "unit eff" where
  "client_commit w s =
     (let t = tick s; s1 = s\<lparr>tick := Suc t\<rparr>
      in if query_fails w t
         then (Inl (DatabaseError ''COMMIT failed''), s1\<lparr>aborted := (snapshot s \<noteq> None)\<rparr>)
         else if aborted s then (Inr (), restored s1)
         else (Inr (), s1\<lparr>snapshot := None\<rparr>))"

text \<open>
  ROLLBACK. When the statement itself fails the connection is lost, and the server
  discards the uncommitted work all the same.
\<close>

definition client_rollback :: "unit eff" where
  "client_rollback w s =
     (let t = tick s; s1 = restored (s\<lparr>tick := Suc t\<rparr>)
      in if query_fails w t then (Inl (DatabaseError ''ROLLBACK failed''), s1)
         else (Inr (), s1))"

text \<open>
  \<open>const client = await pool.connect(); try { body } catch (error) { await
  client.query("ROLLBACK"); throw error; } finally { client.release(); }\<close>
\<close>

definition with_client :: "'a eff \<Rightarrow> 'a eff" where
  "with_client body w s =
     (let t = tick s; s1 = s\<lparr>tick := Suc t\<rparr>
      in if query_fails w t then (Inl (DatabaseError ''connect failed''), s1)
         else
           let (r, s2) = body w (s1\<lparr>clients := Suc (clients s)\<rparr>);
               (r3, s3) = (case r of
                  Inr a \<Rightarrow> (Inr a, s2)
                | Inl e \<Rightarrow> thenM client_rollback (throwM e) w s2)
           in (r3, s3\<lparr>clients := clients s3 - 1\<rparr>))"

definition pool_query :: "'a stmt \<Rightarrow> 'a eff" where
  "pool_query = client_query"

definition transaction :: "'a eff \<Rightarrow> 'a eff" where
  "transaction body =
     with_client (thenM client_begin (bindM body (\<lambda>a. thenM client_commit (returnM a))))"

text \<open>A database handle between requests: no transaction is open.\<close>

definition idle :: "exec \<Rightarrow> bool" where
  "idle s \<longleftrightarrow> snapshot s = None \<and> \<not> aborted s"

section \<open>Atomicity of transactions\<close>

text \<open>Code that stays inside the transaction it was started in.\<close>

definition in_txn :: "'a eff \<Rightarrow> bool" where
  "in_txn m \<longleftrightarrow>
     (\<forall>w s. snapshot s \<noteq> None \<longrightarrow>
        snapshot (snd (m w s)) = snapshot s \<and> clients (snd (m w s)) = clients s)"

lemma in_txnD:
  "in_txn m \<Longrightarrow> snapshot s = Some d \<Longrightarrow> snapshot (snd (m w s)) = Some d"
  "in_txn m \<Longrightarrow> snapshot s = Some d \<Longrightarrow> clients (snd (m w s)) = clients s"
  by (auto simp: in_txn_def)

lemma in_txn_return [intro]: "in_txn (returnM a)"
  by (simp add: in_txn_def returnM_def)

lemma in_txn_throw [intro]: "in_txn (throwM e)"
  by (simp add: in_txn_def throwM_def)

lemma in_txn_query [intro]: "in_txn (client_query q)"
  by (auto simp: in_txn_def client_query_def Let_def split: sum.splits prod.splits)

lemma in_txn_bind [intro]:
  assumes "in_txn m" "\<And>a. in_txn (f a)"
  shows "in_txn (bindM m f)"
  unfolding in_txn_def
proof (intro allI impI)
  fix w and s :: exec
  assume s: "snapshot s \<noteq> None"
  obtain r s1 where m: "m w s = (r, s1)" by fastforce
  have s1: "snapshot s1 = snapshot s" "clients s1 = clients s"
    using assms(1) s m unfolding in_txn_def by (metis snd_conv)+
  show "snapshot (snd (bindM m f w s)) = snapshot s \<and> clients (snd (bindM m f w s)) = clients s"
  proof (cases r)
    case (Inl e)
    then show ?thesis using m s1 by (simp add: bindM_def)
  next
    case (Inr a)
    then show ?thesis
      using m s1 s assms(2)[of a] unfolding in_txn_def by (simp add: bindM_def)
  qed
qed

lemma in_txn_then [intro]: "in_txn m \<Longrightarrow> in_txn n \<Longrightarrow> in_txn (thenM m n)"
  unfolding thenM_def by (rule in_txn_bind)

lemma in_txn_if [intro]: "in_txn m \<Longrightarrow> in_txn n \<Longrightarrow> in_txn (if b then m else n)"
  by simp

lemma in_txn_option [intro]:
  "in_txn m \<Longrightarrow> (\<And>x. in_txn (f x)) \<Longrightarrow> in_txn (case v of None \<Rightarrow> m | Some x \<Rightarrow> f x)"
  by (cases v) auto

text \<open>The state in which the body of a transaction starts.\<close>

definition txn_start :: "world \<Rightarrow> exec \<Rightarrow> exec" where
  "txn_start w s =
     s\<lparr>clients := Suc (clients s), tick := Suc (Suc (tick s)), txn_now := clock w (Suc (tick s)),
       snapshot := Some (db s), aborted := False\<rparr>"

lemma txn_start_simps [simp]:
  "snapshot (txn_start w s) = Some (db s)" "clients (txn_start w s) = Suc (clients s)"
  "db (txn_start w s) = db s" "txn_now (txn_start w s) = clock w (Suc (tick s))"
  "aborted (txn_start w s) = False" "tick (txn_start w s) = Suc (Suc (tick s))"
  by (simp_all add: txn_start_def)

text \<open>What a failed and what a successful transaction leave behind.\<close>

lemma transaction_cases:
  assumes body: "in_txn body" and idle: "idle s"
  shows "\<exists>r s'. transaction body w s = (r, s') \<and> idle s' \<and> clients s' = clients s \<and>
     (case r of
        Inl e \<Rightarrow> db s' = db s
      | Inr a \<Rightarrow>
          fst (body w (txn_start w s)) = Inr a \<and>
          db s' = (if aborted (snd (body w (txn_start w s))) then db s
                   else db (snd (body w (txn_start w s)))))"
proof -
  have s0: "s\<lparr>clients := Suc (clients s), tick := Suc (Suc (tick s)),
       txn_now := clock w (Suc (tick s)), snapshot := Some (db s), aborted := False\<rparr>
       = txn_start w s"
    by (simp add: txn_start_def)
  obtain r s1 where b: "body w (txn_start w s) = (r, s1)" by fastforce
  have s1: "snapshot s1 = Some (db s)" "clients s1 = Suc (clients s)"
    using in_txnD[OF body, of "txn_start w s" "db s" w] b by simp_all
  show ?thesis
  proof (cases r)
    case (Inl e)
    then show ?thesis
      using b s1 idle
      by (auto simp: transaction_def with_client_def thenM_def bindM_def client_begin_def s0
          client_rollback_def throwM_def restored_def Let_def idle_def)
  next
    case (Inr a)
    then show ?thesis
      using b s1 idle
      by (auto simp: transaction_def with_client_def thenM_def bindM_def client_begin_def s0
          client_commit_def client_rollback_def throwM_def returnM_def restored_def Let_def
          idle_def)
  qed
qed

lemma transaction_error:
  assumes "in_txn body" "idle s" "transaction body w s = (Inl e, s')"
  shows "db s' = db s"
  using transaction_cases[OF assms(1,2), of w] assms(3) by auto

lemma transaction_idle:
  assumes "in_txn body" "idle s"
  shows "idle (snd (transaction body w s)) \<and> clients (snd (transaction body w s)) = clients s"
  using transaction_cases[OF assms, of w] by auto

section \<open>Inversion of successful and failed runs\<close>

lemma returnM_eq [effect_simps]: "returnM a w s = (r, s') \<longleftrightarrow> r = Inr a \<and> s' = s"
  by (auto simp: returnM_def)

lemma throwM_eq [effect_simps]: "throwM e w s = (r, s') \<longleftrightarrow> r = Inl e \<and> s' = s"
  by (auto simp: throwM_def)

lemma bindM_Inr [effect_simps]:
  "bindM m f w s = (Inr b, s') \<longleftrightarrow> (\<exists>a s1. m w s = (Inr a, s1) \<and> f a w s1 = (Inr b, s'))"
  by (auto simp: bindM_def split: prod.splits sum.splits)

lemma bindM_Inl [effect_simps]:
  "bindM m f w s = (Inl e, s') \<longleftrightarrow>
     m w s = (Inl e, s') \<or> (\<exists>a s1. m w s = (Inr a, s1) \<and> f a w s1 = (Inl e, s'))"
  by (auto simp: bindM_def split: prod.splits sum.splits)

lemma thenM_Inr [effect_simps]:
  "thenM m n w s = (Inr b, s') \<longleftrightarrow> (\<exists>a s1. m w s = (Inr a, s1) \<and> n w s1 = (Inr b, s'))"
  by (simp add: thenM_def bindM_Inr)

lemma thenM_Inl [effect_simps]:
  "thenM m n w s = (Inl e, s') \<longleftrightarrow>
     m w s = (Inl e, s') \<or> (\<exists>a s1. m w s = (Inr a, s1) \<and> n w s1 = (Inl e, s'))"
  by (simp add: thenM_def bindM_Inl)

text \<open>The time a statement sees, and the handle after it succeeded.\<close>

definition stmt_now :: "world \<Rightarrow> exec \<Rightarrow> time" where
  "stmt_now w s = (if snapshot s = None then clock w (tick s) else txn_now s)"

definition after_query :: "world \<Rightarrow> database \<Rightarrow> exec \<Rightarrow> exec" where
  "after_query w d s = s\<lparr>tick := Suc (tick s), txn_now := stmt_now w s, db := d\<rparr>"

lemma after_query_simps [simp]:
  "db (after_query w d s) = d" "snapshot (after_query w d s) = snapshot s"
  "aborted (after_query w d s) = aborted s" "tick (after_query w d s) = Suc (tick s)"
  "clients (after_query w d s) = clients s" "txn_now (after_query w d s) = stmt_now w s"
  by (simp_all add: after_query_def)

lemma stmt_now_txn [simp]: "snapshot s \<noteq> None \<Longrightarrow> stmt_now w s = txn_now s"
  by (auto simp: stmt_now_def)

lemma client_query_Inr [effect_simps]:
  "client_query q w s = (Inr a, s') \<longleftrightarrow>
     \<not> query_fails w (tick s) \<and> \<not> aborted s \<and>
     (\<exists>d. q (random_uuid w (tick s)) (stmt_now w s) (db s) = Inr (a, d) \<and>
          s' = after_query w d s)"
  by (auto simp: client_query_def Let_def stmt_now_def after_query_def
      split: sum.splits prod.splits if_splits)

text \<open>A failed statement changes no table.\<close>

lemma client_query_Inl:
  "client_query q w s = (Inl e, s') \<Longrightarrow>
     db s' = db s \<and> snapshot s' = snapshot s \<and> clients s' = clients s \<and>
     ((\<exists>m. e = DatabaseError m) \<or>
      q (random_uuid w (tick s)) (stmt_now w s) (db s) = Inl e)"
  by (auto simp: client_query_def Let_def stmt_now_def
      split: sum.splits prod.splits if_splits)

lemma client_query_idle: "idle s \<Longrightarrow> idle (snd (client_query q w s))"
  by (auto simp: client_query_def Let_def idle_def split: sum.splits prod.splits)

lemma client_query_clients [simp]: "clients (snd (client_query q w s)) = clients s"
  by (auto simp: client_query_def Let_def split: sum.splits prod.splits)

text \<open>Bodies without a \<open>catch\<close> of their own: success means no statement failed.\<close>

definition straight :: "'a eff \<Rightarrow> bool" where
  "straight m \<longleftrightarrow>
     (\<forall>w s a s'. \<not> aborted s \<longrightarrow> m w s = (Inr a, s') \<longrightarrow> \<not> aborted s')"

lemma straight_return [intro]: "straight (returnM a)"
  by (simp add: straight_def effect_simps)

lemma straight_throw [intro]: "straight (throwM e)"
  by (simp add: straight_def effect_simps)

lemma straight_query [intro]: "straight (client_query q)"
  by (auto simp: straight_def effect_simps)

lemma straight_bind [intro]: "straight m \<Longrightarrow> (\<And>a. straight (f a)) \<Longrightarrow> straight (bindM m f)"
  unfolding straight_def bindM_Inr by blast

lemma straight_then [intro]: "straight m \<Longrightarrow> straight n \<Longrightarrow> straight (thenM m n)"
  unfolding thenM_def by (rule straight_bind)

lemma straight_if [intro]: "straight m \<Longrightarrow> straight n \<Longrightarrow> straight (if b then m else n)"
  by simp

lemma straight_option [intro]:
  "straight m \<Longrightarrow> (\<And>x. straight (f x)) \<Longrightarrow> straight (case v of None \<Rightarrow> m | Some x \<Rightarrow> f x)"
  by (cases v) auto

text \<open>
  Inversion of a successful transaction: its body ran from the snapshot without a failed
  statement, and what it wrote is committed.
\<close>

lemma transaction_InrD:
  assumes "in_txn body" "straight body" "idle s" "transaction body w s = (Inr a, s')"
  obtains s1 where "body w (txn_start w s) = (Inr a, s1)" "db s' = db s1" "\<not> aborted s1"
proof -
  obtain r s1 where b: "body w (txn_start w s) = (r, s1)" by fastforce
  from transaction_cases[OF assms(1,3), of w] assms(4) b
  have r: "r = Inr a" and d: "db s' = (if aborted s1 then db s else db s1)" by auto
  have "\<not> aborted s1" using assms(2) b r unfolding straight_def by (metis txn_start_simps(5))
  with that b r d show ?thesis by simp
qed

text \<open>A failed transaction failed in the driver or in its body.\<close>

lemma transaction_InlD:
  assumes "idle s" "transaction body w s = (Inl e, s')"
  shows "(\<exists>m. e = DatabaseError m) \<or> (\<exists>s1. body w (txn_start w s) = (Inl e, s1))"
proof -
  have s0: "s\<lparr>clients := Suc (clients s), tick := Suc (Suc (tick s)),
       txn_now := clock w (Suc (tick s)), snapshot := Some (db s), aborted := False\<rparr>
       = txn_start w s"
    by (simp add: txn_start_def)
  show ?thesis
    using assms(2)
    by (auto simp: transaction_def with_client_def thenM_def bindM_def client_begin_def s0
        client_commit_def client_rollback_def throwM_def returnM_def Let_def
        split: prod.splits sum.splits if_splits)
qed

text \<open>
  The shape of \<open>with_client (client_begin; ...)\<close> for a body that ends its transaction
  itself: what happens before the \<open>catch\<close>, and what the \<open>catch\<close> restores.
\<close>

lemma with_client_begin_Inr:
  assumes "idle s" "with_client (thenM client_begin body) w s = (Inr a, s')"
  shows "\<exists>s1. body w (txn_start w s) = (Inr a, s1) \<and> s' = s1\<lparr>clients := clients s1 - 1\<rparr>"
proof -
  have s0: "s\<lparr>clients := Suc (clients s), tick := Suc (Suc (tick s)),
       txn_now := clock w (Suc (tick s)), snapshot := Some (db s), aborted := False\<rparr>
       = txn_start w s"
    by (simp add: txn_start_def)
  show ?thesis
    using assms(2)
    by (auto simp: with_client_def thenM_def bindM_def client_begin_def s0
        client_rollback_def throwM_def Let_def split: prod.splits sum.splits if_splits)
qed

lemma with_client_begin_Inl:
  assumes "idle s" "with_client (thenM client_begin body) w s = (Inl e, s')"
  shows "(db s' = db s \<and> idle s' \<and> clients s' = clients s) \<or>
     (\<exists>e1 s1. body w (txn_start w s) = (Inl e1, s1) \<and>
        db s' = db (restored s1) \<and> idle s' \<and> clients s' = clients s1 - 1)"
proof -
  have s0: "s\<lparr>clients := Suc (clients s), tick := Suc (Suc (tick s)),
       txn_now := clock w (Suc (tick s)), snapshot := Some (db s), aborted := False\<rparr>
       = txn_start w s"
    by (simp add: txn_start_def)
  show ?thesis
    using assms
    by (auto simp: with_client_def thenM_def bindM_def client_begin_def s0 idle_def restored_def
        client_rollback_def throwM_def Let_def split: prod.splits sum.splits if_splits option.splits)
qed

lemma client_commit_Inr [effect_simps]:
  "client_commit w s = (Inr u, s') \<longleftrightarrow>
     \<not> query_fails w (tick s) \<and>
     s' = (if aborted s then restored (s\<lparr>tick := Suc (tick s)\<rparr>)
           else s\<lparr>tick := Suc (tick s), snapshot := None\<rparr>)"
  by (auto simp: client_commit_def Let_def)

lemma client_commit_Inl:
  "client_commit w s = (Inl e, s') \<Longrightarrow>
     snapshot s' = snapshot s \<and> clients s' = clients s \<and> (\<exists>m. e = DatabaseError m)"
  by (auto simp: client_commit_def Let_def split: if_splits)

lemma client_rollback_Inr [effect_simps]:
  "client_rollback w s = (Inr u, s') \<longleftrightarrow>
     \<not> query_fails w (tick s) \<and> s' = restored (s\<lparr>tick := Suc (tick s)\<rparr>)"
  by (auto simp: client_rollback_def Let_def)

lemma client_rollback_Inl:
  "client_rollback w s = (Inl e, s') \<Longrightarrow> s' = restored (s\<lparr>tick := Suc (tick s)\<rparr>)"
  by (auto simp: client_rollback_def Let_def split: if_splits)

lemma restored_simps [simp]:
  "snapshot (restored s) = None" "aborted (restored s) = False" "clients (restored s) = clients s"
  "tick (restored s) = tick s"
  "snapshot s = Some d \<Longrightarrow> db (restored s) = d" "snapshot s = None \<Longrightarrow> db (restored s) = db s"
  by (simp_all add: restored_def)

text \<open>One statement when nothing fails.\<close>

lemma client_query_run:
  assumes "\<not> query_fails w (tick s)" "\<not> aborted s"
    and "q (random_uuid w (tick s)) (stmt_now w s) (db s) = Inr (a, d)"
  shows "client_query q w s = (Inr a, after_query w d s)"
  using assms by (simp add: client_query_Inr)

text \<open>When no statement fails, the transaction does.\<close>

lemma transaction_no_faults:
  assumes "\<And>t. \<not> query_fails w t" "idle s" "body w (txn_start w s) = (r, s1)"
    "in_txn body" "\<not> aborted s1 \<or> (\<exists>e. r = Inl e)"
  shows "fst (transaction body w s) = r \<and>
     db (snd (transaction body w s)) = (case r of Inl e \<Rightarrow> db s | Inr a \<Rightarrow> db s1)"
proof -
  have s0: "s\<lparr>clients := Suc (clients s), tick := Suc (Suc (tick s)),
       txn_now := clock w (Suc (tick s)), snapshot := Some (db s), aborted := False\<rparr>
       = txn_start w s"
    by (simp add: txn_start_def)
  have s1: "snapshot s1 = Some (db s)"
    using in_txnD(1)[OF assms(4), of "txn_start w s" "db s" w] assms(3) by simp
  show ?thesis
    using assms(1,3,5) s1
    by (cases r) (auto simp: transaction_def with_client_def thenM_def bindM_def client_begin_def
        s0 client_commit_def client_rollback_def throwM_def returnM_def restored_def Let_def)
qed

section \<open>Invariants of the tables\<close>

text \<open>Every state a handle can be in, committed or inside a transaction, satisfies \<open>I\<close>.\<close>

definition exec_ok :: "(database \<Rightarrow> bool) \<Rightarrow> exec \<Rightarrow> bool" where
  "exec_ok I s \<longleftrightarrow> I (db s) \<and> (case snapshot s of None \<Rightarrow> True | Some d \<Rightarrow> I d)"

definition stmt_preserves :: "(database \<Rightarrow> bool) \<Rightarrow> 'a stmt \<Rightarrow> bool" where
  "stmt_preserves I q \<longleftrightarrow> (\<forall>u t d a d'. I d \<longrightarrow> q u t d = Inr (a, d') \<longrightarrow> I d')"

definition preserves :: "(database \<Rightarrow> bool) \<Rightarrow> 'a eff \<Rightarrow> bool" where
  "preserves I m \<longleftrightarrow> (\<forall>w s. exec_ok I s \<longrightarrow> exec_ok I (snd (m w s)))"

named_theorems preserves_intros "composition rules of preserves"

lemma stmt_preservesI:
  "(\<And>u t d a d'. I d \<Longrightarrow> q u t d = Inr (a, d') \<Longrightarrow> I d') \<Longrightarrow> stmt_preserves I q"
  by (auto simp: stmt_preserves_def)

lemma preserves_return [preserves_intros]: "preserves I (returnM a)"
  by (simp add: preserves_def returnM_def)

lemma preserves_throw [preserves_intros]: "preserves I (throwM e)"
  by (simp add: preserves_def throwM_def)

lemma preserves_query [preserves_intros]: "stmt_preserves I q \<Longrightarrow> preserves I (client_query q)"
  by (auto simp: preserves_def stmt_preserves_def client_query_def Let_def exec_ok_def
      split: sum.splits prod.splits option.splits)

lemma preserves_begin [preserves_intros]: "preserves I client_begin"
  by (auto simp: preserves_def client_begin_def exec_ok_def Let_def)

lemma preserves_commit [preserves_intros]: "preserves I client_commit"
  by (auto simp: preserves_def client_commit_def exec_ok_def restored_def Let_def
      split: option.splits)

lemma preserves_rollback [preserves_intros]: "preserves I client_rollback"
  by (auto simp: preserves_def client_rollback_def exec_ok_def restored_def Let_def
      split: option.splits)

lemma preserves_bind [preserves_intros]:
  assumes "preserves I m" "\<And>a. preserves I (f a)"
  shows "preserves I (bindM m f)"
  unfolding preserves_def
proof (intro allI impI)
  fix w s
  assume s: "exec_ok I s"
  obtain r s1 where m: "m w s = (r, s1)" by fastforce
  then have s1: "exec_ok I s1" using assms(1) s unfolding preserves_def by (metis snd_conv)
  then show "exec_ok I (snd (bindM m f w s))"
    using assms(2) m by (cases r) (auto simp: bindM_def preserves_def)
qed

lemma preserves_then [preserves_intros]:
  "preserves I m \<Longrightarrow> preserves I n \<Longrightarrow> preserves I (thenM m n)"
  unfolding thenM_def by (rule preserves_bind)

lemma preserves_if [preserves_intros]:
  "preserves I m \<Longrightarrow> preserves I n \<Longrightarrow> preserves I (if b then m else n)"
  by simp

lemma preserves_option [preserves_intros]:
  "preserves I m \<Longrightarrow> (\<And>x. preserves I (f x)) \<Longrightarrow>
     preserves I (case v of None \<Rightarrow> m | Some x \<Rightarrow> f x)"
  by (cases v) auto

lemma exec_ok_updates [simp]:
  "exec_ok I (s\<lparr>tick := t\<rparr>) = exec_ok I s" "exec_ok I (s\<lparr>clients := n\<rparr>) = exec_ok I s"
  by (simp_all add: exec_ok_def)

lemma preserves_with_client [preserves_intros]:
  fixes body :: "'a eff"
  assumes "preserves I body"
  shows "preserves I (with_client body)"
  unfolding preserves_def
proof (intro allI impI)
  fix w s
  assume s: "exec_ok I s"
  let ?s1 = "s\<lparr>tick := Suc (tick s), clients := Suc (clients s)\<rparr>"
  obtain r s2 where b: "body w ?s1 = (r, s2)" by fastforce
  have "exec_ok I ?s1" using s by (simp add: exec_ok_def)
  then have s2: "exec_ok I s2" using assms b unfolding preserves_def by (metis snd_conv)
  have "preserves I (thenM client_rollback (throwM e) :: 'a eff)" for e
    by (intro preserves_intros)
  with s2 have rb: "exec_ok I (snd ((thenM client_rollback (throwM e) :: 'a eff) w s2))" for e
    by (simp add: preserves_def)
  show "exec_ok I (snd (with_client body w s))"
  proof (cases r)
    case (Inl e)
    then show ?thesis
      using s b rb[of e]
      by (cases "thenM client_rollback (throwM e :: 'a eff) w s2")
        (auto simp: with_client_def Let_def)
  next
    case (Inr a)
    then show ?thesis using s s2 b by (auto simp: with_client_def Let_def)
  qed
qed

lemma preserves_transaction [preserves_intros]:
  "preserves I body \<Longrightarrow> preserves I (transaction body)"
  unfolding transaction_def by (intro preserves_intros)

lemma preserves_db:
  assumes "preserves I m" "idle s" "I (db s)" "idle (snd (m w s))"
  shows "I (db (snd (m w s)))"
  using assms unfolding preserves_def exec_ok_def idle_def by (auto split: option.splits)

section \<open>The contract of a service operation\<close>

text \<open>
  What the routes rely on when they call a service that runs in a transaction: an error
  leaves the tables as they were, no transaction stays open and the pooled connection is
  returned.
\<close>

locale atomic_service =
  fixes op :: "'a eff"
  assumes op_error: "idle s \<Longrightarrow> op w s = (Inl e, s') \<Longrightarrow> db s' = db s"
    and op_idle: "idle s \<Longrightarrow> idle (snd (op w s))"
    and op_released: "idle s \<Longrightarrow> clients (snd (op w s)) = clients s"
begin

text \<open>Any number of failed attempts is invisible to the attempt that follows.\<close>

fun attempt :: "nat \<Rightarrow> 'a eff" where
  "attempt 0 = op"
| "attempt (Suc n) = (\<lambda>w s. case op w s of (Inl e, s') \<Rightarrow> attempt n w s' | (Inr a, s') \<Rightarrow> (Inr a, s'))"

lemma attempt_error: "idle s \<Longrightarrow> attempt n w s = (Inl e, s') \<Longrightarrow> db s' = db s"
proof (induction n arbitrary: s e s')
  case 0
  then show ?case by (auto dest: op_error)
next
  case (Suc n)
  obtain r s1 where o: "op w s = (r, s1)" by fastforce
  with Suc.prems obtain e1 where "r = Inl e1" by (cases r) auto
  then show ?case
    using Suc o op_error[OF Suc.prems(1)] op_idle[OF Suc.prems(1), of w] by auto
qed

end

lemma transaction_atomic_service:
  "in_txn body \<Longrightarrow> atomic_service (transaction body)"
  by (unfold_locales) (auto dest: transaction_error transaction_idle)

end
