(* ===== verification/Schema.thy ===== *)
theory Schema
  imports Database
begin

text \<open>
  The invariant of the tables: the keys and constraints of backend/sql/*.sql and the
  lifecycle rules every service keeps (a job has a storage deadline exactly when it is
  terminal, only terminal jobs are cleaned up or marked for removal, a cleanup claim has
  its time). The lemmas say how the list operations behind INSERT, UPDATE and DELETE act
  on the invariant, so that each service discharges it in a few lines.
\<close>

definition job_ok :: "job \<Rightarrow> bool" where
  "job_ok j \<longleftrightarrow>
     (active_status (status j) \<longleftrightarrow> storage_expires_at j = None) \<and>
     (storage_deleted_at j \<noteq> None \<longrightarrow> \<not> active_status (status j)) \<and>
     (owner_deleted_at j \<noteq> None \<longrightarrow> \<not> active_status (status j)) \<and>
     (cleanup_claim_id j = None \<longleftrightarrow> cleanup_claimed_at j = None) \<and>
     (cleanup_claim_id j \<noteq> None \<longrightarrow> \<not> active_status (status j))"

definition jobs_ok :: "job list \<Rightarrow> bool" where
  "jobs_ok js \<longleftrightarrow> distinct (map job_id js) \<and> list_all job_ok js"

definition user_ok :: "user \<Rightarrow> bool" where
  "user_ok u \<longleftrightarrow>
     3 \<le> length (username u) \<and> length (username u) \<le> 30 \<and>
     toLowerCase (username u) = username u"

definition accounts_ok :: "user list \<Rightarrow> user_session list \<Rightarrow> bool" where
  "accounts_ok us ss \<longleftrightarrow>
     distinct (map user_id us) \<and> distinct (map username us) \<and> list_all user_ok us \<and>
     distinct (map session_id ss) \<and> distinct (map token_hash ss) \<and>
     list_all (\<lambda>s. length (token_hash s) = 64) ss \<and>
     set (map session_user_id ss) \<subseteq> set (map user_id us)"

definition db_ok :: "database \<Rightarrow> bool" where
  "db_ok d \<longleftrightarrow>
     jobs_ok (jobs d) \<and> distinct (map event_id (outbox_events d)) \<and>
     accounts_ok (users d) (user_sessions d)"

definition empty_db :: database where
  "empty_db = \<lparr>jobs = [], outbox_events = [], users = [], user_sessions = [],
               worker_instances = []\<rparr>"

lemma db_ok_empty: "db_ok empty_db"
  by (simp add: db_ok_def empty_db_def jobs_ok_def accounts_ok_def)

lemma jobs_ok_update:
  assumes "jobs_ok js" "\<And>j. job_id (f j) = job_id j"
    and "\<And>j. j \<in> set js \<Longrightarrow> P j \<Longrightarrow> job_ok j \<Longrightarrow> job_ok (f j)"
  shows "jobs_ok (update_where P f js)"
  using assms
  by (auto simp: jobs_ok_def map_update_where_key list_all_iff set_update_where)

lemma jobs_ok_delete: "jobs_ok js \<Longrightarrow> jobs_ok (delete_where P js)"
  by (auto simp: jobs_ok_def delete_where_def list_all_iff distinct_map_filter)

lemma jobs_ok_snoc:
  "jobs_ok js \<Longrightarrow> job_ok j \<Longrightarrow> job_id j \<notin> set (map job_id js) \<Longrightarrow> jobs_ok (js @ [j])"
  by (auto simp: jobs_ok_def)

lemma accounts_ok_sessions_update:
  assumes "accounts_ok us ss"
    and "\<And>s. session_id (f s) = session_id s" "\<And>s. token_hash (f s) = token_hash s"
      "\<And>s. session_user_id (f s) = session_user_id s"
  shows "accounts_ok us (update_where P f ss)"
  using assms
  by (auto simp: accounts_ok_def map_update_where_key list_all_iff set_update_where)

lemma accounts_ok_sessions_delete:
  "accounts_ok us ss \<Longrightarrow> accounts_ok us (delete_where P ss)"
  by (auto simp: accounts_ok_def delete_where_def list_all_iff distinct_map_filter)

lemma accounts_ok_users_update:
  assumes "accounts_ok us ss"
    and "\<And>u. user_id (f u) = user_id u" "\<And>u. username (f u) = username u"
  shows "accounts_ok (update_where P f us) ss"
  using assms
  by (auto simp: accounts_ok_def map_update_where_key list_all_iff set_update_where user_ok_def)

lemma job_unique:
  "jobs_ok js \<Longrightarrow> x \<in> set js \<Longrightarrow> y \<in> set js \<Longrightarrow> job_id x = job_id y \<Longrightarrow> x = y"
  unfolding jobs_ok_def by (meson distinct_key_unique)

section \<open>Statements shared by the services\<close>

text \<open>
  \<open>INSERT INTO outbox_events (topic, event_key, payload)\<close> with the column defaults of
  backend/sql/002_create_outbox_events.sql; \<open>k\<close> numbers the row within its statement.
\<close>

definition new_event :: "uuid \<Rightarrow> time \<Rightarrow> string \<Rightarrow> string \<Rightarrow> (string \<times> string) list \<Rightarrow> outbox_event" where
  "new_event ident now tp key body =
     \<lparr>event_id = ident, topic = tp, event_key = key, payload = body,
      event_status = EvPENDING, attempts = 0, last_error = None,
      event_created_at = now, published_at = None\<rparr>"

definition insert_event :: "string \<Rightarrow> string \<Rightarrow> (string \<times> string) list \<Rightarrow> unit stmt" where
  "insert_event tp key body uuids now d =
     (if uuids 0 \<in> set (map event_id (outbox_events d))
      then Inl (UniqueViolation ''outbox_events_pkey'')
      else Inr ((), d\<lparr>outbox_events :=
             outbox_events d @ [new_event (uuids 0) now tp key body]\<rparr>))"

lemma insert_event_Inr [sql_defs]:
  "insert_event tp key body uuids now d = Inr (x, d') \<longleftrightarrow>
     uuids 0 \<notin> set (map event_id (outbox_events d)) \<and>
     d' = d\<lparr>outbox_events := outbox_events d @ [new_event (uuids 0) now tp key body]\<rparr>"
  by (auto simp: insert_event_def)

lemma new_event_simps [simp]:
  "event_id (new_event i t tp k b) = i" "topic (new_event i t tp k b) = tp"
  "event_key (new_event i t tp k b) = k" "payload (new_event i t tp k b) = b"
  "event_status (new_event i t tp k b) = EvPENDING" "attempts (new_event i t tp k b) = 0"
  "last_error (new_event i t tp k b) = None" "event_created_at (new_event i t tp k b) = t"
  "published_at (new_event i t tp k b) = None"
  by (simp_all add: new_event_def)

lemma insert_event_preserves [preserves_intros]: "stmt_preserves db_ok (insert_event tp key body)"
  by (rule stmt_preservesI) (auto simp: insert_event_Inr db_ok_def new_event_def)

lemma read_only_preserves:
  "(\<And>u t d a d'. q u t d = Inr (a, d') \<Longrightarrow> d' = d) \<Longrightarrow> stmt_preserves I q"
  by (rule stmt_preservesI) metis

end
