(* ===== verification/JsNumber.thy ===== *)
theory JsNumber
  imports JsString Complex_Main "HOL-Library.Log_Nat"
begin

text \<open>
  \<open>Number(text)\<close> and the checks on its result that the configuration code uses. A number
  is NaN, an infinity or a finite value held as a rational; conversion parses the
  language's numeric literal exactly and rounds to the nearest double, ties to even.
  Negative zero is identified with zero, which none of the callers can observe.
\<close>

datatype js_number = NaN | Infinity | NegInfinity | Finite rat

section \<open>Rounding to a double\<close>

definition two_pow :: "int \<Rightarrow> rat" where
  "two_pow k = (if 0 \<le> k then of_int (2 ^ nat k) else 1 / of_int (2 ^ nat (- k)))"

text \<open>The exponent \<open>k\<close> with \<open>2^k \<le> q < 2^(k+1)\<close>, for positive \<open>q\<close>.\<close>

definition binade :: "rat \<Rightarrow> int" where
  "binade q =
     (let (a, b) = quotient_of q; k = bitlen a - bitlen b
      in if two_pow k \<le> q then k else k - 1)"

definition round_half_even :: "rat \<Rightarrow> int" where
  "round_half_even q =
     (let f = \<lfloor>q\<rfloor>; r = q - of_int f
      in if r < 1 / 2 then f
         else if 1 / 2 < r then f + 1
         else if even f then f else f + 1)"

definition double_of_pos :: "rat \<Rightarrow> js_number" where
  "double_of_pos q =
     (let e = max (binade q) (- 1022) - 52;
          v = of_int (round_half_even (q / two_pow e)) * two_pow e
      in if two_pow 1024 \<le> v then Infinity else Finite v)"

fun negate :: "js_number \<Rightarrow> js_number" where
  "negate NaN = NaN"
| "negate Infinity = NegInfinity"
| "negate NegInfinity = Infinity"
| "negate (Finite q) = Finite (- q)"

definition to_double :: "rat \<Rightarrow> js_number" where
  "to_double q =
     (if q = 0 then Finite 0
      else if 0 < q then double_of_pos q
      else negate (double_of_pos (- q)))"

section \<open>Numeric literals\<close>

definition is_digit :: "char \<Rightarrow> bool" where
  "is_digit c \<longleftrightarrow> (let n = (of_char c :: nat) in 48 \<le> n \<and> n \<le> 57)"

definition digit_val :: "char \<Rightarrow> nat" where
  "digit_val c = of_char c - 48"

definition decimal :: "string \<Rightarrow> nat" where
  "decimal ds = foldl (\<lambda>n c. 10 * n + digit_val c) 0 ds"

text \<open>The value of a digit in a base up to 16, for \<open>0x\<close>, \<open>0o\<close> and \<open>0b\<close> literals.\<close>

definition radix_digit :: "nat \<Rightarrow> char \<Rightarrow> nat option" where
  "radix_digit base c =
     (let n = (of_char c :: nat);
          v = (if 48 \<le> n \<and> n \<le> 57 then n - 48
               else if 97 \<le> n \<and> n \<le> 102 then n - 87
               else if 65 \<le> n \<and> n \<le> 70 then n - 55 else 99)
      in if v < base then Some v else None)"

fun radix_value :: "nat \<Rightarrow> nat \<Rightarrow> string \<Rightarrow> nat option" where
  "radix_value base acc [] = Some acc"
| "radix_value base acc (c # cs) =
     (case radix_digit base c of
        None \<Rightarrow> None
      | Some d \<Rightarrow> radix_value base (base * acc + d) cs)"

definition radix_literal :: "nat \<Rightarrow> string \<Rightarrow> js_number" where
  "radix_literal base ds =
     (if ds = [] then NaN
      else case radix_value base 0 ds of
             None \<Rightarrow> NaN
           | Some n \<Rightarrow> to_double (of_nat n))"

definition signed_digits :: "string \<Rightarrow> int option" where
  "signed_digits s =
     (let (neg, ds) = (case s of
            c # cs \<Rightarrow> if c = CHR ''-'' then (True, cs)
                      else if c = CHR ''+'' then (False, cs) else (False, s)
          | [] \<Rightarrow> (False, s))
      in if ds = [] \<or> \<not> list_all is_digit ds then None
         else Some (if neg then - int (decimal ds) else int (decimal ds)))"

text \<open>
  An unsigned decimal literal as mantissa and power of ten: digits, an optional
  fraction, an optional exponent, at least one digit before the exponent.
\<close>

definition unsigned_decimal :: "string \<Rightarrow> (nat \<times> int) option" where
  "unsigned_decimal s =
     (let ip = takeWhile is_digit s; r1 = dropWhile is_digit s;
          (fp, r2) = (case r1 of
             c # t \<Rightarrow> if c = CHR ''.'' then (takeWhile is_digit t, dropWhile is_digit t)
                      else ([], r1)
           | [] \<Rightarrow> ([], r1));
          m = decimal (ip @ fp); k = int (length fp)
      in if ip = [] \<and> fp = [] then None
         else case r2 of
                [] \<Rightarrow> Some (m, - k)
              | c # t \<Rightarrow>
                  if c = CHR ''e'' \<or> c = CHR ''E''
                  then (case signed_digits t of None \<Rightarrow> None | Some x \<Rightarrow> Some (m, x - k))
                  else None)"

definition scale_ten :: "nat \<Rightarrow> int \<Rightarrow> rat" where
  "scale_ten m e =
     (if 0 \<le> e then of_nat (m * 10 ^ nat e) else of_nat m / of_nat (10 ^ nat (- e)))"

definition unsigned_literal :: "string \<Rightarrow> js_number" where
  "unsigned_literal s =
     (if s = ''Infinity'' then Infinity
      else case unsigned_decimal s of
             None \<Rightarrow> NaN
           | Some (m, e) \<Rightarrow> to_double (scale_ten m e))"

definition js_Number :: "string \<Rightarrow> js_number" where
  "js_Number text =
     (let t = js_trim text in
      case t of
        [] \<Rightarrow> Finite 0
      | c # cs \<Rightarrow>
          if take 2 t = ''0x'' \<or> take 2 t = ''0X'' then radix_literal 16 (drop 2 t)
          else if take 2 t = ''0o'' \<or> take 2 t = ''0O'' then radix_literal 8 (drop 2 t)
          else if take 2 t = ''0b'' \<or> take 2 t = ''0B'' then radix_literal 2 (drop 2 t)
          else if c = CHR ''-'' then negate (unsigned_literal cs)
          else if c = CHR ''+'' then unsigned_literal cs
          else unsigned_literal t)"

section \<open>Checks on numbers\<close>

definition max_safe_integer :: int where
  "max_safe_integer = 9007199254740991"

text \<open>\<open>Number.isSafeInteger(n)\<close>, returning the integer when it is one.\<close>

definition safe_integer :: "js_number \<Rightarrow> int option" where
  "safe_integer n =
     (case n of
        Finite q \<Rightarrow>
          (let (a, b) = quotient_of q
           in if b = 1 \<and> \<bar>a\<bar> \<le> max_safe_integer then Some a else None)
      | _ \<Rightarrow> None)"

lemma safe_integer_Finite_of_int:
  "\<bar>i\<bar> \<le> max_safe_integer \<Longrightarrow> safe_integer (Finite (of_int i)) = Some i"
  by (simp add: safe_integer_def)

lemma safe_integer_SomeD: "safe_integer n = Some i \<Longrightarrow> \<bar>i\<bar> \<le> max_safe_integer"
  by (auto simp: safe_integer_def split: js_number.splits prod.splits if_splits)

section \<open>Integers below two to the 53 are exact\<close>

lemma two_pow_pos: "0 < two_pow k"
  by (simp add: two_pow_def)

lemma binade_nat:
  assumes "0 < n"
  shows "binade (of_int n) = bitlen n - 1"
proof -
  have b1: "bitlen (1::int) = 1" by (simp add: bitlen_alt_def)
  have pos: "0 < bitlen n" using assms by (simp add: bitlen_alt_def)
  have "2 ^ nat (bitlen n - 1) \<le> n" using assms by (rule bitlen_bounds[THEN conjunct1])
  then have "(of_int (2 ^ nat (bitlen n - 1)) :: rat) \<le> of_int n" by (rule of_int_le_iff[THEN iffD2])
  then show ?thesis
    using pos by (simp add: binade_def b1 two_pow_def)
qed

lemma round_half_even_int [simp]: "round_half_even (of_int i) = i"
  by (simp add: round_half_even_def)

lemma to_double_nat:
  assumes "n < 2 ^ 53"
  shows "to_double (of_int (int n)) = Finite (of_int (int n))"
proof (cases "n = 0")
  case True
  then show ?thesis by (simp add: to_double_def)
next
  case False
  let ?i = "int n"
  have ipos: "0 < ?i" using False by simp
  have small: "?i < 2 ^ 53"
  proof -
    have "int n < int (2 ^ 53)" using assms by (rule of_nat_less_iff[THEN iffD2])
    then show ?thesis by simp
  qed
  have lo: "2 ^ nat (bitlen ?i - 1) \<le> ?i" using ipos by (rule bitlen_bounds[THEN conjunct1])
  have k: "binade (of_int ?i) = bitlen ?i - 1" by (rule binade_nat[OF ipos])
  have k52: "bitlen ?i - 1 \<le> 52"
  proof (rule ccontr)
    assume "\<not> ?thesis"
    then have "53 \<le> nat (bitlen ?i - 1)" by linarith
    then have "(2::int) ^ 53 \<le> 2 ^ nat (bitlen ?i - 1)" by (rule power_increasing) simp
    with lo small show False by linarith
  qed
  have kpos: "0 \<le> bitlen ?i - 1" using ipos by (simp add: bitlen_alt_def)
  define e where "e = max (binade (of_int ?i)) (- 1022) - 52"
  have e: "e = bitlen ?i - 1 - 52" and "e \<le> 0"
    using k k52 kpos by (simp_all add: e_def)
  define p where "p = (2::int) ^ nat (- e)"
  have tp: "two_pow e = 1 / of_int p"
  proof (cases "e = 0")
    case True
    then show ?thesis by (simp add: two_pow_def p_def)
  next
    case False
    with \<open>e \<le> 0\<close> show ?thesis by (simp add: two_pow_def p_def)
  qed
  have p0: "(of_int p :: rat) \<noteq> 0" by (simp add: p_def)
  have q: "of_int ?i / two_pow e = (of_int (?i * p) :: rat)"
    by (simp add: tp)
  have v: "of_int (round_half_even (of_int ?i / two_pow e)) * two_pow e = (of_int ?i :: rat)"
    unfolding q round_half_even_int using p0 by (simp add: tp)
  have big: "\<not> two_pow 1024 \<le> (of_int ?i :: rat)"
  proof -
    have "(2::int) ^ 53 \<le> 2 ^ 1024" by (rule power_increasing) simp_all
    with small have "?i < 2 ^ 1024" by linarith
    then have "(of_int ?i :: rat) < of_int (2 ^ 1024)" by (rule of_int_less_iff[THEN iffD2])
    then show ?thesis by (simp add: two_pow_def)
  qed
  have "double_of_pos (of_int ?i) = Finite (of_int ?i)"
    unfolding double_of_pos_def Let_def e_def[symmetric] v using big by simp
  then show ?thesis using ipos by (simp add: to_double_def)
qed

section \<open>Reading back a decimal text\<close>

lemma digit_char_digit: "d < 10 \<Longrightarrow> is_digit (digit_char d)"
  by (simp add: is_digit_def digit_char_def Let_def take_bit_eq_mod)

lemma digit_val_char: "d < 10 \<Longrightarrow> digit_val (digit_char d) = d"
  by (simp add: digit_val_def digit_char_def take_bit_eq_mod)

lemma show_nat_digits: "list_all is_digit (show_nat n)"
proof (induction n rule: show_nat.induct)
  case (1 n)
  then show ?case
    by (subst show_nat.simps) (auto simp: digit_char_digit)
qed

lemma show_nat_nonempty: "show_nat n \<noteq> []"
  by (subst show_nat.simps) auto

lemma decimal_append: "decimal (xs @ [c]) = 10 * decimal xs + digit_val c"
  by (simp add: decimal_def)

lemma decimal_show_nat: "decimal (show_nat n) = n"
proof (induction n rule: show_nat.induct)
  case (1 n)
  show ?case
  proof (cases "n < 10")
    case True
    then show ?thesis by (subst show_nat.simps) (simp add: decimal_def digit_val_char)
  next
    case False
    with 1 show ?thesis by (subst show_nat.simps) (simp add: decimal_append digit_val_char)
  qed
qed

lemma digit_not_space: "is_digit c \<Longrightarrow> \<not> is_js_space c"
  by (auto simp: is_digit_def is_js_space_def Let_def)

lemma digit_not_special:
  "is_digit c \<Longrightarrow>
     c \<noteq> CHR ''-'' \<and> c \<noteq> CHR ''+'' \<and> c \<noteq> CHR ''I'' \<and> c \<noteq> CHR ''x'' \<and> c \<noteq> CHR ''X''
     \<and> c \<noteq> CHR ''o'' \<and> c \<noteq> CHR ''O'' \<and> c \<noteq> CHR ''b'' \<and> c \<noteq> CHR ''B''"
  by (auto simp: is_digit_def Let_def)

lemma js_trim_digits: "list_all is_digit s \<Longrightarrow> js_trim s = s"
  by (rule js_trim_id) (auto simp: list_all_iff digit_not_space)

lemma unsigned_decimal_digits:
  assumes "list_all is_digit s" "s \<noteq> []"
  shows "unsigned_decimal s = Some (decimal s, 0)"
proof -
  have tw: "takeWhile is_digit s = s" and dw: "dropWhile is_digit s = []"
    using assms(1) by (auto simp: list_all_iff)
  show ?thesis unfolding unsigned_decimal_def tw dw Let_def using assms(2) by simp
qed

lemma take2_digits:
  assumes "list_all is_digit s" "\<not> is_digit d"
  shows "take 2 s \<noteq> [c, d]"
  using assms by (cases s; cases "tl s") auto

lemma js_Number_show_nat:
  assumes "n < 2 ^ 53"
  shows "js_Number (show_nat n) = Finite (of_int (int n))"
proof -
  let ?s = "show_nat n"
  have d: "list_all is_digit ?s" and ne: "?s \<noteq> []"
    by (rule show_nat_digits, rule show_nat_nonempty)
  obtain c cs where s: "?s = c # cs" using ne by (cases ?s) auto
  with d have c: "is_digit c" by simp
  have lits: "take 2 ?s \<noteq> ''0x''" "take 2 ?s \<noteq> ''0X''" "take 2 ?s \<noteq> ''0o''"
      "take 2 ?s \<noteq> ''0O''" "take 2 ?s \<noteq> ''0b''" "take 2 ?s \<noteq> ''0B''"
    by (rule take2_digits[OF d], simp add: is_digit_def)+
  have inf: "?s \<noteq> ''Infinity''" using s c digit_not_special by auto
  have dec: "unsigned_decimal ?s = Some (n, 0)"
    using unsigned_decimal_digits[OF d ne] by (simp add: decimal_show_nat)
  have lit: "unsigned_literal ?s = Finite (of_int (int n))"
    using to_double_nat[OF assms] inf dec by (simp add: unsigned_literal_def scale_ten_def)
  have "js_Number ?s = unsigned_literal ?s"
    unfolding js_Number_def js_trim_digits[OF d] Let_def
    using lits digit_not_special[OF c] unfolding s by (simp only: list.case if_False simp_thms)
  with lit show ?thesis by simp
qed

end
