(* ===== verification/Config.thy ===== *)
theory Config
  imports JsNumber Database
begin

text \<open>
  Reading the process environment: backend/src/config/*.ts, the Kafka connection policy
  of backend/src/kafka/clientConfiguration.ts, the storage endpoints of
  backend/src/storage/s3.ts and the secret check of backend/src/auth/session.ts. The
  environment is a partial map from names to texts. Parsing a URL and reading a file are
  done by the platform and are parameters (\<open>parse_url\<close>, \<open>read_file\<close>).
\<close>

type_synonym environment = "string \<Rightarrow> string option"

record url =
  protocol :: string
  hostname :: string
  pathname :: string
  url_search :: string
  url_hash :: string
  url_username :: string
  url_password :: string
  origin :: string
  searchParams :: "string \<Rightarrow> string option"

type_synonym url_parser = "string \<Rightarrow> url option"

text \<open>\<open>value?.trim() || fallback\<close>: an absent or blank text gives the fallback.\<close>

definition trimmed_or :: "string option \<Rightarrow> string \<Rightarrow> string" where
  "trimmed_or v fallback =
     (case v of
        None \<Rightarrow> fallback
      | Some s \<Rightarrow> if js_trim s = [] then fallback else js_trim s)"

section \<open>environment.ts\<close>

datatype ApplicationEnvironment = development | test | production

definition parseApplicationEnvironment :: "string option \<Rightarrow> error + ApplicationEnvironment" where
  "parseApplicationEnvironment v =
     (let normalizedValue = trimmed_or v ''development''
      in if normalizedValue = ''development'' then Inr development
         else if normalizedValue = ''test'' then Inr test
         else if normalizedValue = ''production'' then Inr production
         else Inl (PlainError ''APP_ENV must be development, test, or production''))"

definition requireEnvironmentVariable :: "string \<Rightarrow> environment \<Rightarrow> error + string" where
  "requireEnvironmentVariable name env =
     (let v = trimmed_or (env name) []
      in if v = [] then Inl (PlainError (''Missing required environment variable: '' @ name))
         else Inr v)"

definition parseBooleanEnvironmentVariable ::
    "string \<Rightarrow> string option \<Rightarrow> bool \<Rightarrow> error + bool" where
  "parseBooleanEnvironmentVariable name v fallback =
     (case v of
        None \<Rightarrow> Inr fallback
      | Some s \<Rightarrow>
          let n = toLowerCase (js_trim s)
          in if n = ''true'' then Inr True
             else if n = ''false'' then Inr False
             else Inl (PlainError (name @ '' must be true or false'')))"

definition parseHttpUrl :: "url_parser \<Rightarrow> string \<Rightarrow> string \<Rightarrow> error + url" where
  "parseHttpUrl parse_url name v =
     (case parse_url v of
        None \<Rightarrow> Inl (PlainError (name @ '' must be an absolute HTTP or HTTPS URL''))
      | Some u \<Rightarrow>
          if protocol u \<noteq> ''http:'' \<and> protocol u \<noteq> ''https:''
          then Inl (PlainError (name @ '' must use http or https''))
          else Inr u)"

definition encryptedModes :: "string set" where
  "encryptedModes = {''require'', ''verify-ca'', ''verify-full''}"

definition validateDatabaseUrl ::
    "url_parser \<Rightarrow> string \<Rightarrow> string \<Rightarrow> ApplicationEnvironment \<Rightarrow> error + url" where
  "validateDatabaseUrl parse_url name v env =
     (case parse_url v of
        None \<Rightarrow> Inl (PlainError (name @ '' must be a valid PostgreSQL connection URL''))
      | Some u \<Rightarrow>
          if protocol u \<noteq> ''postgres:'' \<and> protocol u \<noteq> ''postgresql:''
          then Inl (PlainError (name @ '' must use postgres or postgresql''))
          else if hostname u = []
          then Inl (PlainError (name @ '' must include a database hostname''))
          else if env = production \<and>
                  (case searchParams u ''sslmode'' of
                     None \<Rightarrow> True
                   | Some m \<Rightarrow> toLowerCase m = [] \<or> toLowerCase m \<notin> encryptedModes)
          then Inl (PlainError
                 (name @ '' must use sslmode=require, verify-ca, or verify-full in production''))
          else Inr u)"

definition isLoopbackHostname :: "string \<Rightarrow> bool" where
  "isLoopbackHostname h \<longleftrightarrow> h = ''localhost'' \<or> h = ''127.0.0.1'' \<or> h = ''[::1]''"

section \<open>jobs.ts and retention.ts\<close>

definition defaultMaxActiveJobsPerOwner :: nat where
  "defaultMaxActiveJobsPerOwner = 2"

definition parseMaxActiveJobsPerOwner :: "string option \<Rightarrow> error + nat" where
  "parseMaxActiveJobsPerOwner rawValue =
     (case rawValue of
        None \<Rightarrow> Inr defaultMaxActiveJobsPerOwner
      | Some text \<Rightarrow>
          (case safe_integer (js_Number text) of
             Some i \<Rightarrow>
               if i \<le> 0
               then Inl (PlainError ''MAX_ACTIVE_JOBS_PER_OWNER must be a positive integer'')
               else Inr (nat i)
           | None \<Rightarrow> Inl (PlainError ''MAX_ACTIVE_JOBS_PER_OWNER must be a positive integer'')))"

definition createActiveJobLimitMessage :: "nat \<Rightarrow> string" where
  "createActiveJobLimitMessage maxActive =
     (let noun = (if maxActive = 1 then ''job'' else ''jobs'')
      in ''You already have '' @ show_nat maxActive @ '' active '' @ noun @ ''. '' @
         ''Wait for one to finish or cancel it before creating another job.'')"

definition parsePositiveInteger :: "string \<Rightarrow> string option \<Rightarrow> nat \<Rightarrow> error + nat" where
  "parsePositiveInteger name rawValue fallback =
     (case rawValue of
        None \<Rightarrow> Inr fallback
      | Some text \<Rightarrow>
          (case safe_integer (js_Number text) of
             Some i \<Rightarrow>
               if i \<le> 0 then Inl (PlainError (name @ '' must be a positive integer''))
               else Inr (nat i)
           | None \<Rightarrow> Inl (PlainError (name @ '' must be a positive integer''))))"

definition readPositiveInteger :: "environment \<Rightarrow> string \<Rightarrow> nat \<Rightarrow> error + nat" where
  "readPositiveInteger env name fallback = parsePositiveInteger name (env name) fallback"

record retention =
  resultRetentionHours :: nat
  cleanupIntervalSeconds :: nat
  cleanupBatchSize :: nat
  cleanupClaimTimeoutMinutes :: nat

definition readRetention :: "environment \<Rightarrow> error + retention" where
  "readRetention env =
     bindE (readPositiveInteger env ''RESULT_RETENTION_HOURS'' (24 * 7)) (\<lambda>h.
     bindE (readPositiveInteger env ''CLEANUP_INTERVAL_SECONDS'' 60) (\<lambda>i.
     bindE (readPositiveInteger env ''CLEANUP_BATCH_SIZE'' 25) (\<lambda>b.
     bindE (readPositiveInteger env ''CLEANUP_CLAIM_TIMEOUT_MINUTES'' 15) (\<lambda>c.
       Inr \<lparr>resultRetentionHours = h, cleanupIntervalSeconds = i,
            cleanupBatchSize = b, cleanupClaimTimeoutMinutes = c\<rparr>))))"

section \<open>upload.ts\<close>

definition defaultMaxUploadBytes :: nat where
  "defaultMaxUploadBytes = 250 * 1024 * 1024"

definition maxUploadBytes :: "environment \<Rightarrow> nat" where
  "maxUploadBytes env =
     (let configured = (case env ''MAX_UPLOAD_BYTES'' of None \<Rightarrow> NaN | Some t \<Rightarrow> js_Number t)
      in case safe_integer configured of
           Some i \<Rightarrow> if 0 < i then nat i else defaultMaxUploadBytes
         | None \<Rightarrow> defaultMaxUploadBytes)"

definition allowedAudioContentTypes :: "string list" where
  "allowedAudioContentTypes =
     [''audio/aac'', ''audio/flac'', ''audio/mp4'', ''audio/mpeg'', ''audio/ogg'',
      ''audio/wav'', ''audio/x-flac'', ''audio/x-m4a'', ''audio/x-wav'']"

definition allowedAudioExtensions :: "string list" where
  "allowedAudioExtensions = [''aac'', ''flac'', ''m4a'', ''mp3'', ''ogg'', ''wav'']"

text \<open>\<open>split\<close> never gives an empty array, so \<open>pop\<close> is its last element.\<close>

definition hasAllowedAudioExtension :: "string \<Rightarrow> bool" where
  "hasAllowedAudioExtension fileName \<longleftrightarrow>
     last (js_split (CHR ''.'') (toLowerCase fileName)) \<in> set allowedAudioExtensions"

section \<open>security.ts\<close>

record SecurityConfiguration =
  allowedOrigins :: "string list"
  sessionCookieSecure :: bool

definition normalize_origin ::
    "url_parser \<Rightarrow> bool \<Rightarrow> string \<Rightarrow> error + string" where
  "normalize_origin parse_url isProd org =
     bindE (parseHttpUrl parse_url ''CORS_ALLOWED_ORIGINS'' org) (\<lambda>u.
       if pathname u \<noteq> ''/'' \<or> url_search u \<noteq> [] \<or> url_hash u \<noteq> [] \<or>
          url_username u \<noteq> [] \<or> url_password u \<noteq> []
       then Inl (PlainError
              ''Each CORS_ALLOWED_ORIGINS value must contain only an HTTP(S) origin'')
       else if isProd \<and> protocol u \<noteq> ''https:''
       then Inl (PlainError ''Production CORS_ALLOWED_ORIGINS must use HTTPS'')
       else if isProd \<and> isLoopbackHostname (hostname u)
       then Inl (PlainError ''Production CORS_ALLOWED_ORIGINS cannot use localhost'')
       else Inr (origin u))"

definition readSecurityConfiguration ::
    "url_parser \<Rightarrow> environment \<Rightarrow> error + SecurityConfiguration" where
  "readSecurityConfiguration parse_url env =
     bindE (parseApplicationEnvironment (env ''APP_ENV'')) (\<lambda>app.
       let isProd = (app = production);
           configured = trimmed_or (env ''CORS_ALLOWED_ORIGINS'') []
       in if isProd \<and> configured = []
          then Inl (PlainError ''CORS_ALLOWED_ORIGINS is required in production'')
          else
            let raw = (if configured = [] then ''http://localhost:5173'' else configured);
                parts = filter (\<lambda>s. s \<noteq> []) (map js_trim (js_split (CHR '','') raw))
            in bindE (mapE (normalize_origin parse_url isProd) parts) (\<lambda>normalized.
                 if normalized = []
                 then Inl (PlainError ''CORS_ALLOWED_ORIGINS must contain at least one origin'')
                 else
                   bindE (parseBooleanEnvironmentVariable ''COOKIE_SECURE''
                            (env ''COOKIE_SECURE'') False) (\<lambda>secure.
                     if isProd \<and> \<not> secure
                     then Inl (PlainError ''COOKIE_SECURE must be true in production'')
                     else Inr \<lparr>allowedOrigins = remdups normalized,
                               sessionCookieSecure = secure\<rparr>)))"

definition isAllowedOrigin :: "SecurityConfiguration \<Rightarrow> string option \<Rightarrow> bool" where
  "isAllowedOrigin sec org =
     (case org of None \<Rightarrow> True | Some s \<Rightarrow> s \<in> set (allowedOrigins sec))"

section \<open>clientConfiguration.ts\<close>

datatype sasl_mechanism = plain | scram_sha_256 | scram_sha_512

record SASLOptions =
  mechanism :: sasl_mechanism
  sasl_username :: string
  sasl_password :: string

datatype ssl_option = SslTrue | SslCa string

record KafkaConfig =
  clientId :: string
  brokers :: "string list"
  ssl :: "ssl_option option"
  sasl :: "SASLOptions option"

definition supportedSecurityProtocols :: "string list" where
  "supportedSecurityProtocols = [''PLAINTEXT'', ''SSL'', ''SASL_PLAINTEXT'', ''SASL_SSL'']"

definition parseBrokerList :: "environment \<Rightarrow> error + string list" where
  "parseBrokerList env =
     (let brokerText = trimmed_or (env ''KAFKA_BROKERS'')
                         (trimmed_or (env ''KAFKA_BROKER'') ''localhost:9092'');
          bs = filter (\<lambda>s. s \<noteq> []) (map js_trim (js_split (CHR '','') brokerText))
      in if bs = []
         then Inl (PlainError ''KAFKA_BROKERS must contain at least one broker address'')
         else Inr bs)"

definition parseSecurityProtocol :: "environment \<Rightarrow> error + string" where
  "parseSecurityProtocol env =
     (let p = toUpperCase (trimmed_or (env ''KAFKA_SECURITY_PROTOCOL'') ''PLAINTEXT'')
      in if p \<notin> set supportedSecurityProtocols
         then Inl (PlainError (''KAFKA_SECURITY_PROTOCOL must be PLAINTEXT, SSL, '' @
                ''SASL_PLAINTEXT, or SASL_SSL''))
         else Inr p)"

definition readSaslConfiguration :: "environment \<Rightarrow> error + SASLOptions" where
  "readSaslConfiguration env =
     (let mech = map_option (\<lambda>m. toUpperCase (js_trim m)) (env ''KAFKA_SASL_MECHANISM'');
          uname = trimmed_or (env ''KAFKA_SASL_USERNAME'') [];
          pass = (case env ''KAFKA_SASL_PASSWORD'' of None \<Rightarrow> [] | Some p \<Rightarrow> p)
      in if uname = [] \<or> pass = []
         then Inl (PlainError
                ''KAFKA_SASL_USERNAME and KAFKA_SASL_PASSWORD are required for SASL'')
         else if mech = Some ''PLAIN''
         then Inr \<lparr>mechanism = plain, sasl_username = uname, sasl_password = pass\<rparr>
         else if mech = Some ''SCRAM-SHA-256''
         then Inr \<lparr>mechanism = scram_sha_256, sasl_username = uname, sasl_password = pass\<rparr>
         else if mech = Some ''SCRAM-SHA-512''
         then Inr \<lparr>mechanism = scram_sha_512, sasl_username = uname, sasl_password = pass\<rparr>
         else Inl (PlainError
                ''KAFKA_SASL_MECHANISM must be PLAIN, SCRAM-SHA-256, or SCRAM-SHA-512''))"

definition usesTls :: "string \<Rightarrow> bool" where
  "usesTls p \<longleftrightarrow> p = ''SSL'' \<or> p = ''SASL_SSL''"

definition usesSasl :: "string \<Rightarrow> bool" where
  "usesSasl p \<longleftrightarrow> p = ''SASL_SSL'' \<or> p = ''SASL_PLAINTEXT''"

text \<open>The \<open>if (usesTls)\<close> and \<open>if (usesSasl)\<close> blocks; None leaves the field unset.\<close>

definition readTls ::
    "(string \<Rightarrow> error + string) \<Rightarrow> bool \<Rightarrow> environment \<Rightarrow> error + ssl_option option" where
  "readTls read_file tls env =
     (if tls
      then (let certificatePath = trimmed_or (env ''KAFKA_SSL_CA_PATH'') []
            in if certificatePath = [] then Inr (Some SslTrue)
               else bindE (read_file certificatePath) (\<lambda>ca. Inr (Some (SslCa ca))))
      else Inr None)"

definition readSasl :: "bool \<Rightarrow> environment \<Rightarrow> error + SASLOptions option" where
  "readSasl auth env =
     (if auth then bindE (readSaslConfiguration env) (\<lambda>o'. Inr (Some o')) else Inr None)"

definition createKafkaClientConfiguration ::
    "(string \<Rightarrow> error + string) \<Rightarrow> string \<Rightarrow> environment \<Rightarrow> error + KafkaConfig" where
  "createKafkaClientConfiguration read_file client env =
     bindE (parseApplicationEnvironment (env ''APP_ENV'')) (\<lambda>app.
     bindE (parseSecurityProtocol env) (\<lambda>protocol.
       if app = production \<and> \<not> usesTls protocol
       then Inl (PlainError ''Production Kafka connections must use SSL or SASL_SSL'')
       else
         bindE (parseBrokerList env) (\<lambda>bs.
         bindE (readTls read_file (usesTls protocol) env) (\<lambda>tls.
         bindE (readSasl (usesSasl protocol) env) (\<lambda>auth.
           Inr \<lparr>clientId = client, brokers = bs, ssl = tls, sasl = auth\<rparr>)))))"

section \<open>s3.ts, db.ts and the session secret\<close>

record StorageConfiguration =
  bucketName :: string
  region :: string
  accessKeyId :: string
  secretAccessKey :: string
  internalEndpoint :: string
  publicEndpoint :: string

definition readStorageConfiguration ::
    "url_parser \<Rightarrow> bool \<Rightarrow> environment \<Rightarrow> error + StorageConfiguration" where
  "readStorageConfiguration parse_url isProduction env =
     bindE (requireEnvironmentVariable ''S3_BUCKET'' env) (\<lambda>bucket.
     bindE (requireEnvironmentVariable ''S3_REGION'' env) (\<lambda>reg.
     bindE (requireEnvironmentVariable ''S3_ACCESS_KEY_ID'' env) (\<lambda>key.
     bindE (requireEnvironmentVariable ''S3_SECRET_ACCESS_KEY'' env) (\<lambda>secret.
     bindE (requireEnvironmentVariable ''S3_ENDPOINT'' env) (\<lambda>endpoint.
     bindE (parseHttpUrl parse_url ''S3_ENDPOINT'' endpoint) (\<lambda>_.
       let configured = trimmed_or (env ''S3_PUBLIC_ENDPOINT'') []
       in if isProduction \<and> configured = []
          then Inl (PlainError ''S3_PUBLIC_ENDPOINT is required in production'')
          else
            let public = (if configured = [] then endpoint else configured)
            in bindE (parseHttpUrl parse_url ''S3_PUBLIC_ENDPOINT'' public) (\<lambda>u.
                 if isProduction \<and> protocol u \<noteq> ''https:''
                 then Inl (PlainError ''S3_PUBLIC_ENDPOINT must use HTTPS in production'')
                 else if isProduction \<and> isLoopbackHostname (hostname u)
                 then Inl (PlainError ''S3_PUBLIC_ENDPOINT cannot use localhost in production'')
                 else Inr \<lparr>bucketName = bucket, region = reg, accessKeyId = key,
                           secretAccessKey = secret, internalEndpoint = endpoint,
                           publicEndpoint = public\<rparr>)))))))"

definition readDatabaseUrl ::
    "url_parser \<Rightarrow> ApplicationEnvironment \<Rightarrow> environment \<Rightarrow> error + string" where
  "readDatabaseUrl parse_url app env =
     bindE (requireEnvironmentVariable ''DATABASE_URL'' env) (\<lambda>databaseUrl.
     bindE (validateDatabaseUrl parse_url ''DATABASE_URL'' databaseUrl app) (\<lambda>_.
       Inr databaseUrl))"

definition readSessionSecret :: "environment \<Rightarrow> error + string" where
  "readSessionSecret env =
     (case env ''SESSION_SECRET'' of
        None \<Rightarrow> Inl (PlainError ''SESSION_SECRET must contain at least 32 characters'')
      | Some secret \<Rightarrow>
          if secret = [] \<or> length secret < 32
          then Inl (PlainError ''SESSION_SECRET must contain at least 32 characters'')
          else Inr secret)"

text \<open>The constants the services read at module load.\<close>

record config =
  maxActiveJobsPerOwner :: nat
  retentionHours :: nat
  jobCreatedTopic :: string
  jobStatusTopic :: string

text \<open>\<open>process.env.X || default\<close> of topics.ts: only an absent or empty text falls back.\<close>

definition env_or :: "string option \<Rightarrow> string \<Rightarrow> string" where
  "env_or v fallback = (case v of None \<Rightarrow> fallback | Some s \<Rightarrow> if s = [] then fallback else s)"

definition readTopics :: "environment \<Rightarrow> string \<times> string" where
  "readTopics env =
     (env_or (env ''KAFKA_JOB_CREATED_TOPIC'') ''audio.jobs.created'',
      env_or (env ''KAFKA_JOB_STATUS_TOPIC'') ''audio.jobs.status'')"

section \<open>Lemmas\<close>

lemma parsePositiveInteger_bounds:
  assumes "parsePositiveInteger name v fallback = Inr n"
  shows "(v = None \<and> n = fallback) \<or> (1 \<le> n \<and> int n \<le> max_safe_integer)"
  using assms
  by (auto simp: parsePositiveInteger_def split: option.splits if_splits
      dest!: safe_integer_SomeD)

lemma parsePositiveInteger_decimal:
  assumes "0 < n" "int n \<le> max_safe_integer"
  shows "parsePositiveInteger name (Some (show_nat n)) fallback = Inr n"
proof -
  from assms(2) have "n < 2 ^ 53" by (simp add: max_safe_integer_def)
  then have "js_Number (show_nat n) = Finite (of_int (int n))" by (rule js_Number_show_nat)
  moreover have "safe_integer (Finite (of_int (int n))) = Some (int n)"
    using assms(2) by (intro safe_integer_Finite_of_int) simp
  ultimately show ?thesis using assms(1) by (simp add: parsePositiveInteger_def)
qed

lemma parseMaxActive_eq:
  "parseMaxActiveJobsPerOwner v = parsePositiveInteger ''MAX_ACTIVE_JOBS_PER_OWNER'' v 2"
  by (simp add: parseMaxActiveJobsPerOwner_def parsePositiveInteger_def
      defaultMaxActiveJobsPerOwner_def split: option.splits)

lemma normalize_origin_production:
  assumes "normalize_origin parse_url True s = Inr o'"
  shows "\<exists>u. parse_url s = Some u \<and> protocol u = ''https:'' \<and>
     \<not> isLoopbackHostname (hostname u) \<and> o' = origin u"
  using assms
  by (auto simp: normalize_origin_def parseHttpUrl_def bindE_Inr split: option.splits if_splits)

lemma parseApplicationEnvironment_production:
  "parseApplicationEnvironment (Some ''production'') = Inr production"
  by code_simp

lemma security_production:
  assumes "readSecurityConfiguration parse_url env = Inr sec"
    and "parseApplicationEnvironment (env ''APP_ENV'') = Inr production"
  shows "sessionCookieSecure sec \<and> allowedOrigins sec \<noteq> [] \<and>
     (\<forall>o' \<in> set (allowedOrigins sec). \<exists>s u. parse_url s = Some u \<and> o' = origin u \<and>
        protocol u = ''https:'' \<and> \<not> isLoopbackHostname (hostname u))"
proof -
  from assms obtain parts normalized where
    m: "mapE (normalize_origin parse_url True) parts = Inr normalized"
    and ne: "normalized \<noteq> []"
    and sec: "allowedOrigins sec = remdups normalized" "sessionCookieSecure sec"
    by (auto simp: readSecurityConfiguration_def Let_def bindE_Inr split: if_splits)
  have "\<exists>s u. parse_url s = Some u \<and> o' = origin u \<and> protocol u = ''https:'' \<and>
      \<not> isLoopbackHostname (hostname u)" if "o' \<in> set normalized" for o'
    using mapE_memberD[OF m that] normalize_origin_production by blast
  with ne sec show ?thesis by simp
qed

lemma kafka_sasl_nonempty:
  "readSaslConfiguration env = Inr o' \<Longrightarrow> sasl_username o' \<noteq> [] \<and> sasl_password o' \<noteq> []"
  by (auto simp: readSaslConfiguration_def Let_def split: if_splits)

lemma readTls_True: "readTls read_file True env = Inr t \<Longrightarrow> t \<noteq> None"
  by (auto simp: readTls_def Let_def bindE_Inr split: if_splits)

lemma readSasl_nonempty:
  "readSasl b env = Inr (Some o') \<Longrightarrow> sasl_username o' \<noteq> [] \<and> sasl_password o' \<noteq> []"
  by (auto simp: readSasl_def bindE_Inr dest: kafka_sasl_nonempty split: if_splits)

lemma parseBrokerList_nonempty: "parseBrokerList env = Inr bs \<Longrightarrow> bs \<noteq> []"
  by (auto simp: parseBrokerList_def Let_def split: if_splits)

lemma kafka_build:
  assumes "(if P \<and> \<not> T then Inl e
     else bindE B (\<lambda>bs. bindE R (\<lambda>tls. bindE S (\<lambda>auth.
       Inr \<lparr>clientId = client, brokers = bs, ssl = tls, sasl = auth\<rparr>)))) = Inr k"
  shows "B = Inr (brokers k) \<and> R = Inr (ssl k) \<and> S = Inr (sasl k) \<and> (P \<longrightarrow> T)"
  using assms by (auto simp: bindE_Inr split: if_splits)

lemma kafka_production:
  assumes "createKafkaClientConfiguration read_file client env = Inr k"
    and app: "parseApplicationEnvironment (env ''APP_ENV'') = Inr production"
  shows "ssl k \<noteq> None \<and> brokers k \<noteq> [] \<and>
     (\<forall>o'. sasl k = Some o' \<longrightarrow> sasl_username o' \<noteq> [] \<and> sasl_password o' \<noteq> [])"
proof -
  obtain p where p: "parseSecurityProtocol env = Inr p"
    using assms(1) unfolding createKafkaClientConfiguration_def bindE_Inr by blast
  from assms(1) have parts: "parseBrokerList env = Inr (brokers k)"
    "readTls read_file (usesTls p) env = Inr (ssl k)"
    "readSasl (usesSasl p) env = Inr (sasl k)" "usesTls p"
    using kafka_build[OF assms(1)[unfolded createKafkaClientConfiguration_def app p bindE_simps]]
    by blast+
  have "ssl k \<noteq> None" using parts(2,4) by (auto dest: readTls_True)
  moreover have "brokers k \<noteq> []" using parts(1) by (rule parseBrokerList_nonempty)
  moreover have "sasl_username o' \<noteq> [] \<and> sasl_password o' \<noteq> []" if "sasl k = Some o'" for o'
    by (rule readSasl_nonempty) (use parts(3) that in simp)
  ultimately show ?thesis by blast
qed

lemma database_url_production:
  assumes "validateDatabaseUrl parse_url name v production = Inr u"
  shows "\<exists>m. searchParams u ''sslmode'' = Some m \<and> toLowerCase m \<in> encryptedModes"
  using assms by (auto simp: validateDatabaseUrl_def split: option.splits if_splits)

lemma hasAllowedAudioExtension_lower:
  "hasAllowedAudioExtension (toLowerCase f) = hasAllowedAudioExtension f"
  by (simp add: hasAllowedAudioExtension_def)

lemma maxUploadBytes_bounds: "1 \<le> maxUploadBytes env \<and> int (maxUploadBytes env) \<le> max_safe_integer"
  by (auto simp: maxUploadBytes_def Let_def defaultMaxUploadBytes_def max_safe_integer_def
      split: option.splits dest!: safe_integer_SomeD)

end
