(* ===== verification/JobService.thy ===== *)
theory JobService
  imports Schema Config
begin

text \<open>
  backend/src/services/jobService.ts: admission, creation, cancellation and reading of
  jobs. One definition per SQL statement, then the functions that issue them in the
  source's order. \<open>atomic_service\<close> is interpreted for creation, and the ownership
  contract \<open>job_reader\<close> for the owner-filtered lookup.
\<close>

section \<open>Statements\<close>

text \<open>\<open>SELECT ${jobColumns}\<close>: the columns of \<open>JobRecord\<close> of a row.\<close>

definition jobColumns :: "job \<Rightarrow> JobRecord" where
  "jobColumns j = JobRecord.truncate j"

definition count_active_jobs :: "uuid \<Rightarrow> database \<Rightarrow> nat" where
  "count_active_jobs owner d =
     length (filter (\<lambda>j. owner_id j = owner \<and> active_status (status j)) (jobs d))"

definition select_active_count :: "uuid \<Rightarrow> nat list stmt" where
  "select_active_count owner _ _ d = Inr ([count_active_jobs owner d], d)"

definition advisory_lock :: "uuid \<Rightarrow> unit stmt" where
  "advisory_lock owner _ _ d = Inr ((), d)"

definition duplicates_of :: "uuid \<Rightarrow> string \<Rightarrow> database \<Rightarrow> job list" where
  "duplicates_of owner key d =
     take 1 (order_by_desc created_at
       (filter (\<lambda>j. owner_id j = owner \<and> input_object_key j = key) (jobs d)))"

definition select_duplicate :: "uuid \<Rightarrow> string \<Rightarrow> JobRecord list stmt" where
  "select_duplicate owner key _ _ d = Inr (map jobColumns (duplicates_of owner key d), d)"

text \<open>A new row with the column defaults of backend/sql/001 to 008.\<close>

definition new_job :: "uuid \<Rightarrow> time \<Rightarrow> uuid \<Rightarrow> string \<Rightarrow> string \<Rightarrow> job" where
  "new_job ident now owner name key =
     \<lparr>job_id = ident, original_file_name = name, input_object_key = key,
      status = PENDING, progress = 0, result_object_keys = None, error_message = None,
      storage_expires_at = None, storage_deleted_at = None, created_at = now,
      updated_at = now, owner_id = owner, processing_worker_id = None,
      processing_started_at = None, processing_heartbeat_at = None,
      processing_attempts = 0, cleanup_claim_id = None, cleanup_claimed_at = None,
      cleanup_attempts = 0, cleanup_error_message = None, owner_deleted_at = None\<rparr>"

definition insert_job :: "uuid \<Rightarrow> string \<Rightarrow> string \<Rightarrow> JobRecord list stmt" where
  "insert_job owner name key uuids now d =
     (if uuids 0 \<in> set (map job_id (jobs d)) then Inl (UniqueViolation ''jobs_pkey'')
      else (let j = new_job (uuids 0) now owner name key
            in Inr ([jobColumns j], d\<lparr>jobs := jobs d @ [j]\<rparr>)))"

definition cancellable :: "uuid \<Rightarrow> uuid \<Rightarrow> job \<Rightarrow> bool" where
  "cancellable jobId owner j \<longleftrightarrow>
     job_id j = jobId \<and> owner_id j = owner \<and> active_status (status j)"

definition cancelled_row :: "nat \<Rightarrow> time \<Rightarrow> job \<Rightarrow> job" where
  "cancelled_row retention now j =
     j\<lparr>status := CANCELLED, processing_worker_id := None, processing_heartbeat_at := None,
       error_message := None,
       storage_expires_at := coalesce (storage_expires_at j) (now + hours retention),
       updated_at := now\<rparr>"

definition update_cancelled :: "nat \<Rightarrow> uuid \<Rightarrow> uuid \<Rightarrow> JobRecord list stmt" where
  "update_cancelled retention jobId owner _ now d =
     Inr (map jobColumns (updated_rows (cancellable jobId owner) (cancelled_row retention now) (jobs d)),
          d\<lparr>jobs := update_where (cancellable jobId owner) (cancelled_row retention now) (jobs d)\<rparr>)"

definition select_status :: "uuid \<Rightarrow> uuid \<Rightarrow> job_status list stmt" where
  "select_status jobId owner _ _ d =
     Inr (map status (filter (\<lambda>j. job_id j = jobId \<and> owner_id j = owner) (jobs d)), d)"

definition owned_job :: "uuid \<Rightarrow> uuid \<Rightarrow> database \<Rightarrow> JobRecord option" where
  "owned_job jobId owner d =
     first_row (map jobColumns (filter (\<lambda>j. job_id j = jobId \<and> owner_id j = owner) (jobs d)))"

definition select_owned_job :: "uuid \<Rightarrow> uuid \<Rightarrow> JobRecord list stmt" where
  "select_owned_job jobId owner _ _ d =
     Inr (map jobColumns (filter (\<lambda>j. job_id j = jobId \<and> owner_id j = owner) (jobs d)), d)"

definition jobHistoryLimit :: nat where
  "jobHistoryLimit = 20"

definition recent_jobs :: "uuid \<Rightarrow> database \<Rightarrow> JobRecord list" where
  "recent_jobs owner d =
     map jobColumns (take jobHistoryLimit
       (order_by_desc created_at (filter (\<lambda>j. owner_id j = owner) (jobs d))))"

definition select_recent_jobs :: "uuid \<Rightarrow> JobRecord list stmt" where
  "select_recent_jobs owner _ _ d = Inr (recent_jobs owner d, d)"

declare select_active_count_def [sql_defs] advisory_lock_def [sql_defs]
  select_duplicate_def [sql_defs] update_cancelled_def [sql_defs]
  select_status_def [sql_defs] select_owned_job_def [sql_defs] select_recent_jobs_def [sql_defs]

lemma new_job_simps [simp]:
  "job_id (new_job i t ow n k) = i" "original_file_name (new_job i t ow n k) = n"
  "input_object_key (new_job i t ow n k) = k" "status (new_job i t ow n k) = PENDING"
  "progress (new_job i t ow n k) = 0" "owner_id (new_job i t ow n k) = ow"
  "created_at (new_job i t ow n k) = t" "updated_at (new_job i t ow n k) = t"
  "storage_expires_at (new_job i t ow n k) = None" "storage_deleted_at (new_job i t ow n k) = None"
  by (simp_all add: new_job_def)

lemma job_ok_new [simp]: "job_ok (new_job i t ow n k)"
  by (simp add: job_ok_def new_job_def)

lemma insert_job_Inr [sql_defs]:
  "insert_job owner name key u t d = Inr (rows, d') \<longleftrightarrow>
     u 0 \<notin> set (map job_id (jobs d)) \<and>
     rows = [jobColumns (new_job (u 0) t owner name key)] \<and>
     d' = d\<lparr>jobs := jobs d @ [new_job (u 0) t owner name key]\<rparr>"
  by (auto simp: insert_job_def Let_def)

section \<open>Functions\<close>

definition countActiveOwnedJobs :: "uuid \<Rightarrow> nat eff" where
  "countActiveOwnedJobs owner =
     bindM (pool_query (select_active_count owner)) (\<lambda>rows.
       returnM (case first_row rows of None \<Rightarrow> 0 | Some n \<Rightarrow> n))"

definition createJob_body :: "config \<Rightarrow> uuid \<Rightarrow> string \<Rightarrow> string \<Rightarrow> JobRecord eff" where
  "createJob_body cfg owner name key =
     thenM (client_query (advisory_lock owner))
    (bindM (client_query (select_duplicate owner key)) (\<lambda>dups.
       case first_row dups of
         Some existingJob \<Rightarrow> throwM (DuplicateUploadJobError existingJob)
       | None \<Rightarrow>
    bindM (client_query (select_active_count owner)) (\<lambda>counts.
       if maxActiveJobsPerOwner cfg \<le> (case first_row counts of None \<Rightarrow> 0 | Some n \<Rightarrow> n)
       then throwM (ActiveJobLimitError (maxActiveJobsPerOwner cfg))
       else
    bindM (client_query (insert_job owner name key)) (\<lambda>rows.
       case first_row rows of
         None \<Rightarrow> throwM (PlainError ''PostgreSQL did not return the created job'')
       | Some job \<Rightarrow>
    thenM (client_query (insert_event (jobCreatedTopic cfg) (job_id job)
             [(''jobId'', job_id job), (''inputObjectKey'', input_object_key job),
              (''originalFileName'', original_file_name job)]))
      (returnM job)))))"

definition createJob :: "config \<Rightarrow> uuid \<Rightarrow> string \<Rightarrow> string \<Rightarrow> JobRecord eff" where
  "createJob cfg owner name key = transaction (createJob_body cfg owner name key)"

datatype CancelJobResult =
    cancelled JobRecord
  | not_found
  | not_cancellable job_status

definition cancelJob_body :: "config \<Rightarrow> uuid \<Rightarrow> uuid \<Rightarrow> CancelJobResult eff" where
  "cancelJob_body cfg jobId owner =
     bindM (client_query (update_cancelled (retentionHours cfg) jobId owner)) (\<lambda>rows.
       case first_row rows of
         None \<Rightarrow>
           thenM client_rollback
          (bindM (client_query (select_status jobId owner)) (\<lambda>existing.
             returnM (case first_row existing of
                        Some st \<Rightarrow> not_cancellable st
                      | None \<Rightarrow> not_found)))
       | Some job \<Rightarrow>
           thenM (client_query (insert_event (jobStatusTopic cfg) jobId [(''jobId'', jobId)]))
          (thenM client_commit
          (returnM (cancelled job))))"

definition cancelJob :: "config \<Rightarrow> uuid \<Rightarrow> uuid \<Rightarrow> CancelJobResult eff" where
  "cancelJob cfg jobId owner =
     with_client (thenM client_begin (cancelJob_body cfg jobId owner))"

definition findOwnedJob :: "uuid \<Rightarrow> uuid \<Rightarrow> JobRecord option eff" where
  "findOwnedJob jobId owner =
     bindM (pool_query (select_owned_job jobId owner)) (\<lambda>rows. returnM (first_row rows))"

definition findRecentOwnedJobs :: "uuid \<Rightarrow> JobRecord list eff" where
  "findRecentOwnedJobs owner = pool_query (select_recent_jobs owner)"

section \<open>Creation\<close>

lemma createJob_body_in_txn: "in_txn (createJob_body cfg owner name key)"
  unfolding createJob_body_def
  by (intro in_txn_then in_txn_bind in_txn_query in_txn_option in_txn_if in_txn_throw in_txn_return)

lemma createJob_body_straight: "straight (createJob_body cfg owner name key)"
  unfolding createJob_body_def
  by (intro straight_then straight_bind straight_query straight_option straight_if straight_throw
      straight_return)

interpretation create_job: atomic_service "createJob cfg owner name key"
  for cfg owner name key
  unfolding createJob_def by (rule transaction_atomic_service) (rule createJob_body_in_txn)

lemma jobColumns_simps [simp]:
  "job_id (jobColumns j) = job_id j" "input_object_key (jobColumns j) = input_object_key j"
  "original_file_name (jobColumns j) = original_file_name j" "status (jobColumns j) = status j"
  "progress (jobColumns j) = progress j" "result_object_keys (jobColumns j) = result_object_keys j"
  "error_message (jobColumns j) = error_message j"
  "storage_expires_at (jobColumns j) = storage_expires_at j"
  "storage_deleted_at (jobColumns j) = storage_deleted_at j"
  "created_at (jobColumns j) = created_at j" "updated_at (jobColumns j) = updated_at j"
  by (simp_all add: jobColumns_def JobRecord.truncate_def)

lemma sort_key_Nil_iff: "sort_key k xs = [] \<longleftrightarrow> xs = []"
  by (metis set_empty set_sort)

lemma duplicates_of_empty_iff:
  "duplicates_of owner key d = [] \<longleftrightarrow>
     (\<forall>j \<in> set (jobs d). \<not> (owner_id j = owner \<and> input_object_key j = key))"
  by (simp add: duplicates_of_def order_by_desc_def sort_key_Nil_iff filter_empty_conv)

lemma duplicates_of_member:
  "j \<in> set (duplicates_of owner key d) \<Longrightarrow>
     j \<in> set (jobs d) \<and> owner_id j = owner \<and> input_object_key j = key"
  by (auto simp: duplicates_of_def dest!: in_set_takeD)

text \<open>The tables after a creation, as one function of the row identifiers and the time.\<close>

definition created_db ::
    "config \<Rightarrow> uuid \<Rightarrow> string \<Rightarrow> string \<Rightarrow> uuid \<Rightarrow> uuid \<Rightarrow> time \<Rightarrow> database \<Rightarrow> database" where
  "created_db cfg owner name key ident ev now d =
     d\<lparr>jobs := jobs d @ [new_job ident now owner name key],
       outbox_events := outbox_events d @
         [new_event ev now (jobCreatedTopic cfg) ident
           [(''jobId'', ident), (''inputObjectKey'', key), (''originalFileName'', name)]]\<rparr>"

text \<open>What a successful creation has checked and written.\<close>

lemma createJob_success:
  assumes "idle s" "createJob cfg owner name key w s = (Inr r, s')"
  obtains ident ev now where
    "duplicates_of owner key (db s) = []"
    "count_active_jobs owner (db s) < maxActiveJobsPerOwner cfg"
    "ident \<notin> set (map job_id (jobs (db s)))"
    "ev \<notin> set (map event_id (outbox_events (db s)))"
    "r = jobColumns (new_job ident now owner name key)"
    "db s' = created_db cfg owner name key ident ev now (db s)"
proof -
  obtain s1 where b: "createJob_body cfg owner name key w (txn_start w s) = (Inr r, s1)"
    and d: "db s' = db s1"
    using transaction_InrD[OF createJob_body_in_txn createJob_body_straight assms(1)]
      assms(2)[unfolded createJob_def] by metis
  show ?thesis
    using b d
    by (intro that[of "random_uuid w (Suc (Suc (Suc (Suc (Suc (tick s)))))) 0"
          "random_uuid w (Suc (Suc (Suc (Suc (Suc (Suc (tick s))))))) 0"
          "clock w (Suc (tick s))"])
      (auto simp: createJob_body_def created_db_def effect_simps sql_defs first_row_None_iff
        split: option.splits if_splits)
qed

lemma first_duplicate:
  "first_row (map jobColumns (duplicates_of owner key d)) = Some r \<Longrightarrow>
     \<exists>j \<in> set (jobs d). owner_id j = owner \<and> input_object_key j = key \<and> r = jobColumns j"
  by (auto dest!: first_row_SomeD duplicates_of_member)

lemma createJob_error_kind:
  assumes "idle s" "createJob cfg owner name key w s = (Inl e, s')"
  shows "db s' = db s \<and>
     (case e of
        DuplicateUploadJobError r \<Rightarrow>
          (\<exists>j \<in> set (jobs (db s)). owner_id j = owner \<and> input_object_key j = key \<and> r = jobColumns j)
      | ActiveJobLimitError n \<Rightarrow>
          n = maxActiveJobsPerOwner cfg \<and> n \<le> count_active_jobs owner (db s)
      | _ \<Rightarrow> True)"
proof -
  have "db s' = db s" using assms by (rule create_job.op_error)
  moreover
  consider m where "e = DatabaseError m"
    | s1 where "createJob_body cfg owner name key w (txn_start w s) = (Inl e, s1)"
    using transaction_InlD[OF assms(1)] assms(2)[unfolded createJob_def] by metis
  then have "case e of
        DuplicateUploadJobError r \<Rightarrow>
          (\<exists>j \<in> set (jobs (db s)). owner_id j = owner \<and> input_object_key j = key \<and> r = jobColumns j)
      | ActiveJobLimitError n \<Rightarrow>
          n = maxActiveJobsPerOwner cfg \<and> n \<le> count_active_jobs owner (db s)
      | _ \<Rightarrow> True"
  proof cases
    case 1
    then show ?thesis by simp
  next
    case 2
    then show ?thesis
      by (auto simp: createJob_body_def effect_simps sql_defs insert_job_def insert_event_def Let_def
          split: option.splits if_splits error.splits
          dest!: client_query_Inl first_duplicate)
  qed
  ultimately show ?thesis by simp
qed

text \<open>The outcome when the driver does not fail and the generated identifiers are new.\<close>

definition create_outcome :: "config \<Rightarrow> uuid \<Rightarrow> string \<Rightarrow> string \<Rightarrow> database \<Rightarrow>
    uuid \<Rightarrow> uuid \<Rightarrow> time \<Rightarrow> (error + JobRecord) \<times> database" where
  "create_outcome cfg owner name key d ident ev now =
     (case duplicates_of owner key d of
        j # _ \<Rightarrow> (Inl (DuplicateUploadJobError (jobColumns j)), d)
      | [] \<Rightarrow>
          if maxActiveJobsPerOwner cfg \<le> count_active_jobs owner d
          then (Inl (ActiveJobLimitError (maxActiveJobsPerOwner cfg)), d)
          else (Inr (jobColumns (new_job ident now owner name key)),
                created_db cfg owner name key ident ev now d))"

lemma createJob_no_faults:
  assumes nf: "\<And>t. \<not> query_fails w t" and idle: "idle s"
    and "random_uuid w (tick s + 5) 0 \<notin> set (map job_id (jobs (db s)))"
    and "random_uuid w (tick s + 6) 0 \<notin> set (map event_id (outbox_events (db s)))"
  shows "(fst (createJob cfg owner name key w s), db (snd (createJob cfg owner name key w s))) =
     create_outcome cfg owner name key (db s) (random_uuid w (tick s + 5) 0)
       (random_uuid w (tick s + 6) 0) (clock w (tick s + 1))"
proof -
  let ?o = "create_outcome cfg owner name key (db s) (random_uuid w (tick s + 5) 0)
       (random_uuid w (tick s + 6) 0) (clock w (tick s + 1))"
  obtain r s1 where b: "createJob_body cfg owner name key w (txn_start w s) = (r, s1)"
    by fastforce
  have fresh: "insert_job owner name key (random_uuid w (tick s + 5)) t (db s) =
      Inr ([jobColumns (new_job (random_uuid w (tick s + 5) 0) t owner name key)],
        (db s)\<lparr>jobs := jobs (db s) @ [new_job (random_uuid w (tick s + 5) 0) t owner name key]\<rparr>)" for t
    using assms(3) by (simp add: insert_job_Inr)
  have res: "r = fst ?o \<and> (\<forall>a. r = Inr a \<longrightarrow> db s1 = snd ?o \<and> \<not> aborted s1)"
  proof (cases "duplicates_of owner key (db s)")
    case (Cons j js)
    then show ?thesis
      using b nf
      by (auto simp: createJob_body_def create_outcome_def bindM_def thenM_def throwM_def
          client_query_run sql_defs split: prod.splits)
  next
    case Nil
    then show ?thesis
      using b nf fresh assms(3,4)
      by (cases "maxActiveJobsPerOwner cfg \<le> count_active_jobs owner (db s)")
        (auto simp: createJob_body_def create_outcome_def bindM_def thenM_def throwM_def returnM_def
          client_query_run created_db_def select_duplicate_def select_active_count_def
          advisory_lock_def insert_event_def eval_nat_numeral split: prod.splits)
  qed
  have end_state: "\<not> aborted s1 \<or> (\<exists>e. r = Inl e)"
  proof (cases r)
    case (Inl e)
    then show ?thesis by blast
  next
    case (Inr a)
    then show ?thesis using res by blast
  qed
  have dbo: "r = Inl e \<Longrightarrow> snd ?o = db s" for e
    using res by (auto simp: create_outcome_def split: list.splits if_splits)
  have fin: "fst (createJob cfg owner name key w s) = r"
    "db (snd (createJob cfg owner name key w s)) = (case r of Inl e \<Rightarrow> db s | Inr a \<Rightarrow> db s1)"
    using transaction_no_faults[OF nf idle b createJob_body_in_txn end_state]
    unfolding createJob_def by blast+
  have "(case r of Inl e \<Rightarrow> db s | Inr a \<Rightarrow> db s1) = snd ?o"
  proof (cases r)
    case (Inl e)
    then show ?thesis using dbo[OF Inl] by simp
  next
    case (Inr a)
    then show ?thesis using res by simp
  qed
  then show ?thesis using fin res by (simp only: prod_eq_iff fst_conv snd_conv)
qed

lemma jobs_ok_created:
  assumes "db_ok d" "ident \<notin> set (map job_id (jobs d))" "ev \<notin> set (map event_id (outbox_events d))"
  shows "db_ok (created_db cfg owner name key ident ev now d)"
  using assms by (auto simp: db_ok_def created_db_def intro!: jobs_ok_snoc)

lemma insert_job_preserves [preserves_intros]: "stmt_preserves db_ok (insert_job owner name key)"
  by (rule stmt_preservesI) (auto simp: insert_job_Inr db_ok_def intro!: jobs_ok_snoc)

lemma job_reads_preserve [preserves_intros]:
  "stmt_preserves I (select_active_count owner)" "stmt_preserves I (advisory_lock owner)"
  "stmt_preserves I (select_duplicate owner key)" "stmt_preserves I (select_status jobId owner)"
  "stmt_preserves I (select_owned_job jobId owner)" "stmt_preserves I (select_recent_jobs owner)"
  by (rule read_only_preserves; simp add: sql_defs)+

lemma createJob_preserves: "preserves db_ok (createJob cfg owner name key)"
  unfolding createJob_def createJob_body_def
  by (intro preserves_intros)

section \<open>Cancellation\<close>

lemma job_ok_cancelled: "job_ok j \<Longrightarrow> job_ok (cancelled_row h now j)"
  by (auto simp: job_ok_def cancelled_row_def coalesce_def active_status_def split: option.splits)

lemma cancelled_row_simps [simp]:
  "job_id (cancelled_row h now j) = job_id j" "owner_id (cancelled_row h now j) = owner_id j"
  "status (cancelled_row h now j) = CANCELLED"
  by (simp_all add: cancelled_row_def)

lemma update_cancelled_preserves [preserves_intros]:
  "stmt_preserves db_ok (update_cancelled h jobId owner)"
  by (rule stmt_preservesI)
    (auto simp: update_cancelled_def db_ok_def intro!: jobs_ok_update job_ok_cancelled)

lemma cancelJob_preserves: "preserves db_ok (cancelJob cfg jobId owner)"
  unfolding cancelJob_def cancelJob_body_def by (intro preserves_intros)

text \<open>The tables after a cancellation.\<close>

definition cancelled_db ::
    "config \<Rightarrow> uuid \<Rightarrow> uuid \<Rightarrow> uuid \<Rightarrow> time \<Rightarrow> database \<Rightarrow> database" where
  "cancelled_db cfg jobId owner ev now d =
     d\<lparr>jobs := update_where (cancellable jobId owner)
                (cancelled_row (retentionHours cfg) now) (jobs d),
       outbox_events := outbox_events d @
         [new_event ev now (jobStatusTopic cfg) jobId [(''jobId'', jobId)]]\<rparr>"

lemma first_status_Some:
  "first_row (map status (filter (\<lambda>j. job_id j = i \<and> owner_id j = ow) js)) = Some st \<Longrightarrow>
     \<exists>j \<in> set js. job_id j = i \<and> owner_id j = ow \<and> status j = st"
  by (auto dest!: first_row_SomeD)

lemma first_status_None:
  "first_row (map status (filter (\<lambda>j. job_id j = i \<and> owner_id j = ow) js)) = None \<longleftrightarrow>
     (\<forall>j \<in> set js. \<not> (job_id j = i \<and> owner_id j = ow))"
  by (auto simp: first_row_None_iff filter_empty_conv)

lemma first_cancelled:
  "first_row (map jobColumns (updated_rows P f rows)) = Some rec \<Longrightarrow>
     \<exists>j \<in> set rows. P j \<and> rec = jobColumns (f j)"
  by (auto simp: updated_rows_def dest!: first_row_SomeD)

text \<open>Every outcome of a cancellation and what it says about the tables before.\<close>

lemma cancelJob_outcome:
  assumes "idle s" "cancelJob cfg jobId owner w s = (r, s')"
  shows "idle s' \<and> clients s' = clients s \<and>
     (case r of
        Inl e \<Rightarrow> db s' = db s
      | Inr (cancelled rec) \<Rightarrow>
          (\<exists>j ev now. j \<in> set (jobs (db s)) \<and> cancellable jobId owner j \<and>
             rec = jobColumns (cancelled_row (retentionHours cfg) now j) \<and>
             db s' = cancelled_db cfg jobId owner ev now (db s))
      | Inr not_found \<Rightarrow>
          db s' = db s \<and>
          (\<forall>j \<in> set (jobs (db s)). \<not> (job_id j = jobId \<and> owner_id j = owner))
      | Inr (not_cancellable st) \<Rightarrow>
          db s' = db s \<and> \<not> active_status st \<and>
          (\<exists>j \<in> set (jobs (db s)). job_id j = jobId \<and> owner_id j = owner \<and> status j = st))"
proof (cases r)
  case (Inl e)
  from with_client_begin_Inl[OF assms(1), of "cancelJob_body cfg jobId owner" w e s'] assms(2) Inl
  show ?thesis
    unfolding cancelJob_def
    by (auto simp: cancelJob_body_def effect_simps update_cancelled_def select_status_def
        dest!: client_query_Inl client_commit_Inl client_rollback_Inl split: option.splits)
next
  case (Inr a)
  obtain s1 where b: "cancelJob_body cfg jobId owner w (txn_start w s) = (Inr a, s1)"
    and s': "s' = s1\<lparr>clients := clients s1 - 1\<rparr>"
    using with_client_begin_Inr[OF assms(1), of "cancelJob_body cfg jobId owner" w a s']
      assms(2) Inr unfolding cancelJob_def by auto
  have ends: "idle s' \<and> clients s' = clients s"
    using b s' by (auto simp: cancelJob_body_def effect_simps idle_def split: option.splits)
  show ?thesis
  proof (cases a)
    case (cancelled rec)
    let ?now = "clock w (Suc (tick s))" and ?ev = "random_uuid w (Suc (Suc (Suc (tick s)))) 0"
    have "first_row (map jobColumns (updated_rows (cancellable jobId owner)
        (cancelled_row (retentionHours cfg) ?now) (jobs (db s)))) = Some rec \<and>
      db s' = cancelled_db cfg jobId owner ?ev ?now (db s)"
      using b s' cancelled
      by (auto simp: cancelJob_body_def cancelled_db_def effect_simps update_cancelled_def
          insert_event_Inr split: option.splits)
    then show ?thesis using Inr ends cancelled first_cancelled by auto blast
  next
    case not_found
    then show ?thesis using Inr ends b s'
      by (auto simp: cancelJob_body_def effect_simps update_cancelled_def select_status_def
          first_status_None split: option.splits)
  next
    case (not_cancellable st)
    then show ?thesis using Inr ends b s'
      by (auto simp: cancelJob_body_def effect_simps update_cancelled_def select_status_def
          first_row_None_iff updated_rows_empty_iff cancellable_def
          split: option.splits dest!: first_status_Some)
  qed
qed

lemma cancelled_db_ok: 
  assumes "db_ok d" "ev \<notin> set (map event_id (outbox_events d))"
  shows "db_ok (cancelled_db cfg jobId owner ev now d)"
  using assms
  by (auto simp: db_ok_def cancelled_db_def intro!: jobs_ok_update job_ok_cancelled)

text \<open>A cancellation touches one row and appends one event.\<close>

lemma cancelled_db_rows:
  assumes "db_ok d" "j \<in> set (jobs d)" "cancellable jobId owner j"
  shows "set (jobs (cancelled_db cfg jobId owner ev now d)) =
     insert (cancelled_row (retentionHours cfg) now j) (set (jobs d) - {j})"
proof -
  have "{k \<in> set (jobs d). cancellable jobId owner k} = {j}"
    using assms job_unique[of "jobs d"] by (auto simp: db_ok_def cancellable_def)
  then show ?thesis
    using assms(3) by (auto simp: cancelled_db_def set_update_where)
qed

section \<open>Owner-filtered reading\<close>

text \<open>
  What the routes and the realtime service rely on when they read a job for an owner:
  only that owner's row comes back, and it does come back.
\<close>

locale job_reader =
  fixes read :: "uuid \<Rightarrow> uuid \<Rightarrow> database \<Rightarrow> JobRecord option"
  assumes read_sound: "read i ow d = Some r \<Longrightarrow>
      \<exists>j \<in> set (jobs d). job_id j = i \<and> owner_id j = ow \<and> r = jobColumns j"
    and read_complete: "db_ok d \<Longrightarrow> j \<in> set (jobs d) \<Longrightarrow>
      read (job_id j) (owner_id j) d = Some (jobColumns j)"
begin

lemma read_id: "read i ow d = Some r \<Longrightarrow> job_id r = i"
  using read_sound by fastforce

text \<open>A job of somebody else reads exactly like a job that does not exist.\<close>

lemma read_foreign:
  assumes "db_ok d" "j \<in> set (jobs d)" "owner_id j \<noteq> ow"
  shows "read (job_id j) ow d = None"
proof (cases "read (job_id j) ow d")
  case (Some r)
  then obtain k where "k \<in> set (jobs d)" "job_id k = job_id j" "owner_id k = ow"
    using read_sound by metis
  with assms show ?thesis using job_unique[of "jobs d"] by (auto simp: db_ok_def)
qed simp

text \<open>What an owner can read depends only on the rows of that owner.\<close>

lemma read_depends_on_own_rows:
  assumes "db_ok d" "db_ok d'"
    and "{j \<in> set (jobs d). owner_id j = ow} = {j \<in> set (jobs d'). owner_id j = ow}"
  shows "read i ow d = read i ow d'"
proof -
  have half: "read i ow d2 = Some r"
    if h: "db_ok d1" "db_ok d2" "read i ow d1 = Some r"
      "{j \<in> set (jobs d1). owner_id j = ow} = {j \<in> set (jobs d2). owner_id j = ow}" for d1 d2 r
  proof -
    obtain j where j: "j \<in> set (jobs d1)" "job_id j = i" "owner_id j = ow" "r = jobColumns j"
      using read_sound[OF h(3)] by blast
    with h(4) have "j \<in> set (jobs d2)" by auto
    from read_complete[OF h(2) this] j show ?thesis by simp
  qed
  show ?thesis
    using half[OF assms(1,2)] half[OF assms(2,1)] assms(3)
    by (cases "read i ow d"; cases "read i ow d'") auto
qed

end

interpretation owned_reader: job_reader owned_job
proof (unfold_locales, goal_cases)
  case (1 i ow d r)
  then show ?case by (auto simp: owned_job_def dest!: first_row_SomeD)
next
  case (2 d j)
  have "filter (\<lambda>k. job_id k = job_id j \<and> owner_id k = owner_id j) (jobs d) =
      filter (\<lambda>k. owner_id k = owner_id j) (filter (\<lambda>k. job_id k = job_id j) (jobs d))"
    by (simp add: conj_commute)
  also have "filter (\<lambda>k. job_id k = job_id j) (jobs d) = [j]"
    using 2 by (intro filter_key_unique) (auto simp: db_ok_def jobs_ok_def)
  finally show ?case by (simp add: owned_job_def)
qed

lemma findOwnedJob_Inr:
  "findOwnedJob i ow w s = (Inr r, s') \<Longrightarrow> r = owned_job i ow (db s) \<and> db s' = db s"
  by (auto simp: findOwnedJob_def pool_query_def owned_job_def effect_simps sql_defs)

lemma findOwnedJob_Inl: "findOwnedJob i ow w s = (Inl e, s') \<Longrightarrow> db s' = db s \<and> (\<exists>m. e = DatabaseError m)"
  by (auto simp: findOwnedJob_def pool_query_def effect_simps sql_defs dest!: client_query_Inl)

section \<open>History\<close>

lemma sorted_order_by_desc:
  "sorted_wrt (\<lambda>a b. k b \<le> k a) (order_by_desc k rows)"
proof -
  have "sorted_wrt (\<le>) (map (\<lambda>r. - k r) (order_by_desc k rows))"
    by (simp add: order_by_desc_def)
  then show ?thesis by (simp add: sorted_wrt_map)
qed

lemma recent_jobs_newest:
  assumes "j \<in> set (jobs d)" "owner_id j = ow" "jobColumns j \<notin> set (recent_jobs ow d)"
    "r \<in> set (recent_jobs ow d)"
  shows "created_at j \<le> created_at r"
proof -
  let ?o = "order_by_desc created_at (filter (\<lambda>j. owner_id j = ow) (jobs d))"
  have "j \<in> set ?o" using assms(1,2) by simp
  moreover have "set ?o = set (take jobHistoryLimit ?o) \<union> set (drop jobHistoryLimit ?o)"
    by (metis append_take_drop_id set_append)
  ultimately have j: "j \<in> set (drop jobHistoryLimit ?o)"
    using assms(3) by (auto simp: recent_jobs_def)
  obtain q where q: "q \<in> set (take jobHistoryLimit ?o)" "r = jobColumns q"
    using assms(4) by (auto simp: recent_jobs_def)
  have "sorted_wrt (\<lambda>a b. created_at b \<le> created_at a)
      (take jobHistoryLimit ?o @ drop jobHistoryLimit ?o)"
    unfolding append_take_drop_id by (rule sorted_order_by_desc)
  then have "\<forall>x \<in> set (take jobHistoryLimit ?o). \<forall>y \<in> set (drop jobHistoryLimit ?o).
      created_at y \<le> created_at x"
    unfolding sorted_wrt_append by blast
  then show ?thesis using j q by simp
qed

lemma length_recent_jobs: "length (recent_jobs ow d) \<le> jobHistoryLimit"
  by (simp add: recent_jobs_def)

lemma recent_jobs_owned:
  "r \<in> set (recent_jobs ow d) \<Longrightarrow> \<exists>j \<in> set (jobs d). owner_id j = ow \<and> r = jobColumns j"
  by (auto simp: recent_jobs_def dest!: in_set_takeD)

lemma sorted_recent_jobs:
  "sorted_wrt (\<lambda>a b. created_at b \<le> created_at a) (recent_jobs ow d)"
  using sorted_wrt_take[OF sorted_order_by_desc[of created_at]]
  by (simp add: recent_jobs_def sorted_wrt_map)

lemma recent_jobs_all:
  assumes "length (filter (\<lambda>j. owner_id j = ow) (jobs d)) \<le> jobHistoryLimit"
    and "j \<in> set (jobs d)" "owner_id j = ow"
  shows "jobColumns j \<in> set (recent_jobs ow d)"
  using assms by (simp add: recent_jobs_def order_by_desc_def)

end
