(* ===== verification/Samples.thy ===== *)
theory Samples
  imports JobService
begin

text \<open>
  Concrete inputs at which the witnesses of the development apply its theorems: a
  configuration, a world in which no query fails, a database handle between requests,
  and small tables.
\<close>

definition demo_config :: config where
  "demo_config = \<lparr>maxActiveJobsPerOwner = 1, retentionHours = 168,
     jobCreatedTopic = ''audio.jobs.created'', jobStatusTopic = ''audio.jobs.status''\<rparr>"

definition quiet_world :: world where
  "quiet_world = \<lparr>query_fails = (\<lambda>_. False), clock = (\<lambda>t. 1000 * int t),
     random_uuid = (\<lambda>t k. replicate t (CHR ''a'') @ replicate k (CHR ''b''))\<rparr>"

definition idle_exec :: "database \<Rightarrow> exec" where
  "idle_exec d = \<lparr>tick = 0, txn_now = 0, db = d, snapshot = None, aborted = False, clients = 0\<rparr>"

lemma quiet_world_simps [simp]: "query_fails quiet_world t = False" "clock quiet_world t = 1000 * int t"
  "random_uuid quiet_world t k = replicate t (CHR ''a'') @ replicate k (CHR ''b'')"
  by (simp_all add: quiet_world_def)

lemma idle_exec_simps [simp]:
  "idle (idle_exec d)" "db (idle_exec d) = d" "tick (idle_exec d) = 0" "clients (idle_exec d) = 0"
  by (simp_all add: idle_exec_def idle_def)

definition fingerprint :: "char \<Rightarrow> string" where
  "fingerprint c = replicate 64 c"

definition alice :: user where
  "alice = \<lparr>user_id = ''u1'', username = ''alice'', password_hash = ''h'', user_created_at = 0,
     user_updated_at = 0\<rparr>"

definition sample_job :: "uuid \<Rightarrow> uuid \<Rightarrow> job_status \<Rightarrow> job" where
  "sample_job i ow st = (new_job i 0 ow ''a.mp3'' (''uploads/'' @ i @ ''.mp3''))\<lparr>status := st,
     storage_expires_at := (if active_status st then None else Some 5000)\<rparr>"

definition sample_session :: "uuid \<Rightarrow> char \<Rightarrow> user_session" where
  "sample_session i c = \<lparr>session_id = i, session_user_id = ''u1'', token_hash = fingerprint c,
     expires_at = 9000000, revoked_at = None, session_created_at = 0, last_seen_at = 0\<rparr>"

definition sample_db :: database where
  "sample_db = \<lparr>jobs = [sample_job ''j1'' ''u1'' PENDING, sample_job ''j2'' ''u1'' COMPLETED,
       sample_job ''j3'' ''visitor'' PROCESSING],
     outbox_events = [], users = [alice],
     user_sessions = [sample_session ''s1'' (CHR ''a''), sample_session ''s2'' (CHR ''b'')],
     worker_instances = []\<rparr>"

lemma sample_db_ok: "db_ok sample_db"
  by code_simp

lemma run_InrD:
  "(case r of (Inl e, s') \<Rightarrow> P e s' | (Inr a, s') \<Rightarrow> Q a s') \<Longrightarrow> fst r = Inr x \<Longrightarrow> Q x (snd r)"
  by (cases r) simp

lemma run_InlD:
  "(case r of (Inl e, s') \<Rightarrow> P e s' | (Inr a, s') \<Rightarrow> Q a s') \<Longrightarrow> fst r = Inl x \<Longrightarrow> P x (snd r)"
  by (cases r) simp

lemma run_of_fst: "fst r = x \<Longrightarrow> r = (x, snd r)"
  by (cases r) simp

end
