(* ===== verification/Admission.thy ===== *)
theory Admission
  imports JobService Samples
begin

text \<open>
  Concurrent executions of \<open>createJob\<close> (backend/src/services/jobService.ts, 65 to 174).
  Every request is a transaction that may be interrupted by the others between any two
  of its statements; a statement reads what is committed at that moment, an inserted row
  becomes visible at COMMIT, and the advisory lock of the first statement is held until
  COMMIT or ROLLBACK. Lock keys are a hash of the owner, so \<open>lock_key\<close> is a parameter
  about which nothing is assumed. Everything else that commits meanwhile (cancellations,
  workers, cleanup) is an environment step that adds no job and reactivates none.
\<close>

section \<open>Requests and their steps\<close>

record request =
  req_owner :: uuid
  req_name :: string
  req_key :: string

datatype phase =
    Waiting
  | Locked
  | Checked
  | Counted
  | Inserted uuid uuid time
  | Committed
  | RolledBack

record admission =
  committed :: database
  phases :: "nat \<Rightarrow> phase"

fun holds_lock :: "phase \<Rightarrow> bool" where
  "holds_lock Locked = True"
| "holds_lock Checked = True"
| "holds_lock Counted = True"
| "holds_lock (Inserted _ _ _) = True"
| "holds_lock _ = False"

definition set_phase :: "nat \<Rightarrow> phase \<Rightarrow> admission \<Rightarrow> admission" where
  "set_phase i p s = s\<lparr>phases := (phases s)(i := p)\<rparr>"

definition lock_free :: "(uuid \<Rightarrow> int) \<Rightarrow> (nat \<Rightarrow> request) \<Rightarrow> nat \<Rightarrow> admission \<Rightarrow> bool" where
  "lock_free lock_key reqs i s \<longleftrightarrow>
     (\<forall>k. holds_lock (phases s k) \<longrightarrow> lock_key (req_owner (reqs k)) \<noteq> lock_key (req_owner (reqs i)))"

text \<open>A commit of somebody else: no new rows, no row of another owner, none reactivated.\<close>

definition quiet_change :: "database \<Rightarrow> database \<Rightarrow> bool" where
  "quiet_change d d' \<longleftrightarrow>
     (\<forall>ow. count_active_jobs ow d' \<le> count_active_jobs ow d) \<and>
     (\<exists>keep. map (\<lambda>j. (owner_id j, input_object_key j)) (jobs d') =
             map (\<lambda>j. (owner_id j, input_object_key j)) (filter keep (jobs d)))"

inductive admission_step ::
    "config \<Rightarrow> (uuid \<Rightarrow> int) \<Rightarrow> (nat \<Rightarrow> request) \<Rightarrow> admission \<Rightarrow> admission \<Rightarrow> bool"
  for cfg :: config and lock_key :: "uuid \<Rightarrow> int" and reqs :: "nat \<Rightarrow> request" where
  acquire: "phases s i = Waiting \<Longrightarrow> lock_free lock_key reqs i s \<Longrightarrow>
     admission_step cfg lock_key reqs s (set_phase i Locked s)"
| no_duplicate: "phases s i = Locked \<Longrightarrow>
     duplicates_of (req_owner (reqs i)) (req_key (reqs i)) (committed s) = [] \<Longrightarrow>
     admission_step cfg lock_key reqs s (set_phase i Checked s)"
| duplicate: "phases s i = Locked \<Longrightarrow>
     duplicates_of (req_owner (reqs i)) (req_key (reqs i)) (committed s) \<noteq> [] \<Longrightarrow>
     admission_step cfg lock_key reqs s (set_phase i RolledBack s)"
| below_limit: "phases s i = Checked \<Longrightarrow>
     \<not> maxActiveJobsPerOwner cfg \<le> count_active_jobs (req_owner (reqs i)) (committed s) \<Longrightarrow>
     admission_step cfg lock_key reqs s (set_phase i Counted s)"
| at_limit: "phases s i = Checked \<Longrightarrow>
     maxActiveJobsPerOwner cfg \<le> count_active_jobs (req_owner (reqs i)) (committed s) \<Longrightarrow>
     admission_step cfg lock_key reqs s (set_phase i RolledBack s)"
| insert: "phases s i = Counted \<Longrightarrow>
     admission_step cfg lock_key reqs s (set_phase i (Inserted ident ev now) s)"
| commit: "phases s i = Inserted ident ev now \<Longrightarrow>
     ident \<notin> set (map job_id (jobs (committed s))) \<Longrightarrow>
     ev \<notin> set (map event_id (outbox_events (committed s))) \<Longrightarrow>
     admission_step cfg lock_key reqs s
       (set_phase i Committed
         (s\<lparr>committed := created_db cfg (req_owner (reqs i)) (req_name (reqs i))
              (req_key (reqs i)) ident ev now (committed s)\<rparr>))"
| rollback: "holds_lock (phases s i) \<Longrightarrow>
     admission_step cfg lock_key reqs s (set_phase i RolledBack s)"
| environment: "quiet_change (committed s) d \<Longrightarrow>
     admission_step cfg lock_key reqs s (s\<lparr>committed := d\<rparr>)"

inductive_cases admission_stepE: "admission_step cfg lock_key reqs s t"

definition owner_keys :: "database \<Rightarrow> (uuid \<times> string) list" where
  "owner_keys d = map (\<lambda>j. (owner_id j, input_object_key j)) (jobs d)"

definition within_limits :: "config \<Rightarrow> database \<Rightarrow> bool" where
  "within_limits cfg d \<longleftrightarrow>
     (\<forall>ow. count_active_jobs ow d \<le> maxActiveJobsPerOwner cfg) \<and> distinct (owner_keys d)"

definition admission_start :: "config \<Rightarrow> admission \<Rightarrow> bool" where
  "admission_start cfg s \<longleftrightarrow> within_limits cfg (committed s) \<and> phases s = (\<lambda>_. Waiting)"

section \<open>The invariant\<close>

text \<open>
  Two holders of the lock have different owners; what a holder has read is still true,
  because only a holder with its owner could change it.
\<close>

definition admission_inv :: "config \<Rightarrow> (nat \<Rightarrow> request) \<Rightarrow> admission \<Rightarrow> bool" where
  "admission_inv cfg reqs s \<longleftrightarrow>
     within_limits cfg (committed s) \<and>
     (\<forall>i k. holds_lock (phases s i) \<longrightarrow> holds_lock (phases s k) \<longrightarrow>
        req_owner (reqs i) = req_owner (reqs k) \<longrightarrow> i = k) \<and>
     (\<forall>i. phases s i \<in> {Checked, Counted} \<union> range (\<lambda>(a, b, c). Inserted a b c) \<longrightarrow>
        (req_owner (reqs i), req_key (reqs i)) \<notin> set (owner_keys (committed s))) \<and>
     (\<forall>i. phases s i \<in> {Counted} \<union> range (\<lambda>(a, b, c). Inserted a b c) \<longrightarrow>
        count_active_jobs (req_owner (reqs i)) (committed s) < maxActiveJobsPerOwner cfg)"

lemma count_active_created:
  "count_active_jobs ow (created_db cfg owner name key ident ev now d) =
     count_active_jobs ow d + (if ow = owner then 1 else 0)"
  by (simp add: count_active_jobs_def created_db_def)

lemma owner_keys_created:
  "owner_keys (created_db cfg owner name key ident ev now d) = owner_keys d @ [(owner, key)]"
  by (simp add: owner_keys_def created_db_def)

lemma duplicates_of_owner_keys:
  "duplicates_of ow key d = [] \<longleftrightarrow> (ow, key) \<notin> set (owner_keys d)"
  by (auto simp: duplicates_of_empty_iff owner_keys_def)

lemma quiet_change_keys:
  assumes "quiet_change d d'"
  shows "set (owner_keys d') \<subseteq> set (owner_keys d)"
    "distinct (owner_keys d) \<Longrightarrow> distinct (owner_keys d')"
proof -
  obtain keep where k: "owner_keys d' = map (\<lambda>j. (owner_id j, input_object_key j)) (filter keep (jobs d))"
    using assms by (auto simp: quiet_change_def owner_keys_def)
  show "set (owner_keys d') \<subseteq> set (owner_keys d)"
    unfolding k by (auto simp: owner_keys_def)
  show "distinct (owner_keys d) \<Longrightarrow> distinct (owner_keys d')"
    unfolding k unfolding owner_keys_def by (rule distinct_map_filter)
qed

lemma phase_shapes [simp]:
  "Waiting \<notin> range (\<lambda>(a, b, c). Inserted a b c)" "Locked \<notin> range (\<lambda>(a, b, c). Inserted a b c)"
  "Checked \<notin> range (\<lambda>(a, b, c). Inserted a b c)" "Counted \<notin> range (\<lambda>(a, b, c). Inserted a b c)"
  "Committed \<notin> range (\<lambda>(a, b, c). Inserted a b c)"
  "RolledBack \<notin> range (\<lambda>(a, b, c). Inserted a b c)"
  "Inserted x y z \<in> range (\<lambda>(a, b, c). Inserted a b c)"
  by (auto intro: image_eqI[of _ _ "(x, y, z)"])

lemma inserted_holds: "p \<in> range (\<lambda>(a, b, c). Inserted a b c) \<Longrightarrow> holds_lock p"
  by auto

lemma set_phase_simps [simp]:
  "committed (set_phase i p s) = committed s"
  "phases (set_phase i p s) = (phases s)(i := p)"
  by (simp_all add: set_phase_def)

lemma admission_inv_start: "admission_start cfg s \<Longrightarrow> admission_inv cfg reqs s"
  by (simp add: admission_start_def admission_inv_def)

lemma admission_inv_commit:
  assumes inv: "admission_inv cfg reqs s" and p: "phases s i = Inserted ident ev now"
  shows "admission_inv cfg reqs (set_phase i Committed
         (s\<lparr>committed := created_db cfg (req_owner (reqs i)) (req_name (reqs i))
              (req_key (reqs i)) ident ev now (committed s)\<rparr>))"
proof -
  let ?ow = "req_owner (reqs i)" and ?key = "req_key (reqs i)"
  have hold: "holds_lock (phases s i)" using p by simp
  have fresh: "(?ow, ?key) \<notin> set (owner_keys (committed s))"
    and room: "count_active_jobs ?ow (committed s) < maxActiveJobsPerOwner cfg"
    using inv p by (auto simp: admission_inv_def)
  have other: "req_owner (reqs k) \<noteq> ?ow" if "k \<noteq> i" "holds_lock (phases s k)" for k
    using inv hold that unfolding admission_inv_def by metis
  have lim: "within_limits cfg (committed s)" using inv by (simp add: admission_inv_def)
  have "within_limits cfg (created_db cfg ?ow (req_name (reqs i)) ?key ident ev now (committed s))"
    using lim room fresh
    by (auto simp: within_limits_def count_active_created owner_keys_created Suc_leI)
  moreover have "phases s k \<in> {Checked, Counted} \<union> range (\<lambda>(a, b, c). Inserted a b c) \<Longrightarrow>
      holds_lock (phases s k)" for k
    using inserted_holds by auto
  ultimately show ?thesis
    using inv other unfolding admission_inv_def
    by (simp add: count_active_created owner_keys_created)
qed

lemma admission_inv_environment:
  assumes inv: "admission_inv cfg reqs s" and q: "quiet_change (committed s) d"
  shows "admission_inv cfg reqs (s\<lparr>committed := d\<rparr>)"
proof -
  have c: "count_active_jobs ow d \<le> count_active_jobs ow (committed s)" for ow
    using q by (simp add: quiet_change_def)
  note k = quiet_change_keys[OF q]
  have "within_limits cfg d"
    using inv c k(2) by (auto simp: admission_inv_def within_limits_def intro: le_trans)
  then show ?thesis
    using inv k(1) c unfolding admission_inv_def
    by simp (meson le_less_trans subsetD)
qed

lemma admission_inv_step:
  assumes "admission_inv cfg reqs s" "admission_step cfg lock_key reqs s t"
  shows "admission_inv cfg reqs t"
  using assms(2,1)
proof (cases rule: admission_step.cases)
  case (commit i ident ev now)
  then show ?thesis using assms(1) admission_inv_commit by blast
next
  case (environment d)
  then show ?thesis using assms(1) admission_inv_environment by blast
next
  case (acquire i)
  then have "req_owner (reqs k) \<noteq> req_owner (reqs i)" "req_owner (reqs i) \<noteq> req_owner (reqs k)"
    if "holds_lock (phases s k)" for k
    using that unfolding lock_free_def by metis+
  then show ?thesis using assms(1) acquire(1) unfolding admission_inv_def
    by (simp split: if_splits)
next
  case (no_duplicate i)
  then show ?thesis
    using assms(1) unfolding admission_inv_def duplicates_of_owner_keys
    by auto
next
  case (below_limit i)
  then show ?thesis using assms(1) by (auto simp: admission_inv_def)
next
  case (insert i ident ev now)
  then show ?thesis using assms(1) by (auto simp: admission_inv_def)
qed (auto simp: admission_inv_def)

interpretation admission_machine:
  invariant_machine "admission_start cfg" "admission_step cfg lock_key reqs"
    "admission_inv cfg reqs" for cfg lock_key reqs
  by unfold_locales (auto intro: admission_inv_start admission_inv_step)

section \<open>The sequential code is one of these executions\<close>

text \<open>
  A \<open>createJob\<close> that returns is the path acquire, no_duplicate, below_limit, insert,
  commit of request 0, between the same two databases.
\<close>

lemma createJob_is_path:
  assumes idle: "idle s" and ok: "within_limits cfg (db s)"
    and run: "createJob cfg owner name key w s = (Inr r, s')"
    and q: "reqs 0 = \<lparr>req_owner = owner, req_name = name, req_key = key\<rparr>"
  shows "reach (admission_start cfg) (admission_step cfg lock_key reqs)
     \<lparr>committed = db s', phases = (\<lambda>_. Waiting)(0 := Committed)\<rparr>"
proof -
  obtain ident ev now where
    dup: "duplicates_of owner key (db s) = []"
    and room: "count_active_jobs owner (db s) < maxActiveJobsPerOwner cfg"
    and ids: "ident \<notin> set (map job_id (jobs (db s)))" "ev \<notin> set (map event_id (outbox_events (db s)))"
    and "r = jobColumns (new_job ident now owner name key)"
    and d: "db s' = created_db cfg owner name key ident ev now (db s)"
    by (rule createJob_success[OF idle run])
  let ?step = "admission_step cfg lock_key reqs"
  let ?at = "\<lambda>p. \<lparr>committed = db s, phases = (\<lambda>_. Waiting)(0 := p)\<rparr>"
  have move: "?step (?at p) (?at p')" if "?step (?at p) (set_phase 0 p' (?at p))" for p p'
    using that by (simp add: set_phase_def)
  have s0: "reach (admission_start cfg) ?step (?at Waiting)"
    using ok by (intro reach_start) (simp add: admission_start_def fun_eq_iff)
  have s1: "?step (?at Waiting) (?at Locked)"
    by (rule move, rule admission_step.acquire) (auto simp: lock_free_def)
  have s2: "?step (?at Locked) (?at Checked)"
    by (rule move, rule admission_step.no_duplicate) (use q dup in auto)
  have s3: "?step (?at Checked) (?at Counted)"
    by (rule move, rule admission_step.below_limit) (use q room in auto)
  have s4: "?step (?at Counted) (?at (Inserted ident ev now))"
    by (rule move, rule admission_step.insert) auto
  have s5: "?step (?at (Inserted ident ev now))
      \<lparr>committed = db s', phases = (\<lambda>_. Waiting)(0 := Committed)\<rparr>"
    using admission_step.commit[of "?at (Inserted ident ev now)" 0 ident ev now cfg lock_key reqs] ids
    by (simp add: set_phase_def q d)
  show ?thesis
    by (rule reach_step[OF reach_step[OF reach_step[OF reach_step[OF reach_step[OF s0 s1] s2] s3] s4] s5])
qed

text \<open>
  A \<open>createJob\<close> that throws takes the lock and is rolled back, between two databases that are the
  same; when it reports a duplicate or the limit, the step of that refusal was enabled.
\<close>

lemma createJob_failure_is_path:
  assumes idle: "idle s" and ok: "within_limits cfg (db s)"
    and run: "createJob cfg owner name key w s = (Inl e, s')"
    and q: "reqs 0 = \<lparr>req_owner = owner, req_name = name, req_key = key\<rparr>"
  shows "reach (admission_start cfg) (admission_step cfg lock_key reqs)
     \<lparr>committed = db s', phases = (\<lambda>_. Waiting)(0 := RolledBack)\<rparr>"
    "e = DuplicateUploadJobError r \<Longrightarrow> duplicates_of owner key (db s') \<noteq> []"
    "e = ActiveJobLimitError n \<Longrightarrow> maxActiveJobsPerOwner cfg \<le> count_active_jobs owner (db s')"
proof -
  note kind = createJob_error_kind[OF idle run]
  let ?step = "admission_step cfg lock_key reqs"
  let ?at = "\<lambda>p. \<lparr>committed = db s, phases = (\<lambda>_. Waiting)(0 := p)\<rparr>"
  have move: "?step (?at p) (?at p')" if "?step (?at p) (set_phase 0 p' (?at p))" for p p'
    using that by (simp add: set_phase_def)
  have "reach (admission_start cfg) ?step (?at Waiting)"
    using ok by (intro reach_start) (simp add: admission_start_def fun_eq_iff)
  moreover have "?step (?at Waiting) (?at Locked)"
    by (rule move, rule admission_step.acquire) (auto simp: lock_free_def)
  moreover have "?step (?at Locked) (?at RolledBack)"
    by (rule move, rule admission_step.rollback) simp
  ultimately have "reach (admission_start cfg) ?step (?at RolledBack)" by (meson reach_step)
  then show "reach (admission_start cfg) ?step \<lparr>committed = db s', phases = (\<lambda>_. Waiting)(0 := RolledBack)\<rparr>"
    using kind by simp
  show "e = DuplicateUploadJobError r \<Longrightarrow> duplicates_of owner key (db s') \<noteq> []"
    using kind by (auto simp: duplicates_of_empty_iff)
  show "e = ActiveJobLimitError n \<Longrightarrow> maxActiveJobsPerOwner cfg \<le> count_active_jobs owner (db s')"
    using kind by simp
qed

text \<open>A cancellation by any owner is an environment step.\<close>

lemma cancelled_quiet: "quiet_change d (cancelled_db cfg jobId owner ev now d)"
proof -
  have "map (\<lambda>j. (owner_id j, input_object_key j)) (jobs (cancelled_db cfg jobId owner ev now d)) =
      map (\<lambda>j. (owner_id j, input_object_key j)) (filter (\<lambda>_. True) (jobs d))"
    by (simp add: cancelled_db_def map_update_where_key cancelled_row_def)
  moreover have "count_active_jobs ow (cancelled_db cfg jobId owner ev now d) \<le> count_active_jobs ow d" for ow
  proof -
    have rows: "jobs (cancelled_db cfg jobId owner ev now d) =
        map (\<lambda>r. if cancellable jobId owner r then cancelled_row (retentionHours cfg) now r else r) (jobs d)"
      by (simp add: cancelled_db_def update_where_def)
    show ?thesis
      unfolding count_active_jobs_def rows by (rule length_filter_map_le) (auto split: if_splits)
  qed
  ultimately show ?thesis unfolding quiet_change_def by blast
qed

lemma cancelJob_quiet:
  assumes "idle s" "cancelJob cfg jobId owner w s = (r, s')"
  shows "db s' = db s \<or> quiet_change (db s) (db s')"
  using cancelJob_outcome[OF assms] cancelled_quiet
  by (auto split: sum.splits CancelJobResult.splits)

section \<open>Properties\<close>

text \<open>C1: concurrent uploads never exceed the limit: whatever the interleaving of createJob
  transactions, cancellations and workers, and whatever owners collide on a lock key, the
  committed tables never hold more than the configured number of active jobs of an owner,
  nor two jobs of one owner for the same upload.\<close>

theorem concurrent_admission:
  assumes "reach (admission_start cfg) (admission_step cfg lock_key reqs) s"
  shows "(\<forall>ow. length (filter (\<lambda>j. owner_id j = ow \<and> status j \<in> {PENDING, PROCESSING, RETRYING})
        (jobs (committed s))) \<le> maxActiveJobsPerOwner cfg) \<and>
     distinct (map (\<lambda>j. (owner_id j, input_object_key j)) (jobs (committed s)))"
  using admission_machine.reachable_inv[OF assms]
  by (simp add: admission_inv_def within_limits_def owner_keys_def count_active_jobs_def active_status_def)

definition demo_reqs :: "nat \<Rightarrow> request" where
  "demo_reqs i = \<lparr>req_owner = ''visitor'', req_name = ''a.mp3'',
     req_key = (if i = 0 then ''uploads/1.mp3'' else ''uploads/2.mp3'')\<rparr>"

lemma demo_create:
  "fst (createJob demo_config ''visitor'' ''a.mp3'' ''uploads/1.mp3'' quiet_world (idle_exec empty_db)) =
     Inr (jobColumns (new_job ''aaaaa'' 1000 ''visitor'' ''a.mp3'' ''uploads/1.mp3''))"
proof -
  note run = createJob_no_faults[of quiet_world "idle_exec empty_db" demo_config "''visitor''"
      "''a.mp3''" "''uploads/1.mp3''"]
  have "duplicates_of ow k empty_db = []" "count_active_jobs ow empty_db = 0" for ow k
    by (simp_all add: duplicates_of_empty_iff count_active_jobs_def empty_db_def)
  then show ?thesis using run
    by (simp add: create_outcome_def demo_config_def empty_db_def eval_nat_numeral)
qed

lemma within_limits_empty: "within_limits cfg empty_db"
  by (simp add: within_limits_def count_active_jobs_def owner_keys_def empty_db_def)

lemma concurrent_admission_witness:
  "\<exists>s. reach (admission_start demo_config) (admission_step demo_config (\<lambda>_. 7) demo_reqs) s \<and>
     length (jobs (committed s)) = 1 \<and>
     (\<forall>ow. count_active_jobs ow (committed s) \<le> maxActiveJobsPerOwner demo_config) \<and>
     distinct (map (\<lambda>j. (owner_id j, input_object_key j)) (jobs (committed s)))"
proof -
  define s' where "s' = snd (createJob demo_config ''visitor'' ''a.mp3'' ''uploads/1.mp3'' quiet_world
      (idle_exec empty_db))"
  have run: "createJob demo_config ''visitor'' ''a.mp3'' ''uploads/1.mp3'' quiet_world
      (idle_exec empty_db) = (Inr (jobColumns (new_job ''aaaaa'' 1000 ''visitor'' ''a.mp3'' ''uploads/1.mp3'')), s')"
    by (simp only: prod_eq_iff fst_conv snd_conv demo_create s'_def)
  let ?s = "\<lparr>committed = db s', phases = (\<lambda>_. Waiting)(0 := Committed)\<rparr>"
  have r: "reach (admission_start demo_config) (admission_step demo_config (\<lambda>_. 7) demo_reqs) ?s"
    by (rule createJob_is_path[OF _ _ run]) (simp_all add: demo_reqs_def within_limits_empty)
  have "length (jobs (db s')) = 1"
    by (rule createJob_success[OF _ run]) (simp_all add: created_db_def empty_db_def)
  then show ?thesis using r concurrent_admission[OF r] by (intro exI[of _ ?s]) (simp add: count_active_jobs_def active_status_def)
qed

end
