(* ===== verification/Cleanup.thy ===== *)
theory Cleanup
  imports Samples
begin

text \<open>
  backend/src/services/storageCleanup.ts: claiming expired jobs, collecting and deleting their
  objects, and recording the outcome. The object store is a list of keys and a service
  (\<open>store_world\<close>) whose answers are parameters, numbered by the calls so that a request can fail
  once and succeed later; \<open>store_ok\<close> states the documented behaviour of listing and deleting that the
  correctness of a cleanup rests on, under which any of the requests may fail. Rows locked by another
  cleanup process are those with a claim that has not timed out.
\<close>

section \<open>The object store\<close>

record list_page =
  page_keys :: "string option list"
  page_next :: "string option"

record store_world =
  list_objects :: "nat \<Rightarrow> string list \<Rightarrow> string \<Rightarrow> string option \<Rightarrow> error + list_page"
  delete_answer :: "nat \<Rightarrow> string list \<Rightarrow> error + string option list"
  delete_effect :: "nat \<Rightarrow> string list \<Rightarrow> string list \<Rightarrow> string list"

record store_exec =
  sx :: exec
  bucket :: "string list"
  calls :: nat

text \<open>None is a computation that does not return.\<close>

type_synonym 'a seff = "world \<Rightarrow> store_world \<Rightarrow> store_exec \<Rightarrow> ((error + 'a) \<times> store_exec) option"

definition returnS :: "'a \<Rightarrow> 'a seff" where
  "returnS a w sw s = Some (Inr a, s)"

definition bindS :: "'a seff \<Rightarrow> ('a \<Rightarrow> 'b seff) \<Rightarrow> 'b seff" where
  "bindS m f w sw s =
     (case m w sw s of
        None \<Rightarrow> None
      | Some (Inl e, s1) \<Rightarrow> Some (Inl e, s1)
      | Some (Inr a, s1) \<Rightarrow> f a w sw s1)"

definition catchS :: "'a seff \<Rightarrow> (error \<Rightarrow> 'a seff) \<Rightarrow> 'a seff" where
  "catchS m h w sw s =
     (case m w sw s of
        None \<Rightarrow> None
      | Some (Inl e, s1) \<Rightarrow> h e w sw s1
      | Some (Inr a, s1) \<Rightarrow> Some (Inr a, s1))"

text \<open>A database operation.\<close>

definition dbS :: "'a eff \<Rightarrow> 'a seff" where
  "dbS m w sw s = (case m w (sx s) of (r, e) \<Rightarrow> Some (r, s\<lparr>sx := e\<rparr>))"

section \<open>Claims\<close>

record ClaimedCleanupJob =
  claimed_id :: uuid
  claimed_input_key :: string
  claimed_result_keys :: "(string \<times> string) list option"
  claim_id :: uuid

record CleanupBatchResult =
  claimed_count :: nat
  deleted_count :: nat
  failed_count :: nat

definition cleanup_due :: "nat \<Rightarrow> time \<Rightarrow> job \<Rightarrow> bool" where
  "cleanup_due claimTimeoutMinutes now j \<longleftrightarrow>
     (case storage_expires_at j of None \<Rightarrow> False | Some t \<Rightarrow> t \<le> now) \<and>
     storage_deleted_at j = None \<and>
     (case cleanup_claimed_at j of None \<Rightarrow> True | Some t \<Rightarrow> t < now - minutes claimTimeoutMinutes)"

definition expiry :: "job \<Rightarrow> time" where
  "expiry j = (case storage_expires_at j of None \<Rightarrow> 0 | Some t \<Rightarrow> t)"

definition cleanup_candidates :: "nat \<Rightarrow> nat \<Rightarrow> time \<Rightarrow> database \<Rightarrow> job list" where
  "cleanup_candidates batchSize claimTimeoutMinutes now d =
     take batchSize (sort_key expiry (filter (cleanup_due claimTimeoutMinutes now) (jobs d)))"

definition claimed_row :: "uuid \<Rightarrow> time \<Rightarrow> job \<Rightarrow> job" where
  "claimed_row claim now j =
     j\<lparr>cleanup_claim_id := Some claim, cleanup_claimed_at := Some now,
       cleanup_attempts := cleanup_attempts j + 1, cleanup_error_message := None\<rparr>"

text \<open>The claim each candidate gets: \<open>gen_random_uuid()\<close> is drawn once per row.\<close>

definition claim_of :: "(nat \<Rightarrow> uuid) \<Rightarrow> job list \<Rightarrow> (uuid \<times> uuid) list" where
  "claim_of uuids cands = map (\<lambda>(k, j). (job_id j, uuids k)) (enumerate 0 cands)"

definition claimed_job :: "uuid \<Rightarrow> job \<Rightarrow> ClaimedCleanupJob" where
  "claimed_job claim j =
     \<lparr>claimed_id = job_id j, claimed_input_key = input_object_key j,
      claimed_result_keys = result_object_keys j, claim_id = claim\<rparr>"

definition update_claims :: "nat \<Rightarrow> nat \<Rightarrow> ClaimedCleanupJob list stmt" where
  "update_claims batchSize claimTimeoutMinutes uuids now d =
     (let cands = cleanup_candidates batchSize claimTimeoutMinutes now d;
          claims = claim_of uuids cands
      in Inr (map (\<lambda>(k, j). claimed_job (uuids k) j) (enumerate 0 cands),
              d\<lparr>jobs := map (\<lambda>j. case map_of claims (job_id j) of
                                None \<Rightarrow> j | Some c \<Rightarrow> claimed_row c now j) (jobs d)\<rparr>))"

definition claimExpiredJobs :: "nat \<Rightarrow> nat \<Rightarrow> ClaimedCleanupJob list eff" where
  "claimExpiredJobs batchSize claimTimeoutMinutes = pool_query (update_claims batchSize claimTimeoutMinutes)"

section \<open>Objects of a job\<close>

text \<open>A \<open>Set\<close> keeps the order in which its elements were first added.\<close>

definition set_add :: "string list \<Rightarrow> string \<Rightarrow> string list" where
  "set_add ks k = (if k \<in> set ks then ks else ks @ [k])"

definition truthy :: "string option \<Rightarrow> bool" where
  "truthy v = (case v of None \<Rightarrow> False | Some t \<Rightarrow> t \<noteq> [])"

definition page_objects :: "list_page \<Rightarrow> string list" where
  "page_objects p = map the (filter truthy (page_keys p))"

text \<open>The \<open>do ... while (continuationToken)\<close> loop: None when the pages never end.\<close>

partial_function (option) list_pages ::
    "(string option \<Rightarrow> error + list_page) \<Rightarrow> string option \<Rightarrow> string list \<Rightarrow> (error + string list) option" where
  "list_pages page token ks =
     (case page (if truthy token then token else None) of
        Inl e \<Rightarrow> Some (Inl e)
      | Inr p \<Rightarrow>
          let ks' = foldl set_add ks (page_objects p)
          in if truthy (page_next p) then list_pages page (page_next p) ks' else Some (Inr ks'))"

definition result_prefix :: "uuid \<Rightarrow> string" where
  "result_prefix jobId = ''results/'' @ jobId @ ''/''"

definition known_keys :: "ClaimedCleanupJob \<Rightarrow> string list" where
  "known_keys job =
     foldl set_add [claimed_input_key job]
       (case claimed_result_keys job of None \<Rightarrow> [] | Some m \<Rightarrow> map snd m)"

definition collectObjectKeys :: "(string \<Rightarrow> string option \<Rightarrow> error + list_page) \<Rightarrow>
    ClaimedCleanupJob \<Rightarrow> (error + string list) option" where
  "collectObjectKeys lister job =
     list_pages (lister (result_prefix (claimed_id job))) None (known_keys job)"

text \<open>\<open>for (start = 0; start < length; start += n) slice(start, start + n)\<close>\<close>

function batches :: "nat \<Rightarrow> 'a list \<Rightarrow> 'a list list" where
  "batches n xs = (if xs = [] \<or> n = 0 then [] else take n xs # batches n (drop n xs))"
  by pat_completeness auto
termination
  by (relation "measure (\<lambda>(n, xs). length xs)") auto

declare batches.simps [simp del]

definition failed_keys_message :: "string option list \<Rightarrow> string" where
  "failed_keys_message errs =
     ''Object storage could not delete: '' @
     foldr (\<lambda>k acc. if acc = [] then k else k @ '', '' @ acc)
       (map (\<lambda>e. if truthy e then the e else ''unknown object'') errs) []"

definition delete_batch :: "string list \<Rightarrow> unit seff" where
  "delete_batch ks w sw s =
     (let s1 = s\<lparr>calls := Suc (calls s), bucket := delete_effect sw (calls s) ks (bucket s)\<rparr>
      in case delete_answer sw (calls s) ks of
           Inl e \<Rightarrow> Some (Inl e, s1)
         | Inr errs \<Rightarrow>
             if errs \<noteq> [] then Some (Inl (PlainError (failed_keys_message errs)), s1)
             else Some (Inr (), s1))"

fun delete_batches :: "string list list \<Rightarrow> unit seff" where
  "delete_batches [] = returnS ()"
| "delete_batches (b # bs) = bindS (delete_batch b) (\<lambda>_. delete_batches bs)"

definition deleteJobObjects :: "ClaimedCleanupJob \<Rightarrow> unit seff" where
  "deleteJobObjects job w sw s =
     (let s1 = s\<lparr>calls := Suc (calls s)\<rparr>
      in case collectObjectKeys (list_objects sw (calls s) (bucket s)) job of
           None \<Rightarrow> None
         | Some (Inl e) \<Rightarrow> Some (Inl e, s1)
         | Some (Inr objectKeys) \<Rightarrow> delete_batches (batches 1000 objectKeys) w sw s1)"

section \<open>Recording the outcome\<close>

definition holds_claim :: "ClaimedCleanupJob \<Rightarrow> job \<Rightarrow> bool" where
  "holds_claim c j \<longleftrightarrow> job_id j = claimed_id c \<and> cleanup_claim_id j = Some (claim_id c)"

definition cleaned_row :: "time \<Rightarrow> job \<Rightarrow> job" where
  "cleaned_row now j =
     j\<lparr>storage_deleted_at := Some now, cleanup_claim_id := None, cleanup_claimed_at := None,
       cleanup_error_message := None, updated_at := now\<rparr>"

definition update_cleaned :: "ClaimedCleanupJob \<Rightarrow> time option list stmt" where
  "update_cleaned c _ now d =
     Inr (map owner_deleted_at (updated_rows (holds_claim c) (cleaned_row now) (jobs d)),
          d\<lparr>jobs := update_where (holds_claim c) (cleaned_row now) (jobs d)\<rparr>)"

definition delete_owner_removed :: "uuid \<Rightarrow> unit stmt" where
  "delete_owner_removed jobId _ _ d =
     Inr ((), d\<lparr>jobs := delete_where (\<lambda>j. job_id j = jobId \<and> owner_deleted_at j \<noteq> None \<and>
                           storage_deleted_at j \<noteq> None) (jobs d)\<rparr>)"

definition markCleanupCompleted_body :: "ClaimedCleanupJob \<Rightarrow> unit eff" where
  "markCleanupCompleted_body c =
     bindM (client_query (update_cleaned c)) (\<lambda>rows.
       case first_row rows of
         None \<Rightarrow> throwM (PlainError (''Cleanup claim was lost for job '' @ claimed_id c))
       | Some ownerDeletedAt \<Rightarrow>
           if ownerDeletedAt \<noteq> None
           then client_query (delete_owner_removed (claimed_id c))
           else returnM ())"

definition markCleanupCompleted :: "ClaimedCleanupJob \<Rightarrow> unit eff" where
  "markCleanupCompleted c = transaction (markCleanupCompleted_body c)"

fun error_message_of :: "error \<Rightarrow> string" where
  "error_message_of (DatabaseError m) = m"
| "error_message_of (UniqueViolation c) = ''duplicate key value violates unique constraint '' @ c"
| "error_message_of (CheckViolation c) = ''violates check constraint '' @ c"
| "error_message_of (ForeignKeyViolation c) = ''violates foreign key constraint '' @ c"
| "error_message_of (DuplicateUploadJobError _) = ''The uploaded audio already has a processing job''"
| "error_message_of (ActiveJobLimitError n) =
     ''The owner already has '' @ show_nat n @ '' active jobs''"
| "error_message_of (UploadValidationError m) = m"
| "error_message_of (ObjectStorageError m) = m"
| "error_message_of (PlainError m) = m"

definition failed_row :: "string \<Rightarrow> time \<Rightarrow> job \<Rightarrow> job" where
  "failed_row m now j =
     j\<lparr>cleanup_claim_id := None, cleanup_claimed_at := None, cleanup_error_message := Some m,
       updated_at := now\<rparr>"

definition update_failed :: "ClaimedCleanupJob \<Rightarrow> string \<Rightarrow> unit stmt" where
  "update_failed c m _ now d =
     Inr ((), d\<lparr>jobs := update_where (holds_claim c) (failed_row m now) (jobs d)\<rparr>)"

definition markCleanupFailed :: "ClaimedCleanupJob \<Rightarrow> error \<Rightarrow> unit eff" where
  "markCleanupFailed c err = pool_query (update_failed c (take 2000 (error_message_of err)))"

section \<open>One batch\<close>

text \<open>The body of the loop: True when the job counts as deleted, False when it failed.\<close>

definition cleanup_job :: "ClaimedCleanupJob \<Rightarrow> bool seff" where
  "cleanup_job c =
     catchS (bindS (deleteJobObjects c) (\<lambda>_.
             bindS (dbS (markCleanupCompleted c)) (\<lambda>_. returnS True)))
       (\<lambda>err. bindS (dbS (markCleanupFailed c err)) (\<lambda>_. returnS False))"

fun cleanup_jobs :: "ClaimedCleanupJob list \<Rightarrow> nat \<Rightarrow> nat \<Rightarrow> (nat \<times> nat) seff" where
  "cleanup_jobs [] deleted failed = returnS (deleted, failed)"
| "cleanup_jobs (c # cs) deleted failed =
     bindS (cleanup_job c) (\<lambda>ok.
       if ok then cleanup_jobs cs (deleted + 1) failed else cleanup_jobs cs deleted (failed + 1))"

definition cleanupExpiredStorageBatch :: "nat \<Rightarrow> nat \<Rightarrow> CleanupBatchResult seff" where
  "cleanupExpiredStorageBatch batchSize claimTimeoutMinutes =
     bindS (dbS (claimExpiredJobs batchSize claimTimeoutMinutes)) (\<lambda>js.
     bindS (cleanup_jobs js 0 0) (\<lambda>(deleted, failed).
       returnS \<lparr>claimed_count = length js, deleted_count = deleted, failed_count = failed\<rparr>))"

section \<open>Listing\<close>

lemma set_set_add [simp]: "set (set_add ks k) = insert k (set ks)"
  by (auto simp: set_add_def)

lemma distinct_set_add: "distinct ks \<Longrightarrow> distinct (set_add ks k)"
  by (simp add: set_add_def)

lemma set_foldl_set_add [simp]: "set (foldl set_add ks xs) = set ks \<union> set xs"
  by (induction xs arbitrary: ks) auto

lemma distinct_foldl_set_add: "distinct ks \<Longrightarrow> distinct (foldl set_add ks xs)"
  by (induction xs arbitrary: ks) (auto intro: distinct_set_add)

lemma known_keys_set:
  "set (known_keys c) = insert (claimed_input_key c)
     (case claimed_result_keys c of None \<Rightarrow> {} | Some m \<Rightarrow> snd ` set m)"
  by (auto simp: known_keys_def split: option.splits)

text \<open>
  The documented behaviour of a listing: following the continuation tokens ends, either with the
  last page, and then the pages together hold every stored key with the prefix, or with a request
  for a page that fails. \<open>page_chain\<close> is the chain of pages, \<open>page_failure\<close> a chain cut by an error.
\<close>

inductive page_chain ::
    "(string option \<Rightarrow> error + list_page) \<Rightarrow> string option \<Rightarrow> list_page list \<Rightarrow> bool"
  for page :: "string option \<Rightarrow> error + list_page" where
  chain_last: "page (if truthy token then token else None) = Inr p \<Longrightarrow> \<not> truthy (page_next p) \<Longrightarrow>
     page_chain page token [p]"
| chain_next: "page (if truthy token then token else None) = Inr p \<Longrightarrow> truthy (page_next p) \<Longrightarrow>
     page_chain page (page_next p) ps \<Longrightarrow> page_chain page token (p # ps)"

inductive page_failure ::
    "(string option \<Rightarrow> error + list_page) \<Rightarrow> string option \<Rightarrow> error \<Rightarrow> bool"
  for page :: "string option \<Rightarrow> error + list_page" where
  fails_now: "page (if truthy token then token else None) = Inl e \<Longrightarrow> page_failure page token e"
| fails_later: "page (if truthy token then token else None) = Inr p \<Longrightarrow> truthy (page_next p) \<Longrightarrow>
     page_failure page (page_next p) e \<Longrightarrow> page_failure page token e"

text \<open>The loop returns: with the keys of all pages, or with the error that cut the chain.\<close>

lemma list_pages_failure:
  "page_failure page token e \<Longrightarrow> list_pages page token ks = Some (Inl e)"
proof (induction arbitrary: ks rule: page_failure.induct)
  case (fails_now token e)
  then show ?case by (subst list_pages.simps) simp
next
  case (fails_later token p e)
  then show ?case by (subst list_pages.simps) (simp add: Let_def)
qed

lemma list_pages_chain:
  "page_chain page token ps \<Longrightarrow>
     \<exists>ks'. list_pages page token ks = Some (Inr ks') \<and>
       set ks' = set ks \<union> (\<Union>p \<in> set ps. set (page_objects p)) \<and>
       (distinct ks \<longrightarrow> distinct ks')"
proof (induction arbitrary: ks rule: page_chain.induct)
  case (chain_last token p)
  then show ?case
    by (subst list_pages.simps) (auto simp: distinct_foldl_set_add)
next
  case (chain_next token p ps)
  obtain ks' where "list_pages page (page_next p) (foldl set_add ks (page_objects p)) = Some (Inr ks')"
    "set ks' = set (foldl set_add ks (page_objects p)) \<union> (\<Union>p \<in> set ps. set (page_objects p))"
    "distinct (foldl set_add ks (page_objects p)) \<longrightarrow> distinct ks'"
    using chain_next.IH by blast
  then show ?case
    using chain_next.hyps by (subst list_pages.simps) (auto simp: distinct_foldl_set_add Let_def)
qed

section \<open>Batches\<close>

lemma concat_batches: "n \<noteq> 0 \<Longrightarrow> concat (batches n xs) = xs"
proof (induction n xs rule: batches.induct)
  case (1 n xs)
  then show ?case by (subst batches.simps) (auto simp: append_take_drop_id)
qed

lemma batches_bounds: "b \<in> set (batches n xs) \<Longrightarrow> b \<noteq> [] \<and> length b \<le> n"
proof (induction n xs rule: batches.induct)
  case (1 n xs)
  from "1.prems" have "xs \<noteq> []" "n \<noteq> 0" by (subst (asm) batches.simps, auto split: if_splits)+
  with 1 show ?case by (subst (asm) (2) batches.simps) auto
qed

section \<open>Deleting\<close>

text \<open>
  The documented behaviour of the store: a deletion removes only keys it was asked for, adds
  none, and one that reports no error has removed them all; every listing ends, and one of which no
  request fails is complete for its prefix. Any request may fail.
\<close>

definition store_ok :: "store_world \<Rightarrow> bool" where
  "store_ok sw \<longleftrightarrow>
     (\<forall>n ks b. set (delete_effect sw n ks b) \<subseteq> set b \<and> set b - set ks \<subseteq> set (delete_effect sw n ks b)) \<and>
     (\<forall>n ks b. delete_answer sw n ks = Inr [] \<longrightarrow> set (delete_effect sw n ks b) \<inter> set ks = {}) \<and>
     (\<forall>n b pre. (\<exists>e. page_failure (list_objects sw n b pre) None e) \<or>
        (\<exists>ps. page_chain (list_objects sw n b pre) None ps \<and>
           (\<Union>p \<in> set ps. set (page_objects p)) = {k \<in> set b. k \<noteq> [] \<and> startsWith k pre}))"

lemma store_okD:
  assumes "store_ok sw"
  shows "set (delete_effect sw n ks b) \<subseteq> set b"
    and "delete_answer sw n ks = Inr [] \<Longrightarrow> set (delete_effect sw n ks b) \<inter> set ks = {}"
    and "(\<exists>e. page_failure (list_objects sw n b pre) None e) \<or>
        (\<exists>ps. page_chain (list_objects sw n b pre) None ps \<and>
           (\<Union>p \<in> set ps. set (page_objects p)) = {k \<in> set b. k \<noteq> [] \<and> startsWith k pre})"
  using assms unfolding store_ok_def by blast+

lemma delete_batches_result:
  assumes "store_ok sw" "delete_batches bs w sw s = Some (r, s')"
  shows "sx s' = sx s \<and> set (bucket s') \<subseteq> set (bucket s) \<and>
     (\<forall>u. r = Inr u \<longrightarrow> set (bucket s') \<inter> set (concat bs) = {})"
  using assms(2)
proof (induction bs arbitrary: s)
  case Nil
  then show ?case by (simp add: returnS_def)
next
  case (Cons b bs)
  let ?s1 = "s\<lparr>calls := Suc (calls s), bucket := delete_effect sw (calls s) b (bucket s)\<rparr>"
  have sub: "set (bucket ?s1) \<subseteq> set (bucket s)" using store_okD(1)[OF assms(1)] by simp
  show ?case
  proof (cases "delete_answer sw (calls s) b = Inr []")
    case True
    then have "delete_batches bs w sw ?s1 = Some (r, s')"
      using Cons.prems by (simp add: bindS_def delete_batch_def Let_def)
    from Cons.IH[OF this] sub store_okD(2)[OF assms(1) True] show ?thesis by fastforce
  next
    case False
    then show ?thesis using Cons.prems sub
      by (auto simp: bindS_def delete_batch_def Let_def split: sum.splits if_splits)
  qed
qed

lemma result_prefix_nonempty: "startsWith k (result_prefix i) \<Longrightarrow> k \<noteq> []"
  by (auto simp: startsWith_def result_prefix_def)

lemma collectObjectKeys_result:
  assumes "store_ok sw"
  shows "(\<exists>e. collectObjectKeys (list_objects sw n b) c = Some (Inl e)) \<or>
    (\<exists>ks. collectObjectKeys (list_objects sw n b) c = Some (Inr ks) \<and> distinct ks \<and>
       set ks = set (known_keys c) \<union> {k \<in> set b. startsWith k (result_prefix (claimed_id c))})"
proof -
  let ?pre = "result_prefix (claimed_id c)"
  have ne: "{k \<in> set b. k \<noteq> [] \<and> startsWith k ?pre} = {k \<in> set b. startsWith k ?pre}"
    by (rule Collect_cong) (metis result_prefix_nonempty)
  consider e where "page_failure (list_objects sw n b ?pre) None e"
    | ps where "page_chain (list_objects sw n b ?pre) None ps"
        "(\<Union>p \<in> set ps. set (page_objects p)) = {k \<in> set b. startsWith k ?pre}"
    using store_okD(3)[OF assms, of n b ?pre] unfolding ne by blast
  then show ?thesis
  proof cases
    case 1
    then show ?thesis using list_pages_failure by (auto simp: collectObjectKeys_def)
  next
    case 2
    have "distinct (known_keys c)" by (simp add: known_keys_def distinct_foldl_set_add)
    then show ?thesis
      using list_pages_chain[OF 2(1), of "known_keys c"] 2(2) by (auto simp: collectObjectKeys_def)
  qed
qed

text \<open>The keys of a job that a successful deletion has removed.\<close>

definition job_objects_gone :: "ClaimedCleanupJob \<Rightarrow> string list \<Rightarrow> bool" where
  "job_objects_gone c b \<longleftrightarrow>
     (\<forall>k \<in> set b. k \<notin> set (known_keys c) \<and> \<not> startsWith k (result_prefix (claimed_id c)))"

lemma job_objects_gone_mono: "job_objects_gone c b \<Longrightarrow> set b' \<subseteq> set b \<Longrightarrow> job_objects_gone c b'"
  by (auto simp: job_objects_gone_def)

lemma deleteJobObjects_returns:
  assumes "store_ok sw"
  shows "\<exists>r s'. deleteJobObjects c w sw s = Some (r, s')"
proof -
  have "\<exists>r s'. delete_batches bs w sw s = Some (r, s')" for bs s
  proof (induction bs arbitrary: s)
    case (Cons b bs)
    then show ?case
      by (auto simp: bindS_def delete_batch_def Let_def split: option.splits sum.splits prod.splits)
  qed (simp add: returnS_def)
  then show ?thesis
    using collectObjectKeys_result[OF assms, of "calls s" "bucket s" c]
    by (auto simp: deleteJobObjects_def Let_def)
qed

lemma deleteJobObjects_result:
  assumes "store_ok sw" "deleteJobObjects c w sw s = Some (r, s')"
  shows "sx s' = sx s \<and> set (bucket s') \<subseteq> set (bucket s) \<and>
     (\<forall>u. r = Inr u \<longrightarrow> job_objects_gone c (bucket s'))"
proof (cases "\<exists>e. collectObjectKeys (list_objects sw (calls s) (bucket s)) c = Some (Inl e)")
  case True
  then show ?thesis using assms(2) by (auto simp: deleteJobObjects_def Let_def)
next
  case False
  then obtain ks where k: "collectObjectKeys (list_objects sw (calls s) (bucket s)) c = Some (Inr ks)"
    and set: "set ks = set (known_keys c) \<union> {k \<in> set (bucket s). startsWith k (result_prefix (claimed_id c))}"
    using collectObjectKeys_result[OF assms(1)] by blast
  have "delete_batches (batches 1000 ks) w sw (s\<lparr>calls := Suc (calls s)\<rparr>) = Some (r, s')"
    using assms(2) k by (simp add: deleteJobObjects_def Let_def)
  from delete_batches_result[OF assms(1) this] concat_batches[of 1000 ks] set
  show ?thesis by (fastforce simp: job_objects_gone_def)
qed

section \<open>Claims on the tables\<close>

definition claimed_db :: "nat \<Rightarrow> nat \<Rightarrow> (nat \<Rightarrow> uuid) \<Rightarrow> time \<Rightarrow> database \<Rightarrow> database" where
  "claimed_db batchSize tmo uuids now d =
     d\<lparr>jobs := map (\<lambda>j. case map_of (claim_of uuids (cleanup_candidates batchSize tmo now d)) (job_id j) of
                    None \<Rightarrow> j | Some c \<Rightarrow> claimed_row c now j) (jobs d)\<rparr>"

lemma claimExpiredJobs_Inr:
  assumes "claimExpiredJobs batchSize tmo w s = (Inr cs, s')"
  shows "db s' = claimed_db batchSize tmo (random_uuid w (tick s)) (stmt_now w s) (db s) \<and>
     cs = map (\<lambda>(k, j). claimed_job (random_uuid w (tick s) k) j)
       (enumerate 0 (cleanup_candidates batchSize tmo (stmt_now w s) (db s)))"
  using assms
  by (auto simp: claimExpiredJobs_def pool_query_def update_claims_def claimed_db_def effect_simps Let_def)

lemma candidates_due:
  "j \<in> set (cleanup_candidates batchSize tmo now d) \<Longrightarrow> j \<in> set (jobs d) \<and> cleanup_due tmo now j"
  by (auto simp: cleanup_candidates_def dest!: in_set_takeD)

lemma length_candidates: "length (cleanup_candidates batchSize tmo now d) \<le> batchSize"
  by (simp add: cleanup_candidates_def)

lemma claimed_row_simps [simp]:
  "job_id (claimed_row c t j) = job_id j" "storage_deleted_at (claimed_row c t j) = storage_deleted_at j"
  "input_object_key (claimed_row c t j) = input_object_key j"
  "result_object_keys (claimed_row c t j) = result_object_keys j"
  "cleanup_claimed_at (claimed_row c t j) = Some t" "cleanup_claim_id (claimed_row c t j) = Some c"
  "status (claimed_row c t j) = status j"
  by (simp_all add: claimed_row_def)

lemma claim_of_keys: "map fst (claim_of uuids cands) = map job_id cands"
  by (rule nth_equalityI) (simp_all add: claim_of_def nth_enumerate_eq)

lemma claim_of_SomeD:
  "map_of (claim_of uuids cands) i = Some c \<Longrightarrow> i \<in> job_id ` set cands"
proof -
  assume "map_of (claim_of uuids cands) i = Some c"
  then have "i \<in> set (map fst (claim_of uuids cands))" by (force dest: map_of_SomeD)
  then show ?thesis unfolding claim_of_keys by simp
qed

lemma claim_of_None: "map_of (claim_of uuids cands) i = None \<longleftrightarrow> i \<notin> job_id ` set cands"
proof -
  have "map_of (claim_of uuids cands) i = None \<longleftrightarrow> i \<notin> set (map fst (claim_of uuids cands))"
    by (simp add: map_of_eq_None_iff)
  then show ?thesis unfolding claim_of_keys by simp
qed

lemma due_not_active: "job_ok j \<Longrightarrow> cleanup_due tmo now j \<Longrightarrow> \<not> active_status (status j)"
  by (auto simp: job_ok_def cleanup_due_def split: option.splits)

lemma job_ok_claimed: "job_ok j \<Longrightarrow> \<not> active_status (status j) \<Longrightarrow> job_ok (claimed_row c t j)"
  by (auto simp: job_ok_def claimed_row_def)

lemma jobs_ok_map:
  assumes "jobs_ok js" "\<And>j. job_id (f j) = job_id j" "\<And>j. j \<in> set js \<Longrightarrow> job_ok j \<Longrightarrow> job_ok (f j)"
  shows "jobs_ok (map f js)"
proof -
  have "job_id \<circ> f = job_id" using assms(2) by (simp add: fun_eq_iff)
  then show ?thesis using assms(1,3) by (auto simp: jobs_ok_def list_all_iff)
qed

text \<open>What a claim does to a row, in terms of the row alone.\<close>

lemma claimed_db_row:
  assumes "db_ok d" "j \<in> set (jobs d)"
  shows "map_of (claim_of uuids (cleanup_candidates b tmo now d)) (job_id j) \<noteq> None \<longleftrightarrow>
     j \<in> set (cleanup_candidates b tmo now d)"
proof -
  let ?cs = "cleanup_candidates b tmo now d"
  have "j \<in> set ?cs" if h: "job_id j \<in> job_id ` set ?cs"
  proof -
    obtain x where x: "x \<in> set ?cs" "job_id j = job_id x" using h by blast
    then have "x = j"
      using candidates_due[OF x(1)] assms job_unique[of "jobs d" x j] by (simp add: db_ok_def)
    then show ?thesis using x(1) by simp
  qed
  then have "job_id j \<in> job_id ` set ?cs \<longleftrightarrow> j \<in> set ?cs" by blast
  then show ?thesis by (simp only: claim_of_None not_not)
qed

lemma claimed_db_ok:
  assumes "db_ok d"
  shows "db_ok (claimed_db b tmo uuids now d)"
proof -
  let ?f = "\<lambda>j. case map_of (claim_of uuids (cleanup_candidates b tmo now d)) (job_id j) of
                    None \<Rightarrow> j | Some c \<Rightarrow> claimed_row c now j"
  have "jobs_ok (map ?f (jobs d))"
  proof (rule jobs_ok_map)
    show "jobs_ok (jobs d)" using assms by (simp add: db_ok_def)
    show "job_id (?f j) = job_id j" for j by (simp split: option.split)
    show "job_ok (?f j)" if h: "j \<in> set (jobs d)" "job_ok j" for j
    proof (cases "map_of (claim_of uuids (cleanup_candidates b tmo now d)) (job_id j)")
      case None
      then show ?thesis using h by simp
    next
      case (Some c)
      then have "j \<in> set (cleanup_candidates b tmo now d)"
        using claimed_db_row[OF assms h(1), of uuids b tmo now] by simp
      then have "\<not> active_status (status j)" using h(2) candidates_due due_not_active by blast
      then show ?thesis using Some h(2) by (simp add: job_ok_claimed)
    qed
  qed
  then show ?thesis using assms by (simp add: db_ok_def claimed_db_def)
qed

section \<open>Outcomes on the tables\<close>

lemma cleaned_row_simps [simp]:
  "job_id (cleaned_row t j) = job_id j" "owner_deleted_at (cleaned_row t j) = owner_deleted_at j"
  "storage_deleted_at (cleaned_row t j) = Some t" "status (cleaned_row t j) = status j"
  by (simp_all add: cleaned_row_def)

lemma failed_row_simps [simp]:
  "job_id (failed_row m t j) = job_id j" "storage_deleted_at (failed_row m t j) = storage_deleted_at j"
  "input_object_key (failed_row m t j) = input_object_key j"
  "result_object_keys (failed_row m t j) = result_object_keys j"
  by (simp_all add: failed_row_def)

lemma job_ok_cleaned: "job_ok j \<Longrightarrow> cleanup_claim_id j \<noteq> None \<Longrightarrow> job_ok (cleaned_row t j)"
  by (auto simp: job_ok_def cleaned_row_def)

lemma job_ok_failed: "job_ok j \<Longrightarrow> job_ok (failed_row m t j)"
  unfolding job_ok_def failed_row_def by auto

lemma markCleanupCompleted_txn: "in_txn (markCleanupCompleted_body c)" "straight (markCleanupCompleted_body c)"
  unfolding markCleanupCompleted_body_def
  by (intro in_txn_bind in_txn_query in_txn_option in_txn_if in_txn_throw in_txn_return
      straight_bind straight_query straight_option straight_if straight_throw straight_return)+

interpretation mark_completed: atomic_service "markCleanupCompleted c" for c
  unfolding markCleanupCompleted_def
  by (rule transaction_atomic_service) (rule markCleanupCompleted_txn)

lemma update_cleaned_preserves [preserves_intros]: "stmt_preserves db_ok (update_cleaned c)"
  by (rule stmt_preservesI)
    (auto simp: update_cleaned_def db_ok_def holds_claim_def intro!: jobs_ok_update job_ok_cleaned)

lemma delete_owner_removed_preserves [preserves_intros]: "stmt_preserves db_ok (delete_owner_removed i)"
  by (rule stmt_preservesI) (auto simp: delete_owner_removed_def db_ok_def intro: jobs_ok_delete)

lemma update_failed_preserves [preserves_intros]: "stmt_preserves db_ok (update_failed c m)"
  by (rule stmt_preservesI)
    (auto simp: update_failed_def db_ok_def intro!: jobs_ok_update job_ok_failed)

lemma markCleanupCompleted_preserves: "preserves db_ok (markCleanupCompleted c)"
  unfolding markCleanupCompleted_def markCleanupCompleted_body_def by (intro preserves_intros)

lemma markCleanupFailed_preserves: "preserves db_ok (markCleanupFailed c err)"
  unfolding markCleanupFailed_def pool_query_def by (intro preserves_intros)

text \<open>A completion that returns found its claim.\<close>

lemma markCleanupCompleted_success:
  assumes "idle s" "markCleanupCompleted c w s = (Inr x, s')"
  shows "(\<exists>j \<in> set (jobs (db s)). holds_claim c j) \<and>
     (\<forall>j \<in> set (jobs (db s)). job_id j \<noteq> claimed_id c \<longrightarrow> j \<in> set (jobs (db s')))"
proof -
  obtain s1 where b: "markCleanupCompleted_body c w (txn_start w s) = (Inr x, s1)"
    and d: "db s' = db s1"
    using transaction_InrD[OF markCleanupCompleted_txn assms(1)]
      assms(2)[unfolded markCleanupCompleted_def] by metis
  let ?now = "clock w (Suc (tick s))"
  let ?js = "update_where (holds_claim c) (cleaned_row ?now) (jobs (db s))"
  have "updated_rows (holds_claim c) (cleaned_row ?now) (jobs (db s)) \<noteq> []"
    using b by (auto simp: markCleanupCompleted_body_def effect_simps update_cleaned_def)
  then have found: "\<exists>j \<in> set (jobs (db s)). holds_claim c j" by (simp add: updated_rows_empty_iff)
  have js: "jobs (db s1) = ?js \<or> jobs (db s1) = delete_where (\<lambda>j. job_id j = claimed_id c \<and>
      owner_deleted_at j \<noteq> None \<and> storage_deleted_at j \<noteq> None) ?js"
    using b by (auto simp: markCleanupCompleted_body_def effect_simps update_cleaned_def
        delete_owner_removed_def split: option.splits if_splits)
  have "j \<in> set (jobs (db s1))" if "j \<in> set (jobs (db s))" "job_id j \<noteq> claimed_id c" for j
  proof -
    have "j \<in> set ?js" using that by (auto simp: set_update_where holds_claim_def)
    then show ?thesis using js that(2) by (auto simp: delete_where_def)
  qed
  then show ?thesis using found d by simp
qed

text \<open>A completion whose claim is gone fails and changes nothing.\<close>

lemma markCleanupCompleted_stale:
  assumes "idle s" "\<forall>j \<in> set (jobs (db s)). \<not> holds_claim c j"
  shows "\<exists>e s'. markCleanupCompleted c w s = (Inl e, s') \<and> db s' = db s"
proof -
  obtain r s' where run: "markCleanupCompleted c w s = (r, s')" by fastforce
  show ?thesis
  proof (cases r)
    case (Inl e)
    then show ?thesis using run mark_completed.op_error[OF assms(1)] by blast
  next
    case (Inr x)
    then show ?thesis using markCleanupCompleted_success[OF assms(1)] run assms(2) by blast
  qed
qed

lemma markCleanupFailed_run:
  assumes "markCleanupFailed c err w s = (r, s')"
  shows "(\<forall>e. r = Inl e \<longrightarrow> db s' = db s) \<and>
     (\<forall>x. r = Inr x \<longrightarrow> jobs (db s') = update_where (holds_claim c)
        (failed_row (take 2000 (error_message_of err)) (stmt_now w s)) (jobs (db s)))"
  using assms
  by (cases r) (auto simp: markCleanupFailed_def pool_query_def update_failed_def effect_simps
      dest!: client_query_Inl)

section \<open>One job, one batch\<close>

text \<open>A row that still has its objects, before and after.\<close>

definition still_stored :: "job \<Rightarrow> database \<Rightarrow> bool" where
  "still_stored j d \<longleftrightarrow>
     (\<exists>k \<in> set (jobs d). job_id k = job_id j \<and> storage_deleted_at k = None)"

lemma idle_db_ok:
  assumes "preserves db_ok m" "idle s" "db_ok (db s)" "m w s = (r, s')" "idle s'"
  shows "db_ok (db s')"
  using preserves_db[OF assms(1,2,3), of w] assms(4,5) by simp

lemma pool_query_idle: "idle s \<Longrightarrow> pool_query q w s = (r, s') \<Longrightarrow> idle s'"
  using client_query_idle[of s q w] by (simp add: pool_query_def)

definition sweep_inv :: "store_exec \<Rightarrow> bool" where
  "sweep_inv s \<longleftrightarrow> idle (sx s) \<and> db_ok (db (sx s))"

lemma mark_failed_step:
  assumes "sweep_inv s" "dbS (markCleanupFailed c err) w sw s = Some (r, s')"
  shows "sweep_inv s' \<and> bucket s' = bucket s \<and>
     (\<forall>j. still_stored j (db (sx s)) \<longrightarrow> still_stored j (db (sx s')))"
proof -
  obtain e where m: "markCleanupFailed c err w (sx s) = (r, e)" and s': "s' = s\<lparr>sx := e\<rparr>"
    using assms(2) by (auto simp: dbS_def split: prod.splits)
  have i: "idle e"
    using pool_query_idle[OF _ m[unfolded markCleanupFailed_def]] assms(1) by (simp add: sweep_inv_def)
  have "db_ok (db e)"
    using idle_db_ok[OF markCleanupFailed_preserves _ _ m i] assms(1) by (simp add: sweep_inv_def)
  moreover have "still_stored j (db e)" if "still_stored j (db (sx s))" for j
  proof (cases r)
    case (Inl x)
    then show ?thesis using markCleanupFailed_run[OF m] that by simp
  next
    case (Inr x)
    obtain k where k: "k \<in> set (jobs (db (sx s)))" "job_id k = job_id j" "storage_deleted_at k = None"
      using \<open>still_stored j (db (sx s))\<close> by (auto simp: still_stored_def)
    let ?f = "failed_row (take 2000 (error_message_of err)) (stmt_now w (sx s))"
    have "(if holds_claim c k then ?f k else k) \<in> set (jobs (db e))"
      using markCleanupFailed_run[OF m] Inr k(1) by (simp add: update_where_def)
    then show ?thesis
      using k by (intro bexI[of _ "if holds_claim c k then ?f k else k"] still_stored_def[THEN iffD2]) simp_all
  qed
  ultimately show ?thesis using i s' by (simp add: sweep_inv_def)
qed

lemma mark_completed_step:
  assumes "sweep_inv s" "dbS (markCleanupCompleted c) w sw s = Some (r, s')"
  shows "sweep_inv s' \<and> bucket s' = bucket s \<and>
     (\<forall>j. still_stored j (db (sx s)) \<longrightarrow>
        still_stored j (db (sx s')) \<or> ((\<exists>x. r = Inr x) \<and> job_id j = claimed_id c))"
proof -
  obtain e where m: "markCleanupCompleted c w (sx s) = (r, e)" and s': "s' = s\<lparr>sx := e\<rparr>"
    using assms(2) by (auto simp: dbS_def split: prod.splits)
  have id: "idle (sx s)" "db_ok (db (sx s))" using assms(1) by (simp_all add: sweep_inv_def)
  have i: "idle e" using mark_completed.op_idle[OF id(1), of c w] m by simp
  have ok: "db_ok (db e)" by (rule idle_db_ok[OF markCleanupCompleted_preserves id m i])
  have "still_stored j (db e) \<or> ((\<exists>x. r = Inr x) \<and> job_id j = claimed_id c)"
    if st: "still_stored j (db (sx s))" for j
  proof (cases r)
    case (Inl x)
    then show ?thesis using mark_completed.op_error[OF id(1)] m st by auto
  next
    case (Inr x)
    obtain k where k: "k \<in> set (jobs (db (sx s)))" "job_id k = job_id j" "storage_deleted_at k = None"
      using st by (auto simp: still_stored_def)
    then show ?thesis
      using markCleanupCompleted_success[OF id(1)] m Inr unfolding still_stored_def by metis
  qed
  then show ?thesis using i ok s' by (simp add: sweep_inv_def)
qed

lemma cleanup_job_step:
  assumes "store_ok sw" "sweep_inv s" "cleanup_job c w sw s = Some (r, s')"
  shows "sweep_inv s' \<and> set (bucket s') \<subseteq> set (bucket s) \<and>
     (\<forall>j. still_stored j (db (sx s)) \<longrightarrow>
        still_stored j (db (sx s')) \<or> (job_id j = claimed_id c \<and> job_objects_gone c (bucket s')))"
proof -
  obtain rd s1 where d: "deleteJobObjects c w sw s = Some (rd, s1)"
    using deleteJobObjects_returns[OF assms(1)] by blast
  note dd = deleteJobObjects_result[OF assms(1) d]
  have inv1: "sweep_inv s1" using assms(2) dd by (simp add: sweep_inv_def)
  have failed: ?thesis if f: "bindS (dbS (markCleanupFailed c err)) (\<lambda>_. returnS False) w sw s2 = Some (r, s')"
    and s2: "sweep_inv s2" "bucket s2 = bucket s1"
      "\<forall>j. still_stored j (db (sx s1)) \<longrightarrow> still_stored j (db (sx s2))" for err s2
  proof -
    obtain r3 where "dbS (markCleanupFailed c err) w sw s2 = Some (r3, s')"
      using f by (auto simp: bindS_def returnS_def split: option.splits sum.splits)
    from mark_failed_step[OF s2(1) this] s2 dd show ?thesis by auto
  qed
  show ?thesis
  proof (cases rd)
    case (Inl err)
    then show ?thesis
      using assms(3) d inv1 failed[of err s1] by (simp add: cleanup_job_def catchS_def bindS_def)
  next
    case (Inr u)
    obtain rc s2 where c: "dbS (markCleanupCompleted c) w sw s1 = Some (rc, s2)"
      by (cases "markCleanupCompleted c w (sx s1)") (simp add: dbS_def)
    note cc = mark_completed_step[OF inv1 c]
    show ?thesis
    proof (cases rc)
      case (Inl err)
      then show ?thesis
        using assms(3) d Inr c cc failed[of err s2]
        by (simp add: cleanup_job_def catchS_def bindS_def)
    next
      case ok: (Inr x)
      then have "s' = s2" using assms(3) d Inr c
        by (simp add: cleanup_job_def catchS_def bindS_def returnS_def)
      then show ?thesis using cc dd Inr by auto
    qed
  qed
qed

lemma cleanup_jobs_step:
  assumes "store_ok sw" "sweep_inv s" "cleanup_jobs cs a b w sw s = Some (r, s')"
  shows "sweep_inv s' \<and> set (bucket s') \<subseteq> set (bucket s) \<and>
     (\<forall>j. still_stored j (db (sx s)) \<longrightarrow> still_stored j (db (sx s')) \<or>
        (\<exists>c \<in> set cs. job_id j = claimed_id c \<and> job_objects_gone c (bucket s'))) \<and>
     (\<forall>a' b'. r = Inr (a', b') \<longrightarrow> a' + b' = a + b + length cs)"
  using assms(2,3)
proof (induction cs arbitrary: s a b)
  case Nil
  then show ?case by (auto simp: returnS_def)
next
  case (Cons c cs)
  show ?case
  proof (cases "cleanup_job c w sw s")
    case None
    then show ?thesis using Cons.prems by (simp add: bindS_def)
  next
    case (Some p)
    obtain r1 s1 where j: "cleanup_job c w sw s = Some (r1, s1)" using Some by (cases p) simp
    note step = cleanup_job_step[OF assms(1) Cons.prems(1) j]
    show ?thesis
    proof (cases r1)
      case (Inl e)
      then show ?thesis using Cons.prems(2) j step by (auto simp: bindS_def)
    next
      case (Inr ok)
      obtain a1 b1 where rest: "cleanup_jobs cs a1 b1 w sw s1 = Some (r, s')" and n: "a1 + b1 = a + b + 1"
        using Cons.prems(2) j Inr by (cases ok) (auto simp: bindS_def)
      note ih = Cons.IH[OF conjunct1[OF step] rest]
      have "still_stored j' (db (sx s')) \<or> (\<exists>c' \<in> set (c # cs). job_id j' = claimed_id c' \<and> job_objects_gone c' (bucket s'))"
        if "still_stored j' (db (sx s))" for j'
        using that step ih job_objects_gone_mono by (metis list.set_intros(1,2))
      then show ?thesis using step ih n by auto
    qed
  qed
qed

section \<open>Batches: safety, completeness, return\<close>

lemma claim_step:
  assumes "sweep_inv s" "claimExpiredJobs n tmo w (sx s) = (Inr cs, e)"
  shows "sweep_inv (s\<lparr>sx := e\<rparr>)"
    and "still_stored j (db (sx s)) \<Longrightarrow> still_stored j (db e)"
    and "c \<in> set cs \<Longrightarrow> \<exists>j u. j \<in> set (jobs (db (sx s))) \<and> cleanup_due tmo (stmt_now w (sx s)) j \<and>
      c = claimed_job u j"
    and "length cs \<le> n"
proof -
  note c = claimExpiredJobs_Inr[OF assms(2)]
  have "idle e" using pool_query_idle[OF _ assms(2)[unfolded claimExpiredJobs_def]] assms(1)
    by (simp add: sweep_inv_def)
  then show "sweep_inv (s\<lparr>sx := e\<rparr>)"
    using c claimed_db_ok assms(1) by (simp add: sweep_inv_def)
  show "still_stored j (db e)" if st: "still_stored j (db (sx s))"
  proof -
    obtain k where k: "k \<in> set (jobs (db (sx s)))" "job_id k = job_id j" "storage_deleted_at k = None"
      using st by (auto simp: still_stored_def)
    let ?f = "\<lambda>j. case map_of (claim_of (random_uuid w (tick (sx s)))
        (cleanup_candidates n tmo (stmt_now w (sx s)) (db (sx s)))) (job_id j) of
        None \<Rightarrow> j | Some c \<Rightarrow> claimed_row c (stmt_now w (sx s)) j"
    have "?f k \<in> set (jobs (db e))" using c k(1) by (simp add: claimed_db_def)
    moreover have "job_id (?f k) = job_id j \<and> storage_deleted_at (?f k) = None"
      using k(2,3) by (simp split: option.split)
    ultimately show ?thesis unfolding still_stored_def by blast
  qed
  show "\<exists>j u. j \<in> set (jobs (db (sx s))) \<and> cleanup_due tmo (stmt_now w (sx s)) j \<and> c = claimed_job u j"
    if h: "c \<in> set cs"
  proof -
    obtain k j where "(k, j) \<in> set (enumerate 0 (cleanup_candidates n tmo (stmt_now w (sx s)) (db (sx s))))"
      "c = claimed_job (random_uuid w (tick (sx s)) k) j"
      using h c by auto
    moreover from this(1) have "j \<in> set (cleanup_candidates n tmo (stmt_now w (sx s)) (db (sx s)))"
      by (auto simp: in_set_enumerate_eq)
    ultimately show ?thesis using candidates_due by blast
  qed
  show "length cs \<le> n" using c length_candidates[of n] by simp
qed

lemma cleanup_batch_step:
  assumes "store_ok sw" "sweep_inv s" "cleanupExpiredStorageBatch n tmo w sw s = Some (r, s')"
    and "still_stored j (db (sx s))"
  shows "still_stored j (db (sx s')) \<or>
     (\<exists>k u. k \<in> set (jobs (db (sx s))) \<and> job_id k = job_id j \<and>
        cleanup_due tmo (stmt_now w (sx s)) k \<and> job_objects_gone (claimed_job u k) (bucket s'))"
proof -
  obtain rc e where c: "claimExpiredJobs n tmo w (sx s) = (rc, e)" by fastforce
  show ?thesis
  proof (cases rc)
    case (Inl x)
    have "db e = db (sx s)"
      using c Inl by (auto simp: claimExpiredJobs_def pool_query_def dest!: client_query_Inl)
    moreover have "sx s' = e" using assms(3) c Inl
      by (auto simp: cleanupExpiredStorageBatch_def bindS_def dbS_def)
    ultimately show ?thesis using assms(4) by simp
  next
    case (Inr cs)
    with c have c: "claimExpiredJobs n tmo w (sx s) = (Inr cs, e)" by simp
    note cl = claim_step[OF assms(2) c]
    obtain r1 where j: "cleanup_jobs cs 0 0 w sw (s\<lparr>sx := e\<rparr>) = Some (r1, s')"
      using assms(3) c
      by (auto simp: cleanupExpiredStorageBatch_def bindS_def dbS_def returnS_def split: option.splits sum.splits)
    have "still_stored j (db (sx (s\<lparr>sx := e\<rparr>)))" using cl(2) assms(4) by simp
    then have "still_stored j (db (sx s')) \<or>
        (\<exists>c \<in> set cs. job_id j = claimed_id c \<and> job_objects_gone c (bucket s'))"
      using cleanup_jobs_step[OF assms(1) cl(1) j] by blast
    moreover have "\<exists>k u. k \<in> set (jobs (db (sx s))) \<and> job_id k = job_id j \<and>
        cleanup_due tmo (stmt_now w (sx s)) k \<and> job_objects_gone (claimed_job u k) (bucket s')"
      if h: "c \<in> set cs" "job_id j = claimed_id c" "job_objects_gone c (bucket s')" for c
    proof -
      obtain k u where "k \<in> set (jobs (db (sx s)))" "cleanup_due tmo (stmt_now w (sx s)) k" "c = claimed_job u k"
        using cl(3)[OF h(1)] by blast
      then show ?thesis using h by (intro exI[of _ k] exI[of _ u]) (simp add: claimed_job_def)
    qed
    ultimately show ?thesis by blast
  qed
qed

lemma known_keys_claimed:
  "set (known_keys (claimed_job u j)) = insert (input_object_key j)
     (case result_object_keys j of None \<Rightarrow> {} | Some m \<Rightarrow> snd ` set m)"
  by (simp add: known_keys_set claimed_job_def split: option.split)

lemma bindS_returns:
  "(\<exists>r s1. m w sw s = Some (r, s1)) \<Longrightarrow> (\<And>a s1. \<exists>r s2. f a w sw s1 = Some (r, s2)) \<Longrightarrow>
     \<exists>r s2. bindS m f w sw s = Some (r, s2)"
  by (auto simp: bindS_def split: sum.split)

lemma catchS_returns:
  "(\<exists>r s1. m w sw s = Some (r, s1)) \<Longrightarrow> (\<And>e s1. \<exists>r s2. h e w sw s1 = Some (r, s2)) \<Longrightarrow>
     \<exists>r s2. catchS m h w sw s = Some (r, s2)"
  by (auto simp: catchS_def split: sum.split)

lemma dbS_returns: "\<exists>r s1. dbS m w sw s = Some (r, s1)"
  by (auto simp: dbS_def split: prod.split)

lemma returnS_returns: "\<exists>r s1. returnS a w sw s = Some (r, s1)"
  by (simp add: returnS_def)

lemma cleanup_job_returns:
  assumes "store_ok sw"
  shows "\<exists>r s'. cleanup_job c w sw s = Some (r, s')"
  unfolding cleanup_job_def
  by (intro catchS_returns bindS_returns deleteJobObjects_returns[OF assms] dbS_returns returnS_returns)

lemma cleanup_jobs_returns:
  assumes "store_ok sw"
  shows "\<exists>r s'. cleanup_jobs cs a b w sw s = Some (r, s')"
proof (induction cs arbitrary: a b s)
  case Nil
  then show ?case by (simp add: returnS_def)
next
  case (Cons c cs)
  show ?case
    unfolding cleanup_jobs.simps
  proof (rule bindS_returns)
    show "\<exists>r s1. cleanup_job c w sw s = Some (r, s1)" by (rule cleanup_job_returns[OF assms])
    show "\<exists>r s2. (if ok then cleanup_jobs cs (a + 1) b else cleanup_jobs cs a (b + 1)) w sw s1 = Some (r, s2)"
      for ok s1
      using Cons.IH by (cases ok) simp_all
  qed
qed

lemma cleanup_batch_returns:
  assumes "store_ok sw"
  shows "\<exists>r s'. cleanupExpiredStorageBatch n tmo w sw s = Some (r, s')"
  unfolding cleanupExpiredStorageBatch_def
  by (intro bindS_returns dbS_returns cleanup_jobs_returns[OF assms])
    (simp add: returnS_def split: prod.split)

lemma cleanup_batch_counts:
  assumes "store_ok sw" "sweep_inv s" "cleanupExpiredStorageBatch n tmo w sw s = Some (Inr res, s')"
  shows "claimed_count res = deleted_count res + failed_count res \<and> claimed_count res \<le> n"
proof -
  obtain cs e where c: "claimExpiredJobs n tmo w (sx s) = (Inr cs, e)"
    using assms(3) by (cases "claimExpiredJobs n tmo w (sx s)")
      (auto simp: cleanupExpiredStorageBatch_def bindS_def dbS_def split: sum.splits)
  obtain a b where j: "cleanup_jobs cs 0 0 w sw (s\<lparr>sx := e\<rparr>) = Some (Inr (a, b), s')"
    and res: "res = \<lparr>claimed_count = length cs, deleted_count = a, failed_count = b\<rparr>"
    using assms(3) c
    by (auto simp: cleanupExpiredStorageBatch_def bindS_def dbS_def returnS_def split: option.splits sum.splits)
  show ?thesis
    using cleanup_jobs_step[OF assms(1) claim_step(1)[OF assms(2) c] j] claim_step(4)[OF assms(2) c] res
    by simp
qed

section \<open>Exclusive claims\<close>

lemma claim_excludes:
  assumes "db_ok d" "j \<in> set (cleanup_candidates n tmo now d)" "later \<le> now + minutes tmo"
  shows "job_id j \<notin> job_id ` set (cleanup_candidates m tmo later (claimed_db n tmo uuids now d))"
proof
  assume "job_id j \<in> job_id ` set (cleanup_candidates m tmo later (claimed_db n tmo uuids now d))"
  then obtain x where x: "x \<in> set (cleanup_candidates m tmo later (claimed_db n tmo uuids now d))"
    "job_id x = job_id j" by (metis imageE)
  note xd = candidates_due[OF x(1)]
  let ?f = "\<lambda>j. case map_of (claim_of uuids (cleanup_candidates n tmo now d)) (job_id j) of
                    None \<Rightarrow> j | Some c \<Rightarrow> claimed_row c now j"
  obtain y where y: "y \<in> set (jobs d)" "x = ?f y" using xd by (auto simp: claimed_db_def)
  have "job_id (?f y) = job_id y" by (simp split: option.split)
  then have "job_id y \<in> job_id ` set (cleanup_candidates n tmo now d)" using x(2) y(2) assms(2) by simp
  then have "map_of (claim_of uuids (cleanup_candidates n tmo now d)) (job_id y) \<noteq> None"
    using claim_of_None by metis
  then have "cleanup_claimed_at x = Some now" using y(2) by auto
  then show False using xd assms(3) by (simp add: cleanup_due_def split: option.splits)
qed

section \<open>Properties\<close>

text \<open>C13: objects are deleted before they are forgotten, whichever listings, deletions and queries
  fail: after a batch, a job whose storage was not
  yet recorded as removed either still is in the table in that state, or was due when the
  batch began (expired, unclaimed or with a timed-out claim) and none of its objects, neither
  its upload nor a known result nor anything under its result prefix, is in the store.\<close>

theorem cleanup_deletes_first:
  assumes "store_ok sw" "idle (sx s)" "db_ok (db (sx s))"
    and "cleanupExpiredStorageBatch n tmo w sw s = Some (r, s')"
    and "j \<in> set (jobs (db (sx s)))" "storage_deleted_at j = None"
  shows "(\<exists>k \<in> set (jobs (db (sx s'))). job_id k = job_id j \<and> storage_deleted_at k = None) \<or>
     (cleanup_due tmo (stmt_now w (sx s)) j \<and>
      input_object_key j \<notin> set (bucket s') \<and>
      (\<forall>m. result_object_keys j = Some m \<longrightarrow> snd ` set m \<inter> set (bucket s') = {}) \<and>
      (\<forall>k \<in> set (bucket s'). \<not> startsWith k (result_prefix (job_id j))))"
proof -
  have inv: "sweep_inv s" using assms(2,3) by (simp add: sweep_inv_def)
  have st: "still_stored j (db (sx s))" using assms(5,6) by (auto simp: still_stored_def)
  consider "still_stored j (db (sx s'))"
    | k u where "k \<in> set (jobs (db (sx s)))" "job_id k = job_id j"
        "cleanup_due tmo (stmt_now w (sx s)) k" "job_objects_gone (claimed_job u k) (bucket s')"
    using cleanup_batch_step[OF assms(1) inv assms(4) st] by blast
  then show ?thesis
  proof cases
    case 1
    then show ?thesis by (simp add: still_stored_def)
  next
    case 2
    have "k = j" using assms(3,5) 2(1,2) job_unique[of "jobs (db (sx s))"] by (auto simp: db_ok_def)
    with 2 have due: "cleanup_due tmo (stmt_now w (sx s)) j"
      and gone: "\<And>x. x \<in> set (bucket s') \<Longrightarrow> x \<notin> set (known_keys (claimed_job u j)) \<and>
        \<not> startsWith x (result_prefix (job_id j))"
      by (auto simp: job_objects_gone_def claimed_job_def)
    have "\<forall>m. result_object_keys j = Some m \<longrightarrow> snd ` set m \<inter> set (bucket s') = {}"
    proof (intro allI impI)
      fix m
      assume m: "result_object_keys j = Some m"
      have "x \<notin> snd ` set m" if "x \<in> set (bucket s')" for x
        using gone[OF that] m unfolding known_keys_claimed by simp
      then show "snd ` set m \<inter> set (bucket s') = {}" by blast
    qed
    moreover have "input_object_key j \<notin> set (bucket s')"
      using gone[of "input_object_key j"] unfolding known_keys_claimed by blast
    ultimately show ?thesis using due gone by blast
  qed
qed

text \<open>A store of one page per prefix that deletes what it is asked to.\<close>

definition sample_store :: store_world where
  "sample_store = \<lparr>
     list_objects = (\<lambda>_ b pre _. Inr \<lparr>page_keys = map Some (filter (\<lambda>k. startsWith k pre) b), page_next = None\<rparr>),
     delete_answer = (\<lambda>_ _. Inr []),
     delete_effect = (\<lambda>_ ks b. filter (\<lambda>k. k \<notin> set ks) b)\<rparr>"

lemma sample_store_ok: "store_ok sample_store"
proof -
  have "page_chain (list_objects sample_store n b pre) None
      [\<lparr>page_keys = map Some (filter (\<lambda>k. startsWith k pre) b), page_next = None\<rparr>]" for n b pre
    by (rule chain_last) (simp_all add: sample_store_def truthy_def)
  moreover have "set (page_objects \<lparr>page_keys = map Some (filter (\<lambda>k. startsWith k pre) b), page_next = None\<rparr>) =
      {k \<in> set b. k \<noteq> [] \<and> startsWith k pre}" for b :: "string list" and pre
    by (force simp: page_objects_def truthy_def)
  ultimately show ?thesis
    unfolding store_ok_def
    by (intro conjI allI) (auto simp: sample_store_def intro!: exI)
qed

definition sample_sweep :: store_exec where
  "sample_sweep = \<lparr>sx = idle_exec sample_db,
     bucket = [''uploads/j2.mp3'', ''results/j2/vocals.wav'', ''uploads/j1.mp3''], calls = 0\<rparr>"

definition late_world :: world where
  "late_world = quiet_world\<lparr>clock := (\<lambda>t. 10000 + 1000 * int t)\<rparr>"

lemma cleanup_deletes_first_witness:
  "\<exists>r s'. cleanupExpiredStorageBatch 25 15 late_world sample_store sample_sweep = Some (r, s') \<and>
     ((\<exists>k \<in> set (jobs (db (sx s'))). job_id k = ''j1'' \<and> storage_deleted_at k = None) \<or>
      ''uploads/j1.mp3'' \<notin> set (bucket s'))"
proof -
  obtain r s' where run: "cleanupExpiredStorageBatch 25 15 late_world sample_store sample_sweep = Some (r, s')"
    using cleanup_batch_returns[OF sample_store_ok] by blast
  have "sample_job ''j1'' ''u1'' PENDING \<in> set (jobs (db (sx sample_sweep)))"
    "storage_deleted_at (sample_job ''j1'' ''u1'' PENDING) = None"
    "idle (sx sample_sweep)" "db_ok (db (sx sample_sweep))"
    using sample_db_ok by (simp_all add: sample_sweep_def sample_db_def sample_job_def)
  from cleanup_deletes_first[OF sample_store_ok this(3,4) run this(1,2)] run
  show ?thesis by (intro exI[of _ r] exI[of _ s']) (auto simp: sample_job_def)
qed

text \<open>C25: cleanup returns: when the pages of a listing come to an end, with the last page or with a
  failing request, every batch comes to an end whatever listings, deletions and queries fail on
  the way, and one that is not interrupted accounts for every job it claimed, at most as many
  as asked for.\<close>

theorem cleanup_returns:
  assumes "store_ok sw" "idle (sx s)" "db_ok (db (sx s))"
  shows "\<exists>r s'. cleanupExpiredStorageBatch n tmo w sw s = Some (r, s') \<and>
     (case r of Inl e \<Rightarrow> True
      | Inr res \<Rightarrow> claimed_count res = deleted_count res + failed_count res \<and> claimed_count res \<le> n)"
proof -
  obtain r s' where run: "cleanupExpiredStorageBatch n tmo w sw s = Some (r, s')"
    using cleanup_batch_returns[OF assms(1)] by blast
  have "sweep_inv s" using assms(2,3) by (simp add: sweep_inv_def)
  note inv = this
  show ?thesis
  proof (cases r)
    case (Inl e)
    then show ?thesis using run by auto
  next
    case (Inr res)
    then show ?thesis
      using run cleanup_batch_counts[OF assms(1) inv, of n tmo w res s'] by auto
  qed
qed

text \<open>The example: a store that is out of order.\<close>

definition broken_store :: store_world where
  "broken_store = sample_store\<lparr>list_objects := (\<lambda>_ _ _ _. Inl (ObjectStorageError ''unavailable''))\<rparr>"

lemma broken_store_ok: "store_ok broken_store"
proof -
  have "page_failure (list_objects broken_store n b pre) None (ObjectStorageError ''unavailable'')" for n b pre
    by (rule fails_now) (simp add: broken_store_def)
  then show ?thesis
    using sample_store_ok unfolding store_ok_def by (auto simp: broken_store_def)
qed

lemma cleanup_returns_witness:
  "\<exists>r s'. cleanupExpiredStorageBatch 25 15 late_world broken_store sample_sweep = Some (r, s') \<and>
     (case r of Inl e \<Rightarrow> True
      | Inr res \<Rightarrow> claimed_count res = deleted_count res + failed_count res \<and> claimed_count res \<le> 25)"
  using cleanup_returns[OF broken_store_ok, of sample_sweep 25 15 late_world] sample_db_ok
  by (simp add: sample_sweep_def)

text \<open>A lost claim completes nothing: when the claim of a cleanup attempt is no longer on the
  row, because it timed out and was taken over, recording its completion fails and leaves
  every table as it was.\<close>

theorem stale_claim_completes_nothing:
  assumes "idle s" "\<forall>j \<in> set (jobs (db s)). job_id j = claimed_id c \<longrightarrow> cleanup_claim_id j \<noteq> Some (claim_id c)"
  shows "\<exists>e s'. markCleanupCompleted c w s = (Inl e, s') \<and> db s' = db s \<and> idle s'"
proof -
  have "\<forall>j \<in> set (jobs (db s)). \<not> holds_claim c j" using assms(2) by (auto simp: holds_claim_def)
  from markCleanupCompleted_stale[OF assms(1) this] obtain e s' where
    run: "markCleanupCompleted c w s = (Inl e, s')" "db s' = db s" by blast
  moreover have "idle s'" using mark_completed.op_idle[OF assms(1), of c w] run(1) by simp
  ultimately show ?thesis by blast
qed

lemma stale_claim_completes_nothing_witness:
  "\<exists>e s'. markCleanupCompleted (claimed_job ''old'' (sample_job ''j2'' ''u1'' COMPLETED)) late_world
     (idle_exec sample_db) = (Inl e, s') \<and> db s' = sample_db"
proof -
  have "\<forall>j \<in> set (jobs (db (idle_exec sample_db))).
      job_id j = claimed_id (claimed_job ''old'' (sample_job ''j2'' ''u1'' COMPLETED)) \<longrightarrow>
      cleanup_claim_id j \<noteq> Some (claim_id (claimed_job ''old'' (sample_job ''j2'' ''u1'' COMPLETED)))"
    by (simp add: sample_db_def sample_job_def claimed_job_def new_job_def)
  from stale_claim_completes_nothing[OF _ this, of late_world] show ?thesis by auto
qed

text \<open>Claims are exclusive: until the claim timeout has passed, no later claim, whatever its
  batch size, selects a job that an earlier one has claimed.\<close>

theorem claims_exclusive:
  assumes "db_ok (db s)" "claimExpiredJobs n tmo w s = (Inr cs, s1)"
    and "later \<le> stmt_now w s + minutes tmo"
  shows "claimed_id ` set cs \<inter> job_id ` set (cleanup_candidates m tmo later (db s1)) = {}"
proof -
  note c = claimExpiredJobs_Inr[OF assms(2)]
  have "i \<notin> job_id ` set (cleanup_candidates m tmo later (db s1))" if i: "i \<in> claimed_id ` set cs" for i
  proof -
    obtain k j where "(k, j) \<in> set (enumerate 0 (cleanup_candidates n tmo (stmt_now w s) (db s)))" "i = job_id j"
      using i c by (auto simp: claimed_job_def)
    then have "j \<in> set (cleanup_candidates n tmo (stmt_now w s) (db s))" by (auto simp: in_set_enumerate_eq)
    then show ?thesis
      using claim_excludes[OF assms(1) _ assms(3)] c \<open>i = job_id j\<close> by simp
  qed
  then show ?thesis by blast
qed

lemma claims_exclusive_witness:
  "\<exists>cs s1. claimExpiredJobs 25 15 late_world (idle_exec sample_db) = (Inr cs, s1) \<and> map claimed_id cs = [''j2''] \<and>
     ''j2'' \<notin> job_id ` set (cleanup_candidates 25 15 20000 (db s1))"
proof -
  let ?run = "claimExpiredJobs 25 15 late_world (idle_exec sample_db)"
  have f: "fst ?run = Inr [claimed_job [] (sample_job ''j2'' ''u1'' COMPLETED)]" by code_simp
  note run = run_of_fst[OF f]
  have "20000 \<le> stmt_now late_world (idle_exec sample_db) + minutes 15"
    by (simp add: stmt_now_def idle_exec_def late_world_def minutes_def)
  from claims_exclusive[OF _ run this, of 25] sample_db_ok
  have "''j2'' \<notin> job_id ` set (cleanup_candidates 25 15 20000 (db (snd ?run)))"
    by (simp add: claimed_job_def sample_job_def)
  moreover have "map claimed_id [claimed_job [] (sample_job ''j2'' ''u1'' COMPLETED)] = [''j2'']"
    by (simp add: claimed_job_def sample_job_def)
  ultimately show ?thesis using run by metis
qed

text \<open>Deletion requests are bounded and complete: the batches sent to the store are never empty
  and never exceed the service's limit of 1000 keys, and together they are exactly the
  collected keys in order, each once.\<close>

theorem deletion_batches:
  "concat (batches 1000 ks) = ks \<and> (\<forall>b \<in> set (batches 1000 ks). b \<noteq> [] \<and> length b \<le> 1000)"
  using concat_batches[of 1000 ks] batches_bounds[of _ 1000 ks] by simp

lemma deletion_batches_witness: "concat (batches 1000 [''a'', ''b'']) = [''a'', ''b'']"
  using deletion_batches[of "[''a'', ''b'']"] by blast

end
