(* ===== verification/Outbox.thy ===== *)
theory Outbox
  imports Cleanup Config
begin

text \<open>
  backend/src/kafka/outboxPublisher.ts and producer.ts: the publisher that moves pending outbox
  rows to Kafka. The broker is a log of messages and a service whose answers are parameters: a
  send is acknowledged only when the broker stored the message, and a send that reports an
  error may have stored it all the same. \<open>row_locked\<close> are the rows SKIP LOCKED passes over. The
  last part is the life cycle of the publisher (interval ticks, start, stop) as a machine.
\<close>

section \<open>The broker\<close>

record kafka_message =
  msg_topic :: string
  msg_key :: string
  msg_value :: "(string \<times> string) list"

datatype send_outcome = Acked | Lost error | Unacked error

record kafka_world =
  connect_error :: "nat \<Rightarrow> error option"
  disconnect_error :: "nat \<Rightarrow> error option"
  send_result :: "nat \<Rightarrow> kafka_message \<Rightarrow> send_outcome"
  row_locked :: "nat \<Rightarrow> uuid \<Rightarrow> bool"

record publisher =
  px :: exec
  broker :: "kafka_message list"
  kcalls :: nat
  connectionPromise :: bool
  isPublishing :: bool
  batch_failures :: nat

type_synonym 'a peff = "world \<Rightarrow> kafka_world \<Rightarrow> publisher \<Rightarrow> (error + 'a) \<times> publisher"

definition returnP :: "'a \<Rightarrow> 'a peff" where
  "returnP a w kw s = (Inr a, s)"

definition throwP :: "error \<Rightarrow> 'a peff" where
  "throwP e w kw s = (Inl e, s)"

definition bindP :: "'a peff \<Rightarrow> ('a \<Rightarrow> 'b peff) \<Rightarrow> 'b peff" where
  "bindP m f w kw s =
     (case m w kw s of (Inl e, s1) \<Rightarrow> (Inl e, s1) | (Inr a, s1) \<Rightarrow> f a w kw s1)"

definition catchP :: "'a peff \<Rightarrow> (error \<Rightarrow> 'a peff) \<Rightarrow> 'a peff" where
  "catchP m h w kw s =
     (case m w kw s of (Inl e, s1) \<Rightarrow> h e w kw s1 | (Inr a, s1) \<Rightarrow> (Inr a, s1))"

text \<open>\<open>try { m } finally { f }\<close> where \<open>f\<close> only updates the state.\<close>

definition finallyP :: "'a peff \<Rightarrow> (publisher \<Rightarrow> publisher) \<Rightarrow> 'a peff" where
  "finallyP m f w kw s = (case m w kw s of (r, s1) \<Rightarrow> (r, f s1))"

definition dbP :: "'a eff \<Rightarrow> 'a peff" where
  "dbP m w kw s = (case m w (px s) of (r, x) \<Rightarrow> (r, s\<lparr>px := x\<rparr>))"

section \<open>The producer\<close>

definition connectKafkaProducer :: "unit peff" where
  "connectKafkaProducer w kw s =
     (if connectionPromise s then (Inr (), s)
      else let s1 = s\<lparr>kcalls := Suc (kcalls s)\<rparr>
           in case connect_error kw (kcalls s) of
                Some e \<Rightarrow> (Inl e, s1\<lparr>connectionPromise := False\<rparr>)
              | None \<Rightarrow> (Inr (), s1\<lparr>connectionPromise := True\<rparr>))"

definition disconnectKafkaProducer :: "unit peff" where
  "disconnectKafkaProducer w kw s =
     (if \<not> connectionPromise s then (Inr (), s)
      else let s1 = s\<lparr>kcalls := Suc (kcalls s), connectionPromise := False\<rparr>
           in case disconnect_error kw (kcalls s) of Some e \<Rightarrow> (Inl e, s1) | None \<Rightarrow> (Inr (), s1))"

definition producer_send :: "kafka_message \<Rightarrow> unit peff" where
  "producer_send m w kw s =
     (let s1 = s\<lparr>kcalls := Suc (kcalls s)\<rparr>
      in case send_result kw (kcalls s) m of
           Acked \<Rightarrow> (Inr (), s1\<lparr>broker := broker s @ [m]\<rparr>)
         | Lost e \<Rightarrow> (Inl e, s1)
         | Unacked e \<Rightarrow> (Inl e, s1\<lparr>broker := broker s @ [m]\<rparr>))"

section \<open>Statements\<close>

definition pending_events :: "(uuid \<Rightarrow> bool) \<Rightarrow> outbox_event list \<Rightarrow> outbox_event list" where
  "pending_events locked es =
     take 10 (sort_key event_created_at
       (filter (\<lambda>e. event_status e = EvPENDING \<and> \<not> locked (event_id e)) es))"

definition select_pending :: "(uuid \<Rightarrow> bool) \<Rightarrow> outbox_event list stmt" where
  "select_pending locked _ _ d = Inr (pending_events locked (outbox_events d), d)"

definition published_row :: "time \<Rightarrow> outbox_event \<Rightarrow> outbox_event" where
  "published_row now e = e\<lparr>event_status := EvPUBLISHED, published_at := Some now, last_error := None\<rparr>"

definition update_published :: "uuid \<Rightarrow> unit stmt" where
  "update_published i _ now d =
     Inr ((), d\<lparr>outbox_events :=
                update_where (\<lambda>e. event_id e = i) (published_row now) (outbox_events d)\<rparr>)"

definition attempted_row :: "string \<Rightarrow> outbox_event \<Rightarrow> outbox_event" where
  "attempted_row m e = e\<lparr>attempts := attempts e + 1, last_error := Some m\<rparr>"

definition update_attempted :: "uuid \<Rightarrow> string \<Rightarrow> unit stmt" where
  "update_attempted i m _ now d =
     Inr ((), d\<lparr>outbox_events :=
                update_where (\<lambda>e. event_id e = i) (attempted_row m) (outbox_events d)\<rparr>)"

section \<open>One pass\<close>

definition message_of :: "outbox_event \<Rightarrow> kafka_message" where
  "message_of e = \<lparr>msg_topic = topic e, msg_key = event_key e, msg_value = payload e\<rparr>"

definition publish_event :: "outbox_event \<Rightarrow> unit peff" where
  "publish_event e =
     catchP (bindP (producer_send (message_of e)) (\<lambda>_.
             dbP (client_query (update_published (event_id e)))))
       (\<lambda>err. dbP (client_query (update_attempted (event_id e) (error_message_of err))))"

fun publish_events :: "outbox_event list \<Rightarrow> unit peff" where
  "publish_events [] = returnP ()"
| "publish_events (e # es) = bindP (publish_event e) (\<lambda>_. publish_events es)"

definition client_connect :: "unit eff" where
  "client_connect w s =
     (let s1 = s\<lparr>tick := Suc (tick s)\<rparr>
      in if query_fails w (tick s) then (Inl (DatabaseError ''connect failed''), s1)
         else (Inr (), s1\<lparr>clients := Suc (clients s)\<rparr>))"

definition client_release :: "publisher \<Rightarrow> publisher" where
  "client_release s = s\<lparr>px := (px s)\<lparr>clients := clients (px s) - 1\<rparr>\<rparr>"

definition publish_batch :: "unit peff" where
  "publish_batch =
     bindP (dbP client_begin) (\<lambda>_. \<lambda>w kw s.
     bindP (dbP (client_query (select_pending (row_locked kw (tick (px s)))))) (\<lambda>events.
     bindP (publish_events events) (\<lambda>_.
     dbP client_commit)) w kw s)"

definition publish_pass :: "unit peff" where
  "publish_pass =
     bindP connectKafkaProducer (\<lambda>_.
     bindP (dbP client_connect) (\<lambda>_.
     finallyP (catchP publish_batch (\<lambda>e. bindP (dbP client_rollback) (\<lambda>_. throwP e)))
       client_release))"

definition publishPendingOutboxEvents :: "world \<Rightarrow> kafka_world \<Rightarrow> publisher \<Rightarrow> publisher" where
  "publishPendingOutboxEvents w kw s =
     (if isPublishing s then s
      else case publish_pass w kw (s\<lparr>isPublishing := True\<rparr>) of
             (Inl e, s1) \<Rightarrow> s1\<lparr>batch_failures := Suc (batch_failures s1), isPublishing := False\<rparr>
           | (Inr _, s1) \<Rightarrow> s1\<lparr>isPublishing := False\<rparr>)"

definition publishIntervalMs :: "string option \<Rightarrow> js_number" where
  "publishIntervalMs v =
     (case js_Number (env_or v ''500'') of
        Finite q \<Rightarrow> Finite (max 100 q)
      | _ \<Rightarrow> Finite 500)"


section \<open>Invariants of a pass\<close>

text \<open>What a pass never changes: every other table, and of an event what it says.\<close>

definition event_ident :: "outbox_event \<Rightarrow> uuid \<times> kafka_message \<times> time" where
  "event_ident e = (event_id e, message_of e, event_created_at e)"

definition frame :: "database \<Rightarrow> database \<times> (uuid \<times> kafka_message \<times> time) list" where
  "frame d = (d\<lparr>outbox_events := []\<rparr>, map event_ident (outbox_events d))"

text \<open>Every published event is in the broker's log.\<close>

definition published_sent :: "kafka_message list \<Rightarrow> database \<Rightarrow> bool" where
  "published_sent b d \<longleftrightarrow>
     (\<forall>e \<in> set (outbox_events d). event_status e = EvPUBLISHED \<longrightarrow> message_of e \<in> set b)"

definition outbox_good where
  "outbox_good F b d \<longleftrightarrow> frame d = F \<and> published_sent b d"

definition keeps :: "(database \<times> (uuid \<times> kafka_message \<times> time) list) \<Rightarrow> 'a peff \<Rightarrow> bool" where
  "keeps F m \<longleftrightarrow> (\<forall>w kw s. exec_ok (outbox_good F (broker s)) (px s) \<longrightarrow>
     (let s' = snd (m w kw s)
      in exec_ok (outbox_good F (broker s')) (px s') \<and> clients (px s') = clients (px s) \<and>
         (\<exists>ms. broker s' = broker s @ ms) \<and> isPublishing s' = isPublishing s))"

lemma row_simps [simp]:
  "event_id (published_row now e) = event_id e" "message_of (published_row now e) = message_of e"
  "event_created_at (published_row now e) = event_created_at e"
  "event_status (published_row now e) = EvPUBLISHED"
  "event_id (attempted_row m e) = event_id e" "message_of (attempted_row m e) = message_of e"
  "event_created_at (attempted_row m e) = event_created_at e"
  "event_status (attempted_row m e) = event_status e"
  by (simp_all add: published_row_def attempted_row_def message_of_def)

lemma event_ident_rows [simp]:
  "event_ident (published_row now e) = event_ident e" "event_ident (attempted_row m e) = event_ident e"
  by (simp_all add: event_ident_def)

lemma exec_ok_mono: "exec_ok I s \<Longrightarrow> (\<And>d. I d \<Longrightarrow> J d) \<Longrightarrow> exec_ok J s"
  by (auto simp: exec_ok_def split: option.splits)

lemma outbox_good_mono: "outbox_good F b d \<Longrightarrow> outbox_good F (b @ ms) d"
  by (auto simp: outbox_good_def published_sent_def)

lemma keepsD:
  assumes "keeps F m" "exec_ok (outbox_good F (broker s)) (px s)" "m w kw s = (r, s')"
  shows "exec_ok (outbox_good F (broker s')) (px s')" "clients (px s') = clients (px s)"
    "\<exists>ms. broker s' = broker s @ ms" "isPublishing s' = isPublishing s"
proof -
  have "snd (m w kw s) = s'" using assms(3) by simp
  then show "exec_ok (outbox_good F (broker s')) (px s')" "clients (px s') = clients (px s)"
    "\<exists>ms. broker s' = broker s @ ms" "isPublishing s' = isPublishing s"
    using assms(1,2) unfolding keeps_def Let_def by blast+
qed

lemma keepsI:
  assumes "\<And>w kw s r s'. exec_ok (outbox_good F (broker s)) (px s) \<Longrightarrow> m w kw s = (r, s') \<Longrightarrow>
     exec_ok (outbox_good F (broker s')) (px s') \<and> clients (px s') = clients (px s) \<and>
     (\<exists>ms. broker s' = broker s @ ms) \<and> isPublishing s' = isPublishing s"
  shows "keeps F m"
  unfolding keeps_def Let_def using assms by (metis prod.collapse)

lemma keeps_trans:
  assumes "keeps F m" "\<And>a. keeps F (f a)" "exec_ok (outbox_good F (broker s)) (px s)"
    "m w kw s = (r, s1)" "f a w kw s1 = (r2, s2)"
  shows "exec_ok (outbox_good F (broker s2)) (px s2) \<and> clients (px s2) = clients (px s) \<and>
     (\<exists>ms. broker s2 = broker s @ ms) \<and> isPublishing s2 = isPublishing s"
proof -
  note 1 = keepsD[OF assms(1,3,4)]
  note 2 = keepsD[OF assms(2)[of a] 1(1) assms(5)]
  from 1(3) 2(3) have "\<exists>ms. broker s2 = broker s @ ms" by auto
  with 1 2 show ?thesis by simp
qed

lemma keeps_bind [preserves_intros]:
  assumes "keeps F m" "\<And>a. keeps F (f a)"
  shows "keeps F (bindP m f)"
proof (rule keepsI)
  fix w kw s r s'
  assume s: "exec_ok (outbox_good F (broker s)) (px s)" and run: "bindP m f w kw s = (r, s')"
  obtain r1 s1 where m: "m w kw s = (r1, s1)" by fastforce
  show "exec_ok (outbox_good F (broker s')) (px s') \<and> clients (px s') = clients (px s) \<and>
     (\<exists>ms. broker s' = broker s @ ms) \<and> isPublishing s' = isPublishing s"
  proof (cases r1)
    case (Inl e)
    then have "s' = s1" using run m by (simp add: bindP_def)
    then show ?thesis using keepsD[OF assms(1) s m] by simp
  next
    case (Inr a)
    then have "f a w kw s1 = (r, s')" using run m by (simp add: bindP_def)
    then show ?thesis by (rule keeps_trans[OF assms s m])
  qed
qed

lemma keeps_catch [preserves_intros]:
  assumes "keeps F m" "\<And>e. keeps F (h e)"
  shows "keeps F (catchP m h)"
proof (rule keepsI)
  fix w kw s r s'
  assume s: "exec_ok (outbox_good F (broker s)) (px s)" and run: "catchP m h w kw s = (r, s')"
  obtain r1 s1 where m: "m w kw s = (r1, s1)" by fastforce
  show "exec_ok (outbox_good F (broker s')) (px s') \<and> clients (px s') = clients (px s) \<and>
     (\<exists>ms. broker s' = broker s @ ms) \<and> isPublishing s' = isPublishing s"
  proof (cases r1)
    case (Inr a)
    then have "s' = s1" using run m by (simp add: catchP_def)
    then show ?thesis using keepsD[OF assms(1) s m] by simp
  next
    case (Inl e)
    then have "h e w kw s1 = (r, s')" using run m by (simp add: catchP_def)
    then show ?thesis by (rule keeps_trans[OF assms s m])
  qed
qed

lemma keeps_return [preserves_intros]: "keeps F (returnP a)"
  by (rule keepsI) (auto simp: returnP_def)

lemma keeps_throw [preserves_intros]: "keeps F (throwP e)"
  by (rule keepsI) (auto simp: throwP_def)

text \<open>Database operations that leave the client count alone.\<close>

definition same_clients :: "'a eff \<Rightarrow> bool" where
  "same_clients m \<longleftrightarrow> (\<forall>w s. clients (snd (m w s)) = clients s)"

lemma same_clients_ops [preserves_intros]:
  "same_clients (client_query q)" "same_clients client_begin" "same_clients client_commit"
  "same_clients client_rollback"
  by (auto simp: same_clients_def client_begin_def client_commit_def client_rollback_def Let_def)

lemma keeps_db [preserves_intros]:
  assumes "\<And>b. preserves (outbox_good F b) m" "same_clients m"
  shows "keeps F (dbP m)"
proof (rule keepsI)
  fix w kw s r s'
  assume s: "exec_ok (outbox_good F (broker s)) (px s)" and run: "dbP m w kw s = (r, s')"
  obtain x where x: "m w (px s) = (r, x)" "s' = s\<lparr>px := x\<rparr>"
    using run by (auto simp: dbP_def split: prod.splits)
  have "exec_ok (outbox_good F (broker s)) x"
    using assms(1) s x(1) unfolding preserves_def by (metis snd_conv)
  moreover have "clients x = clients (px s)"
    using assms(2) x(1) unfolding same_clients_def by (metis snd_conv)
  ultimately show "exec_ok (outbox_good F (broker s')) (px s') \<and> clients (px s') = clients (px s) \<and>
     (\<exists>ms. broker s' = broker s @ ms) \<and> isPublishing s' = isPublishing s"
    using x(2) by simp
qed

lemma keeps_connect [preserves_intros]: "keeps F connectKafkaProducer"
  by (rule keepsI) (auto simp: connectKafkaProducer_def Let_def split: if_splits option.splits)

lemma keeps_send: "keeps F (producer_send m)"
proof (rule keepsI)
  fix w kw s r s'
  assume s: "exec_ok (outbox_good F (broker s)) (px s)" and run: "producer_send m w kw s = (r, s')"
  have "exec_ok (outbox_good F (broker s @ [m])) (px s)"
    using s by (rule exec_ok_mono) (rule outbox_good_mono)
  then show "exec_ok (outbox_good F (broker s')) (px s') \<and> clients (px s') = clients (px s) \<and>
     (\<exists>ms. broker s' = broker s @ ms) \<and> isPublishing s' = isPublishing s"
    using s run by (auto simp: producer_send_def Let_def split: send_outcome.splits)
qed

text \<open>An update in place of the event rows keeps the frame.\<close>

lemma frame_update:
  assumes "\<And>e. event_ident (f e) = event_ident e"
  shows "frame (d\<lparr>outbox_events := update_where P f (outbox_events d)\<rparr>) = frame d"
  using assms by (simp add: frame_def update_where_def)

lemma attempted_preserves [preserves_intros]:
  "preserves (outbox_good F b) (client_query (update_attempted i m))"
proof (intro preserves_query stmt_preservesI)
  fix u t d a d'
  assume "outbox_good F b d" "update_attempted i m u t d = Inr (a, d')"
  moreover from this have "frame d' = frame d"
    by (auto simp: update_attempted_def intro!: frame_update)
  ultimately show "outbox_good F b d'"
    by (auto simp: outbox_good_def published_sent_def update_attempted_def set_update_where)
qed

lemma select_preserves [preserves_intros]:
  "preserves (outbox_good F b) (client_query (select_pending l))"
  by (intro preserves_query stmt_preservesI) (auto simp: select_pending_def)

text \<open>Once the message is in the log, its row may be marked.\<close>

lemma update_published_good:
  assumes "outbox_good F b d" "distinct (map fst (snd F))" "event_ident e \<in> set (snd F)"
    "message_of e \<in> set b" "update_published (event_id e) u t d = Inr (a, d')"
  shows "outbox_good F b d'"
proof -
  have d': "d' = d\<lparr>outbox_events :=
       update_where (\<lambda>r. event_id r = event_id e) (published_row t) (outbox_events d)\<rparr>"
    using assms(5) by (simp add: update_published_def)
  have fr: "frame d = F" using assms(1) by (simp add: outbox_good_def)
  have same: "message_of r = message_of e" if "r \<in> set (outbox_events d)" "event_id r = event_id e" for r
  proof -
    have "event_ident r \<in> set (snd F)" using that(1) fr by (auto simp: frame_def)
    then have "event_ident r = event_ident e"
      using distinct_key_unique[OF assms(2) _ assms(3)] that(2) by (simp add: event_ident_def)
    then show ?thesis by (simp add: event_ident_def)
  qed
  have "published_sent b d'"
    using assms(1,4) same by (auto simp: published_sent_def outbox_good_def d' set_update_where)
  then show ?thesis using frame_update[of "published_row t"] fr by (simp add: outbox_good_def d')
qed

lemma keeps_publish_event:
  assumes "distinct (map fst (snd F))" "event_ident e \<in> set (snd F)"
  shows "keeps F (publish_event e)"
proof -
  have step: "keeps F (bindP (producer_send (message_of e)) (\<lambda>_.
             dbP (client_query (update_published (event_id e)))))"
  proof (rule keepsI)
    fix w kw s r s'
    assume s: "exec_ok (outbox_good F (broker s)) (px s)"
      and run: "bindP (producer_send (message_of e)) (\<lambda>_.
             dbP (client_query (update_published (event_id e)))) w kw s = (r, s')"
    obtain r1 s1 where m: "producer_send (message_of e) w kw s = (r1, s1)" by fastforce
    note 1 = keepsD[OF keeps_send s m]
    show "exec_ok (outbox_good F (broker s')) (px s') \<and> clients (px s') = clients (px s) \<and>
     (\<exists>ms. broker s' = broker s @ ms) \<and> isPublishing s' = isPublishing s"
    proof (cases r1)
      case (Inl err)
      then have "s' = s1" using run m by (simp add: bindP_def)
      then show ?thesis using 1 by simp
    next
      case (Inr a)
      then have sent: "message_of e \<in> set (broker s1)"
        using m by (auto simp: producer_send_def Let_def split: send_outcome.splits)
      obtain x where x: "client_query (update_published (event_id e)) w (px s1) = (r, x)"
        "s' = s1\<lparr>px := x\<rparr>"
        using run m Inr by (auto simp: bindP_def dbP_def split: prod.splits)
      have "preserves (outbox_good F (broker s1)) (client_query (update_published (event_id e)))"
        by (intro preserves_query stmt_preservesI) (rule update_published_good[OF _ assms sent])
      then have "exec_ok (outbox_good F (broker s1)) x"
        using 1(1) x(1) unfolding preserves_def by (metis snd_conv)
      moreover have "clients x = clients (px s1)"
        using client_query_clients[of "update_published (event_id e)" w "px s1"] x(1) by simp
      ultimately show ?thesis using 1 x(2) by simp
    qed
  qed
  show ?thesis unfolding publish_event_def by (intro keeps_catch step preserves_intros)
qed

lemma keeps_publish_events:
  assumes "distinct (map fst (snd F))" "event_ident ` set es \<subseteq> set (snd F)"
  shows "keeps F (publish_events es)"
  using assms(2) by (induction es) (auto intro!: preserves_intros keeps_publish_event[OF assms(1)])


lemma pending_events_subset:
  "e \<in> set (pending_events l es) \<Longrightarrow>
     e \<in> set es \<and> event_status e = EvPENDING \<and> \<not> l (event_id e)"
  by (auto simp: pending_events_def dest!: in_set_takeD)

text \<open>The statements after BEGIN.\<close>

lemma keeps_selected:
  assumes "distinct (map fst (snd F))"
  shows "keeps F (\<lambda>w kw s. bindP (dbP (client_query (select_pending (row_locked kw (tick (px s))))))
     (\<lambda>events. bindP (publish_events events) (\<lambda>_. dbP client_commit)) w kw s)"
    (is "keeps F ?m")
proof (rule keepsI)
  fix w kw s r s'
  assume s: "exec_ok (outbox_good F (broker s)) (px s)" and run: "?m w kw s = (r, s')"
  let ?q = "dbP (client_query (select_pending (row_locked kw (tick (px s))))) :: outbox_event list peff"
  obtain r1 s1 where m: "?q w kw s = (r1, s1)" by fastforce
  have q: "keeps F ?q" by (intro preserves_intros)
  show "exec_ok (outbox_good F (broker s')) (px s') \<and> clients (px s') = clients (px s) \<and>
     (\<exists>ms. broker s' = broker s @ ms) \<and> isPublishing s' = isPublishing s"
  proof (cases r1)
    case (Inl e)
    then have "s' = s1" using run m by (simp add: bindP_def)
    then show ?thesis using keepsD[OF q s m] by simp
  next
    case (Inr events)
    have ev: "events = pending_events (row_locked kw (tick (px s))) (outbox_events (db (px s)))"
      using m Inr by (auto simp: dbP_def select_pending_def client_query_Inr split: prod.splits)
    have "frame (db (px s)) = F" using s by (simp add: exec_ok_def outbox_good_def)
    then have "event_ident ` set events \<subseteq> set (snd F)"
      using pending_events_subset ev by (fastforce simp: frame_def)
    then have rest: "keeps F (bindP (publish_events events) (\<lambda>_. dbP client_commit))"
      by (intro preserves_intros keeps_publish_events assms)
    have "bindP (publish_events events) (\<lambda>_. dbP client_commit) w kw s1 = (r, s')"
      using run m Inr by (simp add: bindP_def)
    then show ?thesis using keeps_trans[OF q rest s m] by simp
  qed
qed

lemma keeps_batch: "distinct (map fst (snd F)) \<Longrightarrow> keeps F publish_batch"
  unfolding publish_batch_def by (intro keeps_bind keeps_selected) (intro preserves_intros)+

lemma keeps_attempt:
  "distinct (map fst (snd F)) \<Longrightarrow>
     keeps F (catchP publish_batch (\<lambda>e. bindP (dbP client_rollback) (\<lambda>_. throwP e)))"
  by (intro keeps_catch keeps_batch) (auto intro!: preserves_intros)

text \<open>No transaction stays open.\<close>

lemma commit_idle: "client_commit w s = (Inr u, s') \<Longrightarrow> idle s'"
  by (auto simp: client_commit_def idle_def restored_def Let_def split: if_splits)

lemma rollback_idle: "idle (snd (client_rollback w s))"
  by (auto simp: client_rollback_def idle_def restored_def Let_def)

lemma attempt_idle:
  "idle (px (snd (catchP publish_batch (\<lambda>e. bindP (dbP client_rollback) (\<lambda>_. throwP e)) w kw s)))"
proof -
  obtain r s1 where b: "publish_batch w kw s = (r, s1)" by fastforce
  show ?thesis
  proof (cases r)
    case (Inl e)
    then show ?thesis
      using b rollback_idle[of w "px s1"]
      by (auto simp: catchP_def bindP_def dbP_def throwP_def split: prod.splits sum.splits)
  next
    case (Inr u)
    then obtain s2 x where "client_commit w (px s2) = (Inr u, x)" "s1 = s2\<lparr>px := x\<rparr>"
      using b unfolding publish_batch_def bindP_def dbP_def
      by (auto split: prod.splits sum.splits)
    then show ?thesis using b Inr commit_idle by (auto simp: catchP_def)
  qed
qed

lemma client_connect_cases:
  "client_connect w x = (r, x') \<Longrightarrow>
     (r = Inr () \<and> x' = x\<lparr>tick := Suc (tick x), clients := Suc (clients x)\<rparr>) \<or>
     (r = Inl (DatabaseError ''connect failed'') \<and> x' = x\<lparr>tick := Suc (tick x)\<rparr>)"
  by (auto simp: client_connect_def Let_def split: if_splits)

lemma connect_px [simp]:
  "connectKafkaProducer w kw s = (r, s') \<Longrightarrow> px s' = px s \<and> broker s' = broker s \<and>
     isPublishing s' = isPublishing s"
  by (auto simp: connectKafkaProducer_def Let_def split: if_splits option.splits)

lemma pass_keeps:
  assumes F: "distinct (map fst (snd F))" and s: "exec_ok (outbox_good F (broker s)) (px s)"
    and i: "idle (px s)" and run: "publish_pass w kw s = (r, s')"
  shows "exec_ok (outbox_good F (broker s')) (px s') \<and> idle (px s') \<and>
     clients (px s') = clients (px s) \<and> (\<exists>ms. broker s' = broker s @ ms)"
proof -
  obtain r1 s1 where c: "connectKafkaProducer w kw s = (r1, s1)" by fastforce
  obtain r2 x where d: "client_connect w (px s1) = (r2, x)" by fastforce
  have ps: "px s1 = px s" "broker s1 = broker s" using connect_px[OF c] by simp_all
  show ?thesis
  proof (cases "\<exists>e. r1 = Inl e")
    case True
    then have "s' = s1" using run c by (auto simp: publish_pass_def bindP_def)
    then show ?thesis using s i ps by simp
  next
    case False
    then obtain u where r1: "r1 = Inr u" by (cases r1) auto
    show ?thesis
    proof (cases "\<exists>e. r2 = Inl e")
      case True
      then have "s' = s1\<lparr>px := x\<rparr>" "x = (px s)\<lparr>tick := Suc (tick (px s))\<rparr>"
        using run c r1 d client_connect_cases[OF d] ps
        by (auto simp: publish_pass_def bindP_def dbP_def)
      then show ?thesis using s i ps by (simp add: idle_def)
    next
      case False
      then have r2: "r2 = Inr ()" and x: "x = (px s)\<lparr>tick := Suc (tick (px s)), clients := Suc (clients (px s))\<rparr>"
        using client_connect_cases[OF d] ps by auto
      let ?a = "catchP publish_batch (\<lambda>e. bindP (dbP client_rollback) (\<lambda>_. throwP e))"
      obtain r3 s3 where a: "?a w kw (s1\<lparr>px := x\<rparr>) = (r3, s3)" by fastforce
      have s3: "s' = client_release s3"
        using run c r1 d r2 a by (auto simp: publish_pass_def bindP_def dbP_def finallyP_def)
      have ok: "exec_ok (outbox_good F (broker (s1\<lparr>px := x\<rparr>))) (px (s1\<lparr>px := x\<rparr>))"
        using s ps x by simp
      note k = keepsD[OF keeps_attempt[OF F] ok a]
      have "idle (px s3)" using attempt_idle[of w kw "s1\<lparr>px := x\<rparr>"] a by simp
      then show ?thesis using k s3 x ps by (simp add: client_release_def idle_def)
    qed
  qed
qed

text \<open>
  C11: the outbox never claims a delivery that did not happen. Whatever queries, connections
  and sends fail, after a publishing pass every event marked PUBLISHED has its message in the
  broker's log, no event was dropped or rewritten (identity, topic, key, payload and age are
  those of before, as is every other table), the log only grew, no transaction stays open, the
  pooled connection is back and the next pass is allowed.
\<close>

theorem outbox_marks_only_delivered:
  fixes s :: publisher
  assumes "idle (px s)" "\<not> isPublishing s" "distinct (map event_id (outbox_events (db (px s))))"
    "published_sent (broker s) (db (px s))"
  shows "published_sent (broker (publishPendingOutboxEvents w kw s)) (db (px (publishPendingOutboxEvents w kw s)))
     \<and> frame (db (px (publishPendingOutboxEvents w kw s))) = frame (db (px s))
     \<and> (\<exists>ms. broker (publishPendingOutboxEvents w kw s) = broker s @ ms)
     \<and> idle (px (publishPendingOutboxEvents w kw s))
     \<and> clients (px (publishPendingOutboxEvents w kw s)) = clients (px s)
     \<and> \<not> isPublishing (publishPendingOutboxEvents w kw s)"
proof -
  let ?F = "frame (db (px s))"
  let ?s = "s\<lparr>isPublishing := True\<rparr>"
  obtain r s' where run: "publish_pass w kw ?s = (r, s')" by fastforce
  have F: "distinct (map fst (snd ?F))"
    using assms(3) by (simp add: frame_def event_ident_def comp_def)
  have "exec_ok (outbox_good ?F (broker ?s)) (px ?s)" "idle (px ?s)"
    using assms(1,4) by (simp_all add: exec_ok_def outbox_good_def idle_def)
  note k = pass_keeps[OF F this run]
  show ?thesis
    using k run assms(2)
    by (cases r) (auto simp: publishPendingOutboxEvents_def exec_ok_def outbox_good_def)
qed

section \<open>What a pass does to the events\<close>


definition settle :: "time \<Rightarrow> send_outcome \<Rightarrow> outbox_event \<Rightarrow> outbox_event" where
  "settle now o' e =
     (case o' of
        Acked \<Rightarrow> published_row now e
      | Lost err \<Rightarrow> attempted_row (error_message_of err) e
      | Unacked err \<Rightarrow> attempted_row (error_message_of err) e)"

definition stored :: "send_outcome \<Rightarrow> kafka_message \<Rightarrow> kafka_message list" where
  "stored o' m = (case o' of Lost _ \<Rightarrow> [] | _ \<Rightarrow> [m])"

fun settle_events :: "kafka_world \<Rightarrow> time \<Rightarrow> nat \<Rightarrow> outbox_event list \<Rightarrow> outbox_event list \<Rightarrow> outbox_event list" where
  "settle_events kw now n [] rows = rows"
| "settle_events kw now n (e # es) rows =
     settle_events kw now (Suc n) es
       (update_where (\<lambda>r. event_id r = event_id e)
          (settle now (send_result kw n (message_of e))) rows)"

fun sent_log :: "kafka_world \<Rightarrow> nat \<Rightarrow> outbox_event list \<Rightarrow> kafka_message list" where
  "sent_log kw n [] = []"
| "sent_log kw n (e # es) =
     stored (send_result kw n (message_of e)) (message_of e) @ sent_log kw (Suc n) es"

definition calm :: "world \<Rightarrow> kafka_world \<Rightarrow> bool" where
  "calm w kw \<longleftrightarrow> (\<forall>t. \<not> query_fails w t) \<and> (\<forall>n. connect_error kw n = None) \<and>
     (\<forall>t i. \<not> row_locked kw t i)"

definition open_txn :: "exec \<Rightarrow> bool" where
  "open_txn x \<longleftrightarrow> snapshot x \<noteq> None \<and> \<not> aborted x"

lemma settle_ident [simp]: "event_id (settle now o' e) = event_id e"
  by (simp add: settle_def split: send_outcome.splits)

lemma settle_simps:
  "settle now Acked = published_row now"
  "settle now (Lost err) = attempted_row (error_message_of err)"
  "settle now (Unacked err) = attempted_row (error_message_of err)"
  by (rule ext, simp add: settle_def)+

lemma calm_unlocked: "calm w kw \<Longrightarrow> row_locked kw t = (\<lambda>_. False)"
  by (simp add: calm_def fun_eq_iff)

lemma publish_event_calm:
  assumes "calm w kw" "open_txn (px s)"
  shows "publish_event e w kw s =
    (Inr (), s\<lparr>kcalls := Suc (kcalls s),
       broker := broker s @ stored (send_result kw (kcalls s) (message_of e)) (message_of e),
       px := after_query w ((db (px s))\<lparr>outbox_events :=
               update_where (\<lambda>r. event_id r = event_id e)
                 (settle (txn_now (px s)) (send_result kw (kcalls s) (message_of e)))
                 (outbox_events (db (px s)))\<rparr>) (px s)\<rparr>)"
proof (cases "send_result kw (kcalls s) (message_of e)")
  case Acked
  have "client_query (update_published (event_id e)) w (px s) =
    (Inr (), after_query w ((db (px s))\<lparr>outbox_events := update_where (\<lambda>r. event_id r = event_id e)
       (published_row (txn_now (px s))) (outbox_events (db (px s)))\<rparr>) (px s))"
    using assms by (intro client_query_run) (auto simp: calm_def open_txn_def update_published_def)
  then show ?thesis
    using Acked by (simp add: publish_event_def catchP_def bindP_def producer_send_def dbP_def
        stored_def settle_simps Let_def)
next
  case (Lost err)
  have "client_query (update_attempted (event_id e) (error_message_of err)) w (px s) =
    (Inr (), after_query w ((db (px s))\<lparr>outbox_events := update_where (\<lambda>r. event_id r = event_id e)
       (attempted_row (error_message_of err)) (outbox_events (db (px s)))\<rparr>) (px s))"
    using assms by (intro client_query_run) (auto simp: calm_def open_txn_def update_attempted_def)
  then show ?thesis
    using Lost by (simp add: publish_event_def catchP_def bindP_def producer_send_def dbP_def
        stored_def settle_simps Let_def)
next
  case (Unacked err)
  have "client_query (update_attempted (event_id e) (error_message_of err)) w (px s) =
    (Inr (), after_query w ((db (px s))\<lparr>outbox_events := update_where (\<lambda>r. event_id r = event_id e)
       (attempted_row (error_message_of err)) (outbox_events (db (px s)))\<rparr>) (px s))"
    using assms by (intro client_query_run) (auto simp: calm_def open_txn_def update_attempted_def)
  then show ?thesis
    using Unacked by (simp add: publish_event_def catchP_def bindP_def producer_send_def dbP_def
        stored_def settle_simps Let_def)
qed

lemma publish_events_calm:
  assumes "calm w kw" "open_txn (px s)"
  shows "\<exists>s'. publish_events es w kw s = (Inr (), s') \<and> open_txn (px s') \<and>
     broker s' = broker s @ sent_log kw (kcalls s) es \<and> isPublishing s' = isPublishing s \<and>
     connectionPromise s' = connectionPromise s \<and> clients (px s') = clients (px s) \<and>
     outbox_events (db (px s')) =
       settle_events kw (txn_now (px s)) (kcalls s) es (outbox_events (db (px s)))"
  using assms(2)
proof (induction es arbitrary: s)
  case Nil
  then show ?case by (simp add: returnP_def)
next
  case (Cons e es)
  let ?s = "snd (publish_event e w kw s)"
  note r = publish_event_calm[OF assms(1) Cons.prems, of e]
  have o: "open_txn (px ?s)" using Cons.prems by (simp add: r open_txn_def)
  have "txn_now (px ?s) = txn_now (px s)"
    using Cons.prems by (simp add: r open_txn_def)
  then show ?case
    using Cons.IH[OF o] by (simp add: r bindP_def)
qed

text \<open>A pass of a healthy database and connection.\<close>

lemma pass_calm:
  assumes "calm w kw" "idle (px s)" "\<not> isPublishing s"
  shows "\<exists>n now s'. publishPendingOutboxEvents w kw s = s' \<and> idle (px s') \<and> \<not> isPublishing s' \<and>
     broker s' = broker s @ sent_log kw n (pending_events (\<lambda>_. False) (outbox_events (db (px s)))) \<and>
     outbox_events (db (px s')) = settle_events kw now n
       (pending_events (\<lambda>_. False) (outbox_events (db (px s)))) (outbox_events (db (px s)))"
proof -
  let ?rows = "outbox_events (db (px s))"
  let ?es = "pending_events (\<lambda>_. False) ?rows"
  let ?s0 = "s\<lparr>isPublishing := True\<rparr>"
  define s1 where "s1 = (if connectionPromise s then ?s0
     else ?s0\<lparr>kcalls := Suc (kcalls s), connectionPromise := True\<rparr>)"
  have c: "connectKafkaProducer w kw ?s0 = (Inr (), s1)"
    using assms(1) by (simp add: connectKafkaProducer_def calm_def s1_def)
  have s1: "px s1 = px s" "broker s1 = broker s" by (simp_all add: s1_def)
  let ?x = "(px s)\<lparr>tick := Suc (tick (px s)), clients := Suc (clients (px s))\<rparr>"
  let ?y = "?x\<lparr>tick := Suc (tick ?x), txn_now := clock w (tick ?x), snapshot := Some (db (px s)),
     aborted := False\<rparr>"
  have d: "client_connect w (px s1) = (Inr (), ?x)"
    using assms(1) by (simp add: client_connect_def calm_def s1)
  have b: "client_begin w ?x = (Inr (), ?y)"
    using assms(1) by (simp add: client_begin_def calm_def)
  have q: "client_query (select_pending (row_locked kw (tick ?y))) w ?y =
      (Inr ?es, after_query w (db (px s)) ?y)"
    using assms(1) by (intro client_query_run) (auto simp: calm_def select_pending_def calm_unlocked[OF assms(1)])
  let ?z = "s1\<lparr>px := after_query w (db (px s)) ?y\<rparr>"
  have o: "open_txn (px ?z)" by (simp add: open_txn_def)
  obtain s2 where s2: "publish_events ?es w kw ?z = (Inr (), s2)" "open_txn (px s2)"
    "broker s2 = broker s @ sent_log kw (kcalls s1) ?es"
    "outbox_events (db (px s2)) = settle_events kw (txn_now (px ?z)) (kcalls s1) ?es ?rows"
    using publish_events_calm[OF assms(1) o, of ?es] s1 by auto
  have cm: "client_commit w (px s2) = (Inr (), (px s2)\<lparr>tick := Suc (tick (px s2)), snapshot := None\<rparr>)"
    using assms(1) s2(2) by (simp add: client_commit_def calm_def open_txn_def)
  have run: "publish_pass w kw ?s0 = (Inr (), client_release (s2\<lparr>px := (px s2)\<lparr>tick := Suc (tick (px s2)), snapshot := None\<rparr>\<rparr>))"
    using c d b q s2(1) cm
    by (simp add: publish_pass_def bindP_def dbP_def finallyP_def catchP_def publish_batch_def)
  have "idle ((px s2)\<lparr>tick := Suc (tick (px s2)), snapshot := None\<rparr>)"
    using s2(2) by (simp add: idle_def open_txn_def)
  then show ?thesis
    using run s2(3,4) assms(3)
    by (intro exI[of _ "kcalls s1"] exI[of _ "txn_now (px ?z)"])
      (simp add: publishPendingOutboxEvents_def client_release_def idle_def)
qed

text \<open>Each selected event gets the outcome of its own send; the other rows are untouched.\<close>

lemma settle_events_rows:
  "distinct (map event_id es) \<Longrightarrow>
     \<exists>g. settle_events kw now n es rows = map g rows \<and>
       (\<forall>r. event_id r \<notin> event_id ` set es \<longrightarrow> g r = r) \<and>
       (\<forall>e \<in> set es. \<forall>r. event_id r = event_id e \<longrightarrow>
          (\<exists>k. g r = settle now (send_result kw k (message_of e)) r))"
proof (induction es arbitrary: n rows)
  case Nil
  then show ?case by (auto intro!: exI[of _ "\<lambda>r. r"])
next
  case (Cons e es)
  let ?f = "\<lambda>r. if event_id r = event_id e then settle now (send_result kw n (message_of e)) r else r"
  obtain g where g: "settle_events kw now (Suc n) es (map ?f rows) = map g (map ?f rows)"
    "\<And>r. event_id r \<notin> event_id ` set es \<Longrightarrow> g r = r"
    "\<And>e r. e \<in> set es \<Longrightarrow> event_id r = event_id e \<Longrightarrow>
       \<exists>k. g r = settle now (send_result kw k (message_of e)) r"
    using Cons.IH[of "Suc n" "map ?f rows"] Cons.prems by (simp del: map_map) blast
  have id: "event_id (?f r) = event_id r" for r by simp
  show ?case
  proof (intro exI[of _ "g \<circ> ?f"] conjI allI ballI impI)
    show "settle_events kw now n (e # es) rows = map (g \<circ> ?f) rows"
      using g(1) by (simp add: update_where_def)
    fix r :: outbox_event
    assume "event_id r \<notin> event_id ` set (e # es)"
    then show "(g \<circ> ?f) r = r" using g(2)[of r] by simp
  next
    fix a r :: outbox_event
    assume a: "a \<in> set (e # es)" and r: "event_id r = event_id a"
    show "\<exists>k. (g \<circ> ?f) r = settle now (send_result kw k (message_of a)) r"
    proof (cases "a = e")
      case True
      then have "event_id (?f r) \<notin> event_id ` set es" using Cons.prems r by (simp only: id) auto
      then have "g (?f r) = ?f r" by (rule g(2))
      then show ?thesis using True r by auto
    next
      case False
      then have "a \<in> set es" "event_id r \<noteq> event_id e" using a r Cons.prems by force+
      then show ?thesis using g(3)[OF _ r] by simp
    qed
  qed
qed


section \<open>Order of the pending events\<close>

text \<open>Every pending event, oldest first.\<close>

definition backlog :: "outbox_event list \<Rightarrow> outbox_event list" where
  "backlog es = sort_key event_created_at (filter (\<lambda>e. event_status e = EvPENDING) es)"

lemma pending_backlog: "pending_events (\<lambda>_. False) es = take 10 (backlog es)"
  by (simp add: pending_events_def backlog_def)

lemma insort_key_map_same:
  "(\<And>x. x \<in> insert a (set xs) \<Longrightarrow> k (g x) = k x) \<Longrightarrow>
     insort_key k (g a) (map g xs) = map g (insort_key k a xs)"
  by (induction xs) auto

lemma sort_key_map_same:
  "(\<And>x. x \<in> set xs \<Longrightarrow> k (g x) = k x) \<Longrightarrow> sort_key k (map g xs) = map g (sort_key k xs)"
proof (induction xs)
  case (Cons a xs)
  then show ?case using insort_key_map_same[of a "sort_key k xs" k g] by simp
qed simp

text \<open>Rows changed without touching status and age keep their places.\<close>

lemma backlog_map:
  assumes "\<And>r. r \<in> set es \<Longrightarrow> event_status (g r) = event_status r"
    and "\<And>r. r \<in> set es \<Longrightarrow> event_created_at (g r) = event_created_at r"
  shows "backlog (map g es) = map g (backlog es)"
proof -
  have "filter (\<lambda>e. event_status e = EvPENDING) (map g es) =
      map g (filter (\<lambda>e. event_status e = EvPENDING) es)"
    using assms(1) by (induction es) auto
  moreover have "sort_key event_created_at (map g (filter (\<lambda>e. event_status e = EvPENDING) es)) =
      map g (sort_key event_created_at (filter (\<lambda>e. event_status e = EvPENDING) es))"
    by (rule sort_key_map_same) (simp add: assms(2))
  ultimately show ?thesis by (simp add: backlog_def)
qed

lemma distinct_backlog:
  "distinct (map event_id es) \<Longrightarrow> distinct (map event_id (backlog es))"
  by (auto simp: backlog_def distinct_map intro: inj_on_subset)

lemma backlog_subset: "e \<in> set (backlog es) \<Longrightarrow> e \<in> set es \<and> event_status e = EvPENDING"
  by (simp add: backlog_def)

text \<open>Publishing the first ten leaves the rest of the backlog.\<close>

lemma backlog_published:
  assumes d: "distinct (map event_id es)"
    and out: "\<And>r. event_id r \<notin> event_id ` set (take n (backlog es)) \<Longrightarrow> g r = r"
    and pub: "\<And>r. event_id r \<in> event_id ` set (take n (backlog es)) \<Longrightarrow> event_status (g r) = EvPUBLISHED"
  shows "backlog (map g es) = drop n (backlog es)"
proof -
  let ?I = "event_id ` set (take n (backlog es))"
  have 1: "filter (\<lambda>e. event_status e = EvPENDING) (map g rows) =
      filter (\<lambda>e. event_id e \<notin> ?I) (filter (\<lambda>e. event_status e = EvPENDING) rows)" for rows
  proof (induction rows)
    case Nil
    then show ?case by simp
  next
    case (Cons e es')
    then show ?case using out[of e] pub[of e] by (cases "event_id e \<in> ?I") auto
  qed
  have "backlog (map g es) = filter (\<lambda>e. event_id e \<notin> ?I) (backlog es)"
    unfolding backlog_def 1 by (simp add: filter_sort backlog_def)
  also have "\<dots> = filter (\<lambda>e. event_id e \<notin> ?I) (take n (backlog es) @ drop n (backlog es))" by simp
  also have "\<dots> = drop n (backlog es)"
  proof -
    have "distinct (map event_id (take n (backlog es)) @ map event_id (drop n (backlog es)))"
      using distinct_backlog[OF d] by (metis append_take_drop_id map_append)
    then have "\<forall>e \<in> set (drop n (backlog es)). event_id e \<notin> ?I" by auto
    moreover have "filter (\<lambda>e. event_id e \<notin> ?I) (take n (backlog es)) = []"
      by (auto simp: filter_empty_conv)
    ultimately show ?thesis by (simp del: append_take_drop_id)
  qed
  finally show ?thesis .
qed


section \<open>Repeated passes\<close>

text \<open>One pass when the broker acknowledges everything: the ten oldest are gone, in order.\<close>

lemma sent_log_acked:
  "(\<And>k m. send_result kw k m = Acked) \<Longrightarrow> sent_log kw n es = map message_of es"
  by (induction es arbitrary: n) (auto simp: stored_def)

lemma pass_acked:
  assumes "calm w kw" "\<And>k m. send_result kw k m = Acked" "idle (px s)" "\<not> isPublishing s"
    "distinct (map event_id (outbox_events (db (px s))))"
  shows "\<exists>s'. publishPendingOutboxEvents w kw s = s' \<and> idle (px s') \<and> \<not> isPublishing s' \<and>
     broker s' = broker s @ map message_of (take 10 (backlog (outbox_events (db (px s))))) \<and>
     backlog (outbox_events (db (px s'))) = drop 10 (backlog (outbox_events (db (px s)))) \<and>
     distinct (map event_id (outbox_events (db (px s'))))"
proof -
  let ?rows = "outbox_events (db (px s))"
  let ?es = "take 10 (backlog ?rows)"
  obtain n now s' where s': "publishPendingOutboxEvents w kw s = s'" "idle (px s')" "\<not> isPublishing s'"
    "broker s' = broker s @ sent_log kw n ?es"
    "outbox_events (db (px s')) = settle_events kw now n ?es ?rows"
    using pass_calm[OF assms(1,3,4)] unfolding pending_backlog by blast
  have "distinct (map event_id ?es)"
    using distinct_backlog[OF assms(5)] by (simp add: take_map[symmetric])
  then obtain g where g: "settle_events kw now n ?es ?rows = map g ?rows"
    "\<And>r. event_id r \<notin> event_id ` set ?es \<Longrightarrow> g r = r"
    "\<And>e r. e \<in> set ?es \<Longrightarrow> event_id r = event_id e \<Longrightarrow>
        \<exists>k. g r = settle now (send_result kw k (message_of e)) r"
    using settle_events_rows[of ?es kw now n ?rows] by blast
  have pub: "g r = published_row now r" if "event_id r \<in> event_id ` set ?es" for r
    using that g(3)[of _ r] assms(2) by (auto simp: settle_simps)
  have "event_id (g r) = event_id r" for r
    using g(2)[of r] pub[of r] by (cases "event_id r \<in> event_id ` set ?es") auto
  then have "map event_id (map g ?rows) = map event_id ?rows" by simp
  then have "distinct (map event_id (outbox_events (db (px s'))))"
    using assms(5) unfolding s'(5) g(1) by (simp only:)
  moreover have "backlog (map g ?rows) = drop 10 (backlog ?rows)"
    by (rule backlog_published[OF assms(5) g(2)]) (simp_all add: pub)
  ultimately show ?thesis
    using s' g(1) sent_log_acked[OF assms(2)] by (intro exI[of _ s']) simp
qed

lemma passes_acked:
  assumes "calm w kw" "\<And>k m. send_result kw k m = Acked" "idle (px s)" "\<not> isPublishing s"
    "distinct (map event_id (outbox_events (db (px s))))"
  shows "broker ((publishPendingOutboxEvents w kw ^^ k) s) =
       broker s @ map message_of (take (10 * k) (backlog (outbox_events (db (px s))))) \<and>
     backlog (outbox_events (db (px ((publishPendingOutboxEvents w kw ^^ k) s)))) =
       drop (10 * k) (backlog (outbox_events (db (px s))))"
  using assms(3-5)
proof (induction k arbitrary: s)
  case (Suc k)
  let ?b = "backlog (outbox_events (db (px s)))"
  obtain s' where s': "publishPendingOutboxEvents w kw s = s'" "idle (px s')" "\<not> isPublishing s'"
    "broker s' = broker s @ map message_of (take 10 ?b)"
    "backlog (outbox_events (db (px s'))) = drop 10 ?b"
    "distinct (map event_id (outbox_events (db (px s'))))"
    using pass_acked[OF assms(1,2) Suc.prems] by blast
  have "take (10 * Suc k) ?b = take 10 ?b @ take (10 * k) (drop 10 ?b)"
    by (simp add: take_add[symmetric])
  then show ?case
    using Suc.IH[OF s'(2,3,6)] s'
    by (simp add: funpow_Suc_right add.commute[of 10] del: funpow.simps)
qed simp

text \<open>
  C12: the outbox drains, in order. With a healthy database and a broker that acknowledges,
  \<open>k\<close> passes append to the broker's log exactly the messages of the \<open>10 * k\<close> oldest pending
  events, each once and oldest first, and leave the younger ones pending; so as many passes as
  there are tens in the backlog deliver all of it.
\<close>

theorem outbox_drains:
  assumes "calm w kw" "\<forall>k m. send_result kw k m = Acked" "idle (px s)" "\<not> isPublishing s"
    "distinct (map event_id (outbox_events (db (px s))))"
  shows "broker ((publishPendingOutboxEvents w kw ^^ k) s) =
       broker s @ map message_of (take (10 * k) (backlog (outbox_events (db (px s))))) \<and>
     backlog (outbox_events (db (px ((publishPendingOutboxEvents w kw ^^ k) s)))) =
       drop (10 * k) (backlog (outbox_events (db (px s))))"
  using assms by (intro passes_acked) auto

text \<open>When the ten oldest events cannot be sent, a pass sends nothing.\<close>

lemma sent_log_lost:
  "(\<And>k e. e \<in> set es \<Longrightarrow> \<exists>err. send_result kw k (message_of e) = Lost err) \<Longrightarrow>
     sent_log kw n es = []"
proof (induction es arbitrary: n)
  case (Cons e es)
  obtain err where "send_result kw n (message_of e) = Lost err" using Cons.prems[of e n] by auto
  then show ?case using Cons by (simp add: stored_def)
qed simp

lemma pass_blocked:
  assumes "calm w kw" "idle (px s)" "\<not> isPublishing s"
    "distinct (map event_id (outbox_events (db (px s))))"
    "\<And>k e. e \<in> set (take 10 (backlog (outbox_events (db (px s))))) \<Longrightarrow>
        \<exists>err. send_result kw k (message_of e) = Lost err"
  shows "\<exists>s' g. publishPendingOutboxEvents w kw s = s' \<and> idle (px s') \<and> \<not> isPublishing s' \<and>
     broker s' = broker s \<and> outbox_events (db (px s')) = map g (outbox_events (db (px s))) \<and>
     backlog (outbox_events (db (px s'))) = map g (backlog (outbox_events (db (px s)))) \<and>
     (\<forall>r. event_id (g r) = event_id r \<and> message_of (g r) = message_of r) \<and>
     (\<forall>r. event_id r \<notin> event_id ` set (take 10 (backlog (outbox_events (db (px s))))) \<longrightarrow> g r = r)"
proof -
  let ?rows = "outbox_events (db (px s))"
  let ?es = "take 10 (backlog ?rows)"
  obtain n now s' where s': "publishPendingOutboxEvents w kw s = s'" "idle (px s')" "\<not> isPublishing s'"
    "broker s' = broker s @ sent_log kw n ?es"
    "outbox_events (db (px s')) = settle_events kw now n ?es ?rows"
    using pass_calm[OF assms(1-3)] unfolding pending_backlog by blast
  have "distinct (map event_id ?es)"
    using distinct_backlog[OF assms(4)] by (simp add: take_map[symmetric])
  then obtain g where g: "settle_events kw now n ?es ?rows = map g ?rows"
    "\<And>r. event_id r \<notin> event_id ` set ?es \<Longrightarrow> g r = r"
    "\<And>e r. e \<in> set ?es \<Longrightarrow> event_id r = event_id e \<Longrightarrow>
        \<exists>k. g r = settle now (send_result kw k (message_of e)) r"
    using settle_events_rows[of ?es kw now n ?rows] by blast
  have att: "\<exists>m. g r = attempted_row m r" if "event_id r \<in> event_id ` set ?es" for r
  proof -
    from that obtain e where e: "e \<in> set ?es" "event_id r = event_id e" by auto
    from g(3)[OF this] obtain k where k: "g r = settle now (send_result kw k (message_of e)) r" by blast
    from assms(5)[OF e(1), of k] obtain err where "send_result kw k (message_of e) = Lost err" by blast
    then show ?thesis using k by (auto simp: settle_simps)
  qed
  have same: "event_id (g r) = event_id r \<and> message_of (g r) = message_of r \<and>
      event_status (g r) = event_status r \<and> event_created_at (g r) = event_created_at r" for r
    using g(2)[of r] att[of r] by (cases "event_id r \<in> event_id ` set ?es") auto
  have "backlog (map g ?rows) = map g (backlog ?rows)"
    by (rule backlog_map) (simp_all add: same)
  moreover have "sent_log kw n ?es = []" by (rule sent_log_lost) (rule assms(5))
  ultimately show ?thesis
    using s' g(1,2) same by (intro exI[of _ s'] exI[of _ g]) simp
qed

lemma passes_blocked:
  assumes "calm w kw" "idle (px s)" "\<not> isPublishing s"
    "distinct (map event_id (outbox_events (db (px s))))"
    "\<And>k e. e \<in> set (take 10 (backlog (outbox_events (db (px s))))) \<Longrightarrow>
        \<exists>err. send_result kw k (message_of e) = Lost err"
  shows "broker ((publishPendingOutboxEvents w kw ^^ k) s) = broker s \<and>
     set (filter (\<lambda>r. event_id r \<notin> event_id ` set (take 10 (backlog (outbox_events (db (px s))))))
         (outbox_events (db (px s))))
       \<subseteq> set (outbox_events (db (px ((publishPendingOutboxEvents w kw ^^ k) s))))"
  using assms(2-5)
proof (induction k arbitrary: s)
  case (Suc k)
  let ?rows = "outbox_events (db (px s))"
  obtain s' g where s': "publishPendingOutboxEvents w kw s = s'" "idle (px s')" "\<not> isPublishing s'"
    "broker s' = broker s" "outbox_events (db (px s')) = map g ?rows"
    "backlog (outbox_events (db (px s'))) = map g (backlog ?rows)"
    "\<And>r. event_id (g r) = event_id r" "\<And>r. message_of (g r) = message_of r"
    "\<And>r. event_id r \<notin> event_id ` set (take 10 (backlog ?rows)) \<Longrightarrow> g r = r"
    using pass_blocked[OF assms(1) Suc.prems] by blast
  have d: "distinct (map event_id (outbox_events (db (px s'))))"
    using Suc.prems(3) s'(5,7) by (simp add: comp_def)
  have ids: "event_id ` set (take 10 (backlog (outbox_events (db (px s'))))) =
      event_id ` set (take 10 (backlog ?rows))"
    using s'(6,7) by (simp add: take_map image_image)
  have l: "\<exists>err. send_result kw k (message_of e) = Lost err"
    if "e \<in> set (take 10 (backlog (outbox_events (db (px s')))))" for k e
    using that Suc.prems(4) s'(6,8) by (auto simp: take_map)
  note IH = Suc.IH[OF s'(2,3) d l]
  have "set (filter (\<lambda>r. event_id r \<notin> event_id ` set (take 10 (backlog ?rows))) ?rows)
      \<subseteq> set (filter (\<lambda>r. event_id r \<notin> event_id ` set (take 10 (backlog (outbox_events (db (px s'))))))
           (outbox_events (db (px s'))))"
  proof
    fix r
    assume "r \<in> set (filter (\<lambda>r. event_id r \<notin> event_id ` set (take 10 (backlog ?rows))) ?rows)"
    then have r: "r \<in> set ?rows" "event_id r \<notin> event_id ` set (take 10 (backlog ?rows))" by simp_all
    then have "r \<in> set (outbox_events (db (px s')))"
      using s'(9)[OF r(2)] unfolding s'(5) by (metis imageI list.set_map)
    then show "r \<in> set (filter (\<lambda>r. event_id r \<notin> event_id ` set (take 10 (backlog (outbox_events (db (px s'))))))
           (outbox_events (db (px s'))))"
      using r(2) by (simp add: ids del: set_map image_iff)
  qed
  then show ?case
    using IH s'(1,4) by (simp add: funpow_Suc_right del: funpow.simps) blast
qed auto


text \<open>
  The head of the line blocks the line. When none of the ten oldest pending events can be
  sent (their topic is gone, say), then however many passes run and however healthy every other
  topic is, the broker receives nothing, and every event outside those ten is exactly the row it
  was: it was never attempted.
\<close>

theorem outbox_head_of_line:
  assumes "calm w kw" "idle (px s)" "\<not> isPublishing s"
    "distinct (map event_id (outbox_events (db (px s))))"
    "\<forall>k. \<forall>e \<in> set (take 10 (backlog (outbox_events (db (px s))))).
        \<exists>err. send_result kw k (message_of e) = Lost err"
  shows "broker ((publishPendingOutboxEvents w kw ^^ k) s) = broker s \<and>
     set (filter (\<lambda>r. event_id r \<notin> event_id ` set (take 10 (backlog (outbox_events (db (px s))))))
         (outbox_events (db (px s))))
       \<subseteq> set (outbox_events (db (px ((publishPendingOutboxEvents w kw ^^ k) s))))"
  using assms by (intro passes_blocked) auto

section \<open>The polling interval\<close>

text \<open>
  Whatever OUTBOX_PUBLISH_INTERVAL_MS holds (unset, empty, not a number, infinite, negative,
  tiny), the configured delay of the publisher is a finite number of at least 100 ms.
\<close>

theorem publish_interval_bounds:
  "\<exists>q. publishIntervalMs v = Finite q \<and> 100 \<le> q"
  by (simp add: publishIntervalMs_def split: js_number.splits)

section \<open>Life cycle of the publisher\<close>

text \<open>
  Passes take time, so ticks, starts and stops interleave with them. A stop that finds a pass
  under way polls until it is over (\<open>stop_waiting\<close>); \<open>stop_returned\<close> counts the stops that have
  returned.
\<close>

record publisher_process =
  proc_publishing :: bool
  publishInterval :: bool
  passes_running :: nat
  stop_waiting :: nat
  stop_returned :: nat

datatype publisher_event = StartPublisher | IntervalTick | PassSettles | StopPublisher | StopPoll

definition begin_pass :: "publisher_process \<Rightarrow> publisher_process" where
  "begin_pass p =
     (if proc_publishing p then p
      else p\<lparr>proc_publishing := True, passes_running := Suc (passes_running p)\<rparr>)"

definition startOutboxPublisher :: "publisher_process \<Rightarrow> publisher_process" where
  "startOutboxPublisher p =
     (if publishInterval p then p else (begin_pass p)\<lparr>publishInterval := True\<rparr>)"

definition stopOutboxPublisher :: "publisher_process \<Rightarrow> publisher_process" where
  "stopOutboxPublisher p =
     (let q = p\<lparr>publishInterval := False\<rparr>
      in if proc_publishing q then q\<lparr>stop_waiting := Suc (stop_waiting q)\<rparr>
         else q\<lparr>stop_returned := Suc (stop_returned q)\<rparr>)"

fun publisher_step :: "publisher_event \<Rightarrow> publisher_process \<Rightarrow> publisher_process" where
  "publisher_step StartPublisher p = startOutboxPublisher p"
| "publisher_step IntervalTick p = (if publishInterval p then begin_pass p else p)"
| "publisher_step PassSettles p =
     (if passes_running p = 0 then p
      else p\<lparr>proc_publishing := False, passes_running := passes_running p - 1\<rparr>)"
| "publisher_step StopPublisher p = stopOutboxPublisher p"
| "publisher_step StopPoll p =
     (if stop_waiting p = 0 \<or> proc_publishing p then p
      else p\<lparr>stop_waiting := stop_waiting p - 1, stop_returned := Suc (stop_returned p)\<rparr>)"

definition idle_process :: publisher_process where
  "idle_process = \<lparr>proc_publishing = False, publishInterval = False, passes_running = 0,
     stop_waiting = 0, stop_returned = 0\<rparr>"

definition one_pass :: "publisher_process \<Rightarrow> bool" where
  "one_pass p \<longleftrightarrow> passes_running p = (if proc_publishing p then 1 else 0)"

lemmas [machine_defs] = begin_pass_def startOutboxPublisher_def stopOutboxPublisher_def Let_def

lemma publisher_step_one_pass: "one_pass p \<Longrightarrow> one_pass (publisher_step e p)"
  by (cases e) (auto simp: one_pass_def machine_defs)

interpretation publisher_machine: handler_invariant publisher_step one_pass
  by unfold_locales (rule publisher_step_one_pass)

text \<open>
  Passes of one process never overlap. After any sequence of starts, interval ticks, ends of
  passes, stops and polls of a stop, at most one pass is between its first statement and its
  last, and the flag tells which.
\<close>

theorem publisher_passes_exclusive:
  "passes_running (run_events publisher_step es idle_process) =
     (if proc_publishing (run_events publisher_step es idle_process) then 1 else 0)"
  using publisher_machine.run_inv[of idle_process es] by (simp add: one_pass_def idle_process_def)

lemma stopped_step:
  "e \<noteq> StartPublisher \<Longrightarrow> \<not> publishInterval p \<Longrightarrow>
     \<not> publishInterval (publisher_step e p) \<and>
     passes_running (publisher_step e p) \<le> passes_running p \<and>
     stop_returned p \<le> stop_returned (publisher_step e p) \<and>
     (\<not> proc_publishing p \<longrightarrow> \<not> proc_publishing (publisher_step e p))"
  by (cases e) (auto simp: machine_defs)

lemma stopped_run:
  "StartPublisher \<notin> set es \<Longrightarrow> \<not> publishInterval p \<Longrightarrow>
     \<not> publishInterval (run_events publisher_step es p) \<and>
     passes_running (run_events publisher_step es p) \<le> passes_running p \<and>
     (\<not> proc_publishing p \<longrightarrow> \<not> proc_publishing (run_events publisher_step es p))"
proof (induction es arbitrary: p)
  case (Cons e es)
  from Cons.prems(1) have e: "e \<noteq> StartPublisher" and es: "StartPublisher \<notin> set es" by auto
  note 1 = stopped_step[OF e Cons.prems(2)]
  then show ?case using Cons.IH[OF es, of "publisher_step e p"] by auto
qed simp

text \<open>
  Stopping is final and ends. After a stop, as long as nobody starts the publisher again, no
  tick begins a pass: the interval stays cleared and the passes under way never become more. Once
  the pass under way has settled, the next poll of the waiting stop returns.
\<close>

theorem publisher_stop_final:
  assumes "StartPublisher \<notin> set later"
  shows "\<not> publishInterval (run_events publisher_step (earlier @ StopPublisher # later) idle_process)
    \<and> passes_running (run_events publisher_step (earlier @ StopPublisher # later) idle_process)
        \<le> passes_running (run_events publisher_step earlier idle_process)
    \<and> \<not> proc_publishing (run_events publisher_step (earlier @ StopPublisher # later @ [PassSettles]) idle_process)"
proof -
  let ?p = "run_events publisher_step earlier idle_process"
  let ?q = "stopOutboxPublisher ?p"
  have q: "\<not> publishInterval ?q" "passes_running ?q = passes_running ?p"
    by (simp_all add: machine_defs)
  have inv: "one_pass (run_events publisher_step (earlier @ StopPublisher # later) idle_process)"
    by (rule publisher_machine.run_inv) (simp add: one_pass_def idle_process_def)
  show ?thesis
    using stopped_run[OF assms q(1)] q(2) inv
    by (simp add: run_events_append one_pass_def split: if_splits)
qed

section \<open>Witnesses\<close>

definition sample_event :: "nat \<Rightarrow> event_status \<Rightarrow> outbox_event" where
  "sample_event n st = \<lparr>event_id = show_nat n, topic = (if n < 10 then ''old'' else ''audio.jobs.created''),
     event_key = ''j'', payload = [(''jobId'', ''j'')], event_status = st, attempts = 0,
     last_error = None, event_created_at = int n, published_at = None\<rparr>"

definition sample_publisher :: "outbox_event list \<Rightarrow> publisher" where
  "sample_publisher es = \<lparr>px = idle_exec (sample_db\<lparr>outbox_events := es\<rparr>), broker = [], kcalls = 0,
     connectionPromise = False, isPublishing = False, batch_failures = 0\<rparr>"

text \<open>A broker that has lost the topic \<open>old\<close>, and one that has not.\<close>

definition sample_kafka :: "string list \<Rightarrow> kafka_world" where
  "sample_kafka gone = \<lparr>connect_error = (\<lambda>_. None), disconnect_error = (\<lambda>_. None),
     send_result = (\<lambda>_ m. if msg_topic m \<in> set gone then Lost (PlainError ''unknown topic'') else Acked),
     row_locked = (\<lambda>_ _. False)\<rparr>"

lemma sample_calm: "calm quiet_world (sample_kafka gone)"
  by (simp add: calm_def sample_kafka_def)

lemma sample_send: "send_result (sample_kafka []) k m = Acked"
  by (simp add: sample_kafka_def)

lemma sample_publisher_simps [simp]:
  "idle (px (sample_publisher es))" "isPublishing (sample_publisher es) = False"
  "broker (sample_publisher es) = []" "outbox_events (db (px (sample_publisher es))) = es"
  by (simp_all add: sample_publisher_def)

theorem outbox_marks_only_delivered_witness:
  "published_sent (broker (publishPendingOutboxEvents quiet_world (sample_kafka [''old''])
       (sample_publisher [sample_event 1 EvPENDING, sample_event 11 EvPENDING])))
     (db (px (publishPendingOutboxEvents quiet_world (sample_kafka [''old''])
       (sample_publisher [sample_event 1 EvPENDING, sample_event 11 EvPENDING]))))"
proof -
  have "distinct (map event_id [sample_event 1 EvPENDING, sample_event 11 EvPENDING])" by code_simp
  then show ?thesis
    using outbox_marks_only_delivered[of "sample_publisher [sample_event 1 EvPENDING, sample_event 11 EvPENDING]"
        quiet_world "sample_kafka [''old'']"]
    by (simp add: published_sent_def sample_event_def)
qed

definition sample_backlog :: "outbox_event list" where
  "sample_backlog = map (\<lambda>n. sample_event n EvPENDING) [0..<12]"

lemma sample_backlog_facts:
  "distinct (map event_id sample_backlog)"
  "map event_id (take 10 (backlog sample_backlog)) = map show_nat [0..<10]"
  "list_all (\<lambda>e. topic e = ''old'') (take 10 (backlog sample_backlog))"
  "length (backlog sample_backlog) = 12"
  by code_simp+

theorem outbox_drains_witness:
  "backlog (outbox_events (db (px ((publishPendingOutboxEvents quiet_world (sample_kafka []) ^^ 2)
     (sample_publisher sample_backlog))))) = []"
  using outbox_drains[of quiet_world "sample_kafka []" "sample_publisher sample_backlog" 2]
    sample_calm[of "[]"] sample_send sample_backlog_facts(1,4)
  by simp

theorem outbox_head_of_line_witness:
  "broker ((publishPendingOutboxEvents quiet_world (sample_kafka [''old'']) ^^ 7)
     (sample_publisher sample_backlog)) = []"
proof -
  have "\<forall>e \<in> set (take 10 (backlog sample_backlog)). topic e = ''old''"
    using sample_backlog_facts(3) by (simp only: list_all_iff)
  then have "\<forall>k. \<forall>e \<in> set (take 10 (backlog sample_backlog)).
      \<exists>err. send_result (sample_kafka [''old'']) k (message_of e) = Lost err"
    by (simp add: sample_kafka_def message_of_def)
  then show ?thesis
    using outbox_head_of_line[of quiet_world "sample_kafka [''old'']" "sample_publisher sample_backlog" 7]
      sample_calm sample_backlog_facts(1) by simp
qed

theorem publisher_stop_final_witness:
  "\<not> publishInterval (run_events publisher_step
      ([StartPublisher, IntervalTick] @ StopPublisher # [IntervalTick, PassSettles, StopPoll]) idle_process)"
  using publisher_stop_final[of "[IntervalTick, PassSettles, StopPoll]" "[StartPublisher, IntervalTick]"]
  by simp

end
