(* ===== verification/Accounts.thy ===== *)
theory Accounts
  imports JobService Samples
begin

text \<open>
  Accounts and their login sessions: backend/src/auth/accountService.ts. One definition
  per SQL statement, then the functions. \<open>authenticated\<close> is the abstract meaning of a session
  token: the account it opens at a given time.
\<close>

section \<open>Statements\<close>

record AuthenticatedUser =
  auth_id :: uuid
  auth_username :: string

record StoredUser = AuthenticatedUser +
  stored_password_hash :: string

record CreateSessionInput =
  anonymousOwnerId :: uuid
  expiresAt :: time
  tokenHash :: string
  replacedTokenHash :: "string option"

definition stored_user :: "user \<Rightarrow> StoredUser" where
  "stored_user u =
     \<lparr>auth_id = user_id u, auth_username = username u, stored_password_hash = password_hash u\<rparr>"

definition authenticated_user :: "user \<Rightarrow> AuthenticatedUser" where
  "authenticated_user u = \<lparr>auth_id = user_id u, auth_username = username u\<rparr>"

definition adopted_row :: "uuid \<Rightarrow> job \<Rightarrow> job" where
  "adopted_row userId j = j\<lparr>owner_id := userId\<rparr>"

definition update_adopted :: "uuid \<Rightarrow> uuid \<Rightarrow> unit stmt" where
  "update_adopted anon userId _ _ d =
     Inr ((), d\<lparr>jobs := update_where (\<lambda>j. owner_id j = anon \<and> userId \<noteq> anon)
                        (adopted_row userId) (jobs d)\<rparr>)"

definition revoked_row :: "time \<Rightarrow> user_session \<Rightarrow> user_session" where
  "revoked_row now s = s\<lparr>revoked_at := coalesce (revoked_at s) now\<rparr>"

definition update_revoked :: "string \<Rightarrow> unit stmt" where
  "update_revoked token _ now d =
     Inr ((), d\<lparr>user_sessions := update_where (\<lambda>s. token_hash s = token) (revoked_row now)
                                  (user_sessions d)\<rparr>)"

text \<open>Column defaults and constraints of backend/sql/007_create_users_and_sessions.sql.\<close>

definition new_session :: "uuid \<Rightarrow> time \<Rightarrow> uuid \<Rightarrow> string \<Rightarrow> time \<Rightarrow> user_session" where
  "new_session ident now userId token expires =
     \<lparr>session_id = ident, session_user_id = userId, token_hash = token, expires_at = expires,
      revoked_at = None, session_created_at = now, last_seen_at = now\<rparr>"

definition insert_session :: "uuid \<Rightarrow> string \<Rightarrow> time \<Rightarrow> unit stmt" where
  "insert_session userId token expires uuids now d =
     (if length token \<noteq> 64 then Inl (CheckViolation ''user_sessions_token_hash_length'')
      else if uuids 0 \<in> set (map session_id (user_sessions d))
      then Inl (UniqueViolation ''user_sessions_pkey'')
      else if token \<in> set (map token_hash (user_sessions d))
      then Inl (UniqueViolation ''user_sessions_token_hash_key'')
      else if userId \<notin> set (map user_id (users d))
      then Inl (ForeignKeyViolation ''user_sessions_user_id_fkey'')
      else Inr ((), d\<lparr>user_sessions :=
             user_sessions d @ [new_session (uuids 0) now userId token expires]\<rparr>))"

definition new_user :: "uuid \<Rightarrow> time \<Rightarrow> string \<Rightarrow> string \<Rightarrow> user" where
  "new_user ident now name hash =
     \<lparr>user_id = ident, username = name, password_hash = hash, user_created_at = now,
      user_updated_at = now\<rparr>"

definition insert_user :: "string \<Rightarrow> string \<Rightarrow> AuthenticatedUser list stmt" where
  "insert_user name hash uuids now d =
     (if \<not> (3 \<le> length name \<and> length name \<le> 30)
      then Inl (CheckViolation ''users_username_length'')
      else if name \<noteq> toLowerCase name then Inl (CheckViolation ''users_username_normalized'')
      else if uuids 0 \<in> set (map user_id (users d)) then Inl (UniqueViolation ''users_pkey'')
      else if name \<in> set (map username (users d))
      then Inl (UniqueViolation ''idx_users_username_unique'')
      else (let u = new_user (uuids 0) now name hash
            in Inr ([authenticated_user u], d\<lparr>users := users d @ [u]\<rparr>)))"

definition select_user_for_login :: "string \<Rightarrow> StoredUser list stmt" where
  "select_user_for_login name _ _ d =
     Inr (map stored_user (filter (\<lambda>u. username u = name) (users d)), d)"

definition session_active :: "string \<Rightarrow> time \<Rightarrow> user_session \<Rightarrow> bool" where
  "session_active token now s \<longleftrightarrow>
     token_hash s = token \<and> revoked_at s = None \<and> now < expires_at s"

text \<open>
  \<open>WITH active_session ..., touched_session ...\<close>: both parts read the same snapshot; the
  join takes the accounts of the active rows.
\<close>

definition session_users :: "string \<Rightarrow> time \<Rightarrow> database \<Rightarrow> AuthenticatedUser list" where
  "session_users token now d =
     concat (map (\<lambda>s. map authenticated_user
                        (filter (\<lambda>u. user_id u = session_user_id s) (users d)))
       (filter (session_active token now) (user_sessions d)))"

definition touched_row :: "time \<Rightarrow> user_session \<Rightarrow> user_session" where
  "touched_row now s = s\<lparr>last_seen_at := now\<rparr>"

definition select_user_by_session :: "string \<Rightarrow> AuthenticatedUser list stmt" where
  "select_user_by_session token _ now d =
     Inr (session_users token now d,
          d\<lparr>user_sessions :=
              update_where
                (\<lambda>s. token_hash s = token \<and> last_seen_at s < now - minutes 15 \<and>
                     list_ex (session_active token now) (user_sessions d))
                (touched_row now) (user_sessions d)\<rparr>)"

declare update_adopted_def [sql_defs] update_revoked_def [sql_defs]
  select_user_for_login_def [sql_defs] select_user_by_session_def [sql_defs]

section \<open>accountService.ts\<close>

definition adoptAnonymousJobs :: "uuid \<Rightarrow> uuid \<Rightarrow> unit eff" where
  "adoptAnonymousJobs anon userId = client_query (update_adopted anon userId)"

text \<open>\<open>if (input.replacedTokenHash)\<close>: an empty text is skipped as well.\<close>

definition insertUserSession :: "uuid \<Rightarrow> CreateSessionInput \<Rightarrow> unit eff" where
  "insertUserSession userId input =
     thenM (case replacedTokenHash input of
              None \<Rightarrow> returnM ()
            | Some old \<Rightarrow> if old = [] then returnM () else client_query (update_revoked old))
       (client_query (insert_session userId (tokenHash input) (expiresAt input)))"

definition registerUser_body :: "string \<Rightarrow> string \<Rightarrow> CreateSessionInput \<Rightarrow> AuthenticatedUser eff" where
  "registerUser_body name hash input =
     bindM (client_query (insert_user name hash)) (\<lambda>rows.
       case first_row rows of
         None \<Rightarrow> throwM (PlainError ''PostgreSQL did not return the registered user'')
       | Some user \<Rightarrow>
           thenM (adoptAnonymousJobs (anonymousOwnerId input) (auth_id user))
          (thenM (insertUserSession (auth_id user) input)
          (returnM user)))"

definition registerUser :: "string \<Rightarrow> string \<Rightarrow> CreateSessionInput \<Rightarrow> AuthenticatedUser eff" where
  "registerUser name hash input = transaction (registerUser_body name hash input)"

definition findUserForLogin :: "string \<Rightarrow> StoredUser option eff" where
  "findUserForLogin name =
     bindM (pool_query (select_user_for_login name)) (\<lambda>rows. returnM (first_row rows))"

definition createUserSession_body :: "uuid \<Rightarrow> CreateSessionInput \<Rightarrow> unit eff" where
  "createUserSession_body userId input =
     thenM (adoptAnonymousJobs (anonymousOwnerId input) userId) (insertUserSession userId input)"

definition createUserSession :: "uuid \<Rightarrow> CreateSessionInput \<Rightarrow> unit eff" where
  "createUserSession userId input = transaction (createUserSession_body userId input)"

definition findUserByActiveSession :: "string \<Rightarrow> AuthenticatedUser option eff" where
  "findUserByActiveSession token =
     bindM (pool_query (select_user_by_session token)) (\<lambda>rows. returnM (first_row rows))"

definition revokeUserSession :: "string \<Rightarrow> unit eff" where
  "revokeUserSession token = pool_query (update_revoked token)"

fun isUsernameConflict :: "error \<Rightarrow> bool" where
  "isUsernameConflict (UniqueViolation c) = (c = ''idx_users_username_unique'')"
| "isUsernameConflict _ = False"

section \<open>What a session token opens\<close>

definition authenticated :: "string \<Rightarrow> time \<Rightarrow> database \<Rightarrow> AuthenticatedUser option" where
  "authenticated token now d = first_row (session_users token now d)"

lemma session_users_unique:
  assumes "accounts_ok (users d) (user_sessions d)" "s \<in> set (user_sessions d)"
    and "session_active token now s" "u \<in> set (users d)" "user_id u = session_user_id s"
  shows "session_users token now d = [authenticated_user u]"
proof -
  have "filter (session_active token now) (user_sessions d) =
      filter (\<lambda>x. revoked_at x = None \<and> now < expires_at x)
        (filter (\<lambda>x. token_hash x = token_hash s) (user_sessions d))"
    using assms(3) by (simp add: session_active_def[abs_def] conj_commute conj_left_commute)
  also have "filter (\<lambda>x. token_hash x = token_hash s) (user_sessions d) = [s]"
    using assms(1,2) by (intro filter_key_unique) (auto simp: accounts_ok_def)
  finally have a: "filter (session_active token now) (user_sessions d) = [s]"
    using assms(3) by (simp add: session_active_def[abs_def])
  have "filter (\<lambda>v. user_id v = user_id u) (users d) = [u]"
    using assms(1,4) by (intro filter_key_unique) (auto simp: accounts_ok_def)
  with a show ?thesis using assms(5) by (simp add: session_users_def)
qed

lemma authenticated_iff:
  assumes "accounts_ok (users d) (user_sessions d)"
  shows "authenticated token now d = Some a \<longleftrightarrow>
     (\<exists>s \<in> set (user_sessions d). \<exists>u \<in> set (users d).
        session_active token now s \<and> user_id u = session_user_id s \<and> a = authenticated_user u)"
    (is "?l \<longleftrightarrow> ?r")
proof
  assume ?l
  then have "a \<in> set (session_users token now d)"
    by (auto simp: authenticated_def dest: first_row_SomeD)
  then show ?r by (auto simp: session_users_def)
next
  assume ?r
  then show ?l using session_users_unique[OF assms] by (force simp: authenticated_def)
qed

lemma authenticated_None_iff:
  assumes "accounts_ok (users d) (user_sessions d)"
  shows "authenticated token now d = None \<longleftrightarrow>
     (\<forall>s \<in> set (user_sessions d). \<not> session_active token now s)"
proof -
  have "\<exists>u \<in> set (users d). user_id u = session_user_id s" if "s \<in> set (user_sessions d)" for s
    using assms that unfolding accounts_ok_def by (metis (no_types, lifting) imageE image_eqI list.set_map subsetD)
  then show ?thesis using authenticated_iff[OF assms] by (metis not_Some_eq)
qed

text \<open>Authentication reads the active sessions and the names of the accounts.\<close>

lemma authenticated_cong:
  assumes "accounts_ok (users d) (user_sessions d)" "accounts_ok (users d') (user_sessions d')"
    and "session_user_id ` {s \<in> set (user_sessions d). session_active token now s} =
         session_user_id ` {s \<in> set (user_sessions d'). session_active token now s}"
    and "authenticated_user ` set (users d) = authenticated_user ` set (users d')"
  shows "authenticated token now d = authenticated token now d'"
proof -
  have half: "authenticated token now d2 = Some a"
    if h: "authenticated token now d1 = Some a" "accounts_ok (users d1) (user_sessions d1)"
      "accounts_ok (users d2) (user_sessions d2)"
      "session_user_id ` {s \<in> set (user_sessions d1). session_active token now s} =
       session_user_id ` {s \<in> set (user_sessions d2). session_active token now s}"
      "authenticated_user ` set (users d1) = authenticated_user ` set (users d2)" for d1 d2 a
  proof -
    obtain s u where s: "s \<in> set (user_sessions d1)" "session_active token now s"
      and u: "u \<in> set (users d1)" "user_id u = session_user_id s" "a = authenticated_user u"
      using h(1) authenticated_iff[OF h(2)] by blast
    have "session_user_id s \<in> session_user_id ` {s \<in> set (user_sessions d2). session_active token now s}"
      unfolding h(4)[symmetric] using s by blast
    then obtain s2 where s2: "s2 \<in> set (user_sessions d2)" "session_active token now s2"
      "session_user_id s2 = session_user_id s" by auto
    have "authenticated_user u \<in> authenticated_user ` set (users d2)"
      unfolding h(5)[symmetric] using u by blast
    then obtain u2 where "u2 \<in> set (users d2)" "authenticated_user u2 = authenticated_user u" by auto
    then show ?thesis
      using s2 u authenticated_iff[OF h(3)] by (metis AuthenticatedUser.ext_inject authenticated_user_def)
  qed
  show ?thesis
  proof (cases "authenticated token now d")
    case None
    then show ?thesis using half[OF _ assms(2,1) assms(3,4)[symmetric]] by (metis not_Some_eq)
  next
    case (Some a)
    then show ?thesis using half[OF _ assms(1,2,3,4)] by simp
  qed
qed

text \<open>Rewriting the sessions in place, keys kept.\<close>

lemma image_update_where:
  assumes "\<And>r. r \<in> set rows \<Longrightarrow> P r \<Longrightarrow> Q (f r) = Q r" "\<And>r. k (f r) = k r"
  shows "k ` {r \<in> set (update_where P f rows). Q r} = k ` {r \<in> set rows. Q r}"
proof -
  let ?g = "\<lambda>r. if P r then f r else r"
  have "{r \<in> ?g ` set rows. Q r} = ?g ` {r \<in> set rows. Q r}" using assms(1) by auto
  then have "k ` {r \<in> set (update_where P f rows). Q r} = (\<lambda>r. k (?g r)) ` {r \<in> set rows. Q r}"
    by (simp add: update_where_def image_image del: Collect_conj_eq if_image_distrib)
  also have "(\<lambda>r. k (?g r)) = k" using assms(2) by auto
  finally show ?thesis .
qed

lemma authenticated_update_sessions:
  assumes ok: "accounts_ok (users d) (user_sessions d)"
    and f: "\<And>s. session_id (f s) = session_id s" "\<And>s. token_hash (f s) = token_hash s"
      "\<And>s. session_user_id (f s) = session_user_id s"
    and act: "\<And>s. s \<in> set (user_sessions d) \<Longrightarrow> P s \<Longrightarrow>
      session_active token now (f s) = session_active token now s"
    and us: "accounts_ok us (update_where P f (user_sessions d))"
      "authenticated_user ` set us = authenticated_user ` set (users d)"
  shows "authenticated token now (d\<lparr>users := us, user_sessions := update_where P f (user_sessions d)\<rparr>) =
     authenticated token now d"
proof (rule authenticated_cong)
  show "session_user_id ` {s \<in> set (user_sessions (d\<lparr>users := us,
        user_sessions := update_where P f (user_sessions d)\<rparr>)). session_active token now s} =
      session_user_id ` {s \<in> set (user_sessions d). session_active token now s}"
    using image_update_where[of "user_sessions d" P "session_active token now" f session_user_id]
      act f(3) by simp
qed (use ok us in simp_all)

section \<open>Bodies that stay in their transaction\<close>

lemma adoptAnonymousJobs_txn [intro]: "in_txn (adoptAnonymousJobs anon userId)"
  "straight (adoptAnonymousJobs anon userId)"
  unfolding adoptAnonymousJobs_def by (intro in_txn_query straight_query)+

lemma insertUserSession_txn [intro]: "in_txn (insertUserSession userId input)"
  "straight (insertUserSession userId input)"
  unfolding insertUserSession_def by (auto split: option.split)

lemma registerUser_txn: "in_txn (registerUser_body name hash input)"
  "straight (registerUser_body name hash input)"
  unfolding registerUser_body_def
  by (intro in_txn_bind in_txn_then in_txn_query in_txn_option in_txn_throw in_txn_return
      straight_bind straight_then straight_query straight_option straight_throw straight_return
      adoptAnonymousJobs_txn insertUserSession_txn)+

lemma createUserSession_txn: "in_txn (createUserSession_body userId input)"
  "straight (createUserSession_body userId input)"
  unfolding createUserSession_body_def by auto

interpretation register_user: atomic_service "registerUser name hash input" for name hash input
  unfolding registerUser_def by (rule transaction_atomic_service) (rule registerUser_txn)

interpretation create_session: atomic_service "createUserSession userId input" for userId input
  unfolding createUserSession_def by (rule transaction_atomic_service) (rule createUserSession_txn)

section \<open>Logging in\<close>

text \<open>The tables after the login part shared by registration and login.\<close>

definition login_db :: "uuid \<Rightarrow> CreateSessionInput \<Rightarrow> uuid \<Rightarrow> time \<Rightarrow> database \<Rightarrow> database" where
  "login_db userId input ident now d =
     d\<lparr>jobs := update_where (\<lambda>j. owner_id j = anonymousOwnerId input \<and> userId \<noteq> anonymousOwnerId input)
                (adopted_row userId) (jobs d),
       user_sessions :=
         update_where (\<lambda>s. case replacedTokenHash input of None \<Rightarrow> False
                           | Some old \<Rightarrow> old \<noteq> [] \<and> token_hash s = old)
           (revoked_row now) (user_sessions d) @
         [new_session ident now userId (tokenHash input) (expiresAt input)]\<rparr>"

definition login_ok :: "uuid \<Rightarrow> CreateSessionInput \<Rightarrow> uuid \<Rightarrow> database \<Rightarrow> bool" where
  "login_ok userId input ident d \<longleftrightarrow>
     length (tokenHash input) = 64 \<and> ident \<notin> set (map session_id (user_sessions d)) \<and>
     tokenHash input \<notin> set (map token_hash (user_sessions d)) \<and>
     userId \<in> set (map user_id (users d))"

lemma insert_session_Inr [sql_defs]:
  "insert_session userId token expires u t d = Inr (x, d') \<longleftrightarrow>
     length token = 64 \<and> u 0 \<notin> set (map session_id (user_sessions d)) \<and>
     token \<notin> set (map token_hash (user_sessions d)) \<and> userId \<in> set (map user_id (users d)) \<and>
     d' = d\<lparr>user_sessions := user_sessions d @ [new_session (u 0) t userId token expires]\<rparr>"
  by (auto simp: insert_session_def)

lemma revoked_row_simps [simp]:
  "session_id (revoked_row t s) = session_id s" "token_hash (revoked_row t s) = token_hash s"
  "session_user_id (revoked_row t s) = session_user_id s" "expires_at (revoked_row t s) = expires_at s"
  "revoked_at (revoked_row t s) \<noteq> None"
  by (simp_all add: revoked_row_def coalesce_def split: option.split)

lemma image_update_where_key:
  "(\<And>r. k (f r) = k r) \<Longrightarrow> k ` set (update_where P f rows) = k ` set rows"
  by (metis map_update_where_key list.set_map)

lemma update_where_False: "update_where (\<lambda>_. False) f rows = rows"
  by (rule update_where_id) simp

lemma login_run:
  assumes "createUserSession_body userId input w s = (Inr x, s')" "snapshot s \<noteq> None"
  shows "\<exists>ident. login_ok userId input ident (db s) \<and>
     db s' = login_db userId input ident (txn_now s) (db s)"
proof (cases "replacedTokenHash input = None \<or> replacedTokenHash input = Some []")
  case True
  then show ?thesis using assms
    by (intro exI[of _ "random_uuid w (Suc (tick s)) 0"])
      (auto simp: createUserSession_body_def adoptAnonymousJobs_def insertUserSession_def
        effect_simps sql_defs login_ok_def login_db_def update_where_False)
next
  case False
  then obtain old where "replacedTokenHash input = Some old" "old \<noteq> []" by auto
  then show ?thesis using assms
    by (intro exI[of _ "random_uuid w (Suc (Suc (tick s))) 0"])
      (auto simp: createUserSession_body_def adoptAnonymousJobs_def insertUserSession_def
        effect_simps sql_defs login_ok_def login_db_def image_update_where_key)
qed

lemma createUserSession_success:
  assumes "idle s" "createUserSession userId input w s = (Inr x, s')"
  obtains ident now where "login_ok userId input ident (db s)"
    "db s' = login_db userId input ident now (db s)"
proof -
  obtain s1 where b: "createUserSession_body userId input w (txn_start w s) = (Inr x, s1)"
    and d: "db s' = db s1"
    using transaction_InrD[OF createUserSession_txn assms(1)]
      assms(2)[unfolded createUserSession_def] by metis
  then show ?thesis using login_run[OF b] that by auto
qed

lemma job_ok_adopted: "job_ok j \<Longrightarrow> job_ok (adopted_row u j)"
  unfolding job_ok_def adopted_row_def by auto

lemma accounts_ok_login:
  assumes "accounts_ok us (user_sessions d)" "login_ok userId input ident d" "us = users d"
  shows "accounts_ok us (user_sessions (login_db userId input ident now d))"
proof -
  have "accounts_ok us (update_where P (revoked_row now) (user_sessions d))" for P
    using assms(1) by (rule accounts_ok_sessions_update) simp_all
  then show ?thesis
    using assms(2,3)
    by (auto simp: login_db_def login_ok_def accounts_ok_def new_session_def map_update_where_key)
qed

lemma login_db_ok:
  assumes "db_ok d" "login_ok userId input ident d"
  shows "db_ok (login_db userId input ident now d)"
proof -
  have "jobs_ok (update_where P (adopted_row userId) (jobs d))" for P
    using assms(1) by (intro jobs_ok_update job_ok_adopted) (auto simp: db_ok_def adopted_row_def)
  then show ?thesis
    using assms accounts_ok_login[OF _ assms(2) refl, of now] by (auto simp: db_ok_def login_db_def)
qed

lemma login_authenticates:
  assumes "db_ok d" "login_ok userId input ident d" "t < expiresAt input"
  shows "\<exists>u \<in> set (users d). user_id u = userId \<and>
     authenticated (tokenHash input) t (login_db userId input ident now d) = Some (authenticated_user u)"
proof -
  let ?d = "login_db userId input ident now d"
  obtain u where u: "u \<in> set (users d)" "user_id u = userId"
    using assms(2) by (auto simp: login_ok_def)
  have ok: "accounts_ok (users ?d) (user_sessions ?d)"
    using login_db_ok[OF assms(1,2)] by (simp add: db_ok_def)
  have "new_session ident now userId (tokenHash input) (expiresAt input) \<in> set (user_sessions ?d)"
    by (simp add: login_db_def)
  moreover have "session_active (tokenHash input) t
      (new_session ident now userId (tokenHash input) (expiresAt input))"
    using assms(3) by (simp add: session_active_def new_session_def)
  moreover have "u \<in> set (users ?d)" "user_id u =
      session_user_id (new_session ident now userId (tokenHash input) (expiresAt input))"
    using u by (simp_all add: login_db_def new_session_def)
  ultimately have "authenticated (tokenHash input) t ?d = Some (authenticated_user u)"
    using authenticated_iff[OF ok] by blast
  then show ?thesis using u by blast
qed

lemma login_replaced:
  assumes "db_ok d" "login_ok userId input ident d"
    and "replacedTokenHash input = Some old" "old \<noteq> []" "old \<noteq> tokenHash input"
  shows "authenticated old t (login_db userId input ident now d) = None"
proof -
  have ok: "accounts_ok (users (login_db userId input ident now d))
      (user_sessions (login_db userId input ident now d))"
    using login_db_ok[OF assms(1,2)] by (simp add: db_ok_def)
  have "\<not> session_active old t (new_session ident now userId (tokenHash input) (expiresAt input))"
    using assms(5) by (simp add: session_active_def new_session_def)
  moreover have "\<not> session_active old t (revoked_row now s)" for s
    by (simp add: session_active_def)
  moreover have "\<not> session_active old t s" if "token_hash s \<noteq> old" for s
    using that by (simp add: session_active_def)
  ultimately show ?thesis
    unfolding authenticated_None_iff[OF ok]
    using assms(3,4) by (auto simp: login_db_def update_where_def)
qed

lemma login_others:
  assumes "db_ok d" "login_ok userId input ident d"
    and "tok \<noteq> tokenHash input" "\<forall>old. replacedTokenHash input = Some old \<longrightarrow> tok \<noteq> old"
  shows "authenticated tok t (login_db userId input ident now d) = authenticated tok t d"
proof (rule authenticated_cong)
  let ?P = "\<lambda>s. case replacedTokenHash input of None \<Rightarrow> False
                 | Some old \<Rightarrow> old \<noteq> [] \<and> token_hash s = old"
  have "\<not> session_active tok t (revoked_row now s) \<and> \<not> session_active tok t s" if "?P s" for s
    using that assms(4) by (auto simp: session_active_def split: option.splits)
  then have "session_user_id ` {s \<in> set (update_where ?P (revoked_row now) (user_sessions d)). session_active tok t s}
      = session_user_id ` {s \<in> set (user_sessions d). session_active tok t s}"
    by (intro image_update_where) auto
  moreover have "\<not> session_active tok t (new_session ident now userId (tokenHash input) (expiresAt input))"
    using assms(3) by (simp add: session_active_def new_session_def)
  then have "{s \<in> set (user_sessions (login_db userId input ident now d)). session_active tok t s} =
      {s \<in> set (update_where ?P (revoked_row now) (user_sessions d)). session_active tok t s}"
    by (auto simp: login_db_def)
  ultimately show "session_user_id ` {s \<in> set (user_sessions (login_db userId input ident now d)). session_active tok t s}
      = session_user_id ` {s \<in> set (user_sessions d). session_active tok t s}" by (simp only:)
next
  show "accounts_ok (users (login_db userId input ident now d)) (user_sessions (login_db userId input ident now d))"
    using login_db_ok[OF assms(1,2)] by (simp add: db_ok_def)
  show "accounts_ok (users d) (user_sessions d)" using assms(1) by (simp add: db_ok_def)
  show "authenticated_user ` set (users (login_db userId input ident now d)) =
      authenticated_user ` set (users d)" by (simp add: login_db_def)
qed

text \<open>Adoption moves every job of the visitor; the counts of active jobs add up.\<close>

lemma login_active_count:
  assumes "userId \<noteq> anonymousOwnerId input"
  shows "count_active_jobs userId (login_db userId input ident now d) =
     count_active_jobs userId d + count_active_jobs (anonymousOwnerId input) d"
    and "count_active_jobs (anonymousOwnerId input) (login_db userId input ident now d) = 0"
proof -
  let ?f = "\<lambda>j. if owner_id j = anonymousOwnerId input \<and> userId \<noteq> anonymousOwnerId input
                then adopted_row userId j else j"
  have "length (filter (\<lambda>j. owner_id j = userId \<and> active_status (status j)) (map ?f js)) =
      length (filter (\<lambda>j. owner_id j = userId \<and> active_status (status j)) js) +
      length (filter (\<lambda>j. owner_id j = anonymousOwnerId input \<and> active_status (status j)) js)" for js
    using assms by (induction js) (auto simp: adopted_row_def)
  then show "count_active_jobs userId (login_db userId input ident now d) =
     count_active_jobs userId d + count_active_jobs (anonymousOwnerId input) d"
    by (simp add: count_active_jobs_def login_db_def update_where_def)
  have "filter (\<lambda>j. owner_id j = anonymousOwnerId input \<and> active_status (status j)) (map ?f js) = []" for js
    using assms by (induction js) (auto simp: adopted_row_def)
  then show "count_active_jobs (anonymousOwnerId input) (login_db userId input ident now d) = 0"
    by (simp add: count_active_jobs_def login_db_def update_where_def)
qed

section \<open>Registration\<close>

lemma insert_user_Inr [sql_defs]:
  "insert_user name hash u t d = Inr (rows, d') \<longleftrightarrow>
     3 \<le> length name \<and> length name \<le> 30 \<and> toLowerCase name = name \<and>
     u 0 \<notin> set (map user_id (users d)) \<and> name \<notin> set (map username (users d)) \<and>
     rows = [authenticated_user (new_user (u 0) t name hash)] \<and>
     d' = d\<lparr>users := users d @ [new_user (u 0) t name hash]\<rparr>"
  by (auto simp: insert_user_def Let_def)

lemma registerUser_success:
  assumes "idle s" "registerUser name hash input w s = (Inr a, s')"
  obtains ident sid now where
    "a = \<lparr>auth_id = ident, auth_username = name\<rparr>"
    "3 \<le> length name" "length name \<le> 30" "toLowerCase name = name"
    "ident \<notin> set (map user_id (users (db s)))" "name \<notin> set (map username (users (db s)))"
    "login_ok ident input sid ((db s)\<lparr>users := users (db s) @ [new_user ident now name hash]\<rparr>)"
    "db s' = login_db ident input sid now
       ((db s)\<lparr>users := users (db s) @ [new_user ident now name hash]\<rparr>)"
proof -
  obtain s1 where b: "registerUser_body name hash input w (txn_start w s) = (Inr a, s1)"
    and d: "db s' = db s1"
    using transaction_InrD[OF registerUser_txn assms(1)] assms(2)[unfolded registerUser_def] by metis
  let ?t = "txn_start w s" and ?now = "clock w (Suc (tick s))"
  let ?id = "random_uuid w (Suc (Suc (tick s))) 0"
  let ?d = "(db s)\<lparr>users := users (db s) @ [new_user ?id ?now name hash]\<rparr>"
  have shape: "a = \<lparr>auth_id = ?id, auth_username = name\<rparr> \<and> 3 \<le> length name \<and> length name \<le> 30 \<and>
      toLowerCase name = name \<and> ?id \<notin> set (map user_id (users (db s))) \<and>
      name \<notin> set (map username (users (db s))) \<and>
      createUserSession_body ?id input w (after_query w ?d ?t) = (Inr (), s1)"
    using b by (auto simp: registerUser_body_def createUserSession_body_def effect_simps insert_user_Inr
        authenticated_user_def new_user_def split: option.splits)
  then have "\<exists>sid. login_ok ?id input sid ?d \<and> db s1 = login_db ?id input sid ?now ?d"
    using login_run[of ?id input w "after_query w ?d ?t" "()" s1] by simp
  then show ?thesis using shape d that by metis
qed

lemma registerUser_conflict:
  assumes "idle s" "registerUser name hash input w s = (Inl e, s')" "isUsernameConflict e"
  shows "name \<in> set (map username (users (db s)))"
proof -
  have e: "e = UniqueViolation ''idx_users_username_unique''" using assms(3) by (cases e) simp_all
  obtain s1 where b: "registerUser_body name hash input w (txn_start w s) = (Inl e, s1)"
    using transaction_InlD[OF assms(1)] assms(2)[unfolded registerUser_def] e by blast
  have other: "insert_session u tk ex uu t d \<noteq> Inl e" for u tk ex uu t d
    using e by (simp add: insert_session_def)
  show ?thesis
  proof (rule ccontr)
    assume free: "name \<notin> set (map username (users (db s)))"
    have "insert_user name hash uu t (db s) \<noteq> Inl e" for uu t
      using free e by (simp add: insert_user_def Let_def)
    then show False
      using b other e
      by (auto simp: registerUser_body_def adoptAnonymousJobs_def insertUserSession_def effect_simps
          update_adopted_def update_revoked_def split: option.splits if_splits dest!: client_query_Inl)
  qed
qed

section \<open>Properties\<close>

text \<open>A login that returns opens a session: until its expiry the new token authenticates as
  the account, the token it replaces authenticates nobody, every other token is as before,
  and the table invariant is kept.\<close>

theorem login_opens_session:
  assumes "idle s" "db_ok (db s)" "createUserSession userId input w s = (Inr x, s')"
  shows "db_ok (db s') \<and>
     (\<forall>t < expiresAt input. \<exists>u \<in> set (users (db s)). user_id u = userId \<and>
        authenticated (tokenHash input) t (db s') = Some (authenticated_user u)) \<and>
     (\<forall>old t. replacedTokenHash input = Some old \<and> old \<noteq> [] \<and> old \<noteq> tokenHash input \<longrightarrow>
        authenticated old t (db s') = None) \<and>
     (\<forall>tok t. tok \<noteq> tokenHash input \<and> replacedTokenHash input \<noteq> Some tok \<longrightarrow>
        authenticated tok t (db s') = authenticated tok t (db s))"
proof -
  obtain ident now where ok: "login_ok userId input ident (db s)"
    and d: "db s' = login_db userId input ident now (db s)"
    by (rule createUserSession_success[OF assms(1,3)])
  show ?thesis
    unfolding d using assms(2) ok
    by (auto intro: login_db_ok login_authenticates login_replaced login_others)
qed

definition sample_login :: CreateSessionInput where
  "sample_login = \<lparr>anonymousOwnerId = ''visitor'', expiresAt = 8000000,
     tokenHash = fingerprint (CHR ''c''), replacedTokenHash = Some (fingerprint (CHR ''a''))\<rparr>"

lemma sample_login_run:
  "createUserSession ''u1'' sample_login quiet_world (idle_exec sample_db) =
     (Inr (), snd (createUserSession ''u1'' sample_login quiet_world (idle_exec sample_db)))"
  by (rule run_of_fst) code_simp

lemma login_opens_session_witness:
  "authenticated (fingerprint (CHR ''c'')) 7000000
     (db (snd (createUserSession ''u1'' sample_login quiet_world (idle_exec sample_db)))) \<noteq> None"
proof -
  have "\<exists>u \<in> set (users sample_db). user_id u = ''u1'' \<and>
      authenticated (tokenHash sample_login) 7000000
        (db (snd (createUserSession ''u1'' sample_login quiet_world (idle_exec sample_db)))) =
      Some (authenticated_user u)"
    using login_opens_session[OF _ _ sample_login_run] sample_db_ok by (simp add: sample_login_def)
  then show ?thesis by (auto simp: sample_login_def)
qed

text \<open>C26: adoption adds up: logging in moves every job of the visitor to the account, finished ones
  included, and changes nothing else in the table of jobs, so that the account's number of active
  jobs becomes the sum of both (which nothing compares with the configured maximum: in the example
  it exceeds it) and the visitor has none left.\<close>

theorem adoption_adds_up:
  assumes "idle s" "userId \<noteq> anonymousOwnerId input"
    and "createUserSession userId input w s = (Inr x, s')"
  shows "jobs (db s') = map (\<lambda>j. if owner_id j = anonymousOwnerId input
        then j\<lparr>owner_id := userId\<rparr> else j) (jobs (db s)) \<and>
    count_active_jobs userId (db s') =
      count_active_jobs userId (db s) + count_active_jobs (anonymousOwnerId input) (db s) \<and>
    count_active_jobs (anonymousOwnerId input) (db s') = 0"
proof -
  obtain ident now where d: "db s' = login_db userId input ident now (db s)"
    by (rule createUserSession_success[OF assms(1,3)])
  show ?thesis
    unfolding d using login_active_count[OF assms(2)] assms(2)
    by (simp add: login_db_def update_where_def adopted_row_def)
qed

text \<open>The sample configuration allows one active job, and the account then has two.\<close>

lemma adoption_adds_up_witness:
  "count_active_jobs ''u1'' sample_db \<le> maxActiveJobsPerOwner demo_config \<and>
   count_active_jobs ''visitor'' sample_db \<le> maxActiveJobsPerOwner demo_config \<and>
   \<not> count_active_jobs ''u1'' (db (snd (createUserSession ''u1'' sample_login quiet_world (idle_exec sample_db))))
       \<le> maxActiveJobsPerOwner demo_config"
proof -
  have c: "count_active_jobs ''u1'' sample_db = 1" "count_active_jobs ''visitor'' sample_db = 1"
    by code_simp+
  have "count_active_jobs ''u1''
      (db (snd (createUserSession ''u1'' sample_login quiet_world (idle_exec sample_db)))) = 2"
    using adoption_adds_up[OF _ _ sample_login_run] c by (simp add: sample_login_def)
  then show ?thesis using c by (simp add: demo_config_def)
qed

text \<open>Registration takes a free name: it returns the new account under the given name, no
  account had that name or identifier before, the tables stay valid, and the reported
  name conflict is raised only when the name is taken.\<close>

theorem registration_unique:
  assumes "idle s" "db_ok (db s)"
  shows "case registerUser name hash input w s of
      (Inr a, s') \<Rightarrow> auth_username a = name \<and> db_ok (db s') \<and>
        name \<notin> set (map username (users (db s))) \<and>
        auth_id a \<notin> set (map user_id (users (db s))) \<and>
        set (map user_id (users (db s'))) = insert (auth_id a) (set (map user_id (users (db s))))
    | (Inl e, s') \<Rightarrow> db s' = db s \<and>
        (isUsernameConflict e \<longrightarrow> name \<in> set (map username (users (db s))))"
proof (cases "registerUser name hash input w s")
  case (Pair r s')
  show ?thesis
  proof (cases r)
    case (Inl e)
    then show ?thesis
      using Pair register_user.op_error[OF assms(1)] registerUser_conflict[OF assms(1)] by auto
  next
    case (Inr a)
    show ?thesis
    proof (rule registerUser_success[OF assms(1)])
      show "registerUser name hash input w s = (Inr a, s')" using Pair Inr by simp
    next
      fix ident sid now
      let ?d = "(db s)\<lparr>users := users (db s) @ [new_user ident now name hash]\<rparr>"
      assume a: "a = \<lparr>auth_id = ident, auth_username = name\<rparr>"
        and n: "3 \<le> length name" "length name \<le> 30" "toLowerCase name = name"
        and f: "ident \<notin> set (map user_id (users (db s)))" "name \<notin> set (map username (users (db s)))"
        and l: "login_ok ident input sid ?d" and d: "db s' = login_db ident input sid now ?d"
      have "db_ok ?d"
        using assms(2) n f by (auto simp: db_ok_def accounts_ok_def user_ok_def new_user_def)
      then have "db_ok (db s')" unfolding d using l by (rule login_db_ok)
      then show ?thesis using Pair Inr a f d by (simp add: login_db_def new_user_def)
    qed
  qed
qed

lemma registration_unique_witness:
  "\<exists>s'. registerUser ''alice'' ''h'' sample_login quiet_world (idle_exec sample_db) =
      (Inl (UniqueViolation ''idx_users_username_unique''), s') \<and> db s' = sample_db"
proof -
  have run: "registerUser ''alice'' ''h'' sample_login quiet_world (idle_exec sample_db) =
      (Inl (UniqueViolation ''idx_users_username_unique''),
       snd (registerUser ''alice'' ''h'' sample_login quiet_world (idle_exec sample_db)))"
    by (rule run_of_fst) code_simp
  show ?thesis
    using registration_unique[of "idle_exec sample_db" "''alice''" "''h''" sample_login quiet_world]
      sample_db_ok run by (auto split: prod.splits sum.splits)
qed

end
