(* ===== verification/AccountLifecycle.thy ===== *)
theory AccountLifecycle
  imports Accounts
begin

text \<open>
  backend/src/auth/accountLifecycleService.ts and sessionManagementService.ts: password
  change, account deletion, listing and removing sessions. The two transactions are
  described by what they commit (\<open>password_db\<close>, \<open>deleted_db\<close>).
\<close>

section \<open>Statements\<close>

definition select_password_hash :: "uuid \<Rightarrow> string list stmt" where
  "select_password_hash userId _ _ d =
     Inr (map password_hash (filter (\<lambda>u. user_id u = userId) (users d)), d)"

definition password_row :: "string \<Rightarrow> time \<Rightarrow> user \<Rightarrow> user" where
  "password_row hash now u = u\<lparr>password_hash := hash, user_updated_at := now\<rparr>"

definition update_password :: "uuid \<Rightarrow> string \<Rightarrow> nat stmt" where
  "update_password userId hash _ now d =
     Inr (length (filter (\<lambda>u. user_id u = userId) (users d)),
          d\<lparr>users := update_where (\<lambda>u. user_id u = userId) (password_row hash now) (users d)\<rparr>)"

definition ended_row :: "time \<Rightarrow> user_session \<Rightarrow> user_session" where
  "ended_row now s = s\<lparr>revoked_at := Some now\<rparr>"

definition other_session :: "uuid \<Rightarrow> string \<Rightarrow> user_session \<Rightarrow> bool" where
  "other_session userId token s \<longleftrightarrow>
     session_user_id s = userId \<and> token_hash s \<noteq> token \<and> revoked_at s = None"

definition update_other_sessions :: "uuid \<Rightarrow> string \<Rightarrow> unit stmt" where
  "update_other_sessions userId token _ now d =
     Inr ((), d\<lparr>user_sessions := update_where (other_session userId token) (ended_row now)
                                  (user_sessions d)\<rparr>)"

definition update_other_active_sessions :: "uuid \<Rightarrow> string \<Rightarrow> nat stmt" where
  "update_other_active_sessions userId token _ now d =
     (let P = (\<lambda>s. other_session userId token s \<and> now < expires_at s)
      in Inr (length (filter P (user_sessions d)),
              d\<lparr>user_sessions := update_where P (ended_row now) (user_sessions d)\<rparr>))"

text \<open>Account deletion: the four statements of its transaction.\<close>

definition owned_active :: "uuid \<Rightarrow> job \<Rightarrow> bool" where
  "owned_active userId j \<longleftrightarrow> owner_id j = userId \<and> active_status (status j)"

definition stopped_row :: "time \<Rightarrow> job \<Rightarrow> job" where
  "stopped_row now j =
     j\<lparr>status := CANCELLED, processing_worker_id := None, processing_heartbeat_at := None,
       error_message := None, updated_at := now\<rparr>"

definition cancel_events :: "string \<Rightarrow> (nat \<Rightarrow> uuid) \<Rightarrow> time \<Rightarrow> uuid list \<Rightarrow> outbox_event list" where
  "cancel_events tp uuids now ids =
     map (\<lambda>(k, i). new_event (uuids k) now tp i [(''jobId'', i)]) (enumerate 0 ids)"

definition cancel_owned_jobs :: "uuid \<Rightarrow> string \<Rightarrow> unit stmt" where
  "cancel_owned_jobs userId tp uuids now d =
     (let ids = map job_id (filter (owned_active userId) (jobs d));
          evs = cancel_events tp uuids now ids
      in if \<not> distinct (map event_id (outbox_events d @ evs))
         then Inl (UniqueViolation ''outbox_events_pkey'')
         else Inr ((), d\<lparr>jobs := update_where (owned_active userId) (stopped_row now) (jobs d),
                        outbox_events := outbox_events d @ evs\<rparr>))"

definition disowned_row :: "time \<Rightarrow> job \<Rightarrow> job" where
  "disowned_row now j =
     j\<lparr>storage_expires_at := Some now, owner_deleted_at := Some now, updated_at := now\<rparr>"

definition expire_owned_jobs :: "uuid \<Rightarrow> unit stmt" where
  "expire_owned_jobs userId _ now d =
     Inr ((), d\<lparr>jobs := update_where (\<lambda>j. owner_id j = userId) (disowned_row now) (jobs d)\<rparr>)"

definition delete_cleaned_jobs :: "uuid \<Rightarrow> unit stmt" where
  "delete_cleaned_jobs userId _ _ d =
     Inr ((), d\<lparr>jobs := delete_where (\<lambda>j. owner_id j = userId \<and> storage_deleted_at j \<noteq> None) (jobs d)\<rparr>)"

text \<open>\<open>ON DELETE CASCADE\<close> removes the sessions of the deleted account.\<close>

definition delete_user :: "uuid \<Rightarrow> nat stmt" where
  "delete_user userId _ _ d =
     Inr (length (filter (\<lambda>u. user_id u = userId) (users d)),
          d\<lparr>users := delete_where (\<lambda>u. user_id u = userId) (users d),
            user_sessions :=
              (if userId \<in> set (map user_id (users d))
               then delete_where (\<lambda>s. session_user_id s = userId) (user_sessions d)
               else user_sessions d)\<rparr>)"

definition select_active_sessions :: "uuid \<Rightarrow> user_session list stmt" where
  "select_active_sessions userId _ now d =
     Inr (order_by_desc session_created_at
           (filter (\<lambda>s. session_user_id s = userId \<and> revoked_at s = None \<and> now < expires_at s)
              (user_sessions d)), d)"

definition inactive_session :: "time \<Rightarrow> user_session \<Rightarrow> bool" where
  "inactive_session now s \<longleftrightarrow>
     expires_at s \<le> now \<or> (case revoked_at s of None \<Rightarrow> False | Some r \<Rightarrow> r \<le> now - days 7)"

definition delete_inactive_sessions :: "nat stmt" where
  "delete_inactive_sessions _ now d =
     Inr (length (filter (inactive_session now) (user_sessions d)),
          d\<lparr>user_sessions := delete_where (inactive_session now) (user_sessions d)\<rparr>)"

declare select_password_hash_def [sql_defs] update_password_def [sql_defs]
  update_other_sessions_def [sql_defs] update_other_active_sessions_def [sql_defs]
  expire_owned_jobs_def [sql_defs] delete_cleaned_jobs_def [sql_defs] delete_user_def [sql_defs]
  select_active_sessions_def [sql_defs] delete_inactive_sessions_def [sql_defs]

section \<open>accountLifecycleService.ts\<close>

definition findPasswordHashForUser :: "uuid \<Rightarrow> string option eff" where
  "findPasswordHashForUser userId =
     bindM (pool_query (select_password_hash userId)) (\<lambda>rows. returnM (first_row rows))"

definition changeUserPassword_body :: "uuid \<Rightarrow> string \<Rightarrow> string \<Rightarrow> unit eff" where
  "changeUserPassword_body userId newPasswordHash currentTokenHash =
     bindM (client_query (update_password userId newPasswordHash)) (\<lambda>rowCount.
       if rowCount \<noteq> 1 then throwM (PlainError ''The account no longer exists'')
       else client_query (update_other_sessions userId currentTokenHash))"

definition changeUserPassword :: "uuid \<Rightarrow> string \<Rightarrow> string \<Rightarrow> unit eff" where
  "changeUserPassword userId newPasswordHash currentTokenHash =
     transaction (changeUserPassword_body userId newPasswordHash currentTokenHash)"

definition deleteUserAccount_body :: "config \<Rightarrow> uuid \<Rightarrow> unit eff" where
  "deleteUserAccount_body cfg userId =
     thenM (client_query (cancel_owned_jobs userId (jobStatusTopic cfg)))
    (thenM (client_query (expire_owned_jobs userId))
    (thenM (client_query (delete_cleaned_jobs userId))
    (bindM (client_query (delete_user userId)) (\<lambda>rowCount.
       if rowCount \<noteq> 1 then throwM (PlainError ''The account no longer exists'')
       else returnM ()))))"

definition deleteUserAccount :: "config \<Rightarrow> uuid \<Rightarrow> unit eff" where
  "deleteUserAccount cfg userId = transaction (deleteUserAccount_body cfg userId)"

section \<open>sessionManagementService.ts\<close>

record AccountSession =
  account_session_id :: uuid
  createdAt :: time
  lastSeenAt :: time
  sessionExpiresAt :: time
  isCurrent :: bool

definition account_session :: "string \<Rightarrow> user_session \<Rightarrow> AccountSession" where
  "account_session currentTokenHash s =
     \<lparr>account_session_id = session_id s, createdAt = session_created_at s,
      lastSeenAt = last_seen_at s, sessionExpiresAt = expires_at s,
      isCurrent = (token_hash s = currentTokenHash)\<rparr>"

definition listActiveUserSessions :: "uuid \<Rightarrow> string \<Rightarrow> AccountSession list eff" where
  "listActiveUserSessions userId currentTokenHash =
     bindM (pool_query (select_active_sessions userId)) (\<lambda>rows.
       returnM (map (account_session currentTokenHash) rows))"

definition revokeOtherUserSessions :: "uuid \<Rightarrow> string \<Rightarrow> nat eff" where
  "revokeOtherUserSessions userId currentTokenHash =
     pool_query (update_other_active_sessions userId currentTokenHash)"

definition deleteInactiveUserSessions :: "nat eff" where
  "deleteInactiveUserSessions = pool_query delete_inactive_sessions"

section \<open>Transactions\<close>

lemma changeUserPassword_txn: "in_txn (changeUserPassword_body userId hash token)"
  "straight (changeUserPassword_body userId hash token)"
  unfolding changeUserPassword_body_def by (intro in_txn_bind in_txn_query in_txn_if in_txn_throw
      straight_bind straight_query straight_if straight_throw)+

lemma deleteUserAccount_txn: "in_txn (deleteUserAccount_body cfg userId)"
  "straight (deleteUserAccount_body cfg userId)"
  unfolding deleteUserAccount_body_def
  by (intro in_txn_bind in_txn_then in_txn_query in_txn_if in_txn_throw in_txn_return
      straight_bind straight_then straight_query straight_if straight_throw straight_return)+

interpretation change_password: atomic_service "changeUserPassword userId hash token"
  for userId hash token
  unfolding changeUserPassword_def by (rule transaction_atomic_service) (rule changeUserPassword_txn)

interpretation delete_account: atomic_service "deleteUserAccount cfg userId" for cfg userId
  unfolding deleteUserAccount_def by (rule transaction_atomic_service) (rule deleteUserAccount_txn)

section \<open>Password change\<close>

definition password_db :: "uuid \<Rightarrow> string \<Rightarrow> string \<Rightarrow> time \<Rightarrow> database \<Rightarrow> database" where
  "password_db userId hash token now d =
     d\<lparr>users := update_where (\<lambda>u. user_id u = userId) (password_row hash now) (users d),
       user_sessions := update_where (other_session userId token) (ended_row now) (user_sessions d)\<rparr>"

lemma password_row_simps [simp]:
  "user_id (password_row h t u) = user_id u" "username (password_row h t u) = username u"
  "password_hash (password_row h t u) = h"
  by (simp_all add: password_row_def)

lemma ended_row_simps [simp]:
  "session_id (ended_row t s) = session_id s" "token_hash (ended_row t s) = token_hash s"
  "session_user_id (ended_row t s) = session_user_id s" "revoked_at (ended_row t s) = Some t"
  "\<not> session_active tok t' (ended_row t s)"
  by (simp_all add: ended_row_def session_active_def)

lemma authenticated_user_password [simp]:
  "authenticated_user (password_row h t u) = authenticated_user u"
  by (simp add: authenticated_user_def)

lemma auth_id_authenticated_user [simp]: "auth_id (authenticated_user u) = user_id u"
  by (simp add: authenticated_user_def)

lemma changeUserPassword_success:
  assumes "idle s" "changeUserPassword userId hash token w s = (Inr x, s')"
  shows "(\<exists>u \<in> set (users (db s)). user_id u = userId) \<and>
     db s' = password_db userId hash token (clock w (Suc (tick s))) (db s)"
proof -
  obtain s1 where b: "changeUserPassword_body userId hash token w (txn_start w s) = (Inr x, s1)"
    and d: "db s' = db s1"
    using transaction_InrD[OF changeUserPassword_txn assms(1)]
      assms(2)[unfolded changeUserPassword_def] by metis
  have one: "length (filter P rows) = Suc 0 \<Longrightarrow> \<exists>r \<in> set rows. P r" for P and rows :: "user list"
    by (cases "filter P rows") (auto simp: filter_eq_Cons_iff)
  show ?thesis
    using b d
    by (auto simp: changeUserPassword_body_def password_db_def effect_simps sql_defs
        split: if_splits intro!: one)
qed

lemma password_db_ok:
  assumes "db_ok d"
  shows "db_ok (password_db userId hash token now d)"
  using assms unfolding db_ok_def password_db_def
  by (auto intro!: accounts_ok_users_update accounts_ok_sessions_update)

lemma option_without:
  assumes "\<And>a. x = Some a \<longleftrightarrow> y = Some a \<and> \<not> P a"
  shows "x = (case y of None \<Rightarrow> None | Some a \<Rightarrow> if P a then None else Some a)"
proof (cases x)
  case None
  then have "\<not> (y = Some a \<and> \<not> P a)" for a using assms by (metis option.distinct(1))
  then show ?thesis using None by (auto split: option.split)
next
  case (Some a)
  then have "y = Some a \<and> \<not> P a" using assms by metis
  then show ?thesis using Some by simp
qed

text \<open>The sessions the change ends, and the account a token opens.\<close>

lemma session_owner_unique:
  assumes "accounts_ok us ss" "s \<in> set ss" "r \<in> set ss" "token_hash s = token_hash r"
  shows "s = r"
  using assms unfolding accounts_ok_def by (meson distinct_key_unique)

lemma password_authenticated:
  assumes "db_ok d"
  shows "authenticated tok t (password_db userId hash token now d) =
     (case authenticated tok t d of
        None \<Rightarrow> None
      | Some a \<Rightarrow> if auth_id a = userId \<and> tok \<noteq> token then None else Some a)"
proof -
  let ?d = "password_db userId hash token now d"
  have ok: "accounts_ok (users d) (user_sessions d)" "accounts_ok (users ?d) (user_sessions ?d)"
    using assms password_db_ok[OF assms] by (simp_all add: db_ok_def)
  have act: "s \<in> set (user_sessions ?d) \<and> session_active tok t s \<longleftrightarrow>
      s \<in> set (user_sessions d) \<and> session_active tok t s \<and>
      \<not> (session_user_id s = userId \<and> tok \<noteq> token)" for s
    by (auto simp: password_db_def set_update_where other_session_def session_active_def)
  have us: "authenticated_user ` set (users ?d) = authenticated_user ` set (users d)"
    by (simp add: password_db_def image_update_where_key)
  have new: "authenticated tok t ?d = Some a \<longleftrightarrow>
      authenticated tok t d = Some a \<and> \<not> (auth_id a = userId \<and> tok \<noteq> token)" for a
  proof -
    have "authenticated tok t ?d = Some a \<longleftrightarrow>
        (\<exists>s. s \<in> set (user_sessions ?d) \<and> session_active tok t s \<and>
           (\<exists>v \<in> authenticated_user ` set (users ?d). auth_id v = session_user_id s \<and> a = v))"
      unfolding authenticated_iff[OF ok(2)] by auto
    also have "\<dots> \<longleftrightarrow> (\<exists>s. (s \<in> set (user_sessions d) \<and> session_active tok t s \<and>
           \<not> (session_user_id s = userId \<and> tok \<noteq> token)) \<and>
           (\<exists>v \<in> authenticated_user ` set (users d). auth_id v = session_user_id s \<and> a = v))"
      unfolding us using act by blast
    also have "\<dots> \<longleftrightarrow> authenticated tok t d = Some a \<and> \<not> (auth_id a = userId \<and> tok \<noteq> token)"
      unfolding authenticated_iff[OF ok(1)] by auto
    finally show ?thesis .
  qed
  show ?thesis using new by (intro option_without) simp
qed

section \<open>Account deletion\<close>

definition deleted_db :: "config \<Rightarrow> uuid \<Rightarrow> (nat \<Rightarrow> uuid) \<Rightarrow> time \<Rightarrow> database \<Rightarrow> database" where
  "deleted_db cfg userId uuids now d =
     d\<lparr>jobs := delete_where (\<lambda>j. owner_id j = userId \<and> storage_deleted_at j \<noteq> None)
         (update_where (\<lambda>j. owner_id j = userId) (disowned_row now)
           (update_where (owned_active userId) (stopped_row now) (jobs d))),
       outbox_events := outbox_events d @
         cancel_events (jobStatusTopic cfg) uuids now
           (map job_id (filter (owned_active userId) (jobs d))),
       users := delete_where (\<lambda>u. user_id u = userId) (users d),
       user_sessions := delete_where (\<lambda>s. session_user_id s = userId) (user_sessions d)\<rparr>"

lemma cancel_owned_jobs_Inr [sql_defs]:
  "cancel_owned_jobs userId tp u t d = Inr (x, d') \<longleftrightarrow>
     distinct (map event_id (outbox_events d @
       cancel_events tp u t (map job_id (filter (owned_active userId) (jobs d))))) \<and>
     d' = d\<lparr>jobs := update_where (owned_active userId) (stopped_row t) (jobs d),
            outbox_events := outbox_events d @
              cancel_events tp u t (map job_id (filter (owned_active userId) (jobs d)))\<rparr>"
  by (auto simp: cancel_owned_jobs_def Let_def)

lemma filter_length_pos: "length (filter P xs) = Suc 0 \<Longrightarrow> \<exists>x \<in> set xs. P x"
  by (cases "filter P xs") (auto simp: filter_eq_Cons_iff)

lemma deleteUserAccount_success:
  assumes "idle s" "deleteUserAccount cfg userId w s = (Inr x, s')"
  obtains uuids now where "userId \<in> set (map user_id (users (db s)))"
    "distinct (map event_id (outbox_events (deleted_db cfg userId uuids now (db s))))"
    "db s' = deleted_db cfg userId uuids now (db s)"
proof -
  obtain s1 where b: "deleteUserAccount_body cfg userId w (txn_start w s) = (Inr x, s1)"
    and d: "db s' = db s1"
    using transaction_InrD[OF deleteUserAccount_txn assms(1)]
      assms(2)[unfolded deleteUserAccount_def] by metis
  have one: "length (filter (\<lambda>u. user_id u = userId) (users (db s))) = Suc 0"
    using b by (auto simp: deleteUserAccount_body_def effect_simps sql_defs split: if_splits)
  then have u: "userId \<in> user_id ` set (users (db s))" using filter_length_pos by force
  show ?thesis
    using b d u
    by (intro that[of "random_uuid w (Suc (Suc (tick s)))" "clock w (Suc (tick s))"])
      (auto simp: deleteUserAccount_body_def deleted_db_def effect_simps sql_defs split: if_splits)
qed

lemma stopped_row_simps [simp]:
  "job_id (stopped_row t j) = job_id j" "owner_id (stopped_row t j) = owner_id j"
  "status (stopped_row t j) = CANCELLED" "storage_deleted_at (stopped_row t j) = storage_deleted_at j"
  by (simp_all add: stopped_row_def)

lemma disowned_row_simps [simp]:
  "job_id (disowned_row t j) = job_id j" "owner_id (disowned_row t j) = owner_id j"
  "status (disowned_row t j) = status j" "storage_deleted_at (disowned_row t j) = storage_deleted_at j"
  "storage_expires_at (disowned_row t j) = Some t" "owner_deleted_at (disowned_row t j) = Some t"
  by (simp_all add: disowned_row_def)

text \<open>What the two updates make of a row.\<close>

definition removed_row :: "uuid \<Rightarrow> time \<Rightarrow> job \<Rightarrow> job" where
  "removed_row userId now j =
     (if owner_id j = userId
      then disowned_row now (if active_status (status j) then stopped_row now j else j)
      else j)"

lemma deleted_jobs:
  "jobs (deleted_db cfg userId uuids now d) =
     map (removed_row userId now)
       (filter (\<lambda>j. \<not> (owner_id j = userId \<and> storage_deleted_at j \<noteq> None)) (jobs d))"
proof -
  have "filter (\<lambda>j. \<not> (owner_id j = userId \<and> storage_deleted_at j \<noteq> None))
      (map (removed_row userId now) js) =
    map (removed_row userId now)
      (filter (\<lambda>j. \<not> (owner_id j = userId \<and> storage_deleted_at j \<noteq> None)) js)" for js
    by (induction js) (auto simp: removed_row_def)
  moreover have "update_where (\<lambda>j. owner_id j = userId) (disowned_row now)
      (update_where (owned_active userId) (stopped_row now) (jobs d)) =
      map (removed_row userId now) (jobs d)"
    by (auto simp: update_where_def removed_row_def owned_active_def)
  ultimately show ?thesis by (simp add: deleted_db_def delete_where_def)
qed

lemma removed_row_simps [simp]:
  "job_id (removed_row u t j) = job_id j" "owner_id (removed_row u t j) = owner_id j"
  by (simp_all add: removed_row_def)

lemma removed_row_other: "owner_id j \<noteq> u \<Longrightarrow> removed_row u t j = j"
  by (simp add: removed_row_def)

lemma removed_row_owned:
  assumes "owner_id j = u"
  shows "\<not> active_status (status (removed_row u t j))" "storage_expires_at (removed_row u t j) = Some t"
    "owner_deleted_at (removed_row u t j) = Some t"
    "storage_deleted_at (removed_row u t j) = storage_deleted_at j"
  using assms by (simp_all add: removed_row_def)

lemma job_ok_removed: "job_ok j \<Longrightarrow> job_ok (removed_row u t j)"
  by (cases "owner_id j = u"; cases "active_status (status j)")
    (auto simp: job_ok_def removed_row_def disowned_row_def stopped_row_def)

lemma accounts_ok_delete_user:
  assumes "accounts_ok us ss"
  shows "accounts_ok (delete_where (\<lambda>u. user_id u = i) us) (delete_where (\<lambda>s. session_user_id s = i) ss)"
proof -
  have "set (map session_user_id (delete_where (\<lambda>s. session_user_id s = i) ss)) \<subseteq>
      set (map user_id (delete_where (\<lambda>u. user_id u = i) us))"
  proof
    fix v
    assume "v \<in> set (map session_user_id (delete_where (\<lambda>s. session_user_id s = i) ss))"
    then have v: "v \<noteq> i" "v \<in> set (map session_user_id ss)" by (auto simp: delete_where_def)
    then have "v \<in> set (map user_id us)" using assms unfolding accounts_ok_def by blast
    then show "v \<in> set (map user_id (delete_where (\<lambda>u. user_id u = i) us))"
      using v(1) by (auto simp: delete_where_def)
  qed
  then show ?thesis
    using assms unfolding accounts_ok_def
    by (simp add: delete_where_def list_all_iff distinct_map_filter)
qed

lemma jobs_ok_map_filter:
  assumes "jobs_ok js" "\<And>j. job_id (f j) = job_id j" "\<And>j. job_ok j \<Longrightarrow> job_ok (f j)"
  shows "jobs_ok (map f (filter P js))"
proof -
  have "job_id \<circ> f = job_id" using assms(2) by (simp add: fun_eq_iff)
  moreover have "distinct (map job_id (filter P js))"
    using assms(1) by (auto simp: jobs_ok_def distinct_map_filter)
  ultimately show ?thesis
    using assms(1,3) by (auto simp: jobs_ok_def list_all_iff)
qed

lemma deleted_db_ok:
  assumes "db_ok d" "distinct (map event_id (outbox_events (deleted_db cfg userId uuids now d)))"
  shows "db_ok (deleted_db cfg userId uuids now d)"
proof -
  have "jobs_ok (jobs (deleted_db cfg userId uuids now d))"
    using assms(1) unfolding deleted_jobs db_ok_def
    by (intro jobs_ok_map_filter job_ok_removed) simp_all
  moreover have "accounts_ok (delete_where (\<lambda>u. user_id u = userId) (users d))
      (delete_where (\<lambda>s. session_user_id s = userId) (user_sessions d))"
    using assms(1) unfolding db_ok_def by (intro accounts_ok_delete_user) simp
  ultimately show ?thesis
    using assms(2) unfolding db_ok_def by (simp add: deleted_db_def)
qed

lemma deleted_authenticated:
  assumes "db_ok d" "db_ok (deleted_db cfg userId uuids now d)"
  shows "authenticated tok t (deleted_db cfg userId uuids now d) =
     (case authenticated tok t d of
        None \<Rightarrow> None
      | Some a \<Rightarrow> if auth_id a = userId then None else Some a)"
proof -
  let ?d = "deleted_db cfg userId uuids now d"
  have ok: "accounts_ok (users d) (user_sessions d)" "accounts_ok (users ?d) (user_sessions ?d)"
    using assms by (simp_all add: db_ok_def)
  have new: "authenticated tok t ?d = Some a \<longleftrightarrow>
      authenticated tok t d = Some a \<and> auth_id a \<noteq> userId" for a
    unfolding authenticated_iff[OF ok(1)] authenticated_iff[OF ok(2)]
    by (simp add: deleted_db_def delete_where_def) (metis auth_id_authenticated_user)
  show ?thesis using new by (intro option_without) simp
qed

lemma deleted_rows:
  assumes "d' = deleted_db cfg userId uuids now d"
  shows "\<exists>now. \<forall>j \<in> set (jobs d'). owner_id j = userId \<longrightarrow>
           \<not> active_status (status j) \<and> storage_expires_at j = Some now \<and>
           owner_deleted_at j = Some now \<and> storage_deleted_at j = None"
    and "map job_id (jobs d') =
          map job_id (filter (\<lambda>j. owner_id j = userId \<longrightarrow> storage_deleted_at j = None) (jobs d))"
    and "filter (\<lambda>j. owner_id j \<noteq> userId) (jobs d') = filter (\<lambda>j. owner_id j \<noteq> userId) (jobs d)"
proof -
  let ?keep = "\<lambda>j. \<not> (owner_id j = userId \<and> storage_deleted_at j \<noteq> None)"
  have keep: "?keep = (\<lambda>j. owner_id j = userId \<longrightarrow> storage_deleted_at j = None)" by auto
  have rows: "jobs d' = map (removed_row userId now) (filter ?keep (jobs d))"
    unfolding assms by (rule deleted_jobs)
  have "\<forall>j \<in> set (jobs d'). owner_id j = userId \<longrightarrow>
           \<not> active_status (status j) \<and> storage_expires_at j = Some now \<and>
           owner_deleted_at j = Some now \<and> storage_deleted_at j = None"
    unfolding rows by (auto simp: removed_row_owned)
  then show "\<exists>now. \<forall>j \<in> set (jobs d'). owner_id j = userId \<longrightarrow>
           \<not> active_status (status j) \<and> storage_expires_at j = Some now \<and>
           owner_deleted_at j = Some now \<and> storage_deleted_at j = None" by blast
  show "map job_id (jobs d') =
          map job_id (filter (\<lambda>j. owner_id j = userId \<longrightarrow> storage_deleted_at j = None) (jobs d))"
    unfolding rows keep by simp
  show "filter (\<lambda>j. owner_id j \<noteq> userId) (jobs d') = filter (\<lambda>j. owner_id j \<noteq> userId) (jobs d)"
  proof -
    have "filter (\<lambda>j. owner_id j \<noteq> userId) (map (removed_row userId now) (filter ?keep js)) =
        filter (\<lambda>j. owner_id j \<noteq> userId) js" for js
      by (induction js) (auto simp: removed_row_other)
    then show ?thesis unfolding rows .
  qed
qed

lemma deleted_events:
  assumes "d' = deleted_db cfg userId uuids now d"
  shows "\<exists>evs. outbox_events d' = outbox_events d @ evs \<and>
     map event_key evs = map job_id (filter (\<lambda>j. owner_id j = userId \<and> active_status (status j)) (jobs d)) \<and>
     (\<forall>e \<in> set evs. topic e = jobStatusTopic cfg \<and> payload e = [(''jobId'', event_key e)] \<and>
        event_status e = EvPENDING \<and> attempts e = 0)"
proof -
  have keys: "map event_key (cancel_events tp uuids now ids) = ids" for tp ids
    by (rule nth_equalityI) (simp_all add: cancel_events_def nth_enumerate_eq)
  have "\<forall>e \<in> set (cancel_events tp uuids now ids). topic e = tp \<and> payload e = [(''jobId'', event_key e)] \<and>
      event_status e = EvPENDING \<and> attempts e = 0" for tp ids
    by (auto simp: cancel_events_def new_event_def)
  then show ?thesis using keys by (auto simp: assms deleted_db_def owned_active_def[abs_def])
qed

lemma deleted_status:
  assumes "d' = deleted_db cfg userId uuids now d"
  shows "map status (filter (\<lambda>j. owner_id j = userId) (jobs d')) =
     map (\<lambda>j. if active_status (status j) then CANCELLED else status j)
       (filter (\<lambda>j. owner_id j = userId \<and> storage_deleted_at j = None) (jobs d))"
proof -
  have "map status (filter (\<lambda>j. owner_id j = userId) (map (removed_row userId now)
      (filter (\<lambda>j. \<not> (owner_id j = userId \<and> storage_deleted_at j \<noteq> None)) js))) =
     map (\<lambda>j. if active_status (status j) then CANCELLED else status j)
       (filter (\<lambda>j. owner_id j = userId \<and> storage_deleted_at j = None) js)" for js
    by (induction js) (auto simp: removed_row_def disowned_row_def stopped_row_def)
  then show ?thesis unfolding assms deleted_jobs .
qed

lemma deleted_user:
  "d' = deleted_db cfg userId uuids now d \<Longrightarrow> userId \<notin> set (map user_id (users d'))"
  by (auto simp: deleted_db_def delete_where_def)

section \<open>Sessions\<close>

lemma findUserByActiveSession_Inr:
  assumes "db_ok (db s)" "findUserByActiveSession tok w s = (Inr r, s')"
  shows "r = authenticated tok (stmt_now w s) (db s)" and "db_ok (db s')"
    and "authenticated tok' t (db s') = authenticated tok' t (db s)"
    and "jobs (db s') = jobs (db s)"
proof -
  let ?P = "\<lambda>x. token_hash x = tok \<and> last_seen_at x < stmt_now w s - minutes 15 \<and>
      list_ex (session_active tok (stmt_now w s)) (user_sessions (db s))"
  let ?f = "touched_row (stmt_now w s)"
  have r: "r = authenticated tok (stmt_now w s) (db s)"
    and d: "db s' = (db s)\<lparr>user_sessions := update_where ?P ?f (user_sessions (db s))\<rparr>"
    using assms(2)
    by (auto simp: findUserByActiveSession_def pool_query_def authenticated_def effect_simps sql_defs)
  have acc: "accounts_ok (users (db s)) (user_sessions (db s))" using assms(1) by (simp add: db_ok_def)
  have acc': "accounts_ok (users (db s)) (update_where ?P ?f (user_sessions (db s)))"
    using acc by (rule accounts_ok_sessions_update) (simp_all add: touched_row_def)
  show "r = authenticated tok (stmt_now w s) (db s)" by (rule r)
  show "db_ok (db s')" using assms(1) acc' by (simp add: d db_ok_def)
  show "jobs (db s') = jobs (db s)" by (simp add: d)
  have "authenticated tok' t ((db s)\<lparr>users := users (db s),
      user_sessions := update_where ?P ?f (user_sessions (db s))\<rparr>) = authenticated tok' t (db s)"
    by (rule authenticated_update_sessions)
      (simp_all add: acc acc' touched_row_def session_active_def)
  then show "authenticated tok' t (db s') = authenticated tok' t (db s)" by (simp add: d)
qed

text \<open>Cleaning up sessions changes nobody's authentication, now or later.\<close>

definition pruned_db :: "time \<Rightarrow> database \<Rightarrow> database" where
  "pruned_db now d = d\<lparr>user_sessions := delete_where (inactive_session now) (user_sessions d)\<rparr>"

lemma deleteInactiveUserSessions_Inr:
  "deleteInactiveUserSessions w s = (Inr n, s') \<Longrightarrow>
     db s' = pruned_db (stmt_now w s) (db s) \<and>
     n = length (filter (inactive_session (stmt_now w s)) (user_sessions (db s)))"
  by (auto simp: deleteInactiveUserSessions_def pool_query_def effect_simps sql_defs pruned_db_def)

lemma pruned_db_ok: "db_ok d \<Longrightarrow> db_ok (pruned_db now d)"
  by (auto simp: db_ok_def pruned_db_def intro: accounts_ok_sessions_delete)

lemma inactive_not_active:
  "now \<le> t \<Longrightarrow> inactive_session now s \<Longrightarrow> \<not> session_active tok t s"
  by (auto simp: inactive_session_def session_active_def)

lemma pruned_authenticated:
  assumes "db_ok d" "now \<le> t"
  shows "authenticated tok t (pruned_db now d) = authenticated tok t d"
proof (rule authenticated_cong)
  show "accounts_ok (users (pruned_db now d)) (user_sessions (pruned_db now d))"
    using pruned_db_ok[OF assms(1)] by (simp add: db_ok_def)
  show "accounts_ok (users d) (user_sessions d)" using assms(1) by (simp add: db_ok_def)
  show "session_user_id ` {s \<in> set (user_sessions (pruned_db now d)). session_active tok t s} =
      session_user_id ` {s \<in> set (user_sessions d). session_active tok t s}"
    using inactive_not_active[OF assms(2)]
    by (intro arg_cong[of _ _ "image session_user_id"]) (auto simp: pruned_db_def delete_where_def)
qed (simp add: pruned_db_def)

text \<open>The listing shows exactly the sessions that authenticate.\<close>

lemma listActiveUserSessions_Inr:
  "listActiveUserSessions userId cur w s = (Inr rows, s') \<Longrightarrow>
     db s' = db s \<and>
     rows = map (account_session cur) (order_by_desc session_created_at
       (filter (\<lambda>x. session_user_id x = userId \<and> revoked_at x = None \<and> stmt_now w s < expires_at x)
          (user_sessions (db s))))"
  by (auto simp: listActiveUserSessions_def pool_query_def effect_simps sql_defs)

lemma listed_iff_authenticates:
  assumes "db_ok d" "x \<in> set (user_sessions d)"
  shows "(session_user_id x = userId \<and> revoked_at x = None \<and> now < expires_at x) \<longleftrightarrow>
     (\<exists>a. authenticated (token_hash x) now d = Some a \<and> auth_id a = userId)"
proof -
  have ok: "accounts_ok (users d) (user_sessions d)" using assms(1) by (simp add: db_ok_def)
  have "\<exists>u \<in> set (users d). user_id u = session_user_id x"
    using ok assms(2) unfolding accounts_ok_def by (metis (no_types, lifting) imageE image_eqI list.set_map subsetD)
  then obtain u where u: "u \<in> set (users d)" "user_id u = session_user_id x" by blast
  have only: "y = x" if "y \<in> set (user_sessions d)" "session_active (token_hash x) now y" for y
    using that session_owner_unique[OF ok that(1) assms(2)] by (simp add: session_active_def)
  show ?thesis
  proof (cases "session_active (token_hash x) now x")
    case True
    then have "authenticated (token_hash x) now d = Some (authenticated_user u)"
      using authenticated_iff[OF ok] assms(2) u by blast
    then show ?thesis using True u by (auto simp: session_active_def)
  next
    case False
    then have "authenticated (token_hash x) now d = None"
      unfolding authenticated_None_iff[OF ok] using only by blast
    then show ?thesis using False by (auto simp: session_active_def)
  qed
qed

lemma listed_sessions:
  assumes "db_ok d"
  shows "set (map (account_session cur) (order_by_desc session_created_at
       (filter (\<lambda>x. session_user_id x = userId \<and> revoked_at x = None \<and> now < expires_at x)
          (user_sessions d)))) =
     account_session cur ` {x \<in> set (user_sessions d).
       \<exists>a. authenticated (token_hash x) now d = Some a \<and> auth_id a = userId}"
proof -
  have "{x \<in> set (user_sessions d). session_user_id x = userId \<and> revoked_at x = None \<and> now < expires_at x} =
      {x \<in> set (user_sessions d). \<exists>a. authenticated (token_hash x) now d = Some a \<and> auth_id a = userId}"
    using listed_iff_authenticates[OF assms] by blast
  then show ?thesis by simp
qed

lemma listed_current:
  assumes "db_ok d" "x \<in> set (user_sessions d)" "y \<in> set (user_sessions d)"
    "isCurrent (account_session cur x)" "isCurrent (account_session cur y)"
  shows "x = y"
  using assms session_owner_unique[of "users d" "user_sessions d" x y]
  by (simp add: db_ok_def account_session_def)

text \<open>Logging out, and ending every other session of an account.\<close>

lemma revokeUserSession_Inr:
  assumes "db_ok (db s)" "revokeUserSession tok w s = (Inr x, s')"
  shows "db_ok (db s')" and "authenticated tok' t (db s') =
     (if tok' = tok then None else authenticated tok' t (db s))"
proof -
  let ?P = "\<lambda>s. token_hash s = tok" and ?f = "revoked_row (stmt_now w s)"
  have d: "db s' = (db s)\<lparr>user_sessions := update_where ?P ?f (user_sessions (db s))\<rparr>"
    using assms(2) by (auto simp: revokeUserSession_def pool_query_def effect_simps sql_defs)
  have acc: "accounts_ok (users (db s)) (user_sessions (db s))" using assms(1) by (simp add: db_ok_def)
  have acc': "accounts_ok (users (db s)) (update_where ?P ?f (user_sessions (db s)))"
    using acc by (rule accounts_ok_sessions_update) simp_all
  show "db_ok (db s')" using assms(1) acc' by (simp add: d db_ok_def)
  show "authenticated tok' t (db s') = (if tok' = tok then None else authenticated tok' t (db s))"
  proof (cases "tok' = tok")
    case True
    have dead: "\<not> session_active tok t (?f x)" for x by (simp add: session_active_def)
    have other: "\<not> session_active tok t x" if "token_hash x \<noteq> tok" for x
      using that by (simp add: session_active_def)
    have "\<not> session_active tok t x" if "x \<in> set (user_sessions (db s'))" for x
      using that dead other by (auto simp: d set_update_where)
    moreover have "accounts_ok (users (db s')) (user_sessions (db s'))" using acc' by (simp add: d)
    ultimately have "authenticated tok t (db s') = None"
      by (simp add: authenticated_None_iff)
    then show ?thesis using True by simp
  next
    case False
    have "authenticated tok' t ((db s)\<lparr>users := users (db s),
        user_sessions := update_where ?P ?f (user_sessions (db s))\<rparr>) = authenticated tok' t (db s)"
      by (rule authenticated_update_sessions) (use acc acc' False in \<open>simp_all add: session_active_def\<close>)
    then show ?thesis using False by (simp add: d)
  qed
qed

definition others_ended_db :: "uuid \<Rightarrow> string \<Rightarrow> time \<Rightarrow> database \<Rightarrow> database" where
  "others_ended_db userId token now d =
     d\<lparr>user_sessions := update_where (\<lambda>x. other_session userId token x \<and> now < expires_at x)
          (ended_row now) (user_sessions d)\<rparr>"

lemma revokeOtherUserSessions_Inr:
  "revokeOtherUserSessions userId token w s = (Inr n, s') \<Longrightarrow>
     db s' = others_ended_db userId token (stmt_now w s) (db s) \<and>
     n = length (filter (\<lambda>x. other_session userId token x \<and> stmt_now w s < expires_at x)
           (user_sessions (db s)))"
  by (auto simp: revokeOtherUserSessions_def pool_query_def effect_simps sql_defs others_ended_db_def Let_def)

lemma others_ended_authenticated:
  assumes "db_ok d" "now \<le> t"
  shows "authenticated tok t (others_ended_db userId token now d) =
     authenticated tok t (password_db userId (password_hash u) token now d)"
proof (rule authenticated_cong)
  let ?a = "others_ended_db userId token now d" and ?b = "password_db userId (password_hash u) token now d"
  show "accounts_ok (users ?a) (user_sessions ?a)"
    using assms(1) unfolding db_ok_def others_ended_db_def
    by (auto intro!: accounts_ok_sessions_update)
  show "accounts_ok (users ?b) (user_sessions ?b)"
    using password_db_ok[OF assms(1)] by (simp add: db_ok_def)
  show "authenticated_user ` set (users ?a) = authenticated_user ` set (users ?b)"
    by (simp add: others_ended_db_def password_db_def image_update_where_key)
  have "x \<in> set (user_sessions ?a) \<and> session_active tok t x \<longleftrightarrow>
      x \<in> set (user_sessions ?b) \<and> session_active tok t x" for x
    using assms(2)
    by (auto simp: others_ended_db_def password_db_def set_update_where session_active_def)
  then show "session_user_id ` {x \<in> set (user_sessions ?a). session_active tok t x} =
      session_user_id ` {x \<in> set (user_sessions ?b). session_active tok t x}"
    by (simp only:)
qed

section \<open>Properties\<close>

text \<open>C17: a password change that returns ends every other session of the account: at any time a
  token opens what it opened before, except that of the account's own tokens only the one
  that made the change still works; the account has the new hash and no job changes. One that
  throws changes nothing.\<close>

theorem password_change_ends_sessions:
  assumes "idle s" "db_ok (db s)"
  shows "case changeUserPassword userId hash token w s of
      (Inl e, s') \<Rightarrow> db s' = db s
    | (Inr x, s') \<Rightarrow> db_ok (db s') \<and> jobs (db s') = jobs (db s) \<and>
        (\<exists>u \<in> set (users (db s')). user_id u = userId \<and> password_hash u = hash) \<and>
        (\<forall>tok t. authenticated tok t (db s') =
           (case authenticated tok t (db s) of
              None \<Rightarrow> None
            | Some a \<Rightarrow> if auth_id a = userId \<and> tok \<noteq> token then None else Some a))"
proof (cases "changeUserPassword userId hash token w s")
  case (Pair r s')
  show ?thesis
  proof (cases r)
    case (Inl e)
    then show ?thesis using Pair change_password.op_error[OF assms(1)] by auto
  next
    case (Inr x)
    then obtain u now where u: "u \<in> set (users (db s))" "user_id u = userId"
      and d: "db s' = password_db userId hash token now (db s)"
      using changeUserPassword_success[OF assms(1)] Pair by blast
    have "password_row hash now u \<in> set (users (db s'))"
      using u by (auto simp: d password_db_def set_update_where)
    then have "\<exists>v \<in> set (users (db s')). user_id v = userId \<and> password_hash v = hash"
      using u by (intro bexI[of _ "password_row hash now u"]) simp_all
    then show ?thesis
      using Pair Inr password_db_ok[OF assms(2)] password_authenticated[OF assms(2)]
      by (simp add: d) (simp add: password_db_def)
  qed
qed

lemma password_change_ends_sessions_witness:
  "authenticated (fingerprint (CHR ''b'')) 5000000 sample_db = Some (authenticated_user alice) \<and>
   authenticated (fingerprint (CHR ''b'')) 5000000
     (db (snd (changeUserPassword ''u1'' ''h2'' (fingerprint (CHR ''a'')) quiet_world (idle_exec sample_db)))) = None"
proof -
  have a: "authenticated (fingerprint (CHR ''b'')) 5000000 sample_db = Some (authenticated_user alice)"
    and k: "user_id alice = ''u1''" "fingerprint (CHR ''b'') \<noteq> fingerprint (CHR ''a'')"
    by code_simp+
  have run: "fst (changeUserPassword ''u1'' ''h2'' (fingerprint (CHR ''a'')) quiet_world (idle_exec sample_db)) = Inr ()"
    by code_simp
  note p = run_InrD[OF password_change_ends_sessions[where s = "idle_exec sample_db" and w = quiet_world] run]
  show ?thesis using p sample_db_ok a k by simp
qed

text \<open>C16: account deletion is complete: after it returns the account and its sessions are gone,
  no token of it opens anything while all other tokens are as before, every remaining job of
  the owner is expired now and marked for removal and, if it was active, cancelled, exactly those
  whose storage was already removed are deleted, each cancelled job has one new pending event on
  the status topic with its identifier as key and as payload, and the jobs of other
  owners are untouched. A deletion that throws changes nothing.\<close>

theorem account_deletion_complete:
  assumes "idle s" "db_ok (db s)"
  shows "case deleteUserAccount cfg userId w s of
      (Inl e, s') \<Rightarrow> db s' = db s
    | (Inr x, s') \<Rightarrow> db_ok (db s') \<and> userId \<notin> set (map user_id (users (db s'))) \<and>
        (\<forall>tok t. authenticated tok t (db s') =
           (case authenticated tok t (db s) of
              None \<Rightarrow> None | Some a \<Rightarrow> if auth_id a = userId then None else Some a)) \<and>
        (\<exists>now. \<forall>j \<in> set (jobs (db s')). owner_id j = userId \<longrightarrow>
           \<not> active_status (status j) \<and> storage_expires_at j = Some now \<and>
           owner_deleted_at j = Some now \<and> storage_deleted_at j = None) \<and>
        map job_id (jobs (db s')) =
          map job_id (filter (\<lambda>j. owner_id j = userId \<longrightarrow> storage_deleted_at j = None) (jobs (db s))) \<and>
        (\<exists>evs. outbox_events (db s') = outbox_events (db s) @ evs \<and>
           map event_key evs = map job_id (filter (\<lambda>j. owner_id j = userId \<and> active_status (status j))
             (jobs (db s))) \<and>
           (\<forall>e \<in> set evs. topic e = jobStatusTopic cfg \<and> payload e = [(''jobId'', event_key e)] \<and>
              event_status e = EvPENDING \<and> attempts e = 0)) \<and>
        map status (filter (\<lambda>j. owner_id j = userId) (jobs (db s'))) =
          map (\<lambda>j. if active_status (status j) then CANCELLED else status j)
            (filter (\<lambda>j. owner_id j = userId \<and> storage_deleted_at j = None) (jobs (db s))) \<and>
        filter (\<lambda>j. owner_id j \<noteq> userId) (jobs (db s')) = filter (\<lambda>j. owner_id j \<noteq> userId) (jobs (db s))"
proof (cases "deleteUserAccount cfg userId w s")
  case (Pair r s')
  show ?thesis
  proof (cases r)
    case (Inl e)
    then show ?thesis using Pair delete_account.op_error[OF assms(1)] by auto
  next
    case (Inr x)
    with Pair have run: "deleteUserAccount cfg userId w s = (Inr x, s')" by simp
    obtain uuids now where ev: "distinct (map event_id (outbox_events (deleted_db cfg userId uuids now (db s))))"
      and d: "db s' = deleted_db cfg userId uuids now (db s)"
      by (rule deleteUserAccount_success[OF assms(1) run])
    have ok: "db_ok (db s')" unfolding d by (rule deleted_db_ok[OF assms(2) ev])
    have tok: "authenticated tok t (db s') =
           (case authenticated tok t (db s) of
              None \<Rightarrow> None | Some a \<Rightarrow> if auth_id a = userId then None else Some a)" for tok t
      unfolding d by (rule deleted_authenticated[OF assms(2) ok[unfolded d]])
    show ?thesis
      using run ok tok deleted_rows[OF d] deleted_events[OF d] deleted_user[OF d] deleted_status[OF d]
      by auto
  qed
qed

lemma account_deletion_complete_witness:
  "map job_id (jobs (db (snd (deleteUserAccount demo_config ''u1'' quiet_world (idle_exec sample_db))))) =
     [''j1'', ''j2'', ''j3''] \<and>
   map (\<lambda>e. (topic e, payload e)) (outbox_events (db (snd (deleteUserAccount demo_config ''u1'' quiet_world
     (idle_exec sample_db))))) = [(''audio.jobs.status'', [(''jobId'', ''j1'')])] \<and>
   ''u1'' \<notin> set (map user_id (users (db (snd (deleteUserAccount demo_config ''u1'' quiet_world (idle_exec sample_db))))))"
proof -
  have k: "map job_id (filter (\<lambda>j. owner_id j = ''u1'' \<longrightarrow> storage_deleted_at j = None) (jobs sample_db)) =
      [''j1'', ''j2'', ''j3'']"
    by code_simp
  have run: "fst (deleteUserAccount demo_config ''u1'' quiet_world (idle_exec sample_db)) = Inr ()"
    by code_simp
  note p = run_InrD[OF account_deletion_complete[where s = "idle_exec sample_db" and w = quiet_world]  run]
  have o: "outbox_events sample_db = []" "jobStatusTopic demo_config = ''audio.jobs.status''"
    "map job_id (filter (\<lambda>j. owner_id j = ''u1'' \<and> active_status (status j)) (jobs sample_db)) = [''j1'']"
    by code_simp+
  show ?thesis using p sample_db_ok k o by (auto simp: map_eq_Cons_conv)
qed

text \<open>Session cleanup is invisible: it removes no session that could still be used, so that
  from then on every token opens exactly what it would have opened without it.\<close>

theorem session_cleanup_invisible:
  assumes "db_ok (db s)" "deleteInactiveUserSessions w s = (Inr n, s')" "stmt_now w s \<le> t"
  shows "authenticated tok t (db s') = authenticated tok t (db s)"
  using deleteInactiveUserSessions_Inr[OF assms(2)] pruned_authenticated[OF assms(1,3)] by simp

lemma session_cleanup_invisible_witness:
  "authenticated (fingerprint (CHR ''a'')) 5000000
     (db (snd (deleteInactiveUserSessions quiet_world (idle_exec sample_db)))) = Some (authenticated_user alice)"
proof -
  have run: "deleteInactiveUserSessions quiet_world (idle_exec sample_db) =
      (Inr 0, snd (deleteInactiveUserSessions quiet_world (idle_exec sample_db)))"
    by (rule run_of_fst) code_simp
  have a: "authenticated (fingerprint (CHR ''a'')) 5000000 sample_db = Some (authenticated_user alice)"
    by code_simp
  show ?thesis
    using session_cleanup_invisible[OF _ run, of 5000000 "fingerprint (CHR ''a'')"] sample_db_ok a
    by (simp add: stmt_now_def idle_exec_def)
qed

text \<open>The session list is the truth: a session is listed for an account exactly when its
  token opens that account now, newest first, and at most one entry is marked as current.\<close>

theorem session_list_truthful:
  assumes "db_ok (db s)" "listActiveUserSessions userId cur w s = (Inr rows, s')"
  shows "set rows = account_session cur ` {x \<in> set (user_sessions (db s)).
       \<exists>a. authenticated (token_hash x) (stmt_now w s) (db s) = Some a \<and> auth_id a = userId} \<and>
     sorted_wrt (\<lambda>a b. createdAt b \<le> createdAt a) rows \<and>
     length (filter isCurrent rows) \<le> 1"
proof -
  note l = listActiveUserSessions_Inr[OF assms(2)]
  let ?o = "order_by_desc session_created_at
       (filter (\<lambda>x. session_user_id x = userId \<and> revoked_at x = None \<and> stmt_now w s < expires_at x)
          (user_sessions (db s)))"
  have "sorted_wrt (\<lambda>a b. createdAt b \<le> createdAt a) rows"
    using l sorted_order_by_desc[of session_created_at]
    by (simp add: sorted_wrt_map account_session_def)
  moreover have "length (filter isCurrent rows) = length (filter (\<lambda>x. token_hash x = cur) ?o)"
    using l by (simp add: filter_map account_session_def o_def)
  moreover have "distinct (map token_hash ?o)"
    using assms(1) by (intro distinct_order_by_desc) (auto simp: db_ok_def accounts_ok_def distinct_map_filter)
  ultimately show ?thesis
    using l listed_sessions[OF assms(1), of cur userId "stmt_now w s"] length_filter_key_le_1[of token_hash ?o cur]
    by simp
qed

lemma session_list_truthful_witness:
  "\<exists>rows. fst (listActiveUserSessions ''u1'' (fingerprint (CHR ''b'')) quiet_world (idle_exec sample_db)) = Inr rows \<and>
     length rows = 2 \<and> length (filter isCurrent rows) \<le> 1"
proof -
  let ?r = "map (account_session (fingerprint (CHR ''b''))) (user_sessions sample_db)"
  have run: "listActiveUserSessions ''u1'' (fingerprint (CHR ''b'')) quiet_world (idle_exec sample_db) =
      (Inr ?r, snd (listActiveUserSessions ''u1'' (fingerprint (CHR ''b'')) quiet_world (idle_exec sample_db)))"
    by (rule run_of_fst) code_simp
  have len: "length ?r = 2" by code_simp
  have cur: "length (filter isCurrent ?r) \<le> 1"
    using session_list_truthful[OF _ run] sample_db_ok by simp
  have fst: "fst (listActiveUserSessions ''u1'' (fingerprint (CHR ''b'')) quiet_world (idle_exec sample_db)) = Inr ?r"
    by (subst run) (rule fst_conv)
  show ?thesis by (intro exI[of _ ?r] conjI fst len cur)
qed

end
