(* ===== verification/Session.thy ===== *)
theory Session
  imports AccountLifecycle
begin

text \<open>
  Browser identity: backend/src/auth/session.ts (the signed anonymous session), authCookie.ts
  and authToken.ts (the login cookie and its fingerprint) and principal.ts (who owns a
  request). The digests of node:crypto and the cookie package are parameters; their
  documented behaviour that a proof needs is a named hypothesis (\<open>sha256_bytes\<close>,
  \<open>cookie_returned\<close>). \<open>signer\<close> is the contract of a signature that can be split off its text.
\<close>

section \<open>Bytes\<close>

text \<open>\<open>Buffer.from(text)\<close>: UTF-8.\<close>

definition utf8_char :: "char \<Rightarrow> nat list" where
  "utf8_char c =
     (let n = of_char c in if n < 128 then [n] else [192 + n div 64, 128 + n mod 64])"

definition utf8 :: "string \<Rightarrow> nat list" where
  "utf8 s = concat (map utf8_char s)"

definition hex_digit :: "nat \<Rightarrow> char" where
  "hex_digit n = ''0123456789abcdef'' ! (n mod 16)"

definition hex :: "nat list \<Rightarrow> string" where
  "hex bs = concat (map (\<lambda>b. [hex_digit (b div 16), hex_digit b]) bs)"

lemma length_hex: "length (hex bs) = 2 * length bs"
  by (induction bs) (simp_all add: hex_def)

lemma utf8_char_shape:
  "utf8_char c = utf8_char d \<Longrightarrow> c = d"
proof -
  assume h: "utf8_char c = utf8_char d"
  let ?m = "of_char c :: nat" and ?n = "of_char d :: nat"
  have "?m = ?n"
  proof (cases "?m < 128")
    case True
    then show ?thesis using h by (auto simp: utf8_char_def Let_def split: if_splits)
  next
    case False
    then have "?m div 64 = ?n div 64" "?m mod 64 = ?n mod 64"
      using h by (auto simp: utf8_char_def Let_def split: if_splits)
    then show ?thesis by (metis div_mult_mod_eq)
  qed
  then show "c = d" by simp
qed

text \<open>No code is the beginning of another one.\<close>

lemma utf8_char_cancel:
  assumes "utf8_char c @ xs = utf8_char d @ ys"
  shows "utf8_char c = utf8_char d \<and> xs = ys"
  using assms of_char_less_256[of c] of_char_less_256[of d]
  by (auto simp: utf8_char_def Let_def split: if_splits)

lemma utf8_inj: "utf8 s = utf8 t \<Longrightarrow> s = t"
proof (induction s arbitrary: t)
  case Nil
  then show ?case by (cases t) (auto simp: utf8_def utf8_char_def Let_def split: if_splits)
next
  case (Cons c s)
  obtain d t' where t: "t = d # t'"
    using Cons.prems by (cases t) (auto simp: utf8_def utf8_char_def Let_def split: if_splits)
  then have "utf8_char c @ utf8 s = utf8_char d @ utf8 t'" using Cons.prems by (simp add: utf8_def)
  then show ?case using utf8_char_cancel utf8_char_shape Cons.IH t by blast
qed

section \<open>session.ts\<close>

definition sessionCookieName :: string where
  "sessionCookieName = ''audio_session''"

definition sessionMaxAgeSeconds :: nat where
  "sessionMaxAgeSeconds = 7 * 24 * 60 * 60"

text \<open>\<open>hmac secret text\<close> stands for the bytes of \<open>createHmac("sha256", secret)\<close>.\<close>

definition createSignature :: "(string \<Rightarrow> string \<Rightarrow> nat list) \<Rightarrow> string \<Rightarrow> string \<Rightarrow> string" where
  "createSignature hmac secret sid = base64url (hmac secret sid)"

definition encodeSession :: "(string \<Rightarrow> string) \<Rightarrow> string \<Rightarrow> string" where
  "encodeSession sign sid = sid @ CHR ''.'' # sign sid"

text \<open>\<open>/^[0-9a-f-]{36}$/i\<close>\<close>

definition session_id_char :: "char \<Rightarrow> bool" where
  "session_id_char c \<longleftrightarrow>
     (let n = (of_char c :: nat) in
      (48 \<le> n \<and> n \<le> 57) \<or> (97 \<le> n \<and> n \<le> 102) \<or> (65 \<le> n \<and> n \<le> 70) \<or> n = 45)"

definition session_id_format :: "string \<Rightarrow> bool" where
  "session_id_format s \<longleftrightarrow> length s = 36 \<and> list_all session_id_char s"

definition decodeSession :: "(string \<Rightarrow> string) \<Rightarrow> string \<Rightarrow> string option" where
  "decodeSession sign v =
     (case lastIndexOf v (CHR ''.'') of
        None \<Rightarrow> None
      | Some separatorIndex \<Rightarrow>
          let sid = take separatorIndex v;
              suppliedBuffer = utf8 (drop (Suc separatorIndex) v);
              expectedBuffer = utf8 (sign sid)
          in if length suppliedBuffer \<noteq> length expectedBuffer \<or> suppliedBuffer \<noteq> expectedBuffer
             then None
             else if session_id_format sid then Some sid else None)"

type_synonym cookie_parser = "string \<Rightarrow> string \<Rightarrow> string option"

definition readSessionId ::
    "cookie_parser \<Rightarrow> (string \<Rightarrow> string) \<Rightarrow> string option \<Rightarrow> string option" where
  "readSessionId parseCookie sign cookieHeader =
     (case cookieHeader of
        None \<Rightarrow> None
      | Some h \<Rightarrow>
          if h = [] then None
          else case parseCookie h sessionCookieName of
                 None \<Rightarrow> None
               | Some v \<Rightarrow> if v = [] then None else decodeSession sign v)"

text \<open>The object given to \<open>stringifySetCookie\<close>.\<close>

record SetCookie =
  cookie_name :: string
  cookie_value :: string
  httpOnly :: bool
  maxAge :: nat
  cookie_path :: string
  sameSite :: string
  secure :: bool

definition establishSession :: "cookie_parser \<Rightarrow> (string \<Rightarrow> string) \<Rightarrow> bool \<Rightarrow> string \<Rightarrow>
    string option \<Rightarrow> SetCookie \<times> bool \<times> string" where
  "establishSession parseCookie sign cookieSecure randomUUID cookieHeader =
     (let existing = readSessionId parseCookie sign cookieHeader;
          sid = (case existing of None \<Rightarrow> randomUUID | Some i \<Rightarrow> if i = [] then randomUUID else i)
      in (\<lparr>cookie_name = sessionCookieName, cookie_value = encodeSession sign sid, httpOnly = True,
           maxAge = sessionMaxAgeSeconds, cookie_path = ''/'', sameSite = ''lax'',
           secure = cookieSecure\<rparr>,
          existing = None, sid))"

text \<open>
  The contract of the signature: it contains no period, so the last period of a signed
  text is the one that was put there.
\<close>

locale signer =
  fixes sign :: "string \<Rightarrow> string"
  assumes sign_no_dot: "CHR ''.'' \<notin> set (sign s)"
begin

lemma decode_encode: "session_id_format s \<Longrightarrow> decodeSession sign (encodeSession sign s) = Some s"
  by (simp add: decodeSession_def encodeSession_def lastIndexOf_append sign_no_dot)

text \<open>Nothing but the signed text of an identifier decodes to it.\<close>

lemma decode_SomeD:
  assumes "decodeSession sign v = Some s"
  shows "v = encodeSession sign s \<and> session_id_format s"
proof -
  obtain i where i: "lastIndexOf v (CHR ''.'') = Some i"
    using assms by (auto simp: decodeSession_def split: option.splits)
  then have v: "v = take i v @ CHR ''.'' # drop (Suc i) v"
    using lastIndexOf_SomeD[OF i] id_take_nth_drop[of i v] by simp
  have "s = take i v" "utf8 (drop (Suc i) v) = utf8 (sign s)" "session_id_format s"
    using assms i by (auto simp: decodeSession_def Let_def split: if_splits)
  then show ?thesis using v utf8_inj unfolding encodeSession_def by metis
qed

lemma decode_iff: "decodeSession sign v = Some s \<longleftrightarrow> v = encodeSession sign s \<and> session_id_format s"
  using decode_SomeD decode_encode by blast

lemma read_iff:
  "readSessionId parseCookie sign h = Some s \<longleftrightarrow>
     (\<exists>t. h = Some t \<and> t \<noteq> [] \<and> parseCookie t sessionCookieName = Some (encodeSession sign s)) \<and>
     session_id_format s"
  by (auto simp: readSessionId_def decode_iff encodeSession_def split: option.splits if_splits)

end

lemma createSignature_signer: "signer (createSignature hmac secret)"
  by unfold_locales (simp add: createSignature_def base64url_no_dot)

interpretation session_signer: signer "createSignature hmac secret" for hmac secret
  by (rule createSignature_signer)

section \<open>authCookie.ts and authToken.ts\<close>

definition authenticationCookieName :: string where
  "authenticationCookieName = ''audio_auth''"

definition formatAuthenticationCookie :: "bool \<Rightarrow> string \<Rightarrow> nat \<Rightarrow> SetCookie" where
  "formatAuthenticationCookie cookieSecure v age =
     \<lparr>cookie_name = authenticationCookieName, cookie_value = v, httpOnly = True, maxAge = age,
      cookie_path = ''/'', sameSite = ''lax'', secure = cookieSecure\<rparr>"

definition readAuthenticationToken :: "cookie_parser \<Rightarrow> string option \<Rightarrow> string option" where
  "readAuthenticationToken parseCookie cookieHeader =
     (case cookieHeader of
        None \<Rightarrow> None
      | Some h \<Rightarrow> if h = [] then None else parseCookie h authenticationCookieName)"

definition setAuthenticationCookie :: "bool \<Rightarrow> string \<Rightarrow> SetCookie list \<Rightarrow> SetCookie list" where
  "setAuthenticationCookie sec token headers =
     headers @ [formatAuthenticationCookie sec token sessionMaxAgeSeconds]"

definition clearAuthenticationCookie :: "bool \<Rightarrow> SetCookie list \<Rightarrow> SetCookie list" where
  "clearAuthenticationCookie sec headers = headers @ [formatAuthenticationCookie sec [] 0]"

definition createAuthenticationToken :: "nat list \<Rightarrow> string" where
  "createAuthenticationToken randomBytes = base64url randomBytes"

text \<open>\<open>sha256 text\<close> stands for the bytes of the digest.\<close>

definition hashAuthenticationToken :: "(string \<Rightarrow> nat list) \<Rightarrow> string \<Rightarrow> string" where
  "hashAuthenticationToken sha256 token = hex (sha256 token)"

definition sha256_bytes :: "(string \<Rightarrow> nat list) \<Rightarrow> bool" where
  "sha256_bytes sha256 \<longleftrightarrow> (\<forall>s. length (sha256 s) = 32)"

lemma length_token_hash:
  "sha256_bytes sha256 \<Longrightarrow> length (hashAuthenticationToken sha256 token) = 64"
  by (simp add: hashAuthenticationToken_def length_hex sha256_bytes_def)

section \<open>principal.ts\<close>

record RequestPrincipal =
  principal_anonymousOwnerId :: uuid
  principal_ownerId :: uuid
  principal_user :: "AuthenticatedUser option"

text \<open>The session secret, the digests and the cookie parser of a running backend.\<close>

record auth_env =
  env_sign :: "string \<Rightarrow> string"
  env_sha256 :: "string \<Rightarrow> nat list"
  env_parseCookie :: cookie_parser

definition visitor_principal :: "uuid \<Rightarrow> RequestPrincipal" where
  "visitor_principal anon =
     \<lparr>principal_anonymousOwnerId = anon, principal_ownerId = anon, principal_user = None\<rparr>"

definition user_principal :: "uuid \<Rightarrow> AuthenticatedUser \<Rightarrow> RequestPrincipal" where
  "user_principal anon user =
     \<lparr>principal_anonymousOwnerId = anon, principal_ownerId = auth_id user, principal_user = Some user\<rparr>"

definition resolveRequestPrincipal ::
    "auth_env \<Rightarrow> string option \<Rightarrow> RequestPrincipal option eff" where
  "resolveRequestPrincipal env cookieHeader =
     (case readSessionId (env_parseCookie env) (env_sign env) cookieHeader of
        None \<Rightarrow> returnM None
      | Some anon \<Rightarrow>
          if anon = [] then returnM None
          else case readAuthenticationToken (env_parseCookie env) cookieHeader of
                 None \<Rightarrow> returnM (Some (visitor_principal anon))
               | Some token \<Rightarrow>
                   if token = [] then returnM (Some (visitor_principal anon))
                   else bindM (findUserByActiveSession (hashAuthenticationToken (env_sha256 env) token))
                     (\<lambda>user. case user of
                        Some u \<Rightarrow> returnM (Some (user_principal anon u))
                      | None \<Rightarrow> returnM (Some (visitor_principal anon))))"

datatype guard_outcome = Unauthorized string | Forward RequestPrincipal | Forward_error error

definition requirePrincipal :: "auth_env \<Rightarrow> string option \<Rightarrow> guard_outcome eff" where
  "requirePrincipal env cookieHeader w s =
     (case resolveRequestPrincipal env cookieHeader w s of
        (Inl e, s') \<Rightarrow> (Inr (Forward_error e), s')
      | (Inr None, s') \<Rightarrow> (Inr (Unauthorized ''A valid browser session is required''), s')
      | (Inr (Some p), s') \<Rightarrow> (Inr (Forward p), s'))"

text \<open>What the cookies of a request mean for given tables: the specification of the guard.\<close>

definition principal_of ::
    "auth_env \<Rightarrow> string option \<Rightarrow> time \<Rightarrow> database \<Rightarrow> RequestPrincipal option" where
  "principal_of env h now d =
     (case readSessionId (env_parseCookie env) (env_sign env) h of
        None \<Rightarrow> None
      | Some anon \<Rightarrow>
          Some (case readAuthenticationToken (env_parseCookie env) h of
                  None \<Rightarrow> visitor_principal anon
                | Some token \<Rightarrow>
                    (case (if token = [] then None
                           else authenticated (hashAuthenticationToken (env_sha256 env) token) now d) of
                       None \<Rightarrow> visitor_principal anon
                     | Some u \<Rightarrow> user_principal anon u)))"

lemma session_format_nonempty: "session_id_format s \<Longrightarrow> s \<noteq> []"
  by (auto simp: session_id_format_def)

lemma establish_existing:
  assumes "signer sign"
  shows "establishSession parseCookie sign sec uuid h =
     (let sid = (case readSessionId parseCookie sign h of None \<Rightarrow> uuid | Some i \<Rightarrow> i)
      in (\<lparr>cookie_name = sessionCookieName, cookie_value = encodeSession sign sid, httpOnly = True,
           maxAge = sessionMaxAgeSeconds, cookie_path = ''/'', sameSite = ''lax'', secure = sec\<rparr>,
          readSessionId parseCookie sign h = None, sid))"
proof -
  have "readSessionId parseCookie sign h \<noteq> Some []"
    using signer.read_iff[OF assms] session_format_nonempty by blast
  then show ?thesis
    by (cases "readSessionId parseCookie sign h") (auto simp: establishSession_def Let_def)
qed

lemma establish_format:
  assumes "signer sign" "session_id_format uuid" "establishSession parseCookie sign sec uuid h = (c, isNew, sid)"
  shows "session_id_format sid \<and> cookie_value c = encodeSession sign sid"
  using assms(2,3) signer.read_iff[OF assms(1)] unfolding establish_existing[OF assms(1)]
  by (cases "readSessionId parseCookie sign h") (auto simp: Let_def)

lemma resolveRequestPrincipal_Inr:
  assumes "signer (env_sign env)" "db_ok (db s)" "resolveRequestPrincipal env h w s = (Inr r, s')"
  shows "r = principal_of env h (stmt_now w s) (db s)" "db_ok (db s')" "jobs (db s') = jobs (db s)"
    "authenticated tok t (db s') = authenticated tok t (db s)"
proof -
  have ne: "readSessionId (env_parseCookie env) (env_sign env) h \<noteq> Some []"
    using signer.read_iff[OF assms(1)] session_format_nonempty by blast
  have "r = principal_of env h (stmt_now w s) (db s) \<and> db_ok (db s') \<and> jobs (db s') = jobs (db s) \<and>
      authenticated tok t (db s') = authenticated tok t (db s)"
  proof (cases "readSessionId (env_parseCookie env) (env_sign env) h")
    case None
    then show ?thesis using assms(2,3)
      by (auto simp: resolveRequestPrincipal_def principal_of_def effect_simps)
  next
    case (Some anon)
    with ne have anon: "anon \<noteq> []" by auto
    show ?thesis
    proof (cases "readAuthenticationToken (env_parseCookie env) h")
      case None
      then show ?thesis using assms(2,3) Some anon
        by (auto simp: resolveRequestPrincipal_def principal_of_def effect_simps)
    next
      case (Some token)
      show ?thesis
      proof (cases "token = []")
        case True
        then show ?thesis
          using assms(2,3) Some anon \<open>readSessionId _ _ h = Some anon\<close>
          by (auto simp: resolveRequestPrincipal_def principal_of_def effect_simps)
      next
        case False
        obtain u s1 where f: "findUserByActiveSession (hashAuthenticationToken (env_sha256 env) token) w s
            = (Inr u, s1)"
          and r: "r = Some (case u of None \<Rightarrow> visitor_principal anon | Some u \<Rightarrow> user_principal anon u)"
          and s1: "s' = s1"
          using assms(3) Some anon False \<open>readSessionId _ _ h = Some anon\<close>
          by (auto simp: resolveRequestPrincipal_def effect_simps split: option.splits)
        note f = findUserByActiveSession_Inr[OF assms(2) f]
        show ?thesis
          using f r s1 Some anon False \<open>readSessionId _ _ h = Some anon\<close>
          by (simp add: principal_of_def split: option.splits)
      qed
    qed
  qed
  then show "r = principal_of env h (stmt_now w s) (db s)" "db_ok (db s')" "jobs (db s') = jobs (db s)"
    "authenticated tok t (db s') = authenticated tok t (db s)" by blast+
qed

lemma requirePrincipal_Forward:
  "requirePrincipal env h w s = (Inr (Forward p), s') \<Longrightarrow>
     resolveRequestPrincipal env h w s = (Inr (Some p), s')"
  by (auto simp: requirePrincipal_def split: prod.splits sum.splits option.splits)

section \<open>Properties\<close>

text \<open>C14: session signatures cannot be moved: a cookie value decodes to a session exactly when it
  is that identifier followed by the identifier's own signature, and the identifier has the
  36-character format; every other value is rejected.\<close>

theorem session_signature_exact:
  "decodeSession (createSignature hmac secret) v = Some sid \<longleftrightarrow>
     v = encodeSession (createSignature hmac secret) sid \<and> session_id_format sid"
  by (rule session_signer.decode_iff)

text \<open>Establishing a session round trips: when the browser returns the cookie it was given,
  the backend reads the same identifier from it; a request that already carries a valid
  session keeps its identifier, so that ownership of earlier jobs is not lost.\<close>

theorem session_cookie_roundtrip:
  assumes "session_id_format uuid"
    and "establishSession parseCookie (createSignature hmac secret) sec uuid h = (c, isNew, sid)"
    and cookie_returned: "h' \<noteq> []" "parseCookie h' (cookie_name c) = Some (cookie_value c)"
  shows "readSessionId parseCookie (createSignature hmac secret) (Some h') = Some sid \<and>
     (isNew \<longleftrightarrow> readSessionId parseCookie (createSignature hmac secret) h = None) \<and>
     (\<forall>old. readSessionId parseCookie (createSignature hmac secret) h = Some old \<longrightarrow> sid = old)"
proof -
  note e = assms(2)[unfolded establish_existing[OF createSignature_signer]]
  note f = establish_format[OF createSignature_signer assms(1,2)]
  have "cookie_name c = sessionCookieName" using e by (auto simp: Let_def)
  then have "readSessionId parseCookie (createSignature hmac secret) (Some h') = Some sid"
    using f cookie_returned by (simp add: session_signer.read_iff)
  then show ?thesis using e by (auto simp: Let_def split: option.splits)
qed

definition sample_uuid :: string where
  "sample_uuid = ''01234567-89ab-cdef-0123-456789abcdef''"

definition sample_hmac :: "string \<Rightarrow> string \<Rightarrow> nat list" where
  "sample_hmac k s = [length k mod 256, length s mod 256, 17]"

text \<open>A header of one session cookie, read back verbatim.\<close>

definition sample_parser :: cookie_parser where
  "sample_parser h name = (if name = ''audio_session'' then Some h else None)"

lemma sample_uuid_format: "session_id_format sample_uuid"
  by code_simp

lemma session_cookie_roundtrip_witness:
  "readSessionId sample_parser (createSignature sample_hmac ''k'')
     (Some (cookie_value (fst (establishSession sample_parser (createSignature sample_hmac ''k'') True
        sample_uuid None)))) = Some sample_uuid"
proof -
  obtain c isNew sid where e: "establishSession sample_parser (createSignature sample_hmac ''k'') True
      sample_uuid None = (c, isNew, sid)"
    by (metis prod_cases3)
  have v: "cookie_name c = sessionCookieName" "cookie_value c = encodeSession (createSignature sample_hmac ''k'') sample_uuid"
    "sid = sample_uuid"
    using e by (auto simp: establishSession_def readSessionId_def Let_def)
  have "cookie_value c \<noteq> []" using v by (simp add: encodeSession_def)
  moreover have "sample_parser (cookie_value c) (cookie_name c) = Some (cookie_value c)"
    using v by (simp add: sample_parser_def sessionCookieName_def)
  ultimately show ?thesis
    using session_cookie_roundtrip[OF sample_uuid_format e] e v by simp
qed

text \<open>C15: a request is owned by whom its cookies prove: without a validly signed session it is
  refused; otherwise the owner is the account that the login token opens at that moment, or
  else the signed visitor identifier. Resolving it changes no job and nobody's sessions.\<close>

theorem principal_is_proved:
  assumes "env_sign env = createSignature hmac secret" "db_ok (db s)"
    and "requirePrincipal env h w s = (Inr g, s')"
  shows "(case g of
      Unauthorized m \<Rightarrow> readSessionId (env_parseCookie env) (env_sign env) h = None
    | Forward p \<Rightarrow> principal_of env h (stmt_now w s) (db s) = Some p \<and>
        (principal_ownerId p = principal_anonymousOwnerId p \<or>
         (\<exists>token u. readAuthenticationToken (env_parseCookie env) h = Some token \<and>
            authenticated (hashAuthenticationToken (env_sha256 env) token) (stmt_now w s) (db s) = Some u \<and>
            principal_ownerId p = auth_id u)) \<and>
        jobs (db s') = jobs (db s) \<and>
        (\<forall>tok t. authenticated tok t (db s') = authenticated tok t (db s))
    | Forward_error e \<Rightarrow> True)"
proof (cases g)
  case (Unauthorized m)
  then have "resolveRequestPrincipal env h w s = (Inr None, s')"
    using assms(3) by (auto simp: requirePrincipal_def split: prod.splits sum.splits option.splits)
  from resolveRequestPrincipal_Inr(1)[OF _ assms(2) this] assms(1) createSignature_signer Unauthorized
  show ?thesis by (auto simp: principal_of_def split: option.splits)
next
  case (Forward p)
  have sg: "signer (env_sign env)" using assms(1) createSignature_signer by simp
  have r: "resolveRequestPrincipal env h w s = (Inr (Some p), s')"
    using requirePrincipal_Forward assms(3) Forward by blast
  note res = resolveRequestPrincipal_Inr[OF sg assms(2) r]
  have "principal_ownerId p = principal_anonymousOwnerId p \<or>
      (\<exists>token u. readAuthenticationToken (env_parseCookie env) h = Some token \<and>
         authenticated (hashAuthenticationToken (env_sha256 env) token) (stmt_now w s) (db s) = Some u \<and>
         principal_ownerId p = auth_id u)"
    using res(1) by (auto simp: principal_of_def visitor_principal_def user_principal_def
        split: option.splits if_splits)
  then show ?thesis using Forward res by simp
qed simp

definition sample_sha256 :: "string \<Rightarrow> nat list" where
  "sample_sha256 s = replicate 32 (length s mod 256)"

text \<open>Cookies as the text \<open>session;token\<close>.\<close>

definition sample_two_cookies :: cookie_parser where
  "sample_two_cookies h name =
     (case js_split (CHR '';'') h of
        [a, b] \<Rightarrow> if name = ''audio_session'' then Some a else if name = ''audio_auth'' then Some b else None
      | _ \<Rightarrow> None)"

definition sample_env :: auth_env where
  "sample_env = \<lparr>env_sign = createSignature sample_hmac ''k'', env_sha256 = sample_sha256,
     env_parseCookie = sample_two_cookies\<rparr>"

definition sample_header :: string where
  "sample_header = encodeSession (createSignature sample_hmac ''k'') sample_uuid @ '';token''"

text \<open>A table in which the token of the header is a session of alice.\<close>

definition session_db :: database where
  "session_db = sample_db\<lparr>user_sessions :=
     [(sample_session ''s9'' (CHR ''a''))\<lparr>token_hash := hashAuthenticationToken sample_sha256 ''token''\<rparr>]\<rparr>"

lemma principal_is_proved_witness:
  "principal_of sample_env (Some sample_header) 0 session_db =
     Some (user_principal sample_uuid (authenticated_user alice))"
proof -
  have ok: "db_ok session_db" by code_simp
  have run: "requirePrincipal sample_env (Some sample_header) quiet_world (idle_exec session_db) =
      (Inr (Forward (user_principal sample_uuid (authenticated_user alice))),
       snd (requirePrincipal sample_env (Some sample_header) quiet_world (idle_exec session_db)))"
    by (rule run_of_fst) code_simp
  have "stmt_now quiet_world (idle_exec session_db) = 0" by (simp add: stmt_now_def idle_exec_def)
  then show ?thesis
    using principal_is_proved[OF _ _ run, of sample_hmac "''k''"] ok by (simp add: sample_env_def)
qed

end
