(* ===== verification/Password.thy ===== *)
theory Password
  imports JsNumber Database
begin

text \<open>
  backend/src/auth/password.ts and validation.ts. scrypt is a parameter: \<open>scrypt p salt
  (N, r, parallel)\<close> is the derived key, or None when Node rejects the settings. The stored text
  is split, checked and decoded as the source does; \<open>base64url_decode\<close> is
  \<open>Buffer.from(text, "base64url")\<close>, which skips characters outside the alphabet and accepts
  both spellings of the last two digits.
\<close>

section \<open>Decoding base64url\<close>

definition b64_val :: "char \<Rightarrow> nat option" where
  "b64_val c =
     (let n = of_char c in
      if 65 \<le> n \<and> n \<le> 90 then Some (n - 65)
      else if 97 \<le> n \<and> n \<le> 122 then Some (n - 71)
      else if 48 \<le> n \<and> n \<le> 57 then Some (n + 4)
      else if n = 45 \<or> n = 43 then Some 62
      else if n = 95 \<or> n = 47 then Some 63
      else None)"

fun b64_bytes :: "nat list \<Rightarrow> nat list" where
  "b64_bytes (a # b # c # d # vs) =
     [a * 4 + b div 16, b mod 16 * 16 + c div 4, c mod 4 * 64 + d] @ b64_bytes vs"
| "b64_bytes [a, b, c] = [a * 4 + b div 16, b mod 16 * 16 + c div 4]"
| "b64_bytes [a, b] = [a * 4 + b div 16]"
| "b64_bytes _ = []"

definition base64url_decode :: "string \<Rightarrow> nat list" where
  "base64url_decode s = b64_bytes (List.map_filter b64_val s)"

lemma b64_val_alphabet:
  "map b64_val ''ABCDEFGHIJKLMNOPQRSTUVWXYZabcdefghijklmnopqrstuvwxyz0123456789-_'' = map Some [0..<64]"
  by (simp add: b64_val_def upt_rec)

lemma nth_of_map_Some: "map f xs = map Some [0..<n] \<Longrightarrow> i < n \<Longrightarrow> f (xs ! i) = Some i"
  by (metis add_0 diff_zero length_map length_upt nth_map nth_upt)

lemma b64_val_char: "n < 64 \<Longrightarrow> b64_val (b64_char n) = Some n"
  unfolding b64_char_def by (rule nth_of_map_Some[OF b64_val_alphabet])

lemma map_filter_b64_nil: "List.map_filter b64_val [] = []"
  by (simp add: List.map_filter_def)

lemma shift_mod:
  "x < 16 \<Longrightarrow> (a * 16 + x) mod 64 = 16 * (a mod 4) + (x::nat)"
  "y < 4 \<Longrightarrow> (b * 4 + y) mod 64 = 4 * (b mod 16) + (y::nat)"
  using mod_mult2_eq[of "a * 16 + x" 16 4] mod_mult2_eq[of "b * 4 + y" 4 16] by simp_all

lemma sextets:
  fixes a b c :: nat
  assumes "a < 256" "b < 256" "c < 256"
  shows "a div 4 mod 64 * 4 + (a * 16 + b div 16) mod 64 div 16 = a"
    and "a div 4 mod 64 * 4 + a * 16 mod 64 div 16 = a"
    and "(a * 16 + b div 16) mod 64 mod 16 * 16 + (b * 4 + c div 64) mod 64 div 4 = b"
    and "(a * 16 + b div 16) mod 64 mod 16 * 16 + b * 4 mod 64 div 4 = b"
    and "(b * 4 + c div 64) mod 64 mod 4 * 64 + c mod 64 = c"
proof -
  have x: "b div 16 < 16" and y: "c div 64 < 4" and z: "a div 4 mod 64 = a div 4"
    using assms by (simp_all add: less_mult_imp_div_less)
  have a: "a div 4 * 4 + a mod 4 = a" and b: "b div 16 * 16 + b mod 16 = b"
    and b': "b mod 16 + b div 16 * 16 = b" and c: "c div 64 * 64 + c mod 64 = c" by simp_all
  note [simp] = shift_mod(1)[OF x, of a] shift_mod(2)[OF y, of b]
    shift_mod(1)[of 0 a, simplified] shift_mod(2)[of 0 b, simplified]
  show "a div 4 mod 64 * 4 + (a * 16 + b div 16) mod 64 div 16 = a" using x z a by simp
  show "a div 4 mod 64 * 4 + a * 16 mod 64 div 16 = a" using z a by simp
  have m: "(16 * (a mod 4) + b div 16) mod 16 = b div 16" using x by simp
  show "(a * 16 + b div 16) mod 64 mod 16 * 16 + (b * 4 + c div 64) mod 64 div 4 = b"
    using m y b by simp
  show "(a * 16 + b div 16) mod 64 mod 16 * 16 + b * 4 mod 64 div 4 = b" using m b by simp
  have "(4 * (b mod 16) + c div 64) mod 4 = c div 64" using y by simp
  then show "(b * 4 + c div 64) mod 64 mod 4 * 64 + c mod 64 = c" using c by simp
qed

lemma base64url_roundtrip:
  "\<forall>b \<in> set bs. b < 256 \<Longrightarrow> base64url_decode (base64url bs) = bs"
proof (induction bs rule: base64url.induct)
  case 1
  then show ?case by (simp add: base64url_decode_def map_filter_b64_nil)
next
  case (2 a)
  then show ?case using sextets(2)[of a 0 0]
    by (simp add: base64url_decode_def b64_val_char map_filter_b64_nil)
next
  case (3 a b)
  then show ?case using sextets(1,4)[of a b 0]
    by (simp add: base64url_decode_def b64_val_char map_filter_b64_nil)
next
  case (4 a b c bs)
  then show ?case using sextets(1,3,5)[of a b c]
    by (simp add: base64url_decode_def b64_val_char)
qed

section \<open>password.ts\<close>

definition scryptCost :: nat where "scryptCost = 2 ^ 15"
definition scryptBlockSize :: nat where "scryptBlockSize = 8"
definition scryptParallelization :: nat where "scryptParallelization = 3"

type_synonym scrypt_fun = "string \<Rightarrow> nat list \<Rightarrow> int \<times> int \<times> int \<Rightarrow> nat list option"

definition derivePasswordKey :: "scrypt_fun \<Rightarrow> string \<Rightarrow> nat list \<Rightarrow> int \<times> int \<times> int \<Rightarrow> error + nat list" where
  "derivePasswordKey scrypt password salt parameters =
     (case scrypt password salt parameters of
        None \<Rightarrow> Inl (PlainError ''scrypt failed'')
      | Some derivedKey \<Rightarrow> Inr derivedKey)"

text \<open>\<open>salt\<close> are the bytes drawn by \<open>randomBytes(16)\<close>.\<close>

definition hashPassword :: "scrypt_fun \<Rightarrow> nat list \<Rightarrow> string \<Rightarrow> error + string" where
  "hashPassword scrypt salt password =
     bindE (derivePasswordKey scrypt password salt
              (int scryptCost, int scryptBlockSize, int scryptParallelization)) (\<lambda>derivedKey.
       Inr (js_join (CHR ''$'')
         [''scrypt'', show_nat scryptCost, show_nat scryptBlockSize,
          show_nat scryptParallelization, base64url salt, base64url derivedKey]))"

text \<open>A missing field of the destructured array is undefined, hence not truthy.\<close>

definition field :: "string list \<Rightarrow> nat \<Rightarrow> string" where
  "field parts i = (if i < length parts then parts ! i else [])"

definition verifyPassword :: "scrypt_fun \<Rightarrow> string \<Rightarrow> string \<Rightarrow> bool" where
  "verifyPassword scrypt suppliedPassword storedPasswordHash =
     (let parts = js_split (CHR ''$'') storedPasswordHash;
          costText = field parts 1; blockSizeText = field parts 2;
          parallelizationText = field parts 3; saltText = field parts 4; keyText = field parts 5
      in if field parts 0 \<noteq> ''scrypt'' \<or> costText = [] \<or> blockSizeText = [] \<or>
            parallelizationText = [] \<or> saltText = [] \<or> keyText = []
         then False
         else case (safe_integer (js_Number costText), safe_integer (js_Number blockSizeText),
                    safe_integer (js_Number parallelizationText)) of
                (Some cost, Some blockSize, Some parallelization) \<Rightarrow>
                  if cost \<le> 1 \<or> blockSize \<le> 0 \<or> parallelization \<le> 0 then False
                  else (case derivePasswordKey scrypt suppliedPassword (base64url_decode saltText)
                               (cost, blockSize, parallelization) of
                          Inl _ \<Rightarrow> False
                        | Inr suppliedKey \<Rightarrow>
                            length (base64url_decode keyText) = length suppliedKey \<and>
                            base64url_decode keyText = suppliedKey)
              | _ \<Rightarrow> False)"

section \<open>validation.ts\<close>

definition username_char :: "char \<Rightarrow> bool" where
  "username_char c \<longleftrightarrow>
     (let n = (of_char c :: nat) in
      (97 \<le> n \<and> n \<le> 122) \<or> (65 \<le> n \<and> n \<le> 90) \<or> (48 \<le> n \<and> n \<le> 57) \<or> n = 95)"

text \<open>Every check reports its message, in order; the transformation runs when none does.\<close>

definition usernameSchema :: "string \<Rightarrow> string list + string" where
  "usernameSchema input =
     (let name = js_trim input;
          issues = (if length name < 3 then [''Username must contain at least 3 characters''] else []) @
                   (if 30 < length name then [''Username must contain at most 30 characters''] else []) @
                   (if name = [] \<or> \<not> list_all username_char name
                    then [''Username may contain only letters, numbers, and underscores''] else [])
      in if issues = [] then Inr (toLowerCase name) else Inl issues)"

definition passwordSchema :: "string \<Rightarrow> string list + string" where
  "passwordSchema input =
     (let issues = (if length input < 12 then [''Password must contain at least 12 characters''] else []) @
                   (if 128 < length input then [''Password must contain at most 128 characters''] else [])
      in if issues = [] then Inr input else Inl issues)"

section \<open>Lemmas\<close>

lemma show_nat_no_dollar: "CHR ''$'' \<notin> set (show_nat n)"
proof
  assume "CHR ''$'' \<in> set (show_nat n)"
  then have "is_digit (CHR ''$'')" using show_nat_digits[of n] by (simp add: list_all_iff)
  then show False by (simp add: is_digit_def)
qed

lemma stored_fields:
  assumes "CHR ''$'' \<notin> set a" "CHR ''$'' \<notin> set b"
  shows "js_split (CHR ''$'') (js_join (CHR ''$'') [''scrypt'', show_nat x, show_nat y, show_nat z, a, b]) =
     [''scrypt'', show_nat x, show_nat y, show_nat z, a, b]"
  by (rule js_split_join) (use assms show_nat_no_dollar in auto)

lemma show_nat_not_Nil: "show_nat n \<noteq> []"
  by (subst show_nat.simps) simp

lemma safe_show_nat:
  assumes "n < 2 ^ 53"
  shows "safe_integer (js_Number (show_nat n)) = Some (int n)"
  unfolding js_Number_show_nat[OF assms]
  by (rule safe_integer_Finite_of_int) (use assms in \<open>simp add: max_safe_integer_def\<close>)

lemma scrypt_parameters:
  "safe_integer (js_Number (show_nat scryptCost)) = Some (int scryptCost)"
  "safe_integer (js_Number (show_nat scryptBlockSize)) = Some (int scryptBlockSize)"
  "safe_integer (js_Number (show_nat scryptParallelization)) = Some (int scryptParallelization)"
  by (rule safe_show_nat, simp add: scryptCost_def scryptBlockSize_def scryptParallelization_def)+

lemma base64url_not_Nil: "bs \<noteq> [] \<Longrightarrow> base64url bs \<noteq> []"
  by (cases bs rule: base64url.cases) auto

lemma verify_hashed:
  assumes "hashPassword scrypt salt p = Inr stored"
    and salt: "salt \<noteq> []" "\<forall>b \<in> set salt. b < 256"
    and key: "\<And>k. scrypt p salt (int scryptCost, int scryptBlockSize, int scryptParallelization) = Some k \<Longrightarrow>
      k \<noteq> [] \<and> (\<forall>b \<in> set k. b < 256)"
  shows "verifyPassword scrypt q stored \<longleftrightarrow>
     scrypt q salt (int scryptCost, int scryptBlockSize, int scryptParallelization) =
     scrypt p salt (int scryptCost, int scryptBlockSize, int scryptParallelization)"
proof -
  let ?ps = "(int scryptCost, int scryptBlockSize, int scryptParallelization)"
  obtain k where k: "scrypt p salt ?ps = Some k"
    and st: "stored = js_join (CHR ''$'')
         [''scrypt'', show_nat scryptCost, show_nat scryptBlockSize,
          show_nat scryptParallelization, base64url salt, base64url k]"
    using assms(1) by (auto simp: hashPassword_def derivePasswordKey_def bindE_Inr split: option.splits)
  note kk = key[OF k]
  have parts: "js_split (CHR ''$'') stored = [''scrypt'', show_nat scryptCost, show_nat scryptBlockSize,
          show_nat scryptParallelization, base64url salt, base64url k]"
    unfolding st by (rule stored_fields) (rule base64url_no_dollar)+
  have pos: "\<not> int scryptCost \<le> 1" "\<not> int scryptBlockSize \<le> 0" "\<not> int scryptParallelization \<le> 0"
    by (simp_all add: scryptCost_def scryptBlockSize_def scryptParallelization_def)
  have "verifyPassword scrypt q stored \<longleftrightarrow> scrypt q salt ?ps = Some k"
    unfolding verifyPassword_def parts
    using base64url_not_Nil[OF salt(1)] base64url_not_Nil[of k] kk salt(2) pos
    by (auto simp: Let_def field_def scrypt_parameters show_nat_not_Nil base64url_roundtrip
        derivePasswordKey_def split: option.splits)
  then show ?thesis using k by simp
qed

text \<open>What a stored text must look like before any password is accepted for it.\<close>

lemma verifyPassword_True:
  assumes "verifyPassword scrypt q stored"
  shows "\<exists>cost blockSize par salt key.
     field (js_split (CHR ''$'') stored) 0 = ''scrypt'' \<and> 1 < cost \<and> 0 < blockSize \<and> 0 < par \<and>
     field (js_split (CHR ''$'') stored) 4 \<noteq> [] \<and> salt = base64url_decode (field (js_split (CHR ''$'') stored) 4) \<and>
     field (js_split (CHR ''$'') stored) 5 \<noteq> [] \<and> key = base64url_decode (field (js_split (CHR ''$'') stored) 5) \<and>
     scrypt q salt (cost, blockSize, par) = Some key"
  using assms unfolding verifyPassword_def Let_def
  by (auto simp: derivePasswordKey_def not_le split: if_splits option.splits sum.splits)

lemma username_char_lower: "username_char c \<Longrightarrow> username_char (js_lower_char c)"
  using of_char_less_256[of c]
  by (auto simp: username_char_def js_lower_char_def Let_def take_bit_eq_mod)

lemma username_char_not_space: "username_char c \<Longrightarrow> \<not> is_js_space c"
  by (auto simp: username_char_def is_js_space_def Let_def)

lemma usernameSchema_Inr:
  "usernameSchema s = Inr n \<longleftrightarrow>
     3 \<le> length (js_trim s) \<and> length (js_trim s) \<le> 30 \<and> list_all username_char (js_trim s) \<and>
     n = toLowerCase (js_trim s)"
  by (auto simp: usernameSchema_def Let_def)

lemma usernameSchema_accepts:
  assumes "usernameSchema s = Inr n"
  shows "3 \<le> length n \<and> length n \<le> 30 \<and> toLowerCase n = n \<and> list_all username_char n"
  using assms by (auto simp: usernameSchema_Inr toLowerCase_def list_all_iff username_char_lower)

lemma usernameSchema_idem:
  assumes "usernameSchema s = Inr n"
  shows "usernameSchema n = Inr n"
proof -
  note a = usernameSchema_accepts[OF assms]
  have "n \<noteq> []" using a by auto
  then have "js_trim n = n"
    using a by (intro js_trim_id username_char_not_space) (auto simp: list_all_iff)
  then show ?thesis using a by (simp add: usernameSchema_Inr)
qed

lemma passwordSchema_Inr: "passwordSchema s = Inr p \<longleftrightarrow> p = s \<and> 12 \<le> length s \<and> length s \<le> 128"
  by (auto simp: passwordSchema_def Let_def)

section \<open>Properties\<close>

text \<open>The stored form of a password round trips: verifying any candidate against the hash of
  a password succeeds exactly when scrypt gives both the same key under the stored salt and
  settings, in particular for the password itself.\<close>

theorem password_hash_roundtrip:
  assumes "hashPassword scrypt salt p = Inr stored"
    and salt_bytes: "salt \<noteq> []" "\<forall>b \<in> set salt. b < 256"
    and scrypt_bytes: "\<And>k. scrypt p salt (int scryptCost, int scryptBlockSize, int scryptParallelization) = Some k \<Longrightarrow>
      k \<noteq> [] \<and> (\<forall>b \<in> set k. b < 256)"
  shows "verifyPassword scrypt p stored \<and>
     (verifyPassword scrypt q stored \<longleftrightarrow>
      scrypt q salt (int scryptCost, int scryptBlockSize, int scryptParallelization) =
      scrypt p salt (int scryptCost, int scryptBlockSize, int scryptParallelization))"
proof -
  have "verifyPassword scrypt r stored \<longleftrightarrow>
      scrypt r salt (int scryptCost, int scryptBlockSize, int scryptParallelization) =
      scrypt p salt (int scryptCost, int scryptBlockSize, int scryptParallelization)" for r
    by (rule verify_hashed[OF assms(1) salt_bytes]) (rule scrypt_bytes)
  then show ?thesis by simp
qed

definition sample_scrypt :: scrypt_fun where
  "sample_scrypt p salt ps = Some (map of_char p @ salt)"

lemma password_hash_roundtrip_witness:
  "\<exists>stored. hashPassword sample_scrypt [1, 2, 3] ''correct horse'' = Inr stored \<and>
     verifyPassword sample_scrypt ''correct horse'' stored \<and>
     \<not> verifyPassword sample_scrypt ''battery staple'' stored"
proof -
  obtain stored where h: "hashPassword sample_scrypt [1, 2, 3] ''correct horse'' = Inr stored"
    by (auto simp: hashPassword_def derivePasswordKey_def sample_scrypt_def)
  have "k \<noteq> [] \<and> (\<forall>b \<in> set k. b < 256)"
    if "sample_scrypt ''correct horse'' [1, 2, 3]
      (int scryptCost, int scryptBlockSize, int scryptParallelization) = Some k" for k
    using that by (auto simp: sample_scrypt_def)
  from password_hash_roundtrip[OF h _ _ this, of "''battery staple''"] h
  show ?thesis by (auto simp: sample_scrypt_def)
qed

text \<open>Password verification fails closed: it accepts only a stored text that names scrypt, has
  usable settings, a salt and a key, and only when scrypt gives exactly that key; every
  malformed text, and every failure of scrypt, is a wrong password.\<close>

theorem verification_fails_closed:
  "verifyPassword scrypt q stored \<longrightarrow>
     (\<exists>cost blockSize par key.
        field (js_split (CHR ''$'') stored) 0 = ''scrypt'' \<and> 1 < cost \<and> 0 < blockSize \<and> 0 < par \<and>
        key = base64url_decode (field (js_split (CHR ''$'') stored) 5) \<and>
        scrypt q (base64url_decode (field (js_split (CHR ''$'') stored) 4)) (cost, blockSize, par) = Some key)"
  using verifyPassword_True by blast

lemma verification_fails_closed_witness:
  "\<not> verifyPassword sample_scrypt ''pw'' ''bcrypt$32768$8$3$AA$AA''"
proof
  assume "verifyPassword sample_scrypt ''pw'' ''bcrypt$32768$8$3$AA$AA''"
  then have "field (js_split (CHR ''$'') ''bcrypt$32768$8$3$AA$AA'') 0 = ''scrypt''"
    using verification_fails_closed[of sample_scrypt "''pw''"] by blast
  then show False by (simp add: field_def)
qed

end
