(* ===== verification/Http.thy ===== *)
theory Http
  imports Session Password
begin

text \<open>
  What the routes exchange with a browser: JSON request bodies, the strict object schemas
  they are parsed with, and responses. A schema reports its issues in the order of its
  fields, unknown keys last; a message the source does not spell out is \<open>LibraryIssue\<close>. A route
  is an effect that returns a response or throws to the central error handler of
  backend/src/server.ts.
\<close>

section \<open>Requests\<close>

datatype json =
    JNull
  | JBool bool
  | JNumber js_number
  | JString string
  | JArray "json list"
  | JObject "(string \<times> json) list"

datatype zod_issue = Issue string | LibraryIssue

record http_request =
  req_cookie :: "string option"
  req_body :: json
  req_ownerId :: uuid
  req_anonymousOwnerId :: uuid
  req_authenticatedUser :: "AuthenticatedUser option"

text \<open>The value of one field, and the issues of a strict object with the given keys.\<close>

definition json_field :: "string \<Rightarrow> json \<Rightarrow> json option" where
  "json_field k body = (case body of JObject kvs \<Rightarrow> map_of kvs k | _ \<Rightarrow> None)"

text \<open>Whether a value, or \<open>undefined\<close>, counts as true in a condition.\<close>

fun js_truthy :: "json option \<Rightarrow> bool" where
  "js_truthy None = False"
| "js_truthy (Some JNull) = False"
| "js_truthy (Some (JBool b)) = b"
| "js_truthy (Some (JNumber x)) = (x \<noteq> Finite 0 \<and> x \<noteq> NaN)"
| "js_truthy (Some (JString t)) = (t \<noteq> [])"
| "js_truthy (Some v) = True"

type_synonym text_schema = "string \<Rightarrow> zod_issue list + string"

definition messages :: "(string \<Rightarrow> string list + string) \<Rightarrow> text_schema" where
  "messages schema t = (case schema t of Inl ms \<Rightarrow> Inl (map Issue ms) | Inr v \<Rightarrow> Inr v)"

text \<open>\<open>z.string().trim().min(1).max(n)\<close>\<close>

definition trimmed_text :: "nat \<Rightarrow> text_schema" where
  "trimmed_text n t =
     (let v = js_trim t
      in if v = [] \<or> n < length v then Inl [LibraryIssue] else Inr v)"

definition string_field :: "text_schema \<Rightarrow> string \<Rightarrow> json \<Rightarrow> zod_issue list + string" where
  "string_field schema k body =
     (case json_field k body of
        Some (JString t) \<Rightarrow> schema t
      | _ \<Rightarrow> Inl [LibraryIssue])"

definition issues_of :: "zod_issue list + 'a \<Rightarrow> zod_issue list" where
  "issues_of r = (case r of Inl is \<Rightarrow> is | Inr _ \<Rightarrow> [])"

definition unknown_keys :: "string list \<Rightarrow> json \<Rightarrow> zod_issue list" where
  "unknown_keys ks body =
     (case body of
        JObject kvs \<Rightarrow> if \<exists>kv \<in> set kvs. fst kv \<notin> set ks then [LibraryIssue] else []
      | _ \<Rightarrow> [])"

definition is_object :: "json \<Rightarrow> bool" where
  "is_object body = (case body of JObject _ \<Rightarrow> True | _ \<Rightarrow> False)"

definition strict_one ::
    "string \<times> text_schema \<Rightarrow> json \<Rightarrow> zod_issue list + string" where
  "strict_one f body =
     (let a = string_field (snd f) (fst f) body;
          issues = issues_of a @ unknown_keys [fst f] body
      in if \<not> is_object body then Inl [LibraryIssue]
         else if issues \<noteq> [] then Inl issues else a)"

definition strict_two :: "string \<times> text_schema \<Rightarrow> string \<times> text_schema \<Rightarrow> json \<Rightarrow> zod_issue list + string \<times> string" where
  "strict_two f g body =
     (let a = string_field (snd f) (fst f) body; b = string_field (snd g) (fst g) body;
          issues = issues_of a @ issues_of b @ unknown_keys [fst f, fst g] body
      in if \<not> is_object body then Inl [LibraryIssue]
         else if issues \<noteq> [] then Inl issues
         else (case (a, b) of (Inr x, Inr y) \<Rightarrow> Inr (x, y) | _ \<Rightarrow> Inl issues))"

text \<open>\<open>credentialsSchema\<close> of validation.ts.\<close>

definition credentialsSchema :: "json \<Rightarrow> zod_issue list + string \<times> string" where
  "credentialsSchema =
     strict_two (''username'', messages usernameSchema) (''password'', messages passwordSchema)"

section \<open>Responses\<close>

datatype error_text = Text string | LibraryText

text \<open>\<open>error.issues[0]?.message || fallback\<close>\<close>

definition first_issue :: "string \<Rightarrow> zod_issue list \<Rightarrow> error_text" where
  "first_issue fallback issues =
     (case issues of
        [] \<Rightarrow> Text fallback
      | Issue m # _ \<Rightarrow> if m = [] then Text fallback else Text m
      | LibraryIssue # _ \<Rightarrow> LibraryText)"

datatype response_body =
    NoBody
  | ErrorJson error_text
  | AuthJson bool "AuthenticatedUser option"
  | SessionReadyJson bool nat
  | SessionsJson "AccountSession list"
  | RevokedJson nat "AccountSession list"
  | DuplicateJson string uuid job_status
  | LimitJson string nat
  | JobJson JobRecord
  | JobsJson "JobRecord list"
  | NotCompletedJson string job_status int
  | DownloadsJson uuid "(string \<times> string) list" nat
  | PresignJson string string string nat nat

record response =
  resp_status :: nat
  resp_body :: response_body
  resp_cookies :: "SetCookie list"

definition reply :: "nat \<Rightarrow> response_body \<Rightarrow> response" where
  "reply st body = \<lparr>resp_status = st, resp_body = body, resp_cookies = []\<rparr>"

definition fail_reply :: "nat \<Rightarrow> string \<Rightarrow> response" where
  "fail_reply st m = reply st (ErrorJson (Text m))"

lemma reply_simps [simp]:
  "resp_status (reply st b) = st" "resp_body (reply st b) = b" "resp_cookies (reply st b) = []"
  "resp_status (fail_reply st m) = st" "resp_body (fail_reply st m) = ErrorJson (Text m)"
  "resp_cookies (fail_reply st m) = []"
  by (simp_all add: reply_def fail_reply_def)

text \<open>The central error handler turns whatever a route throws into one neutral answer.\<close>

definition errorHandler :: "response eff \<Rightarrow> response eff" where
  "errorHandler route w s =
     (case route w s of
        (Inl e, s') \<Rightarrow> (Inr (fail_reply 500 ''Internal server error''), s')
      | (Inr r, s') \<Rightarrow> (Inr r, s'))"

section \<open>Effects of the routes\<close>

definition liftE :: "error + 'a \<Rightarrow> 'a eff" where
  "liftE r = (case r of Inl e \<Rightarrow> throwM e | Inr a \<Rightarrow> returnM a)"

text \<open>\<open>try { m } catch (error) { h error }\<close>\<close>

definition catchM :: "'a eff \<Rightarrow> (error \<Rightarrow> 'a eff) \<Rightarrow> 'a eff" where
  "catchM m h w s = (case m w s of (Inl e, s1) \<Rightarrow> h e w s1 | (Inr a, s1) \<Rightarrow> (Inr a, s1))"

lemma liftE_eq [effect_simps]: "liftE r w s = (r, s)"
  by (cases r) (simp_all add: liftE_def throwM_def returnM_def)

lemma catchM_Inr [effect_simps]:
  "catchM m h w s = (Inr a, s') \<longleftrightarrow>
     m w s = (Inr a, s') \<or> (\<exists>e s1. m w s = (Inl e, s1) \<and> h e w s1 = (Inr a, s'))"
  by (auto simp: catchM_def split: prod.splits sum.splits)

lemma catchM_Inl [effect_simps]:
  "catchM m h w s = (Inl e', s') \<longleftrightarrow> (\<exists>e s1. m w s = (Inl e, s1) \<and> h e w s1 = (Inl e', s'))"
  by (auto simp: catchM_def split: prod.splits sum.splits)

text \<open>A conditional whose branches are effects, under its inversion.\<close>

lemma if_eff [effect_simps]:
  "(if b then m else n) w s = (if b then m w s else n w s)"
  by simp

section \<open>Schemas\<close>

lemma string_field_Inr:
  "string_field schema k body = Inr v \<longleftrightarrow>
     (\<exists>t. json_field k body = Some (JString t) \<and> schema t = Inr v)"
  by (auto simp: string_field_def split: option.splits json.splits sum.splits)

lemma messages_Inr: "messages schema t = Inr v \<longleftrightarrow> schema t = Inr v"
  by (auto simp: messages_def split: sum.splits)

lemma trimmed_text_Inr:
  "trimmed_text n t = Inr v \<longleftrightarrow> v = js_trim t \<and> v \<noteq> [] \<and> length v \<le> n"
  by (auto simp: trimmed_text_def Let_def)

lemma strict_one_Inr:
  "strict_one (k, p) body = Inr x \<Longrightarrow> string_field p k body = Inr x"
  by (auto simp: strict_one_def Let_def split: if_splits)

lemma strict_two_Inr:
  "strict_two (k, p) (l, q) body = Inr (x, y) \<Longrightarrow>
     string_field p k body = Inr x \<and> string_field q l body = Inr y"
  by (auto simp: strict_two_def Let_def split: if_splits sum.splits)

lemma credentials_accepts:
  assumes "credentialsSchema body = Inr (name, pw)"
  shows "3 \<le> length name \<and> length name \<le> 30 \<and> toLowerCase name = name \<and>
     list_all username_char name \<and> 12 \<le> length pw \<and> length pw \<le> 128"
proof -
  obtain t u where "usernameSchema t = Inr name" "passwordSchema u = Inr pw"
    using strict_two_Inr[OF assms[unfolded credentialsSchema_def]] by (auto simp: string_field_Inr messages_Inr)
  then show ?thesis using usernameSchema_accepts passwordSchema_Inr by simp
qed

end
