(* ===== verification/WsSubscription.thy ===== *)
theory WsSubscription
  imports Http
begin

text \<open>
  backend/src/websocket/jobSubscription.ts, jobProtocol.ts and jobUpdates.ts: one browser connection
  as a machine whose events are the callbacks of the connection. Work that awaits PostgreSQL is
  split where it awaits: starting a read is one event, resuming with its answer another, and
  anything may happen in between. Subscription objects live in a store (\<open>ws_subs\<close>) because
  timers and pending reads keep references to subscriptions that are no longer current. A
  payload is identified with the job record it serialises. JSON.parse and the UUID schema are
  parameters.
\<close>

section \<open>Messages\<close>

datatype client_message = Subscribe uuid | Unsubscribe

definition clientMessageSchema :: "(string \<Rightarrow> bool) \<Rightarrow> json \<Rightarrow> client_message option" where
  "clientMessageSchema is_uuid body =
     (case json_field ''type'' body of
        Some (JString t) \<Rightarrow>
          if t = ''subscribe'' then
            (case json_field ''jobId'' body of
               Some (JString i) \<Rightarrow>
                 if is_uuid i \<and> unknown_keys [''type'', ''jobId''] body = [] then Some (Subscribe i) else None
             | _ \<Rightarrow> None)
          else if t = ''unsubscribe'' \<and> unknown_keys [''type''] body = [] then Some Unsubscribe
          else None
      | _ \<Rightarrow> None)"

datatype server_message =
    ConnectionReady nat
  | SubscribedMessage uuid
  | UnsubscribedMessage
  | JobUpdate JobRecord
  | ErrorMessage string

section \<open>The connection\<close>

record job_subscription =
  sub_jobId :: uuid
  safetyIntervalId :: bool
  isRefreshing :: bool
  previousPayload :: "JobRecord option"
  refreshRequested :: bool

datatype ws_phase = Authenticating | Ready | Refused

record job_socket =
  ws_phase :: ws_phase
  ws_cookie :: "string option"
  ws_open :: bool
  ws_alive :: bool
  ws_owner :: uuid
  ws_version :: nat
  ws_current :: "nat option"
  ws_subs :: "nat \<Rightarrow> job_subscription"
  ws_next :: nat
  ws_timers :: "nat list"
  ws_subscribing :: "(nat \<times> uuid) list"
  ws_reading :: "nat list"
  ws_sent :: "server_message list"
  ws_close_code :: "nat option"

definition new_subscription :: "uuid \<Rightarrow> job_subscription" where
  "new_subscription jobId = \<lparr>sub_jobId = jobId, safetyIntervalId = False, isRefreshing = False,
     previousPayload = None, refreshRequested = False\<rparr>"

definition on_sub :: "nat \<Rightarrow> (job_subscription \<Rightarrow> job_subscription) \<Rightarrow> job_socket \<Rightarrow> job_socket" where
  "on_sub i f s = s\<lparr>ws_subs := (ws_subs s)(i := f (ws_subs s i))\<rparr>"

definition sendJson :: "server_message \<Rightarrow> job_socket \<Rightarrow> job_socket" where
  "sendJson m s = (if ws_open s then s\<lparr>ws_sent := ws_sent s @ [m]\<rparr> else s)"

definition clear_timer :: "nat \<Rightarrow> job_socket \<Rightarrow> job_socket" where
  "clear_timer i s = s\<lparr>ws_timers := removeAll i (ws_timers s)\<rparr>"

definition clearSubscription :: "job_socket \<Rightarrow> job_socket" where
  "clearSubscription s =
     (case ws_current s of
        None \<Rightarrow> s
      | Some i \<Rightarrow>
          (if safetyIntervalId (ws_subs s i) then clear_timer i s else s)\<lparr>ws_current := None\<rparr>)"

definition sendJobUpdate :: "nat \<Rightarrow> JobRecord \<Rightarrow> job_socket \<Rightarrow> job_socket" where
  "sendJobUpdate i job s =
     (let s1 = (if previousPayload (ws_subs s i) \<noteq> Some job
                then on_sub i (\<lambda>b. b\<lparr>previousPayload := Some job\<rparr>) (sendJson (JobUpdate job) s)
                else s)
      in if terminal_status (status job) \<and> safetyIntervalId (ws_subs s1 i)
         then on_sub i (\<lambda>b. b\<lparr>safetyIntervalId := False\<rparr>) (clear_timer i s1)
         else s1)"

section \<open>Refreshing\<close>

text \<open>The top of the \<open>do\<close> loop: the pending request is consumed and a read starts.\<close>

definition start_read :: "nat \<Rightarrow> job_socket \<Rightarrow> job_socket" where
  "start_read i s =
     (on_sub i (\<lambda>b. b\<lparr>refreshRequested := False\<rparr>) s)\<lparr>ws_reading := i # ws_reading s\<rparr>"

definition end_refresh :: "nat \<Rightarrow> job_socket \<Rightarrow> job_socket" where
  "end_refresh i = on_sub i (\<lambda>b. b\<lparr>isRefreshing := False\<rparr>)"

definition refreshSubscription :: "nat \<Rightarrow> job_socket \<Rightarrow> job_socket" where
  "refreshSubscription i s =
     (if ws_current s \<noteq> Some i then s
      else if isRefreshing (ws_subs s i) then on_sub i (\<lambda>b. b\<lparr>refreshRequested := True\<rparr>) s
      else start_read i (on_sub i (\<lambda>b. b\<lparr>isRefreshing := True\<rparr>) s))"

text \<open>The rest of the loop body, once the read has been answered.\<close>

definition refresh_resumes :: "nat \<Rightarrow> error + JobRecord option \<Rightarrow> job_socket \<Rightarrow> job_socket" where
  "refresh_resumes i answer s0 =
     (if i \<notin> set (ws_reading s0) then s0
      else let s = s0\<lparr>ws_reading := removeAll i (ws_reading s0)\<rparr>
      in case answer of
           Inl e \<Rightarrow> end_refresh i (sendJson (ErrorMessage ''Failed to fetch job status'') s)
         | Inr found \<Rightarrow>
             if ws_current s \<noteq> Some i then end_refresh i s
             else (case found of
                None \<Rightarrow> end_refresh i (clearSubscription (sendJson (ErrorMessage ''Job not found'') s))
              | Some job \<Rightarrow>
                  let s1 = sendJobUpdate i job s
                  in if refreshRequested (ws_subs s1 i) then start_read i s1 else end_refresh i s1))"

section \<open>Subscribing\<close>

definition subscribeToJob :: "uuid \<Rightarrow> job_socket \<Rightarrow> job_socket" where
  "subscribeToJob jobId s =
     s\<lparr>ws_version := Suc (ws_version s),
       ws_subscribing := (Suc (ws_version s), jobId) # ws_subscribing s\<rparr>"

definition install_subscription :: "uuid \<Rightarrow> JobRecord \<Rightarrow> job_socket \<Rightarrow> job_socket" where
  "install_subscription jobId job s0 =
     (let s = clearSubscription s0; i = ws_next s;
          s1 = s\<lparr>ws_subs := (ws_subs s)(i := new_subscription jobId), ws_next := Suc i,
                 ws_current := Some i\<rparr>;
          s2 = sendJobUpdate i job (sendJson (SubscribedMessage jobId) s1)
      in if terminal_status (status job) then s2
         else (on_sub i (\<lambda>b. b\<lparr>safetyIntervalId := True\<rparr>) s2)\<lparr>ws_timers := i # ws_timers s2\<rparr>)"

definition subscribe_resumes :: "nat \<Rightarrow> error + JobRecord option \<Rightarrow> job_socket \<Rightarrow> job_socket" where
  "subscribe_resumes v answer s0 =
     (case map_of (ws_subscribing s0) v of
        None \<Rightarrow> s0
      | Some jobId \<Rightarrow>
          let s = s0\<lparr>ws_subscribing := filter (\<lambda>p. fst p \<noteq> v) (ws_subscribing s0)\<rparr>
          in case answer of
               Inl e \<Rightarrow> sendJson (ErrorMessage ''Failed to handle WebSocket message'') s
             | Inr found \<Rightarrow>
                 if ws_version s \<noteq> v then s
                 else (case found of
                    None \<Rightarrow> sendJson (ErrorMessage ''Job not found'') s
                  | Some job \<Rightarrow> install_subscription jobId job s))"

record ws_env =
  we_parse :: "string \<Rightarrow> json option"
  we_is_uuid :: "string \<Rightarrow> bool"
  we_auth :: auth_env
  we_security :: SecurityConfiguration

definition client_command :: "ws_env \<Rightarrow> string \<Rightarrow> client_message option" where
  "client_command env raw =
     (case we_parse env raw of None \<Rightarrow> None | Some v \<Rightarrow> clientMessageSchema (we_is_uuid env) v)"

definition handleClientMessage :: "ws_env \<Rightarrow> string \<Rightarrow> job_socket \<Rightarrow> job_socket" where
  "handleClientMessage env raw s =
     (case we_parse env raw of
        None \<Rightarrow> sendJson (ErrorMessage ''Message must be valid JSON'') s
      | Some v \<Rightarrow>
          (case clientMessageSchema (we_is_uuid env) v of
             None \<Rightarrow> sendJson (ErrorMessage ''Invalid WebSocket message'') s
           | Some Unsubscribe \<Rightarrow>
               sendJson UnsubscribedMessage
                 (clearSubscription (s\<lparr>ws_version := Suc (ws_version s)\<rparr>))
           | Some (Subscribe jobId) \<Rightarrow> subscribeToJob jobId s))"

section \<open>The connection's life\<close>

definition close_socket :: "nat \<Rightarrow> job_socket \<Rightarrow> job_socket" where
  "close_socket code s =
     (if ws_open s then s\<lparr>ws_open := False, ws_close_code := Some code\<rparr> else s)"

definition heartbeatIntervalMs :: nat where "heartbeatIntervalMs = 30000"

definition fresh_socket :: "string option \<Rightarrow> job_socket" where
  "fresh_socket cookie = \<lparr>ws_phase = Authenticating, ws_cookie = cookie, ws_open = True,
     ws_alive = False, ws_owner = [], ws_version = 0, ws_current = None,
     ws_subs = (\<lambda>_. new_subscription []), ws_next = 0, ws_timers = [], ws_subscribing = [],
     ws_reading = [], ws_sent = [], ws_close_code = None\<rparr>"

text \<open>The connection handler up to its first await; an absent \<open>isAlive\<close> reads as false.\<close>

definition accept_connection :: "ws_env \<Rightarrow> string option \<Rightarrow> string option \<Rightarrow> job_socket" where
  "accept_connection env originHeader cookie =
     (if isAllowedOrigin (we_security env) originHeader then fresh_socket cookie
      else close_socket 1008
             (sendJson (ErrorMessage ''WebSocket origin is not allowed'')
                ((fresh_socket cookie)\<lparr>ws_phase := Refused\<rparr>)))"

definition connection_authenticated :: "error + RequestPrincipal option \<Rightarrow> job_socket \<Rightarrow> job_socket" where
  "connection_authenticated answer s =
     (if ws_phase s \<noteq> Authenticating then s
      else case answer of
             Inl e \<Rightarrow> close_socket 1011
               (sendJson (ErrorMessage ''WebSocket authentication failed'') (s\<lparr>ws_phase := Refused\<rparr>))
           | Inr None \<Rightarrow> close_socket 1008
               (sendJson (ErrorMessage ''A valid browser session is required'') (s\<lparr>ws_phase := Refused\<rparr>))
           | Inr (Some p) \<Rightarrow> sendJson (ConnectionReady (heartbeatIntervalMs div 1000))
               (s\<lparr>ws_phase := Ready, ws_alive := True, ws_owner := principal_ownerId p, ws_version := 0\<rparr>))"

definition heartbeat :: "job_socket \<Rightarrow> job_socket" where
  "heartbeat s =
     (if \<not> ws_alive s then close_socket 1006 (clearSubscription s) else s\<lparr>ws_alive := False\<rparr>)"

definition job_changed :: "uuid \<Rightarrow> job_socket \<Rightarrow> job_socket" where
  "job_changed jobId s =
     (case ws_current s of
        None \<Rightarrow> s
      | Some i \<Rightarrow> if sub_jobId (ws_subs s i) = jobId then refreshSubscription i s else s)"

datatype ws_event =
    Authenticated world exec
  | ClientText string
  | ClientBinary
  | SubscribeRead nat world exec
  | RefreshRead nat world exec
  | SafetyTick nat
  | JobChanged uuid
  | HeartbeatTick
  | Pong
  | ServerCloses
  | SocketClosed

fun ws_step :: "ws_env \<Rightarrow> ws_event \<Rightarrow> job_socket \<Rightarrow> job_socket" where
  "ws_step env (Authenticated w x) s =
     connection_authenticated (fst (resolveRequestPrincipal (we_auth env) (ws_cookie s) w x)) s"
| "ws_step env (ClientText raw) s =
     (if ws_phase s = Ready then handleClientMessage env raw s else s)"
| "ws_step env ClientBinary s =
     (if ws_phase s = Ready
      then sendJson (ErrorMessage ''Binary WebSocket messages are not supported'') s else s)"
| "ws_step env (SubscribeRead v w x) s =
     (case map_of (ws_subscribing s) v of
        None \<Rightarrow> s
      | Some jobId \<Rightarrow> subscribe_resumes v (fst (findOwnedJob jobId (ws_owner s) w x)) s)"
| "ws_step env (RefreshRead i w x) s =
     refresh_resumes i (fst (findOwnedJob (sub_jobId (ws_subs s i)) (ws_owner s) w x)) s"
| "ws_step env (SafetyTick i) s = (if i \<in> set (ws_timers s) then refreshSubscription i s else s)"
| "ws_step env (JobChanged jobId) s = job_changed jobId s"
| "ws_step env HeartbeatTick s = heartbeat s"
| "ws_step env Pong s = (if ws_phase s = Ready then s\<lparr>ws_alive := True\<rparr> else s)"
| "ws_step env ServerCloses s = close_socket 1001 (clearSubscription s)"
| "ws_step env SocketClosed s =
     (let s1 = s\<lparr>ws_open := False\<rparr> in if ws_phase s = Ready then clearSubscription s1 else s1)"

text \<open>\<open>notifyJobChanged\<close> and \<open>closeClients\<close> of the service, over the clients of this replica.\<close>

definition notifyJobChanged :: "uuid \<Rightarrow> job_socket list \<Rightarrow> job_socket list" where
  "notifyJobChanged jobId = map (job_changed jobId)"

definition closeClients :: "job_socket list \<Rightarrow> job_socket list" where
  "closeClients = map (\<lambda>s. close_socket 1001 (clearSubscription s))"


section \<open>Invariants of a connection\<close>

text \<open>
  Timers run for the current subscription only, and its field says whether; a read is under way
  for a subscription exactly when it is refreshing; pending subscribe reads carry distinct
  versions that were handed out.
\<close>

definition timers_ok :: "job_socket \<Rightarrow> bool" where
  "timers_ok s \<longleftrightarrow>
     distinct (ws_timers s) \<and>
     (\<forall>i. i \<in> set (ws_timers s) \<longleftrightarrow> ws_current s = Some i \<and> safetyIntervalId (ws_subs s i))"

definition reads_ok :: "job_socket \<Rightarrow> bool" where
  "reads_ok s \<longleftrightarrow> distinct (ws_reading s) \<and>
     (\<forall>i. i \<in> set (ws_reading s) \<longleftrightarrow> isRefreshing (ws_subs s i))"

definition store_ok_ws :: "job_socket \<Rightarrow> bool" where
  "store_ok_ws s \<longleftrightarrow> (\<forall>i. ws_current s = Some i \<longrightarrow> i < ws_next s) \<and>
     (\<forall>i \<ge> ws_next s. \<not> isRefreshing (ws_subs s i))"

definition versions_ok :: "job_socket \<Rightarrow> bool" where
  "versions_ok s \<longleftrightarrow> (\<forall>p \<in> set (ws_subscribing s). fst p \<le> ws_version s) \<and>
     distinct (map fst (ws_subscribing s))"

text \<open>Before authentication nothing has happened; a refused connection stays that way.\<close>

definition phase_ok :: "job_socket \<Rightarrow> bool" where
  "phase_ok s \<longleftrightarrow> ws_phase s \<noteq> Ready \<longrightarrow>
     ws_current s = None \<and> ws_subscribing s = [] \<and> ws_reading s = [] \<and> ws_version s = 0"

definition socket_ok :: "job_socket \<Rightarrow> bool" where
  "socket_ok s \<longleftrightarrow> timers_ok s \<and> reads_ok s \<and> store_ok_ws s \<and> versions_ok s \<and> phase_ok s"

lemmas socket_ok_defs = socket_ok_def timers_ok_def reads_ok_def store_ok_ws_def versions_ok_def
  phase_ok_def

lemma on_sub_simps [simp]:
  "ws_phase (on_sub i f s) = ws_phase s" "ws_cookie (on_sub i f s) = ws_cookie s"
  "ws_open (on_sub i f s) = ws_open s" "ws_alive (on_sub i f s) = ws_alive s"
  "ws_owner (on_sub i f s) = ws_owner s" "ws_version (on_sub i f s) = ws_version s"
  "ws_current (on_sub i f s) = ws_current s" "ws_next (on_sub i f s) = ws_next s"
  "ws_timers (on_sub i f s) = ws_timers s" "ws_subscribing (on_sub i f s) = ws_subscribing s"
  "ws_reading (on_sub i f s) = ws_reading s" "ws_sent (on_sub i f s) = ws_sent s"
  "ws_subs (on_sub i f s) = (ws_subs s)(i := f (ws_subs s i))"
  by (simp_all add: on_sub_def)

lemma sendJson_simps [simp]:
  "ws_phase (sendJson m s) = ws_phase s" "ws_cookie (sendJson m s) = ws_cookie s"
  "ws_open (sendJson m s) = ws_open s" "ws_alive (sendJson m s) = ws_alive s"
  "ws_owner (sendJson m s) = ws_owner s" "ws_version (sendJson m s) = ws_version s"
  "ws_current (sendJson m s) = ws_current s" "ws_next (sendJson m s) = ws_next s"
  "ws_timers (sendJson m s) = ws_timers s" "ws_subscribing (sendJson m s) = ws_subscribing s"
  "ws_reading (sendJson m s) = ws_reading s" "ws_subs (sendJson m s) = ws_subs s"
  "ws_sent (sendJson m s) = (if ws_open s then ws_sent s @ [m] else ws_sent s)"
  by (simp_all add: sendJson_def)

lemma close_socket_simps [simp]:
  "ws_phase (close_socket c s) = ws_phase s" "ws_cookie (close_socket c s) = ws_cookie s"
  "ws_owner (close_socket c s) = ws_owner s"
  "ws_version (close_socket c s) = ws_version s" "ws_current (close_socket c s) = ws_current s"
  "ws_next (close_socket c s) = ws_next s" "ws_timers (close_socket c s) = ws_timers s"
  "ws_subscribing (close_socket c s) = ws_subscribing s" "ws_reading (close_socket c s) = ws_reading s"
  "ws_subs (close_socket c s) = ws_subs s" "ws_sent (close_socket c s) = ws_sent s"
  "ws_open (close_socket c s) = False"
  by (simp_all add: close_socket_def)

lemma clear_simps [simp]:
  "ws_phase (clearSubscription s) = ws_phase s" "ws_cookie (clearSubscription s) = ws_cookie s"
  "ws_owner (clearSubscription s) = ws_owner s"
  "ws_open (clearSubscription s) = ws_open s" "ws_version (clearSubscription s) = ws_version s"
  "ws_current (clearSubscription s) = None" "ws_next (clearSubscription s) = ws_next s"
  "ws_subscribing (clearSubscription s) = ws_subscribing s"
  "ws_reading (clearSubscription s) = ws_reading s" "ws_subs (clearSubscription s) = ws_subs s"
  "ws_sent (clearSubscription s) = ws_sent s" "ws_alive (clearSubscription s) = ws_alive s"
  by (simp_all add: clearSubscription_def clear_timer_def split: option.splits)

lemma clear_timers: "timers_ok s \<Longrightarrow> ws_timers (clearSubscription s) = []"
proof -
  assume a: "timers_ok s"
  have "x \<notin> set (ws_timers (clearSubscription s))" for x
    using a by (cases "ws_current s") (auto simp: timers_ok_def clearSubscription_def clear_timer_def)
  then show ?thesis by (metis list.set_intros(1) neq_Nil_conv)
qed

lemma clear_none: "ws_current s = None \<Longrightarrow> clearSubscription s = s"
  by (simp add: clearSubscription_def)

text \<open>Sending an update touches only the payload and, at the end of a job, the timer.\<close>

lemma update_simps [simp]:
  "ws_phase (sendJobUpdate i j s) = ws_phase s" "ws_cookie (sendJobUpdate i j s) = ws_cookie s"
  "ws_owner (sendJobUpdate i j s) = ws_owner s"
  "ws_open (sendJobUpdate i j s) = ws_open s" "ws_version (sendJobUpdate i j s) = ws_version s"
  "ws_current (sendJobUpdate i j s) = ws_current s" "ws_next (sendJobUpdate i j s) = ws_next s"
  "ws_subscribing (sendJobUpdate i j s) = ws_subscribing s"
  "ws_reading (sendJobUpdate i j s) = ws_reading s"
  "k \<noteq> i \<Longrightarrow> ws_subs (sendJobUpdate i j s) k = ws_subs s k"
  "isRefreshing (ws_subs (sendJobUpdate i j s) k) = isRefreshing (ws_subs s k)"
  "refreshRequested (ws_subs (sendJobUpdate i j s) k) = refreshRequested (ws_subs s k)"
  "sub_jobId (ws_subs (sendJobUpdate i j s) k) = sub_jobId (ws_subs s k)"
  by (simp_all add: sendJobUpdate_def Let_def clear_timer_def)

lemma update_sent:
  "ws_sent (sendJobUpdate i j s) =
     (if ws_open s \<and> previousPayload (ws_subs s i) \<noteq> Some j then ws_sent s @ [JobUpdate j] else ws_sent s)"
  by (simp add: sendJobUpdate_def Let_def clear_timer_def)

lemma update_timers:
  "timers_ok s \<Longrightarrow> ws_current s = Some i \<Longrightarrow>
     timers_ok (sendJobUpdate i j s) \<and>
     (terminal_status (status j) \<longrightarrow> \<not> safetyIntervalId (ws_subs (sendJobUpdate i j s) i))"
  by (auto simp: timers_ok_def sendJobUpdate_def Let_def clear_timer_def distinct_removeAll)

subsection \<open>Every callback keeps them\<close>

lemma clear_ok: "socket_ok s \<Longrightarrow> socket_ok (clearSubscription s)"
  using clear_timers[of s] by (simp add: socket_ok_defs)

lemma send_ok: "socket_ok s \<Longrightarrow> socket_ok (sendJson m s)"
  by (simp add: socket_ok_defs)

lemma close_ok: "socket_ok s \<Longrightarrow> socket_ok (close_socket c s)"
  by (simp add: socket_ok_defs)

lemma update_ok: "socket_ok s \<Longrightarrow> ws_current s = Some i \<Longrightarrow> socket_ok (sendJobUpdate i j s)"
  using update_timers[of s i j] by (simp add: socket_ok_def reads_ok_def store_ok_ws_def versions_ok_def phase_ok_def)

lemma refresh_ok:
  assumes "socket_ok s"
  shows "socket_ok (refreshSubscription i s)"
proof (cases "ws_current s = Some i")
  case True
  then have "i < ws_next s" using assms by (simp add: socket_ok_defs)
  then show ?thesis
    using assms True by (auto simp: refreshSubscription_def socket_ok_defs start_read_def)
qed (use assms in \<open>simp add: refreshSubscription_def\<close>)

lemma end_refresh_ok:
  assumes "socket_ok s" "i \<in> set (ws_reading s)"
  shows "socket_ok (end_refresh i (s\<lparr>ws_reading := removeAll i (ws_reading s)\<rparr>))"
  using assms by (auto simp: end_refresh_def socket_ok_defs distinct_removeAll)


text \<open>Taking a read off the list of pending reads, then either ending or reading again.\<close>

lemma restart_ok:
  assumes "socket_ok s" "i \<in> set (ws_reading s)"
  shows "socket_ok (start_read i (s\<lparr>ws_reading := removeAll i (ws_reading s)\<rparr>))"
  using assms by (auto simp: start_read_def socket_ok_defs distinct_removeAll)

lemma reading_commutes:
  "sendJson m (s\<lparr>ws_reading := l\<rparr>) = (sendJson m s)\<lparr>ws_reading := l\<rparr>"
  "clearSubscription (s\<lparr>ws_reading := l\<rparr>) = (clearSubscription s)\<lparr>ws_reading := l\<rparr>"
  "on_sub i f (s\<lparr>ws_reading := l\<rparr>) = (on_sub i f s)\<lparr>ws_reading := l\<rparr>"
  "clear_timer i (s\<lparr>ws_reading := l\<rparr>) = (clear_timer i s)\<lparr>ws_reading := l\<rparr>"
  by (auto simp: sendJson_def clearSubscription_def on_sub_def clear_timer_def split: option.splits)

lemma update_reading_commutes:
  "sendJobUpdate i j (s\<lparr>ws_reading := l\<rparr>) = (sendJobUpdate i j s)\<lparr>ws_reading := l\<rparr>"
  by (simp add: sendJobUpdate_def reading_commutes Let_def)

lemma refresh_resumes_ok:
  assumes "socket_ok s"
  shows "socket_ok (refresh_resumes i answer s)"
proof (cases "i \<in> set (ws_reading s)")
  case True
  let ?l = "removeAll i (ws_reading s)"
  have send: "socket_ok (end_refresh i (sendJson m (s\<lparr>ws_reading := ?l\<rparr>)))" for m
    using end_refresh_ok[OF send_ok[OF assms, of m], of i] True by (simp add: reading_commutes)
  have stale: "socket_ok (end_refresh i (s\<lparr>ws_reading := ?l\<rparr>))"
    by (rule end_refresh_ok[OF assms True])
  have gone: "socket_ok (end_refresh i (clearSubscription (sendJson m (s\<lparr>ws_reading := ?l\<rparr>))))" for m
    using end_refresh_ok[OF clear_ok[OF send_ok[OF assms, of m]], of i] True
    by (simp add: reading_commutes)
  have upd: "socket_ok (end_refresh i (sendJobUpdate i j (s\<lparr>ws_reading := ?l\<rparr>)))"
    "socket_ok (start_read i (sendJobUpdate i j (s\<lparr>ws_reading := ?l\<rparr>)))"
    if "ws_current s = Some i" for j
    using end_refresh_ok[OF update_ok[OF assms that, of j], of i]
      restart_ok[OF update_ok[OF assms that, of j], of i] True
    by (simp_all add: update_reading_commutes)
  show ?thesis
    using send stale gone upd True
    by (auto simp: refresh_resumes_def Let_def split: sum.splits option.splits)
qed (use assms in \<open>simp add: refresh_resumes_def\<close>)

lemma subscribe_ok: "socket_ok s \<Longrightarrow> ws_phase s = Ready \<Longrightarrow> socket_ok (subscribeToJob jobId s)"
  by (fastforce simp: subscribeToJob_def socket_ok_defs)

lemma bump_ok:
  "socket_ok s \<Longrightarrow> ws_phase s = Ready \<Longrightarrow> socket_ok (s\<lparr>ws_version := Suc (ws_version s)\<rparr>)"
  by (auto simp: socket_ok_defs)

lemma handle_ok: "socket_ok s \<Longrightarrow> ws_phase s = Ready \<Longrightarrow> socket_ok (handleClientMessage env raw s)"
  by (auto simp: handleClientMessage_def split: option.splits client_message.splits
      intro!: send_ok clear_ok bump_ok subscribe_ok)

text \<open>A new subscription replaces the old one and its timer.\<close>

lemma install_ok:
  assumes "socket_ok s" "ws_phase s = Ready"
  shows "socket_ok (install_subscription jobId job s)"
proof -
  define i where "i = ws_next (clearSubscription s)"
  define s1 where "s1 = (clearSubscription s)\<lparr>ws_subs := (ws_subs (clearSubscription s))(i := new_subscription jobId),
     ws_next := Suc i, ws_current := Some i\<rparr>"
  define s2 where "s2 = sendJobUpdate i job (sendJson (SubscribedMessage jobId) s1)"
  have "socket_ok s1"
    using clear_ok[OF assms(1)] clear_timers[of s] assms
    by (auto simp: s1_def i_def socket_ok_defs new_subscription_def)
  then have s2: "socket_ok s2"
    unfolding s2_def by (intro update_ok send_ok) (simp_all add: s1_def)
  have cur: "ws_current s2 = Some i" "ws_phase s2 = Ready"
    by (simp_all add: s2_def s1_def assms(2))
  have "\<not> safetyIntervalId (ws_subs s2 i)"
    by (simp add: s2_def s1_def sendJobUpdate_def new_subscription_def Let_def clear_timer_def)
  then have "socket_ok ((on_sub i (\<lambda>b. b\<lparr>safetyIntervalId := True\<rparr>) s2)\<lparr>ws_timers := i # ws_timers s2\<rparr>)"
    using s2 cur by (auto simp: socket_ok_defs)
  then show ?thesis
    using s2 unfolding install_subscription_def Let_def s2_def s1_def i_def by simp
qed

lemma subscribe_resumes_ok:
  assumes "socket_ok s"
  shows "socket_ok (subscribe_resumes v answer s)"
proof (cases "map_of (ws_subscribing s) v")
  case (Some jobId)
  let ?s = "s\<lparr>ws_subscribing := filter (\<lambda>p. fst p \<noteq> v) (ws_subscribing s)\<rparr>"
  have ok: "socket_ok ?s"
    using assms by (auto simp: socket_ok_defs distinct_map_filter')
  have "ws_phase ?s = Ready" using assms Some by (auto simp: socket_ok_defs)
  then show ?thesis
    using Some ok by (auto simp: subscribe_resumes_def Let_def split: sum.splits option.splits
        intro!: send_ok install_ok)
qed (use assms in \<open>simp add: subscribe_resumes_def\<close>)

lemma authenticated_ok: "socket_ok s \<Longrightarrow> socket_ok (connection_authenticated answer s)"
  by (cases "ws_phase s = Authenticating")
    (auto simp: connection_authenticated_def split: sum.splits option.splits
      intro!: close_ok send_ok, auto simp: socket_ok_defs)

lemma field_ok:
  "socket_ok s \<Longrightarrow> socket_ok (s\<lparr>ws_alive := b\<rparr>)" "socket_ok s \<Longrightarrow> socket_ok (s\<lparr>ws_open := b\<rparr>)"
  by (auto simp: socket_ok_defs)

lemma changed_ok: "socket_ok s \<Longrightarrow> socket_ok (job_changed jobId s)"
  by (auto simp: job_changed_def refresh_ok split: option.splits)

lemma ws_step_ok: "socket_ok s \<Longrightarrow> socket_ok (ws_step env e s)"
proof (cases e)
  case (SubscribeRead v w x)
  assume "socket_ok s"
  then show ?thesis using SubscribeRead by (auto split: option.splits intro: subscribe_resumes_ok)
next
  case SocketClosed
  assume "socket_ok s"
  then show ?thesis using SocketClosed by (auto simp: Let_def field_ok clear_ok)
qed (auto simp: authenticated_ok handle_ok send_ok refresh_resumes_ok refresh_ok changed_ok
      heartbeat_def field_ok close_ok clear_ok)

interpretation ws_machine: handler_invariant "ws_step env" socket_ok
  for env
  by unfold_locales (rule ws_step_ok)

lemma accepted_ok: "socket_ok (accept_connection env originHeader cookie)"
  by (auto simp: accept_connection_def fresh_socket_def socket_ok_defs new_subscription_def)

lemma run_socket_ok: "socket_ok (run_events (ws_step env) es (accept_connection env originHeader cookie))"
  by (rule ws_machine.run_inv) (rule accepted_ok)


section \<open>Whose jobs are sent\<close>

fun event_exec :: "ws_event \<Rightarrow> exec list" where
  "event_exec (SubscribeRead v w x) = [x]"
| "event_exec (RefreshRead i w x) = [x]"
| "event_exec _ = []"

text \<open>Every update sent is what a read returned for the connection's owner.\<close>

definition updates_from :: "database set \<Rightarrow> job_socket \<Rightarrow> bool" where
  "updates_from D s \<longleftrightarrow> (ws_phase s \<noteq> Ready \<longrightarrow> (\<forall>j. JobUpdate j \<notin> set (ws_sent s))) \<and>
     (\<forall>j. JobUpdate j \<in> set (ws_sent s) \<longrightarrow> (\<exists>d \<in> D. \<exists>i. owned_job i (ws_owner s) d = Some j))"

lemma updates_from_sent:
  "updates_from D s \<Longrightarrow> ws_phase t = ws_phase s \<Longrightarrow> ws_owner t = ws_owner s \<Longrightarrow>
     (\<And>j. JobUpdate j \<in> set (ws_sent t) \<Longrightarrow> JobUpdate j \<in> set (ws_sent s)) \<Longrightarrow> updates_from D t"
  unfolding updates_from_def by metis

lemma updates_from_update:
  assumes "updates_from D s" "ws_phase s = Ready" "d \<in> D" "owned_job k (ws_owner s) d = Some j"
    "ws_phase t = Ready" "ws_owner t = ws_owner s"
    "\<And>m. JobUpdate m \<in> set (ws_sent t) \<Longrightarrow> JobUpdate m \<in> set (ws_sent s) \<or> m = j"
  shows "updates_from D t"
  using assms unfolding updates_from_def by metis

lemma found_owned: "fst (findOwnedJob k ow w x) = Inr r \<Longrightarrow> r = owned_job k ow (db x)"
  by (metis findOwnedJob_Inr prod.collapse)

lemma install_sent:
  "JobUpdate m \<in> set (ws_sent (install_subscription jobId job s)) \<Longrightarrow>
     JobUpdate m \<in> set (ws_sent s) \<or> m = job"
  by (auto simp: install_subscription_def Let_def update_sent split: if_splits)

lemma install_simps [simp]:
  "ws_phase (install_subscription jobId job s) = ws_phase s"
  "ws_owner (install_subscription jobId job s) = ws_owner s"
  "ws_cookie (install_subscription jobId job s) = ws_cookie s"
  by (auto simp: install_subscription_def Let_def)

lemma start_read_simps [simp]:
  "ws_phase (start_read i s) = ws_phase s" "ws_owner (start_read i s) = ws_owner s"
  "ws_sent (start_read i s) = ws_sent s" "ws_phase (end_refresh i s) = ws_phase s"
  "ws_owner (end_refresh i s) = ws_owner s" "ws_sent (end_refresh i s) = ws_sent s"
  "ws_cookie (start_read i s) = ws_cookie s" "ws_cookie (end_refresh i s) = ws_cookie s"
  by (simp_all add: start_read_def end_refresh_def)

lemma refreshSubscription_simps [simp]:
  "ws_phase (refreshSubscription i s) = ws_phase s" "ws_owner (refreshSubscription i s) = ws_owner s"
  "ws_sent (refreshSubscription i s) = ws_sent s" "ws_cookie (refreshSubscription i s) = ws_cookie s"
  by (simp_all add: refreshSubscription_def)

lemma refresh_resumes_updates:
  assumes "updates_from D s" "socket_ok s" "db x \<in> D"
  shows "updates_from D (refresh_resumes i (fst (findOwnedJob k (ws_owner s) w x)) s)"
proof (cases "\<exists>job. fst (findOwnedJob k (ws_owner s) w x) = Inr (Some job) \<and> i \<in> set (ws_reading s)")
  case True
  then obtain job where job: "fst (findOwnedJob k (ws_owner s) w x) = Inr (Some job)" "i \<in> set (ws_reading s)"
    by blast
  have ready: "ws_phase s = Ready" using job(2) assms(2) by (auto simp: socket_ok_defs)
  show ?thesis
    by (rule updates_from_update[OF assms(1) ready assms(3) found_owned[OF job(1), symmetric]])
      (auto simp: job refresh_resumes_def Let_def update_sent ready split: if_splits)
next
  case False
  then show ?thesis
    by (intro updates_from_sent[OF assms(1)])
      (auto simp: refresh_resumes_def Let_def split: sum.splits option.splits if_splits)
qed

lemma subscribe_resumes_updates:
  assumes "updates_from D s" "socket_ok s" "db x \<in> D" "map_of (ws_subscribing s) v = Some k"
  shows "updates_from D (subscribe_resumes v (fst (findOwnedJob k (ws_owner s) w x)) s)"
proof -
  have ready: "ws_phase s = Ready" using assms(2,4) by (auto simp: socket_ok_defs)
  show ?thesis
  proof (cases "\<exists>job. fst (findOwnedJob k (ws_owner s) w x) = Inr (Some job)")
    case True
    then obtain job where job: "fst (findOwnedJob k (ws_owner s) w x) = Inr (Some job)" by blast
    show ?thesis
      by (rule updates_from_update[OF assms(1) ready assms(3) found_owned[OF job, symmetric]])
        (auto simp: job assms(4) subscribe_resumes_def Let_def ready dest!: install_sent split: if_splits)
  next
    case False
    then show ?thesis
      by (intro updates_from_sent[OF assms(1)])
        (auto simp: assms(4) subscribe_resumes_def Let_def split: sum.splits option.splits if_splits)
  qed
qed

lemma authenticated_updates:
  "updates_from D s \<Longrightarrow> updates_from D (connection_authenticated a s)"
  by (cases "ws_phase s = Authenticating")
    (auto simp: connection_authenticated_def updates_from_def split: sum.splits option.splits)

lemma ws_step_updates:
  assumes "updates_from D s" "socket_ok s" "db ` set (event_exec e) \<subseteq> D"
  shows "updates_from D (ws_step env e s)"
proof (cases e)
  case (SubscribeRead v w x)
  then show ?thesis
    using assms subscribe_resumes_updates by (auto split: option.splits)
next
  case (RefreshRead i w x)
  then show ?thesis using assms refresh_resumes_updates by auto
next
  case (Authenticated w x)
  then show ?thesis using assms(1) authenticated_updates by auto
qed (auto intro!: updates_from_sent[OF assms(1)] simp: handleClientMessage_def subscribeToJob_def
      heartbeat_def job_changed_def Let_def split: option.splits client_message.splits if_splits)

lemma run_updates:
  "updates_from D s \<Longrightarrow> socket_ok s \<Longrightarrow> (\<Union>e \<in> set es. db ` set (event_exec e)) \<subseteq> D \<Longrightarrow>
     updates_from D (run_events (ws_step env) es s)"
  by (induction es arbitrary: s) (auto intro: ws_step_updates ws_step_ok)

text \<open>
  Where the owner comes from: only the answer of the authentication moves a connection to
  \<open>Ready\<close> and sets its owner, once, from the principal resolved for its own cookies.
\<close>

fun is_authentication :: "ws_event \<Rightarrow> bool" where
  "is_authentication (Authenticated w x) = True"
| "is_authentication _ = False"

lemma refresh_resumes_identity [simp]:
  "ws_phase (refresh_resumes i a s) = ws_phase s" "ws_owner (refresh_resumes i a s) = ws_owner s"
  "ws_cookie (refresh_resumes i a s) = ws_cookie s"
  by (simp_all add: refresh_resumes_def Let_def split: sum.splits option.splits)

lemma subscribe_resumes_identity [simp]:
  "ws_phase (subscribe_resumes v a s) = ws_phase s" "ws_owner (subscribe_resumes v a s) = ws_owner s"
  "ws_cookie (subscribe_resumes v a s) = ws_cookie s"
  by (simp_all add: subscribe_resumes_def Let_def split: sum.splits option.splits)

lemma handle_identity [simp]:
  "ws_phase (handleClientMessage env raw s) = ws_phase s"
  "ws_owner (handleClientMessage env raw s) = ws_owner s"
  "ws_cookie (handleClientMessage env raw s) = ws_cookie s"
  by (simp_all add: handleClientMessage_def subscribeToJob_def split: option.splits client_message.splits)

lemma step_identity:
  assumes "\<not> is_authentication e \<or> ws_phase s \<noteq> Authenticating"
  shows "ws_phase (ws_step env e s) = ws_phase s \<and> ws_owner (ws_step env e s) = ws_owner s \<and>
     ws_cookie (ws_step env e s) = ws_cookie s"
  using assms
  by (cases e) (simp_all add: connection_authenticated_def job_changed_def heartbeat_def Let_def
      split: option.splits)

lemma run_identity:
  "(\<forall>e \<in> set es. \<not> is_authentication e) \<or> ws_phase s \<noteq> Authenticating \<Longrightarrow>
     ws_phase (run_events (ws_step env) es s) = ws_phase s \<and>
     ws_owner (run_events (ws_step env) es s) = ws_owner s \<and>
     ws_cookie (run_events (ws_step env) es s) = ws_cookie s"
proof (induction es arbitrary: s)
  case (Cons e es)
  then have "\<not> is_authentication e \<or> ws_phase s \<noteq> Authenticating" by auto
  note step = step_identity[OF this, of env]
  then show ?case using Cons.IH[of "ws_step env e s"] Cons.prems by auto
qed simp

lemma accept_identity:
  "ws_phase (accept_connection env originHeader cookie) \<noteq> Ready"
  "ws_cookie (accept_connection env originHeader cookie) = cookie"
  "JobUpdate j \<notin> set (ws_sent (accept_connection env originHeader cookie))"
  by (simp_all add: accept_connection_def fresh_socket_def)

text \<open>The step that made a connection ready: the first authentication answer of its run.\<close>

lemma ready_by_authentication:
  assumes "ws_phase (run_events (ws_step env) es (accept_connection env originHeader cookie)) = Ready"
  shows "\<exists>earlier w x p later t. es = earlier @ Authenticated w x # later \<and>
     (\<forall>e \<in> set earlier. \<not> is_authentication e) \<and>
     fst (resolveRequestPrincipal (we_auth env) cookie w x) = Inr (Some p) \<and>
     run_events (ws_step env) es (accept_connection env originHeader cookie) = run_events (ws_step env) later t \<and>
     ws_phase t = Ready \<and> ws_owner t = principal_ownerId p \<and> socket_ok t \<and>
     (\<forall>k. JobUpdate k \<notin> set (ws_sent t))"
proof -
  let ?start = "accept_connection env originHeader cookie"
  have "\<exists>e \<in> set es. is_authentication e"
    using assms run_identity[of es ?start env] accept_identity(1)[of env originHeader cookie] by metis
  from split_list_first_prop[OF this] obtain earlier e later where
    es: "es = earlier @ e # later" "is_authentication e" "\<forall>e \<in> set earlier. \<not> is_authentication e"
    by blast
  from es(2) obtain w x where e: "e = Authenticated w x" by (cases e) auto
  define s where "s = run_events (ws_step env) earlier ?start"
  define t where "t = ws_step env e s"
  have s: "ws_cookie s = cookie" "ws_phase s \<noteq> Ready"
    using run_identity[of earlier ?start env] es(3) accept_identity by (auto simp: s_def)
  have run: "run_events (ws_step env) es ?start = run_events (ws_step env) later t"
    by (simp add: es s_def t_def run_events_append)
  have ok: "socket_ok s" unfolding s_def by (rule run_socket_ok)
  have "updates_from UNIV s"
    unfolding s_def by (rule run_updates) (auto simp: updates_from_def accept_identity accepted_ok)
  then have none: "JobUpdate k \<notin> set (ws_sent s)" for k using s(2) by (simp add: updates_from_def)
  have auth: "ws_phase s = Authenticating"
  proof (rule ccontr)
    assume "ws_phase s \<noteq> Authenticating"
    then have "ws_phase t \<noteq> Ready \<and> ws_phase t \<noteq> Authenticating"
      using step_identity[of e s env] s(2) by (simp add: t_def)
    then show False using run_identity[of later t env] assms run by simp
  qed
  then have "ws_phase t \<noteq> Authenticating"
    by (simp add: t_def e connection_authenticated_def split: sum.splits option.splits)
  then have ready: "ws_phase t = Ready" using run_identity[of later t env] assms run by simp
  then obtain p where p: "fst (resolveRequestPrincipal (we_auth env) cookie w x) = Inr (Some p)"
      "ws_owner t = principal_ownerId p"
    using auth s(1)
    by (auto simp: t_def e connection_authenticated_def split: sum.splits option.splits)
  moreover have "\<forall>k. JobUpdate k \<notin> set (ws_sent t)"
    using none auth s(1) p by (simp add: t_def e connection_authenticated_def)
  moreover have "socket_ok t" unfolding t_def by (rule ws_step_ok[OF ok])
  ultimately show ?thesis using es e run ready by blast
qed

text \<open>
  C3: a connection sees only its owner's jobs. Whatever the browser sends and in whatever order
  reads, timers, notifications and disconnections happen, a job update sent on a connection
  presupposes that the connection's own cookies proved an account or a visitor: the first
  authentication answer of the run resolved them to a principal, and the update is the row of a
  job that belonged to this very principal in the tables that a later read of the connection saw.
\<close>

theorem updates_only_of_owner:
  assumes "JobUpdate j \<in> set (ws_sent (run_events (ws_step env) es (accept_connection env originHeader cookie)))"
  shows "\<exists>earlier w x p later. es = earlier @ Authenticated w x # later \<and>
     (\<forall>e \<in> set earlier. \<not> is_authentication e) \<and>
     fst (resolveRequestPrincipal (we_auth env) cookie w x) = Inr (Some p) \<and>
     (\<exists>e \<in> set later. \<exists>y \<in> set (event_exec e). \<exists>row \<in> set (jobs (db y)).
        owner_id row = principal_ownerId p \<and> jobColumns row = j)"
proof -
  let ?start = "accept_connection env originHeader cookie"
  have "updates_from UNIV (run_events (ws_step env) es ?start)"
    by (rule run_updates) (auto simp: updates_from_def accept_identity accepted_ok)
  then have "ws_phase (run_events (ws_step env) es ?start) = Ready"
    using assms by (auto simp: updates_from_def)
  from ready_by_authentication[OF this] obtain earlier w x p later t where
    es: "es = earlier @ Authenticated w x # later" "\<forall>e \<in> set earlier. \<not> is_authentication e"
      "fst (resolveRequestPrincipal (we_auth env) cookie w x) = Inr (Some p)"
    and run: "run_events (ws_step env) es ?start = run_events (ws_step env) later t"
    and t: "ws_phase t = Ready" "ws_owner t = principal_ownerId p" "socket_ok t"
      "\<forall>k. JobUpdate k \<notin> set (ws_sent t)"
    by blast
  let ?D = "\<Union>e \<in> set later. db ` set (event_exec e)"
  have "updates_from ?D (run_events (ws_step env) later t)"
    using t by (intro run_updates) (simp_all add: updates_from_def)
  moreover have "ws_owner (run_events (ws_step env) later t) = principal_ownerId p"
    using run_identity[of later t env] t by simp
  ultimately obtain y i e' where "e' \<in> set later" "y \<in> set (event_exec e')"
      "owned_job i (principal_ownerId p) (db y) = Some j"
    using assms unfolding run updates_from_def by (auto dest!: spec[of _ j])
  then have "\<exists>e \<in> set later. \<exists>y \<in> set (event_exec e). \<exists>row \<in> set (jobs (db y)).
      owner_id row = principal_ownerId p \<and> jobColumns row = j"
    by (fastforce simp: owned_job_def dest!: first_row_SomeD)
  then show ?thesis using es by blast
qed

section \<open>The last command counts\<close>

text \<open>A connection that is not subscribed and whose pending reads are all out of date.\<close>

definition silent :: "job_socket \<Rightarrow> bool" where
  "silent s \<longleftrightarrow> ws_current s = None \<and> (\<forall>p \<in> set (ws_subscribing s). fst p < ws_version s)"

lemma silent_map_of: "silent s \<Longrightarrow> map_of (ws_subscribing s) v = Some k \<Longrightarrow> v < ws_version s"
  by (auto simp: silent_def dest!: map_of_SomeD)

text \<open>Events that carry no valid subscribe command.\<close>

fun no_subscribe :: "ws_env \<Rightarrow> ws_event \<Rightarrow> bool" where
  "no_subscribe env (ClientText raw) = (case client_command env raw of Some (Subscribe i) \<Rightarrow> False | _ \<Rightarrow> True)"
| "no_subscribe env _ = True"

definition job_updates :: "job_socket \<Rightarrow> JobRecord list" where
  "job_updates s = concat (map (\<lambda>m. case m of JobUpdate j \<Rightarrow> [j] | _ \<Rightarrow> []) (ws_sent s))"

lemma silent_step:
  assumes "silent s" "ws_phase s = Ready" "no_subscribe env e"
  shows "silent (ws_step env e s) \<and> ws_phase (ws_step env e s) = Ready \<and>
     job_updates (ws_step env e s) = job_updates s"
proof (cases e)
  case (SubscribeRead v w x)
  show ?thesis
  proof (cases "map_of (ws_subscribing s) v")
    case (Some k)
    then have "v < ws_version s" using assms(1) silent_map_of by blast
    then show ?thesis
      using Some assms SubscribeRead
      by (auto simp: subscribe_resumes_def Let_def silent_def job_updates_def split: sum.splits)
  qed (use assms SubscribeRead in simp)
next
  case (RefreshRead i w x)
  then show ?thesis
    using assms by (auto simp: refresh_resumes_def Let_def silent_def job_updates_def end_refresh_def
        split: sum.splits)
next
  case (ClientText raw)
  then show ?thesis
    using assms by (auto simp: handleClientMessage_def client_command_def silent_def job_updates_def
        split: option.splits client_message.splits)
next
  case (Authenticated w x)
  then show ?thesis using assms by (simp add: connection_authenticated_def)
qed (use assms in \<open>auto simp: silent_def job_updates_def refreshSubscription_def job_changed_def
      heartbeat_def Let_def\<close>)

lemma silent_run:
  "silent s \<Longrightarrow> ws_phase s = Ready \<Longrightarrow> list_all (no_subscribe env) es \<Longrightarrow>
     silent (run_events (ws_step env) es s) \<and>
     job_updates (run_events (ws_step env) es s) = job_updates s"
proof (induction es arbitrary: s)
  case (Cons e es)
  then show ?case using silent_step[of s env e] Cons.IH[of "ws_step env e s"] by auto
qed simp


section \<open>Properties of a connection\<close>

text \<open>
  C21: one timer, one read. In every state a connection can reach, at most one safety timer runs,
  it belongs to the current subscription, and no subscription has two database reads of its job
  under way at the same time. (Reads of different subscriptions may overlap.)
\<close>

theorem socket_one_timer_one_read:
  "length (ws_timers (run_events (ws_step env) es (accept_connection env originHeader cookie))) \<le> 1 \<and>
   set (ws_timers (run_events (ws_step env) es (accept_connection env originHeader cookie)))
     \<subseteq> set_option (ws_current (run_events (ws_step env) es (accept_connection env originHeader cookie))) \<and>
   distinct (ws_reading (run_events (ws_step env) es (accept_connection env originHeader cookie)))"
proof -
  let ?s = "run_events (ws_step env) es (accept_connection env originHeader cookie)"
  have ok: "timers_ok ?s" "reads_ok ?s"
    using run_socket_ok[of env es originHeader cookie] by (auto simp: socket_ok_def)
  then have sub: "set (ws_timers ?s) \<subseteq> set_option (ws_current ?s)" by (auto simp: timers_ok_def)
  have "length (ws_timers ?s) = card (set (ws_timers ?s))"
    using ok(1) by (simp add: timers_ok_def distinct_card)
  also have "\<dots> \<le> card (set_option (ws_current ?s))" using sub by (intro card_mono) auto
  also have "\<dots> \<le> 1" by (cases "ws_current ?s") auto
  finally show ?thesis using sub ok(2) by (simp add: reads_ok_def)
qed

text \<open>
  Unsubscribing is final. Once an unsubscribe command has been handled, no job update is sent
  and no subscription or timer exists until the browser subscribes again, whatever subscribe or
  refresh reads were still under way and however they are answered.
\<close>

theorem unsubscribe_is_final:
  assumes "s = run_events (ws_step env) earlier (accept_connection env originHeader cookie)"
    "ws_phase s = Ready" "client_command env raw = Some Unsubscribe"
    "list_all (no_subscribe env) later"
  shows "job_updates (run_events (ws_step env) (ClientText raw # later) s) = job_updates s \<and>
     ws_current (run_events (ws_step env) (ClientText raw # later) s) = None \<and>
     ws_timers (run_events (ws_step env) (ClientText raw # later) s) = []"
proof -
  define t where "t = ws_step env (ClientText raw) s"
  have ok: "socket_ok s" unfolding assms(1) by (rule run_socket_ok)
  have t: "t = sendJson UnsubscribedMessage (clearSubscription (s\<lparr>ws_version := Suc (ws_version s)\<rparr>))"
    using assms(2,3) by (auto simp: t_def handleClientMessage_def client_command_def split: option.splits)
  have "silent t" "job_updates t = job_updates s" "ws_phase t = Ready"
    using ok assms(2) by (auto simp: t silent_def job_updates_def socket_ok_defs)
  then have r: "silent (run_events (ws_step env) later t)"
    "job_updates (run_events (ws_step env) later t) = job_updates s"
    using silent_run[of t env later] assms(4) by auto
  have "timers_ok (run_events (ws_step env) later t)"
    using ws_machine.run_inv[of t env later] ws_step_ok[OF ok, of env "ClientText raw"]
    by (simp add: socket_ok_def t_def)
  then have "x \<notin> set (ws_timers (run_events (ws_step env) later t))" for x
    using r(1) by (simp add: timers_ok_def silent_def)
  then have "ws_timers (run_events (ws_step env) later t) = []"
    by (metis list.set_intros(1) neq_Nil_conv)
  then show ?thesis using r by (simp add: silent_def t_def del: ws_step.simps)
qed

text \<open>
  A change is always read. A notification for the subscribed job either starts a read at once
  or, when one is already under way (whose answer may be older than the change), makes another
  one start as soon as that one has been answered with the job.
\<close>

theorem change_triggers_fresh_read:
  assumes "s = run_events (ws_step env) es (accept_connection env originHeader cookie)"
    "ws_current s = Some i" "sub_jobId (ws_subs s i) = jobId"
    "fst (findOwnedJob jobId (ws_owner s) w x) = Inr (Some job)"
  shows "i \<in> set (ws_reading (ws_step env (JobChanged jobId) s)) \<and>
     (i \<in> set (ws_reading s) \<longrightarrow>
        i \<in> set (ws_reading (run_events (ws_step env) [JobChanged jobId, RefreshRead i w x] s)))"
proof -
  have ok: "reads_ok s" using run_socket_ok unfolding assms(1) socket_ok_def by blast
  then show ?thesis
    using assms(2-4)
    by (auto simp: job_changed_def refreshSubscription_def reads_ok_def refresh_resumes_def start_read_def)
qed

text \<open>
  a failed read drops the change. When the read under way fails, the request noted by a
  notification that arrived meanwhile is not served: no read is started, although the
  subscription still has the request on record.
\<close>

theorem failed_read_drops_change:
  assumes "s = run_events (ws_step env) es (accept_connection env originHeader cookie)"
    "ws_current s = Some i" "sub_jobId (ws_subs s i) = jobId" "i \<in> set (ws_reading s)"
    "fst (findOwnedJob jobId (ws_owner s) w x) = Inl err"
  shows "i \<notin> set (ws_reading (run_events (ws_step env) [JobChanged jobId, RefreshRead i w x] s)) \<and>
     refreshRequested (ws_subs (run_events (ws_step env) [JobChanged jobId, RefreshRead i w x] s) i)"
proof -
  have ok: "reads_ok s" using run_socket_ok unfolding assms(1) socket_ok_def by blast
  then show ?thesis
    using assms(2-5)
    by (auto simp: job_changed_def refreshSubscription_def reads_ok_def refresh_resumes_def end_refresh_def)
qed

text \<open>
  Closing during a subscribe read leaves a timer behind. When the connection closes while the
  read of the latest subscribe command is under way and that read then finds an unfinished job,
  the closed connection gets a subscription and a safety timer that no further callback of the
  connection clears.
\<close>

theorem close_race_leaves_timer:
  assumes "s = run_events (ws_step env) es (accept_connection env originHeader cookie)"
    "map_of (ws_subscribing s) (ws_version s) = Some jobId"
    "fst (findOwnedJob jobId (ws_owner s) w x) = Inr (Some job)" "\<not> terminal_status (status job)"
  shows "ws_open (run_events (ws_step env) [SocketClosed, SubscribeRead (ws_version s) w x] s) = False \<and>
     ws_timers (run_events (ws_step env) [SocketClosed, SubscribeRead (ws_version s) w x] s) = [ws_next s]"
proof -
  have ok: "socket_ok s" unfolding assms(1) by (rule run_socket_ok)
  have ready: "ws_phase s = Ready" using ok assms(2) by (auto simp: socket_ok_defs)
  define t where "t = ws_step env SocketClosed s"
  have t: "t = clearSubscription (s\<lparr>ws_open := False\<rparr>)" using ready by (simp add: t_def Let_def)
  have "ws_timers t = []"
    using clear_timers[of "s\<lparr>ws_open := False\<rparr>"] ok unfolding t by (simp add: socket_ok_def timers_ok_def)
  moreover have "ws_open t = False" "ws_subscribing t = ws_subscribing s" "ws_version t = ws_version s"
    "ws_owner t = ws_owner s" "ws_current t = None" "ws_next t = ws_next s"
    by (simp_all add: t)
  ultimately have "ws_open (ws_step env (SubscribeRead (ws_version s) w x) t) = False \<and>
      ws_timers (ws_step env (SubscribeRead (ws_version s) w x) t) = [ws_next s]"
    using assms(2-4)
    by (simp add: subscribe_resumes_def install_subscription_def clear_none Let_def sendJobUpdate_def
        clear_timer_def new_subscription_def)
  then show ?thesis by (simp add: t_def)
qed

section \<open>A change is read after it was announced\<close>

text \<open>The answers to the reads of subscription \<open>i\<close>.\<close>

fun answers_read :: "nat \<Rightarrow> ws_event \<Rightarrow> bool" where
  "answers_read i (RefreshRead k w x) = (k = i)"
| "answers_read i _ = False"

text \<open>
  What a connection in state \<open>s\<close> owes its current subscription \<open>i\<close> once it is in state \<open>s'\<close>:
  whatever else happens, a read of the job is under way until it is answered; if one was under way
  already in \<open>s\<close>, its answer (while the subscription lasts and the job is found) starts another
  one; and the answer of a read is among the messages sent, while the connection is open.
\<close>

definition served_afresh :: "ws_env \<Rightarrow> nat \<Rightarrow> job_socket \<Rightarrow> job_socket \<Rightarrow> bool" where
  "served_afresh env i s s' \<longleftrightarrow>
     (\<forall>later. list_all (\<lambda>e. \<not> answers_read i e) later \<longrightarrow>
        i \<in> set (ws_reading (run_events (ws_step env) later s')) \<and>
        (i \<in> set (ws_reading s) \<longrightarrow>
           (\<forall>w x j. ws_current (run_events (ws_step env) later s') = Some i \<and>
              fst (findOwnedJob (sub_jobId (ws_subs s i)) (ws_owner s) w x) = Inr (Some j) \<longrightarrow>
              i \<in> set (ws_reading (run_events (ws_step env) (later @ [RefreshRead i w x]) s'))))) \<and>
     (\<forall>later w x j. i \<in> set (ws_reading (run_events (ws_step env) later s')) \<and>
        ws_current (run_events (ws_step env) later s') = Some i \<and>
        ws_open (run_events (ws_step env) later s') \<and>
        fst (findOwnedJob (sub_jobId (ws_subs s i)) (ws_owner s) w x) = Inr (Some j) \<longrightarrow>
        JobUpdate j \<in> set (ws_sent (run_events (ws_step env) (later @ [RefreshRead i w x]) s')))"

text \<open>A read under way, with the request for another one on record if \<open>b\<close>.\<close>

definition read_owed :: "nat \<Rightarrow> bool \<Rightarrow> job_socket \<Rightarrow> bool" where
  "read_owed i b s \<longleftrightarrow> i < ws_next s \<and> i \<in> set (ws_reading s) \<and>
     (b \<longrightarrow> refreshRequested (ws_subs s i))"

lemma read_owed_refresh:
  "reads_ok s \<Longrightarrow> read_owed i b s \<Longrightarrow> read_owed i b (refreshSubscription k s)"
  by (auto simp: read_owed_def refreshSubscription_def start_read_def reads_ok_def)

lemma read_owed_update: "read_owed i b s \<Longrightarrow> read_owed i b (sendJobUpdate k j s)"
  by (simp add: read_owed_def)

lemma read_owed_simple:
  "read_owed i b s \<Longrightarrow> read_owed i b (sendJson m s)" "read_owed i b s \<Longrightarrow> read_owed i b (clearSubscription s)"
  "read_owed i b s \<Longrightarrow> read_owed i b (close_socket c s)" "read_owed i b s \<Longrightarrow> read_owed i b (subscribeToJob k s)"
  "read_owed i b s \<Longrightarrow> read_owed i b (s\<lparr>ws_version := v\<rparr>)"
  by (simp_all add: read_owed_def subscribeToJob_def)

lemma read_owed_install:
  "read_owed i b s \<Longrightarrow> read_owed i b (install_subscription jobId job s)"
  by (simp add: read_owed_def install_subscription_def Let_def)

lemma read_owed_resumes:
  "read_owed i b s \<Longrightarrow> k \<noteq> i \<Longrightarrow> read_owed i b (refresh_resumes k a s)"
  "read_owed i b s \<Longrightarrow> read_owed i b (subscribe_resumes v a s)"
proof -
  assume o: "read_owed i b s"
  have "read_owed i b (s\<lparr>ws_subscribing := l\<rparr>)" for l using o by (simp add: read_owed_def)
  then show "read_owed i b (subscribe_resumes v a s)"
    by (simp add: o subscribe_resumes_def Let_def read_owed_simple read_owed_install
        split: sum.splits option.splits)
  assume "k \<noteq> i"
  then show "read_owed i b (refresh_resumes k a s)"
    using o by (auto simp: refresh_resumes_def Let_def read_owed_def end_refresh_def start_read_def
        split: sum.splits option.splits)
qed

lemma read_owed_step:
  assumes "socket_ok s" "read_owed i b s" "\<not> answers_read i e"
  shows "read_owed i b (ws_step env e s)"
proof (cases e)
  case (ClientText raw)
  then show ?thesis
    using assms(2) by (auto simp: handleClientMessage_def read_owed_simple
        split: option.splits client_message.splits)
next
  case (Authenticated w x)
  then show ?thesis
    using assms(2) by (auto simp: connection_authenticated_def read_owed_def split: sum.splits option.splits)
next
  case SocketClosed
  have "read_owed i b (s\<lparr>ws_open := False\<rparr>)" using assms(2) by (simp add: read_owed_def)
  then show ?thesis using SocketClosed by (simp add: Let_def read_owed_simple)
qed (use assms in \<open>auto simp: read_owed_simple read_owed_resumes read_owed_refresh heartbeat_def
      job_changed_def socket_ok_def read_owed_def[of _ _ "ws_alive_update _ _"] read_owed_def[of _ _ s]
      split: option.splits\<close>)

lemma read_owed_run:
  "socket_ok s \<Longrightarrow> read_owed i b s \<Longrightarrow> list_all (\<lambda>e. \<not> answers_read i e) es \<Longrightarrow>
     read_owed i b (run_events (ws_step env) es s)"
  by (induction es arbitrary: s) (auto intro: read_owed_step ws_step_ok)

text \<open>A subscription keeps its job: its number is never used again.\<close>

definition sub_kept :: "nat \<Rightarrow> job_socket \<Rightarrow> job_socket \<Rightarrow> bool" where
  "sub_kept i s t \<longleftrightarrow> (i < ws_next s \<longrightarrow>
     i < ws_next t \<and> sub_jobId (ws_subs t i) = sub_jobId (ws_subs s i))"

lemma sub_kept_refresh [simp]: "sub_kept i s (refreshSubscription k s)"
  by (simp add: sub_kept_def refreshSubscription_def start_read_def)

lemma sub_kept_install [simp]: "sub_kept i s (install_subscription k j s)"
  by (simp add: sub_kept_def install_subscription_def Let_def)

lemma sub_kept_step: "sub_kept i s (ws_step env e s)"
proof (cases e)
  case (SubscribeRead v w x)
  have "sub_kept i (s\<lparr>ws_subscribing := l\<rparr>) t \<Longrightarrow> sub_kept i s t" for l t by (simp add: sub_kept_def)
  then have "sub_kept i s (install_subscription k j (s\<lparr>ws_subscribing := l\<rparr>))" for k j l
    using sub_kept_install by blast
  then show ?thesis
    using SubscribeRead
    by (auto simp: subscribe_resumes_def Let_def sub_kept_def[of _ _ "sendJson _ _"] sub_kept_def[of _ s s]
        sub_kept_def[of _ s "ws_subscribing_update _ s"] split: sum.splits option.splits)
next
  case (RefreshRead k w x)
  then show ?thesis
    by (auto simp: refresh_resumes_def Let_def sub_kept_def end_refresh_def start_read_def
        split: sum.splits option.splits)
next
  case (SafetyTick k)
  then show ?thesis by (auto simp: sub_kept_def[of _ s s])
next
  case (JobChanged k)
  then show ?thesis by (auto simp: job_changed_def sub_kept_def[of _ s s] split: option.splits)
qed (auto simp: sub_kept_def connection_authenticated_def handleClientMessage_def subscribeToJob_def
      heartbeat_def Let_def split: sum.splits option.splits client_message.splits)

lemma sub_kept_run: "sub_kept i s (run_events (ws_step env) es s)"
proof (induction es arbitrary: s)
  case (Cons e es)
  then show ?case
    using sub_kept_step[of i s env e] by (auto simp: sub_kept_def simp del: ws_step.simps)
qed (simp add: sub_kept_def)

text \<open>While the connection is open, what a subscription remembers as sent has been sent.\<close>

definition payloads_sent :: "job_socket \<Rightarrow> bool" where
  "payloads_sent s \<longleftrightarrow> ws_open s \<longrightarrow>
     (\<forall>i j. previousPayload (ws_subs s i) = Some j \<longrightarrow> JobUpdate j \<in> set (ws_sent s))"

lemma payloads_update:
  "payloads_sent s \<Longrightarrow> payloads_sent (sendJobUpdate i j s)"
  by (auto simp: payloads_sent_def sendJobUpdate_def Let_def clear_timer_def)

lemma update_delivers:
  "payloads_sent s \<Longrightarrow> ws_open s \<Longrightarrow> JobUpdate j \<in> set (ws_sent (sendJobUpdate i j s))"
  by (auto simp: payloads_sent_def update_sent)

lemma payloads_simple:
  "payloads_sent s \<Longrightarrow> payloads_sent (sendJson m s)" "payloads_sent s \<Longrightarrow> payloads_sent (clearSubscription s)"
  "payloads_sent (close_socket c s)" "payloads_sent s \<Longrightarrow> payloads_sent (end_refresh i s)"
  "payloads_sent s \<Longrightarrow> payloads_sent (start_read i s)"
  "payloads_sent s \<Longrightarrow> payloads_sent (s\<lparr>ws_reading := l\<rparr>)"
  "payloads_sent s \<Longrightarrow> payloads_sent (s\<lparr>ws_subscribing := l'\<rparr>)"
  "payloads_sent s \<Longrightarrow> payloads_sent (s\<lparr>ws_version := v\<rparr>)"
  "payloads_sent s \<Longrightarrow> payloads_sent (s\<lparr>ws_alive := a\<rparr>)"
  "payloads_sent s \<Longrightarrow> payloads_sent (subscribeToJob k s)"
  "payloads_sent s \<Longrightarrow> payloads_sent (refreshSubscription i s)"
  by (simp_all add: payloads_sent_def end_refresh_def start_read_def subscribeToJob_def refreshSubscription_def)

lemma payloads_install:
  assumes "payloads_sent s"
  shows "payloads_sent (install_subscription k j s)"
proof -
  let ?i = "ws_next (clearSubscription s)"
  let ?s1 = "(clearSubscription s)\<lparr>ws_subs := (ws_subs (clearSubscription s))(?i := new_subscription k),
     ws_next := Suc ?i, ws_current := Some ?i\<rparr>"
  have "payloads_sent ?s1"
    using payloads_simple(2)[OF assms] by (simp add: payloads_sent_def new_subscription_def)
  then have "payloads_sent (sendJobUpdate ?i j (sendJson (SubscribedMessage k) ?s1))"
    by (intro payloads_update payloads_simple)
  moreover have "payloads_sent t \<Longrightarrow>
      payloads_sent ((on_sub i (\<lambda>b. b\<lparr>safetyIntervalId := True\<rparr>) t)\<lparr>ws_timers := l\<rparr>)" for t i l
    by (simp add: payloads_sent_def)
  ultimately show ?thesis
    unfolding install_subscription_def Let_def by presburger
qed

lemma payloads_step: "payloads_sent s \<Longrightarrow> payloads_sent (ws_step env e s)"
proof (cases e)
  case (SubscribeRead v w x)
  assume "payloads_sent s"
  then show ?thesis
    using SubscribeRead by (auto simp: subscribe_resumes_def Let_def payloads_simple payloads_install
        split: sum.splits option.splits)
next
  case (RefreshRead k w x)
  assume "payloads_sent s"
  then show ?thesis
    using RefreshRead by (auto simp: refresh_resumes_def Let_def payloads_simple payloads_update
        split: sum.splits option.splits)
next
  case (ClientText raw)
  assume "payloads_sent s"
  then show ?thesis
    using ClientText by (auto simp: handleClientMessage_def payloads_simple
        split: option.splits client_message.splits)
next
  case (Authenticated w x)
  assume "payloads_sent s"
  then have "payloads_sent (s\<lparr>ws_phase := Ready, ws_alive := True, ws_owner := ow, ws_version := 0\<rparr>)" for ow
    by (simp add: payloads_sent_def)
  then show ?thesis
    using Authenticated \<open>payloads_sent s\<close>
    by (auto simp: connection_authenticated_def payloads_simple split: sum.splits option.splits)
next
  case SocketClosed
  then show ?thesis by (simp add: payloads_sent_def Let_def)
qed (auto simp: payloads_simple job_changed_def heartbeat_def split: option.splits)

lemma payloads_run_from: "payloads_sent s \<Longrightarrow> payloads_sent (run_events (ws_step env) es s)"
  by (induction es arbitrary: s) (auto intro: payloads_step simp del: ws_step.simps)

lemma payloads_run:
  "payloads_sent (run_events (ws_step env) es (accept_connection env' originHeader cookie))"
  by (rule payloads_run_from)
    (simp add: payloads_sent_def accept_connection_def fresh_socket_def new_subscription_def)

lemma read_restarts:
  assumes "read_owed i True t" "ws_current t = Some i"
    "fst (findOwnedJob (sub_jobId (ws_subs t i)) (ws_owner t) w x) = Inr (Some j)"
  shows "i \<in> set (ws_reading (ws_step env (RefreshRead i w x) t))"
  using assms by (simp add: read_owed_def refresh_resumes_def Let_def start_read_def)

lemma answer_delivered:
  assumes "payloads_sent t" "ws_open t" "i \<in> set (ws_reading t)" "ws_current t = Some i"
    "fst (findOwnedJob (sub_jobId (ws_subs t i)) (ws_owner t) w x) = Inr (Some j)"
  shows "JobUpdate j \<in> set (ws_sent (ws_step env (RefreshRead i w x) t))"
proof -
  let ?t = "t\<lparr>ws_reading := removeAll i (ws_reading t)\<rparr>"
  have "JobUpdate j \<in> set (ws_sent (sendJobUpdate i j ?t))"
    using assms(1,2) by (intro update_delivers payloads_simple) simp_all
  then show ?thesis using assms(3-5) by (simp add: refresh_resumes_def Let_def)
qed

text \<open>A notification for the subscribed job obliges the connection to read it afresh.\<close>

lemma changed_serves:
  assumes ok: "socket_ok s" and sent: "payloads_sent s"
    and cur: "ws_current s = Some i" "sub_jobId (ws_subs s i) = jobId"
  shows "served_afresh env i s (job_changed jobId s)"
proof -
  let ?s = "job_changed jobId s"
  have ok': "socket_ok ?s" by (rule changed_ok[OF ok])
  have sent': "payloads_sent ?s" using payloads_step[OF sent, of env "JobChanged jobId"] by simp
  have next_ok: "i < ws_next s" using ok cur by (simp add: socket_ok_defs)
  have s: "?s = refreshSubscription i s" using cur by (simp add: job_changed_def)
  have owed: "read_owed i (i \<in> set (ws_reading s)) ?s"
    using ok cur next_ok by (auto simp: s read_owed_def refreshSubscription_def start_read_def socket_ok_def reads_ok_def)
  have ready: "ws_phase ?s \<noteq> Authenticating"
    using ok cur by (auto simp: s socket_ok_def phase_ok_def)
  have same: "ws_owner (run_events (ws_step env) later ?s) = ws_owner s"
    "sub_jobId (ws_subs (run_events (ws_step env) later ?s) i) = sub_jobId (ws_subs s i)" for later
  proof -
    show "ws_owner (run_events (ws_step env) later ?s) = ws_owner s"
      using run_identity[of later ?s env] ready by (simp add: s)
    show "sub_jobId (ws_subs (run_events (ws_step env) later ?s) i) = sub_jobId (ws_subs s i)"
      using sub_kept_run[of i ?s env later] sub_kept_refresh[of i s i] next_ok by (simp add: s sub_kept_def)
  qed
  have "i \<in> set (ws_reading (run_events (ws_step env) later ?s))"
    if "list_all (\<lambda>e. \<not> answers_read i e) later" for later
    using read_owed_run[OF ok' owed that] by (simp add: read_owed_def)
  moreover have "i \<in> set (ws_reading (run_events (ws_step env) (later @ [RefreshRead i w x]) ?s))"
    if "list_all (\<lambda>e. \<not> answers_read i e) later" "i \<in> set (ws_reading s)"
      "ws_current (run_events (ws_step env) later ?s) = Some i"
      "fst (findOwnedJob (sub_jobId (ws_subs s i)) (ws_owner s) w x) = Inr (Some j)" for later w x j
    using read_restarts[of i "run_events (ws_step env) later ?s" w x j env]
      read_owed_run[OF ok' owed that(1), of env] that(2-4)
    by (simp add: run_events_append same del: ws_step.simps)
  moreover have "JobUpdate j \<in> set (ws_sent (run_events (ws_step env) (later @ [RefreshRead i w x]) ?s))"
    if "i \<in> set (ws_reading (run_events (ws_step env) later ?s))"
      "ws_current (run_events (ws_step env) later ?s) = Some i" "ws_open (run_events (ws_step env) later ?s)"
      "fst (findOwnedJob (sub_jobId (ws_subs s i)) (ws_owner s) w x) = Inr (Some j)" for later w x j
    using answer_delivered[OF payloads_run_from[OF sent'] that(3,1,2)] that(4)
    by (simp add: run_events_append same del: ws_step.simps)
  ultimately show ?thesis unfolding served_afresh_def by blast
qed

section \<open>Witnesses\<close>

definition demo_parse :: "string \<Rightarrow> json option" where
  "demo_parse raw =
     (if raw = ''u'' then Some (JObject [(''type'', JString ''unsubscribe'')])
      else if raw = [] then None
      else Some (JObject [(''type'', JString ''subscribe''), (''jobId'', JString raw)]))"

definition demo_ws :: ws_env where
  "demo_ws = \<lparr>we_parse = demo_parse, we_is_uuid = (\<lambda>_. True), we_auth = sample_env,
     we_security = \<lparr>allowedOrigins = [''http://localhost:5173''], sessionCookieSecure = False\<rparr>\<rparr>"

definition demo_authenticated :: ws_event where
  "demo_authenticated = Authenticated quiet_world (idle_exec session_db)"

definition demo_read :: ws_event where
  "demo_read = SubscribeRead 1 quiet_world (idle_exec session_db)"

definition demo_run :: "ws_event list \<Rightarrow> job_socket" where
  "demo_run es = run_events (ws_step demo_ws) es (accept_connection demo_ws None (Some sample_header))"

definition failing_world :: world where
  "failing_world = quiet_world\<lparr>query_fails := (\<lambda>_. True)\<rparr>"

definition demo_job :: JobRecord where
  "demo_job = jobColumns (sample_job ''j1'' ''u1'' PENDING)"

lemma demo_principal:
  "fst (resolveRequestPrincipal sample_env (Some sample_header) quiet_world (idle_exec session_db)) =
     Inr (Some (user_principal sample_uuid (authenticated_user alice)))"
  by code_simp

lemma demo_found:
  "fst (findOwnedJob ''j1'' ''u1'' quiet_world (idle_exec session_db)) = Inr (Some demo_job)"
  by code_simp

lemma demo_not_found:
  "fst (findOwnedJob ''j1'' ''u1'' failing_world (idle_exec session_db)) = Inl (DatabaseError ''query failed'')"
  by code_simp

lemma demo_commands:
  "client_command demo_ws ''u'' = Some Unsubscribe" "client_command demo_ws ''j1'' = Some (Subscribe ''j1'')"
  by code_simp+

lemma demo_handles:
  "handleClientMessage demo_ws ''j1'' s = subscribeToJob ''j1'' s"
  by (simp add: handleClientMessage_def demo_ws_def demo_parse_def clientMessageSchema_def json_field_def
      unknown_keys_def)

lemma demo_accept: "accept_connection demo_ws None (Some sample_header) = fresh_socket (Some sample_header)"
  by (simp add: accept_connection_def isAllowedOrigin_def)

lemma demo_auth: "we_auth demo_ws = sample_env"
  by (simp add: demo_ws_def)

text \<open>The connection of the example: authenticated, then with a subscribe read under way, then subscribed.\<close>

lemma demo_pending:
  "ws_phase (demo_run [demo_authenticated, ClientText ''j1'']) = Ready \<and>
   ws_owner (demo_run [demo_authenticated, ClientText ''j1'']) = ''u1'' \<and>
   ws_subscribing (demo_run [demo_authenticated, ClientText ''j1'']) = [(1, ''j1'')] \<and>
   ws_version (demo_run [demo_authenticated, ClientText ''j1'']) = 1 \<and>
   ws_open (demo_run [demo_authenticated, ClientText ''j1'']) \<and>
   ws_current (demo_run [demo_authenticated, ClientText ''j1'']) = None \<and>
   ws_next (demo_run [demo_authenticated, ClientText ''j1'']) = 0"
  by (simp add: demo_run_def demo_authenticated_def demo_accept demo_handles connection_authenticated_def
      fresh_socket_def demo_principal subscribeToJob_def demo_auth
      user_principal_def authenticated_user_def alice_def)


lemma demo_job_status: "\<not> terminal_status (status demo_job)" by code_simp

lemmas demo_defs = demo_run_def demo_authenticated_def demo_read_def demo_accept demo_handles
  connection_authenticated_def fresh_socket_def demo_principal demo_auth subscribeToJob_def
  user_principal_def authenticated_user_def alice_def subscribe_resumes_def demo_found
  install_subscription_def demo_job_status new_subscription_def clear_none sendJobUpdate_def
  refreshSubscription_def start_read_def clear_timer_def Let_def

lemma demo_subscribed:
  "ws_phase (demo_run [demo_authenticated, ClientText ''j1'', demo_read]) = Ready \<and>
   ws_owner (demo_run [demo_authenticated, ClientText ''j1'', demo_read]) = ''u1'' \<and>
   ws_current (demo_run [demo_authenticated, ClientText ''j1'', demo_read]) = Some 0 \<and>
   sub_jobId (ws_subs (demo_run [demo_authenticated, ClientText ''j1'', demo_read]) 0) = ''j1'' \<and>
   JobUpdate demo_job \<in> set (ws_sent (demo_run [demo_authenticated, ClientText ''j1'', demo_read]))"
  by (simp add: demo_defs)

lemma demo_reading:
  "ws_owner (demo_run [demo_authenticated, ClientText ''j1'', demo_read, SafetyTick 0]) = ''u1'' \<and>
   ws_current (demo_run [demo_authenticated, ClientText ''j1'', demo_read, SafetyTick 0]) = Some 0 \<and>
   sub_jobId (ws_subs (demo_run [demo_authenticated, ClientText ''j1'', demo_read, SafetyTick 0]) 0) = ''j1'' \<and>
   0 \<in> set (ws_reading (demo_run [demo_authenticated, ClientText ''j1'', demo_read, SafetyTick 0]))"
  by (simp add: demo_defs)

theorem updates_only_of_owner_witness:
  "\<exists>earlier w x p later.
     [demo_authenticated, ClientText ''j1'', demo_read] = earlier @ Authenticated w x # later \<and>
     (\<forall>e \<in> set earlier. \<not> is_authentication e) \<and>
     fst (resolveRequestPrincipal (we_auth demo_ws) (Some sample_header) w x) = Inr (Some p) \<and>
     (\<exists>e \<in> set later. \<exists>y \<in> set (event_exec e). \<exists>row \<in> set (jobs (db y)).
        owner_id row = principal_ownerId p \<and> jobColumns row = demo_job)"
  by (rule updates_only_of_owner[OF conjunct2[OF conjunct2[OF conjunct2[OF conjunct2[OF
    demo_subscribed[unfolded demo_run_def]]]]]])

theorem unsubscribe_is_final_witness:
  "ws_timers (run_events (ws_step demo_ws) (ClientText ''u'' # [RefreshRead 0 quiet_world (idle_exec session_db)])
     (demo_run [demo_authenticated, ClientText ''j1'', demo_read, SafetyTick 0])) = []"
proof -
  have "ws_phase (demo_run [demo_authenticated, ClientText ''j1'', demo_read, SafetyTick 0]) = Ready"
    by (simp add: demo_defs)
  then show ?thesis
    using unsubscribe_is_final[OF demo_run_def _ demo_commands(1),
        of "[demo_authenticated, ClientText ''j1'', demo_read, SafetyTick 0]"
           "[RefreshRead 0 quiet_world (idle_exec session_db)]"]
    by simp
qed

theorem change_triggers_fresh_read_witness:
  "0 \<in> set (ws_reading (run_events (ws_step demo_ws)
     [JobChanged ''j1'', RefreshRead 0 quiet_world (idle_exec session_db)]
     (demo_run [demo_authenticated, ClientText ''j1'', demo_read, SafetyTick 0])))"
proof -
  let ?s = "demo_run [demo_authenticated, ClientText ''j1'', demo_read, SafetyTick 0]"
  have "fst (findOwnedJob ''j1'' (ws_owner ?s) quiet_world (idle_exec session_db)) = Inr (Some demo_job)"
    by (simp only: demo_reading[THEN conjunct1] demo_found)
  then show ?thesis
    using change_triggers_fresh_read[OF demo_run_def, of _ 0 "''j1''"] demo_reading by blast
qed

theorem failed_read_drops_change_witness:
  "0 \<notin> set (ws_reading (run_events (ws_step demo_ws)
     [JobChanged ''j1'', RefreshRead 0 failing_world (idle_exec session_db)]
     (demo_run [demo_authenticated, ClientText ''j1'', demo_read, SafetyTick 0])))"
proof -
  let ?s = "demo_run [demo_authenticated, ClientText ''j1'', demo_read, SafetyTick 0]"
  have "fst (findOwnedJob ''j1'' (ws_owner ?s) failing_world (idle_exec session_db)) =
      Inl (DatabaseError ''query failed'')"
    by (simp only: demo_reading[THEN conjunct1] demo_not_found)
  then show ?thesis
    using failed_read_drops_change[OF demo_run_def, of _ 0 "''j1''"] demo_reading by blast
qed

theorem close_race_leaves_timer_witness:
  "ws_timers (run_events (ws_step demo_ws) [SocketClosed, SubscribeRead 1 quiet_world (idle_exec session_db)]
     (demo_run [demo_authenticated, ClientText ''j1''])) = [0]"
  using close_race_leaves_timer[OF demo_run_def, of "[demo_authenticated, ClientText ''j1'']" "''j1''"
      quiet_world "idle_exec session_db" demo_job] demo_pending demo_found demo_job_status
  by simp

end
