(* ===== verification/Processes.thy ===== *)
theory Processes
  imports Outbox WsSubscription AccountLifecycle
begin

text \<open>
  The long-lived activities of the two processes: the Kafka status consumer
  (backend/src/kafka/jobStatusConsumer.ts), its supervision and the graceful shutdown
  (backend/src/server.ts), and the loop of the cleanup process (backend/src/cleanup.ts). Steps that
  await are events of a machine, so that signals may arrive between them.
\<close>

section \<open>Status events\<close>

definition uuid_schema :: "(string \<Rightarrow> bool) \<Rightarrow> text_schema" where
  "uuid_schema is_uuid t = (if is_uuid t then Inr t else Inl [LibraryIssue])"

definition statusEventSchema :: "(string \<Rightarrow> bool) \<Rightarrow> json \<Rightarrow> zod_issue list + string" where
  "statusEventSchema is_uuid = strict_one (''jobId'', uuid_schema is_uuid)"

text \<open>\<open>eachMessage\<close>: a tombstone, broken JSON and an unexpected shape are skipped.\<close>

definition eachMessage :: "ws_env \<Rightarrow> string option \<Rightarrow> job_socket list \<Rightarrow> job_socket list" where
  "eachMessage env message_value sockets =
     (case message_value of
        None \<Rightarrow> sockets
      | Some raw \<Rightarrow>
          (case we_parse env raw of
             None \<Rightarrow> sockets
           | Some parsedJson \<Rightarrow>
               (case statusEventSchema (we_is_uuid env) parsedJson of
                  Inl issues \<Rightarrow> sockets
                | Inr jobId \<Rightarrow> notifyJobChanged jobId sockets)))"

section \<open>The consumer\<close>

record consumer_world =
  cw_connect :: "nat \<Rightarrow> error option"
  cw_subscribe :: "nat \<Rightarrow> error option"
  cw_stop :: "nat \<Rightarrow> error option"
  cw_disconnect :: "nat \<Rightarrow> error option"

record consumer =
  startPromise :: bool
  runPromise :: bool
  consumer_connected :: bool
  consumer_calls :: nat

definition idle_consumer :: consumer where
  "idle_consumer = \<lparr>startPromise = False, runPromise = False, consumer_connected = False, consumer_calls = 0\<rparr>"

text \<open>The catch of a failed start: disconnect, whatever that answers, and allow another start.\<close>

definition start_failed :: "consumer_world \<Rightarrow> nat \<Rightarrow> error \<Rightarrow> consumer \<Rightarrow> (error + unit) \<times> consumer" where
  "start_failed cw n e s =
     (Inl e, s\<lparr>startPromise := False, runPromise := False,
       consumer_connected := (consumer_connected s \<and> cw_disconnect cw n \<noteq> None)\<rparr>)"

definition startJobStatusConsumer :: "consumer_world \<Rightarrow> consumer \<Rightarrow> (error + unit) \<times> consumer" where
  "startJobStatusConsumer cw s0 =
     (if startPromise s0 then (Inr (), s0)
      else let n = consumer_calls s0; s = s0\<lparr>consumer_calls := Suc n\<rparr>
      in case cw_connect cw n of
           Some e \<Rightarrow> start_failed cw n e s
         | None \<Rightarrow>
             (case cw_subscribe cw n of
                Some e \<Rightarrow> start_failed cw n e (s\<lparr>consumer_connected := True\<rparr>)
              | None \<Rightarrow> (Inr (), s\<lparr>startPromise := True, runPromise := True, consumer_connected := True\<rparr>)))"

definition stopJobStatusConsumer :: "consumer_world \<Rightarrow> consumer \<Rightarrow> (error + unit) \<times> consumer" where
  "stopJobStatusConsumer cw s0 =
     (if \<not> startPromise s0 then (Inr (), s0)
      else let n = consumer_calls s0;
               s = s0\<lparr>consumer_calls := Suc n, startPromise := False, runPromise := False\<rparr>
      in case cw_stop cw n of
           Some e \<Rightarrow> (Inl e, s)
         | None \<Rightarrow>
             (case cw_disconnect cw n of
                Some e \<Rightarrow> (Inl e, s)
              | None \<Rightarrow> (Inr (), s\<lparr>consumer_connected := False\<rparr>)))"

text \<open>Both promises are set or cleared together, and a running consumer is connected.\<close>

definition consumer_ok :: "consumer \<Rightarrow> bool" where
  "consumer_ok s \<longleftrightarrow> (startPromise s \<longleftrightarrow> runPromise s) \<and> (startPromise s \<longrightarrow> consumer_connected s)"

datatype consumer_event = ConsumerStart | ConsumerStop

fun consumer_step :: "consumer_world \<Rightarrow> consumer_event \<Rightarrow> consumer \<Rightarrow> consumer" where
  "consumer_step cw ConsumerStart s = snd (startJobStatusConsumer cw s)"
| "consumer_step cw ConsumerStop s = snd (stopJobStatusConsumer cw s)"

interpretation consumer_machine: handler_invariant "consumer_step cw" consumer_ok
  for cw
proof
  fix s e
  assume "consumer_ok s"
  then show "consumer_ok (consumer_step cw e s)"
    by (cases e) (auto simp: consumer_ok_def startJobStatusConsumer_def start_failed_def
        stopJobStatusConsumer_def Let_def split: option.splits)
qed

text \<open>A failed start leaves nothing behind that would keep the next one from starting afresh.\<close>

lemma failed_start_retries:
  assumes "startJobStatusConsumer cw s = (Inl e, s')"
    "cw_connect cw (consumer_calls s') = None" "cw_subscribe cw (consumer_calls s') = None"
  shows "fst (startJobStatusConsumer cw s') = Inr () \<and> runPromise (snd (startJobStatusConsumer cw s'))"
  using assms by (auto simp: startJobStatusConsumer_def start_failed_def Let_def split: if_splits option.splits)

section \<open>Supervision and shutdown of the server\<close>

record server_process =
  isShuttingDown :: bool
  kafkaStatusRetryTimer :: bool
  start_attempts :: nat
  listening :: bool
  server_publisher :: publisher_process
  server_sockets :: "job_socket list"

text \<open>The listening event is emitted only while the server has not been closed.\<close>

datatype server_event =
    ServerListens
  | StartSettles bool
  | RetryTimerFires
  | ShutdownSignal
  | ServerPublisher publisher_event

text \<open>Up to its await; the attempt is then under way until it settles.\<close>

definition startJobStatusConsumerWithRetry :: "server_process \<Rightarrow> server_process" where
  "startJobStatusConsumerWithRetry s =
     (if isShuttingDown s then s else s\<lparr>start_attempts := Suc (start_attempts s)\<rparr>)"

definition start_settles :: "bool \<Rightarrow> server_process \<Rightarrow> server_process" where
  "start_settles ok s0 =
     (if start_attempts s0 = 0 then s0
      else let s = s0\<lparr>start_attempts := start_attempts s0 - 1\<rparr>
      in if \<not> ok \<and> \<not> isShuttingDown s \<and> \<not> kafkaStatusRetryTimer s
         then s\<lparr>kafkaStatusRetryTimer := True\<rparr> else s)"

definition server_listens :: "server_process \<Rightarrow> server_process" where
  "server_listens s =
     (if listening s then s
      else startJobStatusConsumerWithRetry
             (s\<lparr>listening := True, server_publisher := startOutboxPublisher (server_publisher s)\<rparr>))"

definition shutdown :: "server_process \<Rightarrow> server_process" where
  "shutdown s =
     (if isShuttingDown s then s
      else s\<lparr>isShuttingDown := True, kafkaStatusRetryTimer := False,
             server_sockets := closeClients (server_sockets s),
             server_publisher := stopOutboxPublisher (server_publisher s)\<rparr>)"

fun server_step :: "server_event \<Rightarrow> server_process \<Rightarrow> server_process" where
  "server_step ServerListens s = (if isShuttingDown s then s else server_listens s)"
| "server_step (StartSettles ok) s = start_settles ok s"
| "server_step RetryTimerFires s =
     (if kafkaStatusRetryTimer s
      then startJobStatusConsumerWithRetry (s\<lparr>kafkaStatusRetryTimer := False\<rparr>) else s)"
| "server_step ShutdownSignal s = shutdown s"
| "server_step (ServerPublisher e) s =
     (if e = StartPublisher then s
      else s\<lparr>server_publisher := publisher_step e (server_publisher s)\<rparr>)"

lemmas [machine_defs] = startJobStatusConsumerWithRetry_def start_settles_def server_listens_def
  shutdown_def

text \<open>The end of \<open>shutdown\<close>: the exit code for the outcomes of the awaited operations.\<close>

definition shutdown_exit_code :: "(error + unit) list \<Rightarrow> error + unit \<Rightarrow> error + unit \<Rightarrow> nat" where
  "shutdown_exit_code stops disconnected pool_ended =
     (if \<exists>r \<in> set stops. r \<noteq> Inr () then 1
      else if disconnected \<noteq> Inr () then 1
      else if pool_ended \<noteq> Inr () then 1 else 0)"

definition supervised :: "server_process \<Rightarrow> bool" where
  "supervised s \<longleftrightarrow>
     start_attempts s + (if kafkaStatusRetryTimer s then 1 else 0) \<le> (if listening s then 1 else 0) \<and>
     (isShuttingDown s \<longrightarrow> \<not> kafkaStatusRetryTimer s \<and> \<not> publishInterval (server_publisher s)) \<and>
     one_pass (server_publisher s) \<and> (\<not> listening s \<longrightarrow> \<not> publishInterval (server_publisher s))"

definition server_started :: "job_socket list \<Rightarrow> server_process" where
  "server_started sockets = \<lparr>isShuttingDown = False, kafkaStatusRetryTimer = False, start_attempts = 0,
     listening = False, server_publisher = idle_process, server_sockets = sockets\<rparr>"


lemma publisher_step_stopped:
  "e \<noteq> StartPublisher \<Longrightarrow> \<not> publishInterval q \<Longrightarrow> \<not> publishInterval (publisher_step e q)"
  using stopped_step by blast

lemma stop_simps: "\<not> publishInterval (stopOutboxPublisher q)"
  by (simp add: stopOutboxPublisher_def Let_def)

lemma publisher_calls_one_pass:
  "one_pass q \<Longrightarrow> one_pass (startOutboxPublisher q)" "one_pass q \<Longrightarrow> one_pass (stopOutboxPublisher q)"
  using publisher_step_one_pass[of q StartPublisher] publisher_step_one_pass[of q StopPublisher] by simp_all

lemma retry_supervised:
  "supervised s \<Longrightarrow> start_attempts s = 0 \<Longrightarrow> listening s \<Longrightarrow>
     supervised (startJobStatusConsumerWithRetry (s\<lparr>kafkaStatusRetryTimer := False\<rparr>))"
  by (simp add: supervised_def startJobStatusConsumerWithRetry_def)

lemma settles_supervised: "supervised s \<Longrightarrow> supervised (start_settles ok s)"
  by (cases "listening s"; cases "kafkaStatusRetryTimer s"; cases "isShuttingDown s")
    (simp_all add: supervised_def start_settles_def Let_def)

lemma listens_supervised: "supervised s \<Longrightarrow> \<not> isShuttingDown s \<Longrightarrow> supervised (server_listens s)"
  using publisher_calls_one_pass(1)
  by (cases "listening s")
    (simp_all add: supervised_def server_listens_def startJobStatusConsumerWithRetry_def split: if_splits)

lemma shutdown_supervised: "supervised s \<Longrightarrow> supervised (shutdown s)"
  using publisher_calls_one_pass(2) stop_simps
  by (cases "isShuttingDown s") (simp_all add: supervised_def shutdown_def split: if_splits)

lemma publisher_supervised:
  "supervised s \<Longrightarrow> e \<noteq> StartPublisher \<Longrightarrow>
     supervised (s\<lparr>server_publisher := publisher_step e (server_publisher s)\<rparr>)"
  using publisher_step_one_pass publisher_step_stopped by (simp add: supervised_def)

lemma server_step_supervised: "supervised s \<Longrightarrow> supervised (server_step e s)"
proof (cases e)
  case RetryTimerFires
  assume s: "supervised s"
  then have "kafkaStatusRetryTimer s \<Longrightarrow> start_attempts s = 0 \<and> listening s"
    by (simp add: supervised_def split: if_splits)
  then show ?thesis using s RetryTimerFires retry_supervised by simp
qed (simp_all add: settles_supervised listens_supervised shutdown_supervised publisher_supervised)

interpretation server_machine: handler_invariant server_step supervised
  by unfold_locales (rule server_step_supervised)

lemma started_supervised: "supervised (server_started sockets)"
  by (simp add: supervised_def server_started_def one_pass_def idle_process_def)

text \<open>
  C27: supervision never doubles up. In every state the server can reach, whatever order listening,
  settling start attempts, the retry timer and signals come in, there is at most one attempt to
  start the status consumer, under way or scheduled, and after a shutdown signal nothing is
  scheduled: neither a retry nor a pass of the outbox publisher.
\<close>

theorem server_supervision:
  "start_attempts (run_events server_step es (server_started sockets)) +
     (if kafkaStatusRetryTimer (run_events server_step es (server_started sockets)) then 1 else 0) \<le> (1::nat) \<and>
   (isShuttingDown (run_events server_step es (server_started sockets)) \<longrightarrow>
      \<not> kafkaStatusRetryTimer (run_events server_step es (server_started sockets)) \<and>
      \<not> publishInterval (server_publisher (run_events server_step es (server_started sockets))))"
  using server_machine.run_inv[OF started_supervised, of es sockets]
  by (auto simp: supervised_def split: if_splits)

text \<open>A retry really happens: a failed attempt is followed by another one.\<close>

lemma failed_attempt_retried:
  assumes "supervised s" "\<not> isShuttingDown s" "start_attempts s = 1"
  shows "start_attempts (run_events server_step [StartSettles False, RetryTimerFires] s) = 1"
  using assms by (auto simp: supervised_def machine_defs Let_def split: if_splits)

section \<open>The cleanup process\<close>

text \<open>One cycle: a storage batch, then the sessions; an error ends only the cycle.\<close>

definition cleanup_cycle :: "nat \<Rightarrow> nat \<Rightarrow> (CleanupBatchResult \<times> nat) seff" where
  "cleanup_cycle batchSize claimTimeoutMinutes =
     bindS (cleanupExpiredStorageBatch batchSize claimTimeoutMinutes) (\<lambda>result.
     bindS (dbS deleteInactiveUserSessions) (\<lambda>deletedSessionCount.
       returnS (result, deletedSessionCount)))"

definition caught_cycle ::
    "nat \<Rightarrow> nat \<Rightarrow> world \<Rightarrow> store_world \<Rightarrow> store_exec \<Rightarrow> store_exec option" where
  "caught_cycle batchSize claimTimeoutMinutes w sw s =
     map_option snd (cleanup_cycle batchSize claimTimeoutMinutes w sw s)"

record cleanup_process =
  shutdownRequested :: bool
  in_cycle :: bool
  waiting :: bool
  cycles_started :: nat
  pool_ended :: bool

datatype cleanup_event = CycleEnds | DelayElapses | StopSignal

text \<open>The head of the \<open>while\<close>: another cycle, or the end of the loop.\<close>

definition next_cycle :: "cleanup_process \<Rightarrow> cleanup_process" where
  "next_cycle p =
     (if shutdownRequested p then p\<lparr>pool_ended := True\<rparr>
      else p\<lparr>in_cycle := True, cycles_started := Suc (cycles_started p)\<rparr>)"

definition waitForNextCycle :: "cleanup_process \<Rightarrow> cleanup_process" where
  "waitForNextCycle p = p\<lparr>waiting := True\<rparr>"

definition requestShutdown :: "cleanup_process \<Rightarrow> cleanup_process" where
  "requestShutdown p0 =
     (let p = p0\<lparr>shutdownRequested := True\<rparr>
      in if waiting p then next_cycle (p\<lparr>waiting := False\<rparr>) else p)"

fun cleanup_step :: "cleanup_event \<Rightarrow> cleanup_process \<Rightarrow> cleanup_process" where
  "cleanup_step CycleEnds p0 =
     (if \<not> in_cycle p0 then p0
      else let p = p0\<lparr>in_cycle := False\<rparr>
      in if shutdownRequested p then next_cycle p else waitForNextCycle p)"
| "cleanup_step DelayElapses p =
     (if waiting p then next_cycle (p\<lparr>waiting := False\<rparr>) else p)"
| "cleanup_step StopSignal p = requestShutdown p"

definition cleanup_started :: cleanup_process where
  "cleanup_started = next_cycle \<lparr>shutdownRequested = False, in_cycle = False, waiting = False,
     cycles_started = 0, pool_ended = False\<rparr>"

lemmas [machine_defs] = next_cycle_def waitForNextCycle_def requestShutdown_def

text \<open>The loop is in exactly one place, and a requested stop never waits.\<close>

definition one_place :: "cleanup_process \<Rightarrow> bool" where
  "one_place p \<longleftrightarrow>
     (in_cycle p \<and> \<not> waiting p \<and> \<not> pool_ended p) \<or> (\<not> in_cycle p \<and> waiting p \<and> \<not> pool_ended p \<and> \<not> shutdownRequested p) \<or>
     (\<not> in_cycle p \<and> \<not> waiting p \<and> pool_ended p \<and> shutdownRequested p)"

interpretation cleanup_machine: handler_invariant cleanup_step one_place
proof
  fix p e
  assume "one_place p"
  then show "one_place (cleanup_step e p)"
    by (cases e) (auto simp: one_place_def machine_defs Let_def)
qed

lemma started_one_place: "one_place cleanup_started"
  by (simp add: one_place_def cleanup_started_def machine_defs)

lemma stopping_step:
  "shutdownRequested p \<Longrightarrow> shutdownRequested (cleanup_step e p) \<and>
     cycles_started (cleanup_step e p) = cycles_started p"
  by (cases e) (auto simp: machine_defs Let_def)

lemma stopping_run:
  "shutdownRequested p \<Longrightarrow> shutdownRequested (run_events cleanup_step es p) \<and>
     cycles_started (run_events cleanup_step es p) = cycles_started p"
  by (induction es arbitrary: p) (simp_all add: stopping_step)

text \<open>
  C28: the cleanup process stops when asked. After a signal, whenever it comes (during a cycle or
  a wait), no further cycle is started, and at the latest when the cycle under way ends the loop
  is over and the pool is closed; the pool is never closed under a running cycle.
\<close>

theorem cleanup_process_stops:
  "cycles_started (run_events cleanup_step (earlier @ StopSignal # later) cleanup_started) =
     cycles_started (run_events cleanup_step earlier cleanup_started) \<and>
   pool_ended (run_events cleanup_step (earlier @ StopSignal # later @ [CycleEnds]) cleanup_started) \<and>
   \<not> (pool_ended (run_events cleanup_step (earlier @ StopSignal # later) cleanup_started) \<and>
      in_cycle (run_events cleanup_step (earlier @ StopSignal # later) cleanup_started))"
proof -
  let ?p = "run_events cleanup_step earlier cleanup_started"
  define q where "q = requestShutdown ?p"
  have p: "one_place ?p" by (rule cleanup_machine.run_inv[OF started_one_place])
  have q: "shutdownRequested q" "cycles_started q = cycles_started ?p" "one_place q"
    using p by (auto simp: q_def one_place_def machine_defs Let_def)
  have run: "run_events cleanup_step (earlier @ StopSignal # later) cleanup_started =
      run_events cleanup_step later q"
    by (simp add: run_events_append q_def)
  have r: "one_place (run_events cleanup_step later q)"
    by (rule cleanup_machine.run_inv[OF q(3)])
  have "pool_ended (cleanup_step CycleEnds (run_events cleanup_step later q))"
    using r stopping_run[OF q(1), of later] by (auto simp: one_place_def machine_defs Let_def)
  then show ?thesis
    using run stopping_run[OF q(1), of later] q(2) r
    by (simp add: run_events_append q_def[symmetric] one_place_def) blast
qed

section \<open>Witnesses\<close>

theorem server_supervision_witness:
  "\<not> kafkaStatusRetryTimer (run_events server_step
     [ServerListens, StartSettles False, ShutdownSignal, RetryTimerFires] (server_started []))"
proof -
  have "isShuttingDown (run_events server_step
     [ServerListens, StartSettles False, ShutdownSignal, RetryTimerFires] (server_started []))"
    by (simp add: machine_defs server_started_def Let_def)
  then show ?thesis
    using server_supervision[of "[ServerListens, StartSettles False, ShutdownSignal, RetryTimerFires]" "[]"]
    by blast
qed

end
