(* ===== verification/Stems.thy ===== *)
theory Stems
  imports JsString "HOL-Library.Multiset"
begin

text \<open>
  frontend/src/utils/stems.ts: the order and the headings of the separated stems. The array method
  \<open>sort\<close> is stable and looks at the sign of the comparison only; \<open>localeCompare\<close>, whose
  order depends on the browser's locale, is a parameter.
\<close>

section \<open>Order\<close>

definition preferredStemOrder :: "string list" where
  "preferredStemOrder = [''vocals'', ''piano'', ''guitar'', ''drums'', ''bass'', ''other'']"

text \<open>\<open>None\<close> stands for the position \<open>Number.POSITIVE_INFINITY\<close>.\<close>

definition preferredStemPositions :: "string \<Rightarrow> nat option" where
  "preferredStemPositions name =
     map_of (zip preferredStemOrder [0..<length preferredStemOrder]) (toLowerCase name)"

definition position_difference :: "nat option \<Rightarrow> nat option \<Rightarrow> int" where
  "position_difference l r =
     (case (l, r) of
        (Some a, Some b) \<Rightarrow> int a - int b
      | (Some a, None) \<Rightarrow> -1
      | (None, Some b) \<Rightarrow> 1
      | (None, None) \<Rightarrow> 0)"

definition compare_stems :: "(string \<Rightarrow> string \<Rightarrow> int) \<Rightarrow> string \<times> string \<Rightarrow> string \<times> string \<Rightarrow> int" where
  "compare_stems localeCompare left right =
     (let leftPosition = preferredStemPositions (fst left);
          rightPosition = preferredStemPositions (fst right)
      in if leftPosition \<noteq> rightPosition then position_difference leftPosition rightPosition
         else localeCompare (fst left) (fst right))"

fun insert_by :: "('a \<Rightarrow> 'a \<Rightarrow> int) \<Rightarrow> 'a \<Rightarrow> 'a list \<Rightarrow> 'a list" where
  "insert_by cmp x [] = [x]"
| "insert_by cmp x (y # ys) = (if cmp x y \<le> 0 then x # y # ys else y # insert_by cmp x ys)"

definition js_sort :: "('a \<Rightarrow> 'a \<Rightarrow> int) \<Rightarrow> 'a list \<Rightarrow> 'a list" where
  "js_sort cmp xs = foldr (insert_by cmp) xs []"

definition orderStemEntries ::
    "(string \<Rightarrow> string \<Rightarrow> int) \<Rightarrow> (string \<times> string) list \<Rightarrow> (string \<times> string) list" where
  "orderStemEntries localeCompare downloadUrls = js_sort (compare_stems localeCompare) downloadUrls"

section \<open>Headings\<close>

fun replace_runs :: "(char \<Rightarrow> bool) \<Rightarrow> char \<Rightarrow> bool \<Rightarrow> string \<Rightarrow> string" where
  "replace_runs P r inside [] = []"
| "replace_runs P r inside (x # xs) =
     (if P x then (if inside then replace_runs P r True xs else r # replace_runs P r True xs)
      else x # replace_runs P r False xs)"

definition capitalize :: "string \<Rightarrow> string" where
  "capitalize word = (case word of [] \<Rightarrow> [] | c # cs \<Rightarrow> js_upper_char c @ toLowerCase cs)"

definition formatStemName :: "string \<Rightarrow> string" where
  "formatStemName stemName =
     js_join (CHR '' '') (map capitalize (filter (\<lambda>w. w \<noteq> [])
       (js_split (CHR '' '') (replace_runs (\<lambda>c. c = CHR ''_'' \<or> c = CHR ''-'') (CHR '' '') False stemName))))"

section \<open>Sorting with a consistent comparison\<close>

text \<open>What \<open>sort\<close> needs of a comparison, and what \<open>localeCompare\<close> is documented to be.\<close>

definition consistent :: "('a \<Rightarrow> 'a \<Rightarrow> int) \<Rightarrow> bool" where
  "consistent cmp \<longleftrightarrow>
     (\<forall>a b. 0 \<le> cmp a b \<longleftrightarrow> cmp b a \<le> 0) \<and>
     (\<forall>a b c. cmp a b \<le> 0 \<and> cmp b c \<le> 0 \<longrightarrow> cmp a c \<le> 0)"

lemma consistent_total: "consistent cmp \<Longrightarrow> 0 \<le> cmp a b \<longleftrightarrow> cmp b a \<le> 0"
  unfolding consistent_def by blast

lemma consistent_trans: "consistent cmp \<Longrightarrow> cmp a b \<le> 0 \<Longrightarrow> cmp b c \<le> 0 \<Longrightarrow> cmp a c \<le> 0"
  unfolding consistent_def by blast

lemma set_insert_by: "set (insert_by cmp x ys) = insert x (set ys)"
  by (induction ys) auto

lemma mset_sort: "mset (js_sort cmp xs) = mset xs"
proof -
  have "mset (insert_by cmp x ys) = add_mset x (mset ys)" for x ys by (induction ys) auto
  then show ?thesis by (induction xs) (simp_all add: js_sort_def)
qed

lemma sorted_insert_by:
  assumes c: "consistent cmp" and s: "sorted_wrt (\<lambda>a b. cmp a b \<le> 0) ys"
  shows "sorted_wrt (\<lambda>a b. cmp a b \<le> 0) (insert_by cmp x ys)"
  using s
proof (induction ys)
  case (Cons y ys)
  show ?case
  proof (cases "cmp x y \<le> 0")
    case True
    then have "cmp x z \<le> 0" if "z \<in> set ys" for z
      using Cons.prems that consistent_trans[OF c, of x y z] by simp
    then show ?thesis using True Cons.prems by simp
  next
    case False
    then have "cmp y x \<le> 0" using consistent_total[OF c, of x y] by simp
    then show ?thesis using False Cons by (simp add: set_insert_by)
  qed
qed simp

lemma sorted_sort: "consistent cmp \<Longrightarrow> sorted_wrt (\<lambda>a b. cmp a b \<le> 0) (js_sort cmp xs)"
  by (induction xs) (simp_all add: js_sort_def sorted_insert_by)

text \<open>The rank of a name, with all unknown names after the recognised ones.\<close>

definition stem_rank :: "string \<Rightarrow> nat" where
  "stem_rank name = (case preferredStemPositions name of Some n \<Rightarrow> n | None \<Rightarrow> length preferredStemOrder)"

lemma position_bound: "preferredStemPositions name = Some n \<Longrightarrow> n < length preferredStemOrder"
  unfolding preferredStemPositions_def by (drule map_of_SomeD) (auto simp: set_zip)

lemma compare_stems_cases:
  "compare_stems lc p q =
     (if stem_rank (fst p) = stem_rank (fst q) then lc (fst p) (fst q)
      else position_difference (preferredStemPositions (fst p)) (preferredStemPositions (fst q)))"
  using position_bound[of "fst p"] position_bound[of "fst q"]
  by (cases "preferredStemPositions (fst p)"; cases "preferredStemPositions (fst q)")
    (auto simp: compare_stems_def stem_rank_def)

lemma position_difference_sign:
  assumes "stem_rank l \<noteq> stem_rank r"
  shows "position_difference (preferredStemPositions l) (preferredStemPositions r) \<le> 0 \<longleftrightarrow> stem_rank l < stem_rank r"
    and "0 \<le> position_difference (preferredStemPositions l) (preferredStemPositions r) \<longleftrightarrow> stem_rank r < stem_rank l"
  using assms position_bound[of l] position_bound[of r]
  by (cases "preferredStemPositions l"; cases "preferredStemPositions r";
      auto simp: position_difference_def stem_rank_def)+

lemma compare_stems_iff:
  "compare_stems lc p q \<le> 0 \<longleftrightarrow>
     stem_rank (fst p) < stem_rank (fst q) \<or> stem_rank (fst p) = stem_rank (fst q) \<and> lc (fst p) (fst q) \<le> 0"
  using position_difference_sign(1)[of "fst p" "fst q"] by (auto simp: compare_stems_cases)

lemma compare_stems_consistent:
  assumes "consistent lc" shows "consistent (compare_stems lc)"
proof -
  have "0 \<le> compare_stems lc a b \<longleftrightarrow> compare_stems lc b a \<le> 0" for a b
    using consistent_total[OF assms] position_difference_sign(2)[of "fst a" "fst b"]
    by (auto simp: compare_stems_iff[of lc b a] compare_stems_cases[of lc a b])
  moreover have "compare_stems lc a c \<le> 0" if "compare_stems lc a b \<le> 0" "compare_stems lc b c \<le> 0" for a b c
    using that consistent_trans[OF assms, of "fst a" "fst b" "fst c"] unfolding compare_stems_iff by force
  ultimately show ?thesis unfolding consistent_def by blast
qed

text \<open>
  No stem is lost and the order is the intended one. The ordered entries are exactly the given
  ones; a recognised stem never comes after one with a later position or an unknown one, whatever
  the case of its name, and entries of equal position follow the browser's collation.
\<close>

theorem stems_ordered:
  assumes "consistent localeCompare"
  shows "mset (orderStemEntries localeCompare downloadUrls) = mset downloadUrls \<and>
    sorted_wrt (\<lambda>p q. stem_rank (fst p) < stem_rank (fst q) \<or>
        stem_rank (fst p) = stem_rank (fst q) \<and> localeCompare (fst p) (fst q) \<le> 0)
      (orderStemEntries localeCompare downloadUrls)"
  using sorted_sort[OF compare_stems_consistent[OF assms]]
  by (simp add: orderStemEntries_def mset_sort compare_stems_iff)

theorem stems_ordered_witness:
  "mset (orderStemEntries (\<lambda>a b. int (length a) - int (length b)) [(''synth'', ''1''), (''Drums'', ''2''), (''vocals'', ''3'')]) =
     mset [(''synth'', ''1''), (''Drums'', ''2''), (''vocals'', ''3'')] \<and>
   map fst (orderStemEntries (\<lambda>a b. int (length a) - int (length b))
     [(''synth'', ''1''), (''Drums'', ''2''), (''vocals'', ''3'')]) = [''vocals'', ''Drums'', ''synth'']"
proof -
  have c: "consistent (\<lambda>a b :: string. int (length a) - int (length b))" by (auto simp: consistent_def)
  have "map fst (orderStemEntries (\<lambda>a b. int (length a) - int (length b))
     [(''synth'', ''1''), (''Drums'', ''2''), (''vocals'', ''3'')]) = [''vocals'', ''Drums'', ''synth'']"
    by code_simp
  then show ?thesis using stems_ordered[OF c] by blast
qed

section \<open>Headings\<close>

text \<open>A heading contains none of the separators of machine-made names.\<close>

lemma replace_runs_gone: "P c \<Longrightarrow> \<not> P r \<Longrightarrow> c \<notin> set (replace_runs P r inside s)"
  by (induction s arbitrary: inside) auto

lemma js_split_chars: "w \<in> set (js_split c s) \<Longrightarrow> set w \<subseteq> set s"
  by (induction s arbitrary: w) (auto split: if_splits list.splits, blast+)

lemma js_join_chars: "set (js_join c ws) \<subseteq> insert c (\<Union>w \<in> set ws. set w)"
  by (induction c ws rule: js_join.induct) auto

lemma separator_case: "x \<in> set (js_upper_char c) \<or> x = js_lower_char c \<Longrightarrow> x \<in> {CHR ''_'', CHR ''-''} \<Longrightarrow> c = x"
  by (auto simp: js_upper_char_def js_lower_char_def Let_def take_bit_eq_mod split: if_splits
      dest!: arg_cong[where f = "of_char :: char \<Rightarrow> nat"])

lemma heading_has_no_separators:
  assumes "x = CHR ''_'' \<or> x = CHR ''-''"
  shows "x \<notin> set (formatStemName stemName)"
proof
  let ?P = "\<lambda>c. c = CHR ''_'' \<or> c = CHR ''-''"
  let ?t = "replace_runs ?P (CHR '' '') False stemName"
  assume "x \<in> set (formatStemName stemName)"
  then obtain w where w: "w \<in> set (js_split (CHR '' '') ?t)" "x \<in> set (capitalize w)"
    using js_join_chars assms unfolding formatStemName_def by fastforce
  have sep: "x \<in> {CHR ''_'', CHR ''-''}" using assms by blast
  have "x \<in> set w"
  proof (cases w)
    case (Cons c cs)
    then have "x \<in> set (js_upper_char c) \<or> (\<exists>d \<in> set cs. x = js_lower_char d)"
      using w(2) by (auto simp: capitalize_def toLowerCase_def)
    then show ?thesis using separator_case[OF _ sep] Cons by (metis list.set_intros)
  qed (use w(2) in \<open>simp add: capitalize_def\<close>)
  then have "x \<in> set ?t" using js_split_chars[OF w(1)] by blast
  then show False using replace_runs_gone[of ?P x "CHR '' ''"] assms by auto
qed

end
