(* ===== verification/AuthRoutes.thy ===== *)
theory AuthRoutes
  imports Http
begin

text \<open>
  backend/src/routes/auth.ts, account.ts and session.ts: registration, login, logout,
  password change, account deletion and the session list, as functions of a request that
  \<open>requirePrincipal\<close> has resolved. \<open>auth_runtime\<close> holds the platform (digests, scrypt, cookie
  parser), the cookie policy and the random bytes and time drawn by the request.
\<close>

record auth_runtime =
  rt_auth :: auth_env
  rt_scrypt :: scrypt_fun
  rt_cookieSecure :: bool
  rt_token_bytes :: "nat list"
  rt_salt :: "nat list"
  rt_date_now :: time

section \<open>auth.ts\<close>

definition parseCredentials :: "json \<Rightarrow> zod_issue list + string \<times> string" where
  "parseCredentials body = credentialsSchema body"

record session_values =
  sv_token :: string
  sv_tokenHash :: string
  sv_expiresAt :: time
  sv_replacedTokenHash :: "string option"

definition createSessionValues :: "auth_runtime \<Rightarrow> string option \<Rightarrow> session_values" where
  "createSessionValues rt cookieHeader =
     (let token = createAuthenticationToken (rt_token_bytes rt);
          existingToken = readAuthenticationToken (env_parseCookie (rt_auth rt)) cookieHeader
      in \<lparr>sv_token = token, sv_tokenHash = hashAuthenticationToken (env_sha256 (rt_auth rt)) token,
          sv_expiresAt = rt_date_now rt + int sessionMaxAgeSeconds * 1000,
          sv_replacedTokenHash = (case existingToken of
             None \<Rightarrow> None
           | Some t \<Rightarrow> if t = [] then None
                       else Some (hashAuthenticationToken (env_sha256 (rt_auth rt)) t))\<rparr>)"

definition session_input :: "session_values \<Rightarrow> uuid \<Rightarrow> CreateSessionInput" where
  "session_input sv anon =
     \<lparr>anonymousOwnerId = anon, expiresAt = sv_expiresAt sv, tokenHash = sv_tokenHash sv,
      replacedTokenHash = (case sv_replacedTokenHash sv of
         None \<Rightarrow> None | Some h \<Rightarrow> if h = [] then None else Some h)\<rparr>"

definition get_me :: "http_request \<Rightarrow> response eff" where
  "get_me req =
     (case req_authenticatedUser req of
        None \<Rightarrow> returnM (reply 200 (AuthJson False None))
      | Some u \<Rightarrow> returnM (reply 200 (AuthJson True (Some u))))"

definition post_register :: "auth_runtime \<Rightarrow> http_request \<Rightarrow> response eff" where
  "post_register rt req =
     (if req_authenticatedUser req \<noteq> None then returnM (fail_reply 409 ''You are already signed in'')
      else case parseCredentials (req_body req) of
        Inl issues \<Rightarrow>
          returnM (reply 400 (ErrorJson (first_issue ''Invalid registration request'' issues)))
      | Inr (uname, password) \<Rightarrow>
          bindM (liftE (hashPassword (rt_scrypt rt) (rt_salt rt) password)) (\<lambda>passwordHash.
            let session = createSessionValues rt (req_cookie req)
            in catchM
                 (bindM (registerUser uname passwordHash
                          (session_input session (req_anonymousOwnerId req))) (\<lambda>user.
                    returnM ((reply 201 (AuthJson True (Some user)))\<lparr>resp_cookies :=
                      setAuthenticationCookie (rt_cookieSecure rt) (sv_token session) []\<rparr>)))
                 (\<lambda>error. if isUsernameConflict error
                          then returnM (fail_reply 409 ''This username is unavailable'')
                          else throwM error)))"

definition password_matches :: "auth_runtime \<Rightarrow> string \<Rightarrow> StoredUser option \<Rightarrow> bool eff" where
  "password_matches rt password user =
     (case user of
        Some u \<Rightarrow> returnM (verifyPassword (rt_scrypt rt) password (stored_password_hash u))
      | None \<Rightarrow>
          bindM (liftE (hashPassword (rt_scrypt rt) (rt_salt rt) password)) (\<lambda>_. returnM False))"

definition post_login :: "auth_runtime \<Rightarrow> http_request \<Rightarrow> response eff" where
  "post_login rt req =
     (case parseCredentials (req_body req) of
        Inl issues \<Rightarrow> returnM (reply 400 (ErrorJson (first_issue ''Invalid login request'' issues)))
      | Inr (uname, password) \<Rightarrow>
          bindM (findUserForLogin uname) (\<lambda>user.
          bindM (password_matches rt password user) (\<lambda>passwordMatches.
            case user of
              None \<Rightarrow> returnM (fail_reply 401 ''Invalid username or password'')
            | Some u \<Rightarrow>
                if \<not> passwordMatches then returnM (fail_reply 401 ''Invalid username or password'')
                else
                  let session = createSessionValues rt (req_cookie req)
                  in thenM (createUserSession (auth_id u)
                              (session_input session (req_anonymousOwnerId req)))
                       (returnM ((reply 200 (AuthJson True
                            (Some \<lparr>auth_id = auth_id u, auth_username = auth_username u\<rparr>)))
                          \<lparr>resp_cookies :=
                            setAuthenticationCookie (rt_cookieSecure rt) (sv_token session) []\<rparr>)))))"

definition post_logout :: "auth_runtime \<Rightarrow> http_request \<Rightarrow> response eff" where
  "post_logout rt req =
     thenM (case readAuthenticationToken (env_parseCookie (rt_auth rt)) (req_cookie req) of
              None \<Rightarrow> returnM ()
            | Some token \<Rightarrow>
                if token = [] then returnM ()
                else revokeUserSession (hashAuthenticationToken (env_sha256 (rt_auth rt)) token))
       (returnM ((reply 204 NoBody)\<lparr>resp_cookies :=
          clearAuthenticationCookie (rt_cookieSecure rt) []\<rparr>))"

section \<open>account.ts\<close>

definition changePasswordSchema :: "json \<Rightarrow> zod_issue list + string \<times> string" where
  "changePasswordSchema body =
     (case strict_two (''currentPassword'', messages passwordSchema)
             (''newPassword'', messages passwordSchema) body of
        Inl issues \<Rightarrow> Inl issues
      | Inr (cur, new) \<Rightarrow>
          if cur = new
          then Inl [Issue ''The new password must be different from the current password'']
          else Inr (cur, new))"

definition deleteAccountSchema :: "json \<Rightarrow> zod_issue list + string" where
  "deleteAccountSchema = strict_one (''password'', messages passwordSchema)"

text \<open>The middleware in front of every account route.\<close>

definition require_account :: "(http_request \<Rightarrow> response eff) \<Rightarrow> http_request \<Rightarrow> response eff" where
  "require_account route req =
     (if req_authenticatedUser req = None
      then returnM (fail_reply 401 ''A signed-in account is required'')
      else route req)"

definition readCurrentTokenHash :: "auth_runtime \<Rightarrow> string option \<Rightarrow> string option" where
  "readCurrentTokenHash rt cookieHeader =
     (case readAuthenticationToken (env_parseCookie (rt_auth rt)) cookieHeader of
        None \<Rightarrow> None
      | Some t \<Rightarrow> if t = [] then None
                  else Some (hashAuthenticationToken (env_sha256 (rt_auth rt)) t))"

definition with_current ::
    "auth_runtime \<Rightarrow> http_request \<Rightarrow> (string \<Rightarrow> AuthenticatedUser \<Rightarrow> response eff) \<Rightarrow> response eff" where
  "with_current rt req f =
     (case (readCurrentTokenHash rt (req_cookie req), req_authenticatedUser req) of
        (Some h, Some u) \<Rightarrow>
          if h = [] then returnM (fail_reply 401 ''A current login session is required'') else f h u
      | _ \<Rightarrow> returnM (fail_reply 401 ''A current login session is required''))"

definition get_sessions :: "auth_runtime \<Rightarrow> http_request \<Rightarrow> response eff" where
  "get_sessions rt req =
     with_current rt req (\<lambda>tokenHash user.
       bindM (listActiveUserSessions (auth_id user) tokenHash) (\<lambda>sessions.
         returnM (reply 200 (SessionsJson sessions))))"

definition post_revoke_others :: "auth_runtime \<Rightarrow> http_request \<Rightarrow> response eff" where
  "post_revoke_others rt req =
     with_current rt req (\<lambda>tokenHash user.
       bindM (revokeOtherUserSessions (auth_id user) tokenHash) (\<lambda>revokedCount.
       bindM (listActiveUserSessions (auth_id user) tokenHash) (\<lambda>sessions.
         returnM (reply 200 (RevokedJson revokedCount sessions)))))"

definition stored_password_matches :: "auth_runtime \<Rightarrow> string \<Rightarrow> string option \<Rightarrow> bool" where
  "stored_password_matches rt password stored =
     (case stored of
        None \<Rightarrow> False
      | Some h \<Rightarrow> h \<noteq> [] \<and> verifyPassword (rt_scrypt rt) password h)"

definition post_password :: "auth_runtime \<Rightarrow> http_request \<Rightarrow> response eff" where
  "post_password rt req =
     (case changePasswordSchema (req_body req) of
        Inl issues \<Rightarrow>
          returnM (reply 400 (ErrorJson (first_issue ''Invalid password change request'' issues)))
      | Inr (currentPassword, newPassword) \<Rightarrow>
          with_current rt req (\<lambda>tokenHash user.
            bindM (findPasswordHashForUser (auth_id user)) (\<lambda>stored.
              if \<not> stored_password_matches rt currentPassword stored
              then returnM (fail_reply 401 ''The current password is incorrect'')
              else
                bindM (liftE (hashPassword (rt_scrypt rt) (rt_salt rt) newPassword)) (\<lambda>newHash.
                thenM (changeUserPassword (auth_id user) newHash tokenHash)
                  (returnM (reply 204 NoBody))))))"

definition post_account :: "config \<Rightarrow> auth_runtime \<Rightarrow> http_request \<Rightarrow> response eff" where
  "post_account cfg rt req =
     (case deleteAccountSchema (req_body req) of
        Inl issues \<Rightarrow>
          returnM (reply 400 (ErrorJson (first_issue ''Invalid account deletion request'' issues)))
      | Inr password \<Rightarrow>
          (case req_authenticatedUser req of
             None \<Rightarrow> returnM (fail_reply 401 ''A signed-in account is required'')
           | Some user \<Rightarrow>
               bindM (findPasswordHashForUser (auth_id user)) (\<lambda>stored.
                 if \<not> stored_password_matches rt password stored
                 then returnM (fail_reply 401 ''The password is incorrect'')
                 else
                   thenM (deleteUserAccount cfg (auth_id user))
                     (returnM ((reply 204 NoBody)\<lparr>resp_cookies :=
                        clearAuthenticationCookie (rt_cookieSecure rt) []\<rparr>)))))"

section \<open>session.ts\<close>

definition post_session :: "auth_runtime \<Rightarrow> string \<Rightarrow> http_request \<Rightarrow> response" where
  "post_session rt randomUUID req =
     (let (cookie, isNew, sid) = establishSession (env_parseCookie (rt_auth rt)) (env_sign (rt_auth rt))
            (rt_cookieSecure rt) randomUUID (req_cookie req)
      in (reply (if isNew then 201 else 200) (SessionReadyJson True sessionMaxAgeSeconds))
           \<lparr>resp_cookies := [cookie]\<rparr>)"

section \<open>Lookups\<close>

lemma findUserForLogin_Inr:
  assumes "db_ok (db s)" "findUserForLogin name w s = (Inr r, s')"
  shows "db s' = db s" "idle s \<Longrightarrow> idle s'"
    "case r of None \<Rightarrow> name \<notin> set (map username (users (db s)))
     | Some u \<Rightarrow> \<exists>x \<in> set (users (db s)). username x = name \<and> u = stored_user x"
proof -
  have f: "filter (\<lambda>u. username u = name) us = [] \<longleftrightarrow> name \<notin> set (map username us)" for us
    by (auto simp: filter_empty_conv)
  have r: "r = first_row (map stored_user (filter (\<lambda>u. username u = name) (users (db s))))"
    and s': "db s' = db s" "snapshot s' = snapshot s" "aborted s' = aborted s"
    using assms(2) by (auto simp: findUserForLogin_def pool_query_def effect_simps sql_defs)
  show "db s' = db s" by (rule s')
  show "idle s \<Longrightarrow> idle s'" using s' by (simp add: idle_def)
  show "case r of None \<Rightarrow> name \<notin> set (map username (users (db s)))
     | Some u \<Rightarrow> \<exists>x \<in> set (users (db s)). username x = name \<and> u = stored_user x"
    using r f[of "users (db s)"] by (auto split: option.split dest!: first_row_SomeD simp: first_row_None_iff)
qed

lemma findPasswordHashForUser_Inr:
  assumes "findPasswordHashForUser i w s = (Inr r, s')"
  shows "db s' = db s \<and> (idle s \<longrightarrow> idle s') \<and>
    (\<forall>h. r = Some h \<longrightarrow> (\<exists>u \<in> set (users (db s)). user_id u = i \<and> password_hash u = h))"
  using assms
  by (auto simp: findPasswordHashForUser_def pool_query_def effect_simps sql_defs idle_def
      dest!: first_row_SomeD)

section \<open>Login\<close>

lemma createUserSession_Inr_db:
  "idle s \<Longrightarrow> createUserSession u inp w s = (Inr x, s') \<Longrightarrow>
     \<exists>ident now. login_ok u inp ident (db s) \<and> db s' = login_db u inp ident now (db s)"
  by (metis createUserSession_success)

lemma session_input_simps [simp]:
  "anonymousOwnerId (session_input sv anon) = anon" "expiresAt (session_input sv anon) = sv_expiresAt sv"
  "tokenHash (session_input sv anon) = sv_tokenHash sv"
  by (simp_all add: session_input_def)

lemma createSessionValues_simps [simp]:
  "sv_token (createSessionValues rt h) = createAuthenticationToken (rt_token_bytes rt)"
  "sv_tokenHash (createSessionValues rt h) =
     hashAuthenticationToken (env_sha256 (rt_auth rt)) (createAuthenticationToken (rt_token_bytes rt))"
  "sv_expiresAt (createSessionValues rt h) = rt_date_now rt + 604800000"
  by (simp_all add: createSessionValues_def Let_def sessionMaxAgeSeconds_def)

lemma password_matches_run:
  "password_matches rt pw u w s = (r, s') \<Longrightarrow>
     s' = s \<and> (\<forall>b. r = Inr b \<longrightarrow> b = (case u of None \<Rightarrow> False
        | Some x \<Rightarrow> verifyPassword (rt_scrypt rt) pw (stored_password_hash x)))"
  by (cases r; cases u) (auto simp: password_matches_def effect_simps)

text \<open>The three answers of a login that does not throw.\<close>

lemma post_login_cases:
  assumes "idle s" "db_ok (db s)" "post_login rt req w s = (Inr r, s')"
  obtains (rejected) issues where "parseCredentials (req_body req) = Inl issues" "s' = s"
      "r = reply 400 (ErrorJson (first_issue ''Invalid login request'' issues))"
  | (refused) name pw where "parseCredentials (req_body req) = Inr (name, pw)" "db s' = db s"
      "r = fail_reply 401 ''Invalid username or password''"
      "\<not> (\<exists>u \<in> set (users (db s)). username u = name \<and> verifyPassword (rt_scrypt rt) pw (password_hash u))"
  | (opened) name pw u ident now where "parseCredentials (req_body req) = Inr (name, pw)"
      "u \<in> set (users (db s))" "username u = name" "verifyPassword (rt_scrypt rt) pw (password_hash u)"
      "login_ok (user_id u) (session_input (createSessionValues rt (req_cookie req)) (req_anonymousOwnerId req))
         ident (db s)"
      "db s' = login_db (user_id u)
         (session_input (createSessionValues rt (req_cookie req)) (req_anonymousOwnerId req)) ident now (db s)"
      "resp_status r = 200"
      "resp_cookies r = [formatAuthenticationCookie (rt_cookieSecure rt)
         (createAuthenticationToken (rt_token_bytes rt)) sessionMaxAgeSeconds]"
proof (cases "parseCredentials (req_body req)")
  case (Inl issues)
  then show ?thesis using assms(3) rejected by (simp add: post_login_def effect_simps)
next
  case (Inr cred)
  obtain name pw where cred: "parseCredentials (req_body req) = Inr (name, pw)"
    using Inr by (cases cred) simp
  obtain found s1 ok where f: "findUserForLogin name w s = (Inr found, s1)"
    and m: "password_matches rt pw found w s1 = (Inr ok, s1)"
    and rest: "(case found of
              None \<Rightarrow> returnM (fail_reply 401 ''Invalid username or password'')
            | Some u \<Rightarrow>
                if \<not> ok then returnM (fail_reply 401 ''Invalid username or password'')
                else
                  let session = createSessionValues rt (req_cookie req)
                  in thenM (createUserSession (auth_id u)
                              (session_input session (req_anonymousOwnerId req)))
                       (returnM ((reply 200 (AuthJson True
                            (Some \<lparr>auth_id = auth_id u, auth_username = auth_username u\<rparr>)))
                          \<lparr>resp_cookies :=
                            setAuthenticationCookie (rt_cookieSecure rt) (sv_token session) []\<rparr>))) w s1
            = (Inr r, s')"
    using assms(3) unfolding post_login_def cred
    by (auto simp: bindM_Inr dest: password_matches_run)
  note ff = findUserForLogin_Inr[OF assms(2) f]
  note mm = password_matches_run[OF m, THEN conjunct2, rule_format, OF refl]
  have only: "u = x" if "u \<in> set (users (db s))" "x \<in> set (users (db s))" "username u = username x" for u x
    using assms(2) that unfolding db_ok_def accounts_ok_def by (meson distinct_key_unique)
  show ?thesis
  proof (cases found)
    case None
    then show ?thesis using rest ff refused[OF cred] by (auto simp: effect_simps)
  next
    case (Some su)
    then obtain x where x: "x \<in> set (users (db s))" "username x = name" "su = stored_user x"
      using ff(3) by auto
    show ?thesis
    proof (cases ok)
      case False
      then have r: "r = fail_reply 401 ''Invalid username or password''" "s' = s1"
        using rest Some by (simp_all add: effect_simps)
      have "\<not> verifyPassword (rt_scrypt rt) pw (password_hash x)"
        using mm False Some x(3) by (simp add: stored_user_def)
      then have none: "\<not> (\<exists>u \<in> set (users (db s)). username u = name \<and>
          verifyPassword (rt_scrypt rt) pw (password_hash u))"
        using only[OF _ x(1)] x(2) by auto
      show ?thesis by (rule refused[OF cred _ r(1) none]) (simp add: r(2) ff(1))
    next
      case True
      obtain s2 u2 where c: "createUserSession (user_id x) (session_input (createSessionValues rt (req_cookie req))
          (req_anonymousOwnerId req)) w s1 = (Inr u2, s2)" and s': "s' = s2"
        and st: "resp_status r = 200"
          "resp_cookies r = [formatAuthenticationCookie (rt_cookieSecure rt)
             (createAuthenticationToken (rt_token_bytes rt)) sessionMaxAgeSeconds]"
        using rest Some True x(3)
        by (auto simp: effect_simps Let_def stored_user_def setAuthenticationCookie_def)
      have "verifyPassword (rt_scrypt rt) pw (password_hash x)"
        using mm True Some x(3) by (simp add: stored_user_def)
      moreover have "idle s1" using ff(2) assms(1) by simp
      ultimately show ?thesis
        using createUserSession_Inr_db[OF _ c] opened[OF cred x(1,2)] ff(1) s' st by metis
    qed
  qed
qed

section \<open>Registration\<close>

lemma post_register_created:
  assumes "idle s" "post_register rt req w s = (Inr r, s')" "resp_status r = 201"
  obtains name pw stored a where "parseCredentials (req_body req) = Inr (name, pw)"
    "hashPassword (rt_scrypt rt) (rt_salt rt) pw = Inr stored"
    "registerUser name stored (session_input (createSessionValues rt (req_cookie req))
       (req_anonymousOwnerId req)) w s = (Inr a, s')"
proof -
  obtain name pw stored a where "parseCredentials (req_body req) = Inr (name, pw)"
    "hashPassword (rt_scrypt rt) (rt_salt rt) pw = Inr stored"
    "registerUser name stored (session_input (createSessionValues rt (req_cookie req))
       (req_anonymousOwnerId req)) w s = (Inr a, s')"
    using assms(2,3)
    by (auto simp: post_register_def effect_simps Let_def split: sum.splits if_splits)
  then show ?thesis by (rule that)
qed

text \<open>A registered account is found again under its name with its hash.\<close>

lemma registered_user:
  assumes "idle s" "db_ok (db s)" "registerUser name hash input w s = (Inr a, s')"
  shows "db_ok (db s') \<and> idle s' \<and>
     (\<exists>u \<in> set (users (db s')). username u = name \<and> password_hash u = hash \<and> user_id u = auth_id a)"
proof -
  have idle': "idle s'" using register_user.op_idle[OF assms(1)] assms(3) by (metis snd_conv)
  show ?thesis
  proof (rule registerUser_success[OF assms(1,3)])
    fix ident sid now
    let ?u = "new_user ident now name hash" and ?d = "(db s)\<lparr>users := users (db s) @ [new_user ident now name hash]\<rparr>"
    assume a: "a = \<lparr>auth_id = ident, auth_username = name\<rparr>"
      and n: "3 \<le> length name" "length name \<le> 30" "toLowerCase name = name"
      and f: "ident \<notin> set (map user_id (users (db s)))" "name \<notin> set (map username (users (db s)))"
      and l: "login_ok ident input sid ?d" and d: "db s' = login_db ident input sid now ?d"
    have "db_ok ?d"
      using assms(2) n f by (auto simp: db_ok_def accounts_ok_def user_ok_def new_user_def)
    then have "db_ok (db s')" unfolding d using l by (rule login_db_ok)
    moreover have "?u \<in> set (users (db s'))" by (simp add: d login_db_def)
    ultimately show ?thesis using idle' a by (intro conjI bexI[of _ ?u]) (simp_all add: new_user_def)
  qed
qed

section \<open>Password change and deletion\<close>

lemma stored_password_matches_True:
  assumes "stored_password_matches rt pw stored"
    and "\<forall>h. stored = Some h \<longrightarrow> (\<exists>u \<in> set us. user_id u = i \<and> password_hash u = h)"
  shows "\<exists>u \<in> set us. user_id u = i \<and> verifyPassword (rt_scrypt rt) pw (password_hash u)"
  using assms by (auto simp: stored_password_matches_def split: option.splits)

lemma with_current_cases:
  assumes "with_current rt req f w s = (Inr r, s')"
  shows "(s' = s \<and> r = fail_reply 401 ''A current login session is required'') \<or>
     (\<exists>h u. readCurrentTokenHash rt (req_cookie req) = Some h \<and> req_authenticatedUser req = Some u \<and>
        f h u w s = (Inr r, s'))"
  using assms by (auto simp: with_current_def effect_simps split: option.splits if_splits)

lemma post_password_done:
  assumes "idle s" "post_password rt req w s = (Inr r, s')"
  shows "(resp_status r \<noteq> 204 \<and> db s' = db s) \<or>
     (\<exists>cur new a h tok now. changePasswordSchema (req_body req) = Inr (cur, new) \<and>
        req_authenticatedUser req = Some a \<and> readCurrentTokenHash rt (req_cookie req) = Some tok \<and>
        (\<exists>u \<in> set (users (db s)). user_id u = auth_id a \<and>
           verifyPassword (rt_scrypt rt) cur (password_hash u)) \<and>
        hashPassword (rt_scrypt rt) (rt_salt rt) new = Inr h \<and>
        db s' = password_db (auth_id a) h tok now (db s))"
proof (cases "changePasswordSchema (req_body req)")
  case (Inl issues)
  then show ?thesis using assms(2) by (simp add: post_password_def effect_simps)
next
  case (Inr cred)
  obtain cur new where cred: "changePasswordSchema (req_body req) = Inr (cur, new)"
    using Inr by (cases cred) simp
  let ?k = "\<lambda>tok a. bindM (findPasswordHashForUser (auth_id a)) (\<lambda>stored.
              if \<not> stored_password_matches rt cur stored
              then returnM (fail_reply 401 ''The current password is incorrect'')
              else
                bindM (liftE (hashPassword (rt_scrypt rt) (rt_salt rt) new)) (\<lambda>newHash.
                thenM (changeUserPassword (auth_id a) newHash tok) (returnM (reply 204 NoBody))))"
  have "with_current rt req ?k w s = (Inr r, s')"
    using assms(2) unfolding post_password_def cred by simp
  from with_current_cases[OF this] consider
      "s' = s" "r = fail_reply 401 ''A current login session is required''"
    | tok a where "readCurrentTokenHash rt (req_cookie req) = Some tok"
        "req_authenticatedUser req = Some a" "?k tok a w s = (Inr r, s')"
    by blast
  then show ?thesis
  proof cases
    case 1
    then show ?thesis by simp
  next
    case 2
    obtain stored s1 where f: "findPasswordHashForUser (auth_id a) w s = (Inr stored, s1)"
      and rest: "(if \<not> stored_password_matches rt cur stored
              then returnM (fail_reply 401 ''The current password is incorrect'')
              else bindM (liftE (hashPassword (rt_scrypt rt) (rt_salt rt) new)) (\<lambda>newHash.
                thenM (changeUserPassword (auth_id a) newHash tok) (returnM (reply 204 NoBody)))) w s1
            = (Inr r, s')"
      using 2(3) by (auto simp: bindM_Inr)
    note ff = findPasswordHashForUser_Inr[OF f]
    show ?thesis
    proof (cases "stored_password_matches rt cur stored")
      case False
      then show ?thesis using rest ff by (simp add: effect_simps)
    next
      case True
      obtain h x where h: "hashPassword (rt_scrypt rt) (rt_salt rt) new = Inr h"
        and c: "changeUserPassword (auth_id a) h tok w s1 = (Inr x, s')"
        using rest True by (auto simp: effect_simps)
      have "\<exists>u \<in> set (users (db s)). user_id u = auth_id a \<and>
           verifyPassword (rt_scrypt rt) cur (password_hash u)"
        by (rule stored_password_matches_True[OF True]) (use ff in blast)
      moreover have "idle s1" using ff assms(1) by blast
      then have "db s' = password_db (auth_id a) h tok (clock w (Suc (tick s1))) (db s)"
        using changeUserPassword_success[OF _ c] ff by simp
      ultimately show ?thesis using cred 2 h by blast
    qed
  qed
qed

lemma post_account_done:
  assumes "idle s" "post_account cfg rt req w s = (Inr r, s')"
  shows "(resp_status r \<noteq> 204 \<and> db s' = db s) \<or>
     (\<exists>pw a uuids now. deleteAccountSchema (req_body req) = Inr pw \<and>
        req_authenticatedUser req = Some a \<and>
        (\<exists>u \<in> set (users (db s)). user_id u = auth_id a \<and>
           verifyPassword (rt_scrypt rt) pw (password_hash u)) \<and>
        db s' = deleted_db cfg (auth_id a) uuids now (db s))"
proof (cases "deleteAccountSchema (req_body req)")
  case (Inl issues)
  then show ?thesis using assms(2) by (simp add: post_account_def effect_simps)
next
  case (Inr pw)
  show ?thesis
  proof (cases "req_authenticatedUser req")
    case None
    then show ?thesis using assms(2) Inr by (simp add: post_account_def effect_simps)
  next
    case (Some a)
    obtain stored s1 where f: "findPasswordHashForUser (auth_id a) w s = (Inr stored, s1)"
      and rest: "(if \<not> stored_password_matches rt pw stored
                 then returnM (fail_reply 401 ''The password is incorrect'')
                 else thenM (deleteUserAccount cfg (auth_id a))
                     (returnM ((reply 204 NoBody)\<lparr>resp_cookies :=
                        clearAuthenticationCookie (rt_cookieSecure rt) []\<rparr>))) w s1 = (Inr r, s')"
      using assms(2) unfolding post_account_def Inr Some by (auto simp: bindM_Inr)
    note ff = findPasswordHashForUser_Inr[OF f]
    show ?thesis
    proof (cases "stored_password_matches rt pw stored")
      case False
      then show ?thesis using rest ff by (simp add: effect_simps)
    next
      case True
      obtain x where c: "deleteUserAccount cfg (auth_id a) w s1 = (Inr x, s')"
        using rest True by (auto simp: effect_simps)
      have v: "\<exists>u \<in> set (users (db s)). user_id u = auth_id a \<and>
           verifyPassword (rt_scrypt rt) pw (password_hash u)"
        by (rule stored_password_matches_True[OF True]) (use ff in blast)
      have "idle s1" using ff assms(1) by blast
      then obtain uuids now where "db s' = deleted_db cfg (auth_id a) uuids now (db s1)"
        using deleteUserAccount_success[OF _ c] by metis
      then show ?thesis using Inr Some v ff by (intro disjI2) auto
    qed
  qed
qed

section \<open>Properties\<close>

lemma findUserForLogin_Inl:
  "findUserForLogin name w s = (Inl e, s') \<Longrightarrow> db s' = db s"
  by (auto simp: findUserForLogin_def pool_query_def effect_simps dest: client_query_Inl)

lemma post_login_thrown:
  assumes "idle s" "db_ok (db s)" "post_login rt req w s = (Inl e, s')"
  shows "db s' = db s"
proof (cases "parseCredentials (req_body req)")
  case (Inl issues)
  then show ?thesis using assms(3) by (simp add: post_login_def effect_simps)
next
  case (Inr cred)
  obtain name pw where cred: "parseCredentials (req_body req) = Inr (name, pw)"
    using Inr by (cases cred) simp
  show ?thesis
  proof (cases "findUserForLogin name w s")
    case (Pair found s1)
    show ?thesis
    proof (cases found)
      case (Inl e1)
      then show ?thesis
        using assms(3) cred Pair findUserForLogin_Inl by (auto simp: post_login_def effect_simps)
    next
      case (Inr u)
      note f = findUserForLogin_Inr(1,2)[OF assms(2) Pair[unfolded Inr]]
      have opens: "db s' = db s1"
        if "createUserSession i input w s1 = (Inl e, s')" for i input
        by (rule create_session.op_error[OF f(2)[OF assms(1)] that])
      show ?thesis
        using assms(3) cred Pair Inr f(1) opens
        by (auto simp: post_login_def effect_simps Let_def dest!: password_matches_run
            split: option.splits if_splits)
    qed
  qed
qed

text \<open>C7: login is sound: it answers 200 only for the password of the named account, and the
  cookie it then sets opens that account until its expiry; any other answer sets no cookie and
  changes nothing, an unknown name being answered exactly like a wrong password; and a login
  that throws changes nothing either, whichever of its queries fails.\<close>

theorem login_sound:
  assumes "idle s" "db_ok (db s)"
  shows "case post_login rt req w s of
      (Inl e, s') \<Rightarrow> db s' = db s
    | (Inr r, s') \<Rightarrow>
       (if resp_status r = 200
        then db_ok (db s') \<and>
          (\<exists>name pw. parseCredentials (req_body req) = Inr (name, pw) \<and>
            (\<exists>u \<in> set (users (db s)). username u = name \<and>
               verifyPassword (rt_scrypt rt) pw (password_hash u) \<and>
               (\<exists>c. resp_cookies r = [c] \<and> (\<forall>t < rt_date_now rt + 604800000.
                  authenticated (hashAuthenticationToken (env_sha256 (rt_auth rt)) (cookie_value c)) t (db s') =
                  Some (authenticated_user u)))))
        else db s' = db s \<and> resp_cookies r = [] \<and>
          ((\<exists>issues. parseCredentials (req_body req) = Inl issues) \<or>
           r = fail_reply 401 ''Invalid username or password''))"
proof (cases "post_login rt req w s")
  case (Pair res s')
  show ?thesis
  proof (cases res)
    case (Inl e)
    then show ?thesis using Pair post_login_thrown[OF assms] by simp
  next
    case (Inr r)
    have run: "post_login rt req w s = (Inr r, s')" using Pair Inr by simp
    show ?thesis
      using assms run
    proof (cases rule: post_login_cases)
      case (opened name pw u ident now)
      let ?tok = "createAuthenticationToken (rt_token_bytes rt)"
      have one: "v = u" if "v \<in> set (users (db s))" "user_id v = user_id u" for v
        using assms(2) that opened(2) unfolding db_ok_def accounts_ok_def by (meson distinct_key_unique)
      have "authenticated (hashAuthenticationToken (env_sha256 (rt_auth rt)) ?tok) t (db s') =
          Some (authenticated_user u)" if "t < rt_date_now rt + 604800000" for t
        using login_authenticates[OF assms(2) opened(5), of t now] that one unfolding opened(6) by auto
      moreover have "db_ok (db s')" unfolding opened(6) by (rule login_db_ok[OF assms(2) opened(5)])
      ultimately show ?thesis
        using opened Pair Inr by (auto simp: formatAuthenticationCookie_def)
    qed (simp_all add: Pair Inr)
  qed
qed

definition sample_rt :: auth_runtime where
  "sample_rt = \<lparr>rt_auth = sample_env, rt_scrypt = sample_scrypt, rt_cookieSecure = True,
     rt_token_bytes = [1, 2, 3, 4, 5, 6, 7, 8, 9], rt_salt = [1, 2, 3], rt_date_now = 0\<rparr>"

definition credentials_request :: "string \<Rightarrow> string \<Rightarrow> http_request" where
  "credentials_request name pw =
     \<lparr>req_cookie = None, req_body = JObject [(''username'', JString name), (''password'', JString pw)],
      req_ownerId = ''visitor'', req_anonymousOwnerId = ''visitor'', req_authenticatedUser = None\<rparr>"

lemma sample_session_input:
  "session_input (createSessionValues sample_rt None) ''visitor'' =
     \<lparr>anonymousOwnerId = ''visitor'', expiresAt = 604800000, tokenHash = hex (replicate 32 12),
      replacedTokenHash = None\<rparr>"
  by (simp add: session_input_def createSessionValues_def readAuthenticationToken_def sample_rt_def
      sample_env_def createAuthenticationToken_def hashAuthenticationToken_def sample_sha256_def
      sessionMaxAgeSeconds_def Let_def)

lemma sample_fresh_token:
  "hex (replicate 32 12) \<noteq> fingerprint (CHR ''a'')" "hex (replicate 32 12) \<noteq> fingerprint (CHR ''b'')"
  by code_simp+

text \<open>The example: alice with the stored hash of a password; she logs in and is let in.\<close>

definition login_db_example :: database where
  "login_db_example = sample_db\<lparr>users := [alice\<lparr>password_hash :=
     (case hashPassword sample_scrypt [1, 2, 3] ''a long password'' of Inr h \<Rightarrow> h | Inl e \<Rightarrow> [])\<rparr>]\<rparr>"

lemma alice_credentials:
  "parseCredentials (req_body (credentials_request ''Alice'' ''a long password'')) =
     Inr (''alice'', ''a long password'')"
  by code_simp

lemma sample_login_success:
  assumes "length tok = 64" "tok \<noteq> fingerprint (CHR ''a'')" "tok \<noteq> fingerprint (CHR ''b'')"
  shows "fst (createUserSession ''u1''
     \<lparr>anonymousOwnerId = ''visitor'', expiresAt = t, tokenHash = tok, replacedTokenHash = None\<rparr>
     quiet_world (after_query quiet_world login_db_example (idle_exec login_db_example))) = Inr ()"
  using assms
  by (simp add: createUserSession_def transaction_def with_client_def thenM_def bindM_def client_begin_def
      createUserSession_body_def client_query_def Let_def idle_exec_def login_db_example_def sample_db_def
      alice_def adoptAnonymousJobs_def update_adopted_def insertUserSession_def insert_session_def
      returnM_def client_commit_def new_user_def sample_session_def after_query_def stmt_now_def)

lemma login_run_example:
  "\<exists>r. fst (post_login sample_rt (credentials_request ''Alice'' ''a long password'') quiet_world
     (idle_exec login_db_example)) = Inr r \<and> resp_status r = 200"
proof -
  obtain h where h: "hashPassword sample_scrypt [1, 2, 3] ''a long password'' = Inr h"
    by (auto simp: hashPassword_def derivePasswordKey_def sample_scrypt_def)
  have "k \<noteq> [] \<and> (\<forall>b \<in> set k. b < 256)"
    if "sample_scrypt ''a long password'' [1, 2, 3]
      (int scryptCost, int scryptBlockSize, int scryptParallelization) = Some k" for k
    using that by (auto simp: sample_scrypt_def)
  then have v: "verifyPassword sample_scrypt ''a long password'' h"
    using verify_hashed[OF h, of "''a long password''"] by auto
  have f: "findUserForLogin ''alice'' quiet_world (idle_exec login_db_example) =
      (Inr (Some (stored_user (alice\<lparr>password_hash := h\<rparr>))),
       after_query quiet_world login_db_example (idle_exec login_db_example))"
  proof -
    have d: "login_db_example = sample_db\<lparr>users := [alice\<lparr>password_hash := h\<rparr>]\<rparr>"
      by (simp only: login_db_example_def h sum.case)
    show ?thesis
      unfolding d by (simp add: findUserForLogin_def pool_query_def effect_simps
          select_user_for_login_def alice_def first_row_def) (simp add: idle_exec_def)
  qed
  have m: "password_matches sample_rt ''a long password'' (Some (stored_user (alice\<lparr>password_hash := h\<rparr>)))
      quiet_world s = (Inr True, s)" for s
    using v by (simp add: password_matches_def effect_simps sample_rt_def stored_user_def)
  have c: "\<exists>s'. createUserSession ''u1'' (session_input (createSessionValues sample_rt None) ''visitor'')
     quiet_world (after_query quiet_world login_db_example (idle_exec login_db_example)) = (Inr (), s')"
    unfolding sample_session_input
    by (rule exI, rule run_of_fst, rule sample_login_success) (simp_all add: length_hex sample_fresh_token)
  have req: "req_cookie (credentials_request n q) = None"
    "req_anonymousOwnerId (credentials_request n q) = ''visitor''" for n q
    by (simp_all add: credentials_request_def)
  have i: "auth_id (stored_user (alice\<lparr>password_hash := h\<rparr>)) = ''u1''"
    by (simp add: stored_user_def alice_def)
  show ?thesis
    using c f m
    unfolding post_login_def alice_credentials req
    by (auto simp: bindM_def thenM_def returnM_def Let_def i)
qed

lemma login_sound_witness:
  "\<exists>r s'. post_login sample_rt (credentials_request ''Alice'' ''a long password'') quiet_world
      (idle_exec login_db_example) = (Inr r, s') \<and> resp_status r = 200 \<and> db_ok (db s') \<and>
      (\<exists>c. resp_cookies r = [c] \<and> map_option auth_username (authenticated
        (hashAuthenticationToken (env_sha256 (rt_auth sample_rt)) (cookie_value c)) 1000 (db s')) = Some ''alice'')"
proof -
  obtain r where r: "fst (post_login sample_rt (credentials_request ''Alice'' ''a long password'') quiet_world
     (idle_exec login_db_example)) = Inr r" "resp_status r = 200"
    using login_run_example by blast
  have "accounts_ok [alice\<lparr>password_hash := h\<rparr>] (user_sessions sample_db)" for h
    using accounts_ok_users_update[of "users sample_db" "user_sessions sample_db"
        "\<lambda>u. u\<lparr>password_hash := h\<rparr>" "\<lambda>u. True"] sample_db_ok
    by (simp add: db_ok_def sample_db_def update_where_def)
  then have ok: "db_ok login_db_example"
    using sample_db_ok unfolding db_ok_def login_db_example_def by simp
  have a: "username u = ''alice''" if "u \<in> set (users login_db_example)" for u
    using that by (simp add: login_db_example_def alice_def)
  note p = run_InrD[OF login_sound[where s = "idle_exec login_db_example" and w = quiet_world] r(1)]
  have "rt_date_now sample_rt = 0" by (simp add: sample_rt_def)
  then show ?thesis
    using p ok r a run_of_fst[OF r(1)] by (fastforce simp: authenticated_user_def)
qed

text \<open>C19: registration and login round trip: credentials that registered an account log in to it:
  afterwards, and until something else changes the tables, a login with credentials that
  normalise to the same name and carry the same password is neither rejected nor refused.\<close>

theorem register_login_roundtrip:
  assumes "idle s" "db_ok (db s)"
    and "post_register rt req w s = (Inr r, s')" "resp_status r = 201"
    and "parseCredentials (req_body req2) = parseCredentials (req_body req)"
    and "rt_scrypt rt2 = rt_scrypt rt"
    and salt_bytes: "rt_salt rt \<noteq> []" "\<forall>b \<in> set (rt_salt rt). b < 256"
    and scrypt_bytes: "\<And>p k. rt_scrypt rt p (rt_salt rt)
        (int scryptCost, int scryptBlockSize, int scryptParallelization) = Some k \<Longrightarrow>
      k \<noteq> [] \<and> (\<forall>b \<in> set k. b < 256)"
  shows "case post_login rt2 req2 w2 s' of (Inr r2, s2) \<Rightarrow> resp_status r2 = 200 | (Inl e, s2) \<Rightarrow> True"
proof (cases "post_login rt2 req2 w2 s'")
  case (Pair res s2)
  obtain name pw stored a where cred: "parseCredentials (req_body req) = Inr (name, pw)"
    and h: "hashPassword (rt_scrypt rt) (rt_salt rt) pw = Inr stored"
    and run: "registerUser name stored (session_input (createSessionValues rt (req_cookie req))
       (req_anonymousOwnerId req)) w s = (Inr a, s')"
    using post_register_created[OF assms(1,3,4)] .
  obtain u where s': "db_ok (db s')" "idle s'" and u: "u \<in> set (users (db s'))" "username u = name"
    "password_hash u = stored"
    using registered_user[OF assms(1,2) run] by blast
  have "verifyPassword (rt_scrypt rt) pw stored"
    using verify_hashed[OF h salt_bytes, of pw] scrypt_bytes by blast
  then have "\<exists>u \<in> set (users (db s')). username u = name \<and>
      verifyPassword (rt_scrypt rt2) pw (password_hash u)"
    using u assms(6) by auto
  note verified = this
  have "resp_status r2 = 200" if r2: "post_login rt2 req2 w2 s' = (Inr r2, s2)" for r2
    using s'(2,1) r2
  proof (cases rule: post_login_cases)
    case (rejected issues)
    then show ?thesis using cred assms(5) by simp
  next
    case (refused name' pw')
    then show ?thesis
      using verified cred assms(5) by auto
  qed
  then show ?thesis using Pair by (auto split: sum.split)
qed

definition bob_request :: http_request where
  "bob_request = credentials_request ''Bob_7'' ''a long password''"

lemma bob_credentials: "parseCredentials (req_body bob_request) = Inr (''bob_7'', ''a long password'')"
  by code_simp

lemma sample_register:
  assumes "length tok = 64" "tok \<noteq> fingerprint (CHR ''a'')" "tok \<noteq> fingerprint (CHR ''b'')"
  shows "fst (registerUser ''bob_7'' h
     \<lparr>anonymousOwnerId = ''visitor'', expiresAt = t, tokenHash = tok, replacedTokenHash = None\<rparr>
     quiet_world (idle_exec sample_db)) = Inr \<lparr>auth_id = ''aa'', auth_username = ''bob_7''\<rparr>"
  using assms
  by (simp add: registerUser_def transaction_def with_client_def thenM_def bindM_def client_begin_def
      registerUser_body_def client_query_def Let_def insert_user_def idle_exec_def sample_db_def alice_def
      toLowerCase_def js_lower_char_def eval_nat_numeral first_row_def adoptAnonymousJobs_def
      update_adopted_def insertUserSession_def insert_session_def returnM_def client_commit_def
      authenticated_user_def new_user_def sample_session_def)

lemma sample_register_run:
  "fst (registerUser ''bob_7'' h (session_input (createSessionValues sample_rt None) ''visitor'')
     quiet_world (idle_exec sample_db)) = Inr \<lparr>auth_id = ''aa'', auth_username = ''bob_7''\<rparr>"
  unfolding sample_session_input by (rule sample_register) (simp_all add: length_hex sample_fresh_token)

lemma register_login_roundtrip_witness:
  "case post_login sample_rt (credentials_request '' bob_7'' ''a long password'') quiet_world
       (snd (post_register sample_rt bob_request quiet_world (idle_exec sample_db))) of
     (Inr r2, s2) \<Rightarrow> resp_status r2 = 200 | (Inl e, s2) \<Rightarrow> True"
proof (rule register_login_roundtrip)
  obtain h where h: "hashPassword sample_scrypt [1, 2, 3] ''a long password'' = Inr h"
    by (auto simp: hashPassword_def derivePasswordKey_def sample_scrypt_def)
  have req: "req_cookie bob_request = None" "req_anonymousOwnerId bob_request = ''visitor''"
    "req_authenticatedUser bob_request = None"
    by (simp_all add: bob_request_def credentials_request_def)
  let ?r = "(reply 201 (AuthJson True (Some \<lparr>auth_id = ''aa'', auth_username = ''bob_7''\<rparr>)))\<lparr>resp_cookies :=
    setAuthenticationCookie (rt_cookieSecure sample_rt) (sv_token (createSessionValues sample_rt None)) []\<rparr>"
  have "fst (post_register sample_rt bob_request quiet_world (idle_exec sample_db)) = Inr ?r"
    using sample_register_run[of h] h
    unfolding post_register_def bob_credentials req
    by (cases "registerUser ''bob_7'' h (session_input (createSessionValues sample_rt None) ''visitor'')
     quiet_world (idle_exec sample_db)")
      (simp add: sample_rt_def bindM_def liftE_def returnM_def catchM_def Let_def)
  then show "post_register sample_rt bob_request quiet_world (idle_exec sample_db) =
      (Inr ?r, snd (post_register sample_rt bob_request quiet_world (idle_exec sample_db)))"
    by (rule run_of_fst)
  show "resp_status ?r = 201" by simp
  show "parseCredentials (req_body (credentials_request '' bob_7'' ''a long password'')) =
      parseCredentials (req_body bob_request)"
    unfolding bob_credentials by code_simp
  show "k \<noteq> [] \<and> (\<forall>b \<in> set k. b < 256)"
    if "rt_scrypt sample_rt p (rt_salt sample_rt)
        (int scryptCost, int scryptBlockSize, int scryptParallelization) = Some k" for p k
    using that by (auto simp: sample_rt_def sample_scrypt_def of_char_less_256)
qed (simp_all add: sample_db_ok, simp_all add: sample_rt_def)

text \<open>The password is changed only by someone who knows it: a request that is answered either
  leaves the tables as they were, or carried the current password of the signed-in account
  and a different new one, whose hash is then the stored one.\<close>

theorem password_change_guarded:
  assumes "idle s"
  shows "case post_password rt req w s of
      (Inl e, s') \<Rightarrow> True
    | (Inr r, s') \<Rightarrow> db s' = db s \<or>
        (\<exists>cur new a u h. changePasswordSchema (req_body req) = Inr (cur, new) \<and> cur \<noteq> new \<and>
           req_authenticatedUser req = Some a \<and> u \<in> set (users (db s)) \<and> user_id u = auth_id a \<and>
           verifyPassword (rt_scrypt rt) cur (password_hash u) \<and>
           hashPassword (rt_scrypt rt) (rt_salt rt) new = Inr h \<and>
           {password_hash v |v. v \<in> set (users (db s')) \<and> user_id v = auth_id a} = {h})"
proof (cases "post_password rt req w s")
  case (Pair res s')
  show ?thesis
  proof (cases res)
    case (Inr r)
    show ?thesis
    proof (cases "db s' = db s")
      case False
      obtain cur new a h tok now u where c: "changePasswordSchema (req_body req) = Inr (cur, new)"
        and a: "req_authenticatedUser req = Some a"
        and u: "u \<in> set (users (db s))" "user_id u = auth_id a"
          "verifyPassword (rt_scrypt rt) cur (password_hash u)"
        and h: "hashPassword (rt_scrypt rt) (rt_salt rt) new = Inr h"
        and d: "db s' = password_db (auth_id a) h tok now (db s)"
        using post_password_done[OF assms, of rt req w r s'] Pair Inr False by auto
      have "cur \<noteq> new" using c by (auto simp: changePasswordSchema_def split: sum.splits if_splits)
      moreover have "{password_hash v |v. v \<in> set (users (db s')) \<and> user_id v = auth_id a} = {h}"
        using u(1,2) by (auto simp: d password_db_def set_update_where intro: exI[of _ "password_row h now u"])
      ultimately show ?thesis using Pair Inr c a u h by auto
    qed (simp add: Pair Inr)
  qed (simp add: Pair)
qed

definition alice_request :: "(string \<times> json) list \<Rightarrow> http_request" where
  "alice_request kvs =
     \<lparr>req_cookie = Some sample_header, req_body = JObject kvs, req_ownerId = ''u1'',
      req_anonymousOwnerId = sample_uuid, req_authenticatedUser = Some (authenticated_user alice)\<rparr>"

definition change_request :: http_request where
  "change_request = alice_request
     [(''currentPassword'', JString ''not my password''), (''newPassword'', JString ''another password'')]"

lemma password_change_guarded_witness:
  "fst (post_password sample_rt change_request quiet_world (idle_exec sample_db)) =
     Inr (fail_reply 401 ''The current password is incorrect'') \<and>
   db (snd (post_password sample_rt change_request quiet_world (idle_exec sample_db))) = sample_db"
proof -
  have run: "fst (post_password sample_rt change_request quiet_world (idle_exec sample_db)) =
     Inr (fail_reply 401 ''The current password is incorrect'')"
    by code_simp
  have no: "\<not> verifyPassword (rt_scrypt sample_rt) cur (password_hash u)"
    if "u \<in> set (users sample_db)" for u cur
    using that by (simp add: sample_db_def alice_def verifyPassword_def field_def)
  note p = run_InrD[OF password_change_guarded[where s = "idle_exec sample_db" and w = quiet_world] run]
  show ?thesis using p no run by auto
qed

text \<open>An account is deleted only with its password: a deletion request that is answered either
  leaves the tables as they were or carried the password of the signed-in account.\<close>

theorem account_deletion_guarded:
  assumes "idle s"
  shows "case post_account cfg rt req w s of
      (Inl e, s') \<Rightarrow> True
    | (Inr r, s') \<Rightarrow> db s' = db s \<or>
        (\<exists>pw a u. deleteAccountSchema (req_body req) = Inr pw \<and>
           req_authenticatedUser req = Some a \<and> u \<in> set (users (db s)) \<and> user_id u = auth_id a \<and>
           verifyPassword (rt_scrypt rt) pw (password_hash u))"
proof (cases "post_account cfg rt req w s")
  case (Pair res s')
  then show ?thesis
    using post_account_done[OF assms, of cfg rt req w _ s'] by (cases res) auto
qed

lemma account_deletion_guarded_witness:
  "db (snd (post_account demo_config sample_rt (alice_request [(''password'', JString ''not my password'')])
     quiet_world (idle_exec sample_db))) = sample_db"
proof -
  have run: "fst (post_account demo_config sample_rt (alice_request [(''password'', JString ''not my password'')])
      quiet_world (idle_exec sample_db)) = Inr (fail_reply 401 ''The password is incorrect'')"
    by code_simp
  have no: "\<not> verifyPassword (rt_scrypt sample_rt) cur (password_hash u)"
    if "u \<in> set (users sample_db)" for u cur
    using that by (simp add: sample_db_def alice_def verifyPassword_def field_def)
  note p = run_InrD[OF account_deletion_guarded[where s = "idle_exec sample_db" and w = quiet_world] run]
  show ?thesis using p no by auto
qed

end
