(* ===== verification/ObjectStore.thy ===== *)
theory ObjectStore
  imports JobService
begin

text \<open>
  backend/src/services/audioStorage.ts and storageLifecycle.ts. The object store is a
  parameter: \<open>head_object key\<close> is what HEAD reports or the error it raises, \<open>sign_get\<close> the
  presigner. A zero or absent content length is not truthy in the source.
\<close>

section \<open>audioStorage.ts\<close>

record object_head =
  meta_owner_id :: "string option"
  content_type :: "string option"
  content_length :: "nat option"

type_synonym head_object = "string \<Rightarrow> error + object_head"

definition upload_policy :: "nat \<Rightarrow> object_head \<Rightarrow> bool" where
  "upload_policy maxBytes obj \<longleftrightarrow>
     (case content_type obj of
        None \<Rightarrow> False
      | Some ct \<Rightarrow> ct \<noteq> [] \<and> ct \<in> set allowedAudioContentTypes) \<and>
     (case content_length obj of
        None \<Rightarrow> False
      | Some n \<Rightarrow> n \<noteq> 0 \<and> n \<le> maxBytes)"

text \<open>Errors of the \<open>try\<close> block other than \<open>UploadValidationError\<close> become one safe message.\<close>

definition verifyOwnedAudioUpload :: "nat \<Rightarrow> head_object \<Rightarrow> string \<Rightarrow> string \<Rightarrow> error + unit" where
  "verifyOwnedAudioUpload maxBytes head_object ownerId objectKey =
     (let attempt = bindE (head_object objectKey) (\<lambda>obj.
            if meta_owner_id obj \<noteq> Some ownerId
            then Inl (UploadValidationError ''The uploaded object has invalid ownership metadata'')
            else if \<not> upload_policy maxBytes obj
            then Inl (UploadValidationError
                   ''The uploaded object does not satisfy the audio upload policy'')
            else Inr ())
      in case attempt of
           Inr u \<Rightarrow> Inr u
         | Inl (UploadValidationError m) \<Rightarrow> Inl (UploadValidationError m)
         | Inl _ \<Rightarrow> Inl (UploadValidationError ''The uploaded audio object could not be verified''))"

definition createResultDownloadUrls ::
    "(string \<Rightarrow> error + string) \<Rightarrow> (string \<times> string) list \<Rightarrow> error + (string \<times> string) list" where
  "createResultDownloadUrls sign_get resultObjectKeys =
     mapE (\<lambda>(stemName, objectKey). bindE (sign_get objectKey) (\<lambda>url. Inr (stemName, url)))
       resultObjectKeys"

section \<open>storageLifecycle.ts\<close>

definition hasStorageExpired :: "JobRecord \<Rightarrow> time \<Rightarrow> bool" where
  "hasStorageExpired job now =
     (if storage_deleted_at job \<noteq> None then True
      else case storage_expires_at job of
             None \<Rightarrow> False
           | Some t \<Rightarrow> t \<le> now)"

section \<open>Lemmas\<close>

lemma verifyOwnedAudioUpload_Inr:
  "verifyOwnedAudioUpload maxBytes head_object ow key = Inr u \<longleftrightarrow>
     (\<exists>obj. head_object key = Inr obj \<and> meta_owner_id obj = Some ow \<and> upload_policy maxBytes obj)"
  by (auto simp: verifyOwnedAudioUpload_def Let_def bindE_def split: sum.splits error.splits if_splits)

text \<open>Only validation errors come out, so the route never leaks a storage error.\<close>

lemma verifyOwnedAudioUpload_Inl:
  "verifyOwnedAudioUpload maxBytes head_object ow key = Inl e \<Longrightarrow> \<exists>m. e = UploadValidationError m"
  by (auto simp: verifyOwnedAudioUpload_def Let_def split: sum.splits error.splits)

lemma hasStorageExpired_mono: "hasStorageExpired j t \<Longrightarrow> t \<le> t' \<Longrightarrow> hasStorageExpired j t'"
  by (auto simp: hasStorageExpired_def split: option.splits if_splits)

lemma createResultDownloadUrls_names:
  "createResultDownloadUrls sign_get ks = Inr urls \<Longrightarrow>
     map fst urls = map fst ks \<and> list_all2 (\<lambda>k u. sign_get (snd k) = Inr (snd u)) ks urls"
  unfolding createResultDownloadUrls_def mapE_Inr
  by (induction ks urls rule: list_all2_induct) (auto simp: bindE_Inr)

end
