(* ===== verification/Visibility.thy ===== *)
theory Visibility
  imports JobService
begin

text \<open>
  What a request can see of the job table. Two handles look the same to an owner when they differ
  at most in the job rows of other owners; an effect is blind when, run in the same world on two
  such handles, it gives the same result, thrown errors included, and leaves two such handles. The
  combinators of \<open>Database\<close> keep blindness, and so the reading and cancelling functions of
  backend/src/services/jobService.ts have it.
\<close>

definition same_view :: "uuid \<Rightarrow> database \<Rightarrow> database \<Rightarrow> bool" where
  "same_view owner d e \<longleftrightarrow>
     filter (\<lambda>j. owner_id j = owner) (jobs d) = filter (\<lambda>j. owner_id j = owner) (jobs e) \<and>
     outbox_events d = outbox_events e \<and> users d = users e \<and> user_sessions d = user_sessions e \<and>
     worker_instances d = worker_instances e"

definition same_handle :: "uuid \<Rightarrow> exec \<Rightarrow> exec \<Rightarrow> bool" where
  "same_handle owner s t \<longleftrightarrow> tick s = tick t \<and> txn_now s = txn_now t \<and> aborted s = aborted t \<and>
     clients s = clients t \<and> same_view owner (db s) (db t) \<and>
     rel_option (same_view owner) (snapshot s) (snapshot t)"

definition blind :: "uuid \<Rightarrow> 'a eff \<Rightarrow> bool" where
  "blind owner m \<longleftrightarrow> (\<forall>w s t. same_handle owner s t \<longrightarrow>
     fst (m w s) = fst (m w t) \<and> same_handle owner (snd (m w s)) (snd (m w t)))"

definition blind_stmt :: "uuid \<Rightarrow> 'a stmt \<Rightarrow> bool" where
  "blind_stmt owner q \<longleftrightarrow> (\<forall>u now d e. same_view owner d e \<longrightarrow>
     (case q u now d of
        Inl er \<Rightarrow> q u now e = Inl er
      | Inr (r, d') \<Rightarrow> (\<exists>e'. q u now e = Inr (r, e') \<and> same_view owner d' e')))"

section \<open>Combinators\<close>

lemma blindD:
  "blind owner m \<Longrightarrow> same_handle owner s t \<Longrightarrow> m w s = (r, s') \<Longrightarrow>
     \<exists>t'. m w t = (r, t') \<and> same_handle owner s' t'"
  unfolding blind_def by (metis fst_conv prod.exhaust_sel snd_conv)

lemma blindI:
  "(\<And>w s t r s'. same_handle owner s t \<Longrightarrow> m w s = (r, s') \<Longrightarrow>
     \<exists>t'. m w t = (r, t') \<and> same_handle owner s' t') \<Longrightarrow> blind owner m"
  unfolding blind_def by (metis fst_conv prod.exhaust_sel snd_conv)

lemma blind_return: "blind owner (returnM a)"
  by (simp add: blind_def returnM_def)

lemma blind_throw: "blind owner (throwM e)"
  by (simp add: blind_def throwM_def)

lemma blind_bind:
  assumes "blind owner m" "\<And>a. blind owner (f a)"
  shows "blind owner (bindM m f)"
proof (rule blindI)
  fix w and s t :: exec and r s'
  assume st: "same_handle owner s t" and run: "bindM m f w s = (r, s')"
  obtain r1 s1 where m: "m w s = (r1, s1)" by fastforce
  obtain t1 where t1: "m w t = (r1, t1)" "same_handle owner s1 t1" using blindD[OF assms(1) st m] by blast
  show "\<exists>t'. bindM m f w t = (r, t') \<and> same_handle owner s' t'"
    using run m t1 blindD[OF assms(2) t1(2)] by (cases r1) (auto simp: bindM_def)
qed

lemma blind_then: "blind owner m \<Longrightarrow> blind owner n \<Longrightarrow> blind owner (thenM m n)"
  unfolding thenM_def by (rule blind_bind)

lemma blind_if: "blind owner m \<Longrightarrow> blind owner n \<Longrightarrow> blind owner (if b then m else n)"
  by simp

lemma blind_option:
  "blind owner m \<Longrightarrow> (\<And>x. blind owner (f x)) \<Longrightarrow> blind owner (case v of None \<Rightarrow> m | Some x \<Rightarrow> f x)"
  by (cases v) simp_all

lemma blind_query:
  assumes "blind_stmt owner q"
  shows "blind owner (client_query q)"
proof (rule blindI)
  fix w and s t :: exec and r s'
  assume st: "same_handle owner s t" and run: "client_query q w s = (r, s')"
  have snap: "snapshot s = None \<longleftrightarrow> snapshot t = None"
    using st by (auto simp: same_handle_def)
  let ?now = "if snapshot s = None then clock w (tick s) else txn_now s"
  have q: "case q (random_uuid w (tick s)) ?now (db s) of
      Inl er \<Rightarrow> q (random_uuid w (tick s)) ?now (db t) = Inl er
    | Inr (a, d) \<Rightarrow> (\<exists>e. q (random_uuid w (tick s)) ?now (db t) = Inr (a, e) \<and> same_view owner d e)"
    using assms st unfolding blind_stmt_def same_handle_def by blast
  have same: "tick t = tick s" "txn_now t = txn_now s" "aborted t = aborted s"
    using st by (simp_all add: same_handle_def)
  show "\<exists>t'. client_query q w t = (r, t') \<and> same_handle owner s' t'"
  proof (cases "query_fails w (tick s) \<or> aborted s")
    case True
    then show ?thesis
      using run st snap by (auto simp: client_query_def Let_def same same_handle_def)
  next
    case False
    show ?thesis
    proof (cases "q (random_uuid w (tick s)) ?now (db s)")
      case (Inl er)
      then show ?thesis using q run st snap False by (auto simp: client_query_def Let_def same same_handle_def)
    next
      case (Inr ad)
      obtain a d where ad: "ad = (a, d)" by fastforce
      then obtain e where "q (random_uuid w (tick s)) ?now (db t) = Inr (a, e)" "same_view owner d e"
        using q Inr by auto
      then show ?thesis using Inr ad run st snap False
        by (auto simp: client_query_def Let_def same same_handle_def)
    qed
  qed
qed

lemmas blind_pool_query = blind_query[folded pool_query_def]

lemma same_handle_restored: "same_handle owner s t \<Longrightarrow> same_handle owner (restored s) (restored t)"
  by (auto simp: same_handle_def restored_def split: option.splits)

lemma blind_begin: "blind owner client_begin"
  by (auto simp: blind_def client_begin_def same_handle_def Let_def)

lemma blind_commit: "blind owner client_commit"
  unfolding blind_def
proof (intro allI impI)
  fix w and s t :: exec
  assume st: "same_handle owner s t"
  have same: "tick t = tick s" "aborted t = aborted s" and snap: "snapshot s = None \<longleftrightarrow> snapshot t = None"
    using st by (auto simp: same_handle_def)
  have "same_handle owner (s\<lparr>tick := n\<rparr>) (t\<lparr>tick := n\<rparr>)"
    "same_handle owner (s\<lparr>tick := n, aborted := a\<rparr>) (t\<lparr>tick := n, aborted := a\<rparr>)"
    "same_handle owner (s\<lparr>tick := n, snapshot := None\<rparr>) (t\<lparr>tick := n, snapshot := None\<rparr>)" for n a
    using st by (simp_all add: same_handle_def)
  then show "fst (client_commit w s) = fst (client_commit w t) \<and>
      same_handle owner (snd (client_commit w s)) (snd (client_commit w t))"
    using same_handle_restored[of owner "s\<lparr>tick := Suc (tick s)\<rparr>" "t\<lparr>tick := Suc (tick s)\<rparr>"]
    by (simp add: client_commit_def Let_def same snap)
qed

lemma blind_rollback: "blind owner client_rollback"
  unfolding blind_def
proof (intro allI impI)
  fix w and s t :: exec
  assume st: "same_handle owner s t"
  have same: "tick t = tick s" "aborted t = aborted s" and snap: "snapshot s = None \<longleftrightarrow> snapshot t = None"
    using st by (auto simp: same_handle_def)
  have "same_handle owner (s\<lparr>tick := n\<rparr>) (t\<lparr>tick := n\<rparr>)"
    "same_handle owner (s\<lparr>tick := n, aborted := a\<rparr>) (t\<lparr>tick := n, aborted := a\<rparr>)"
    "same_handle owner (s\<lparr>tick := n, snapshot := None\<rparr>) (t\<lparr>tick := n, snapshot := None\<rparr>)" for n a
    using st by (simp_all add: same_handle_def)
  then show "fst (client_rollback w s) = fst (client_rollback w t) \<and>
      same_handle owner (snd (client_rollback w s)) (snd (client_rollback w t))"
    using same_handle_restored[of owner "s\<lparr>tick := Suc (tick s)\<rparr>" "t\<lparr>tick := Suc (tick s)\<rparr>"]
    by (simp add: client_rollback_def Let_def same snap)
qed

lemma blind_with_client:
  assumes "blind owner body"
  shows "blind owner (with_client body)"
proof (rule blindI)
  fix w and s t :: exec and r s'
  assume st: "same_handle owner s t" and run: "with_client body w s = (r, s')"
  let ?start = "\<lambda>x :: exec. x\<lparr>tick := Suc (tick x), clients := Suc (clients x)\<rparr>"
  have start: "same_handle owner (?start s) (?start t)" using st by (simp add: same_handle_def)
  obtain r1 s1 where b: "body w (?start s) = (r1, s1)" by fastforce
  obtain t1 where t1: "body w (?start t) = (r1, t1)" "same_handle owner s1 t1"
    using blindD[OF assms start b] by blast
  have roll: "blind owner (thenM client_rollback (throwM e) :: 'a eff)" for e
    by (intro blind_then blind_rollback blind_throw)
  obtain r2 s2 where c: "(case r1 of Inr a \<Rightarrow> (Inr a, s1) | Inl e \<Rightarrow> thenM client_rollback (throwM e) w s1) = (r2, s2)"
    by fastforce
  obtain t2 where t2: "(case r1 of Inr a \<Rightarrow> (Inr a, t1) | Inl e \<Rightarrow> thenM client_rollback (throwM e) w t1) = (r2, t2)"
    "same_handle owner s2 t2"
  proof (cases r1)
    case (Inl e)
    then show ?thesis using c that blindD[OF roll t1(2), of e w r2 s2] by auto
  next
    case (Inr a)
    then show ?thesis using c t1(2) by (intro that[of t1]) auto
  qed
  have released: "same_handle owner (s2\<lparr>clients := clients s2 - 1\<rparr>) (t2\<lparr>clients := clients t2 - 1\<rparr>)"
    using t2(2) by (simp add: same_handle_def)
  have same: "tick s = tick t" using st by (simp add: same_handle_def)
  show "\<exists>t'. with_client body w t = (r, t') \<and> same_handle owner s' t'"
  proof (cases "query_fails w (tick s)")
    case True
    then show ?thesis using run st by (auto simp: with_client_def Let_def same_handle_def)
  next
    case False
    have "with_client body w s = (r2, s2\<lparr>clients := clients s2 - 1\<rparr>)"
      using False b c by (simp add: with_client_def Let_def)
    moreover have "with_client body w t = (r2, t2\<lparr>clients := clients t2 - 1\<rparr>)"
      using False t1(1) t2(1) by (simp add: with_client_def Let_def same)
    ultimately show ?thesis using run released by auto
  qed
qed

section \<open>Statements of one owner\<close>

lemma same_view_filter:
  assumes "same_view owner d e" "\<And>j. P j \<Longrightarrow> owner_id j = owner"
  shows "filter P (jobs d) = filter P (jobs e)"
proof -
  have "filter P js = filter P (filter (\<lambda>j. owner_id j = owner) js)" for js
    using assms(2) by (induction js) auto
  then show ?thesis using assms(1) unfolding same_view_def by metis
qed

lemma blind_select:
  assumes "\<And>d e. same_view owner d e \<Longrightarrow> f d = f e"
  shows "blind_stmt owner (\<lambda>_ _ d. Inr (f d, d))"
  using assms by (auto simp: blind_stmt_def)

lemma blind_active_count: "blind_stmt owner (select_active_count owner)"
proof -
  have "[count_active_jobs owner d] = [count_active_jobs owner e]" if "same_view owner d e" for d e
    using same_view_filter[OF that, of "\<lambda>j. owner_id j = owner \<and> active_status (status j)"]
    by (simp add: count_active_jobs_def)
  from blind_select[OF this] show ?thesis by (simp add: select_active_count_def[abs_def])
qed

lemma blind_owned_job: "blind_stmt owner (select_owned_job jobId owner)"
proof -
  have "map jobColumns (filter (\<lambda>j. job_id j = jobId \<and> owner_id j = owner) (jobs d)) =
      map jobColumns (filter (\<lambda>j. job_id j = jobId \<and> owner_id j = owner) (jobs e))"
    if "same_view owner d e" for d e
    using same_view_filter[OF that, of "\<lambda>j. job_id j = jobId \<and> owner_id j = owner"] by simp
  from blind_select[OF this] show ?thesis by (simp add: select_owned_job_def[abs_def])
qed

lemma blind_status: "blind_stmt owner (select_status jobId owner)"
proof -
  have "map status (filter (\<lambda>j. job_id j = jobId \<and> owner_id j = owner) (jobs d)) =
      map status (filter (\<lambda>j. job_id j = jobId \<and> owner_id j = owner) (jobs e))"
    if "same_view owner d e" for d e
    using same_view_filter[OF that, of "\<lambda>j. job_id j = jobId \<and> owner_id j = owner"] by simp
  from blind_select[OF this] show ?thesis by (simp add: select_status_def[abs_def])
qed

lemma blind_recent: "blind_stmt owner (select_recent_jobs owner)"
proof -
  have "recent_jobs owner d = recent_jobs owner e" if "same_view owner d e" for d e
    using that by (simp add: recent_jobs_def same_view_def)
  from blind_select[OF this] show ?thesis by (simp add: select_recent_jobs_def[abs_def])
qed

lemma blind_cancelled: "blind_stmt owner (update_cancelled retention jobId owner)"
proof -
  have own: "cancellable jobId owner j \<Longrightarrow> owner_id j = owner" for j by (simp add: cancellable_def)
  have keeps: "owner_id (cancelled_row retention now j) = owner_id j" for now j
    by (simp add: cancelled_row_def)
  have upd: "filter (\<lambda>j. owner_id j = owner) (update_where P f js) =
      update_where P f (filter (\<lambda>j. owner_id j = owner) js)"
    if "\<And>j. owner_id (f j) = owner_id j" for P f and js :: "job list"
    using that by (induction js) (auto simp: update_where_def)
  show ?thesis
    unfolding blind_stmt_def
  proof (intro allI impI)
    fix u now d e
    assume v: "same_view owner d e"
    let ?P = "cancellable jobId owner" and ?f = "cancelled_row retention now"
    have "filter ?P (jobs d) = filter ?P (jobs e)" by (rule same_view_filter[OF v own])
    moreover have "same_view owner (d\<lparr>jobs := update_where ?P ?f (jobs d)\<rparr>) (e\<lparr>jobs := update_where ?P ?f (jobs e)\<rparr>)"
      using v by (simp add: same_view_def upd keeps)
    ultimately show "case update_cancelled retention jobId owner u now d of
        Inl er \<Rightarrow> update_cancelled retention jobId owner u now e = Inl er
      | Inr (r, d') \<Rightarrow> (\<exists>e'. update_cancelled retention jobId owner u now e = Inr (r, e') \<and> same_view owner d' e')"
      by (simp add: update_cancelled_def updated_rows_def)
  qed
qed

lemma blind_event: "blind_stmt owner (insert_event tp key body)"
  by (auto simp: blind_stmt_def insert_event_def same_view_def)

lemmas blind_intros = blind_return blind_throw blind_bind blind_then blind_if blind_option blind_query
  blind_pool_query blind_begin blind_commit blind_rollback blind_with_client blind_active_count
  blind_owned_job blind_status blind_recent blind_cancelled blind_event

section \<open>Functions of one owner\<close>

lemma findOwnedJob_blind: "blind owner (findOwnedJob jobId owner)"
  unfolding findOwnedJob_def by (intro blind_intros)

lemma findRecentOwnedJobs_blind: "blind owner (findRecentOwnedJobs owner)"
  unfolding findRecentOwnedJobs_def by (intro blind_intros)

lemma countActiveOwnedJobs_blind: "blind owner (countActiveOwnedJobs owner)"
  unfolding countActiveOwnedJobs_def by (intro blind_intros)

lemma cancelJob_blind: "blind owner (cancelJob cfg jobId owner)"
  unfolding cancelJob_def cancelJob_body_def by (intro blind_intros)

text \<open>Exchanging the rows of other owners between requests gives a handle that looks the same.\<close>

lemma same_handle_exchanged:
  assumes "idle s" "filter (\<lambda>j. owner_id j = owner) js = filter (\<lambda>j. owner_id j = owner) (jobs (db s))"
  shows "same_handle owner s (s\<lparr>db := (db s)\<lparr>jobs := js\<rparr>\<rparr>)"
  using assms by (simp add: same_handle_def same_view_def idle_def)

lemma blind_answer:
  "blind owner m \<Longrightarrow> same_handle owner s t \<Longrightarrow> fst (m w t) = fst (m w s)"
  unfolding blind_def by metis

end
