(* ===== verification/JobRoutes.thy ===== *)
theory JobRoutes
  imports Http ObjectStore Visibility
begin

text \<open>
  backend/src/routes/jobs.ts and uploads.ts: upload permissions, creation, listing, reading,
  cancellation and downloads of jobs, for a request whose owner \<open>requirePrincipal\<close> has
  established. The UUID schema of the validation library is the parameter \<open>is_uuid\<close>; object
  storage and its presigner are those of \<open>ObjectStore\<close>.
\<close>

record job_runtime =
  rt_config :: config
  rt_maxUploadBytes :: nat
  rt_is_uuid :: "string \<Rightarrow> bool"
  rt_head_object :: head_object
  rt_sign_get :: "string \<Rightarrow> error + string"
  rt_bucket :: string
  rt_now :: time

section \<open>jobs.ts\<close>

definition createJobSchema :: "json \<Rightarrow> zod_issue list + string \<times> string" where
  "createJobSchema =
     strict_two (''originalFileName'', trimmed_text 255) (''inputObjectKey'', trimmed_text 1024)"

definition requiredObjectPrefix :: "uuid \<Rightarrow> string" where
  "requiredObjectPrefix owner = ''uploads/'' @ owner @ ''/''"

definition post_job :: "job_runtime \<Rightarrow> http_request \<Rightarrow> response eff" where
  "post_job rt req =
     (case createJobSchema (req_body req) of
        Inl issues \<Rightarrow> returnM (reply 400 (ErrorJson (first_issue ''Invalid job request'' issues)))
      | Inr (originalFileName, inputObjectKey) \<Rightarrow>
          if \<not> startsWith inputObjectKey (requiredObjectPrefix (req_ownerId req))
          then returnM (fail_reply 400 ''The uploaded object does not belong to this session'')
          else case verifyOwnedAudioUpload (rt_maxUploadBytes rt) (rt_head_object rt)
                      (req_ownerId req) inputObjectKey of
            Inl (UploadValidationError m) \<Rightarrow> returnM (fail_reply 400 m)
          | Inl e \<Rightarrow> throwM e
          | Inr _ \<Rightarrow>
              catchM
                (bindM (createJob (rt_config rt) (req_ownerId req) originalFileName inputObjectKey)
                   (\<lambda>job. returnM (reply 201 (JobJson job))))
                (\<lambda>error. case error of
                   DuplicateUploadJobError existingJob \<Rightarrow>
                     returnM (reply 409 (DuplicateJson
                       ''This uploaded audio file already has a processing job.''
                       (job_id existingJob) (status existingJob)))
                 | ActiveJobLimitError limit \<Rightarrow>
                     returnM (reply 409 (LimitJson
                       (createActiveJobLimitMessage (maxActiveJobsPerOwner (rt_config rt))) limit))
                 | _ \<Rightarrow> throwM error))"

definition get_jobs :: "http_request \<Rightarrow> response eff" where
  "get_jobs req =
     bindM (findRecentOwnedJobs (req_ownerId req)) (\<lambda>jobs. returnM (reply 200 (JobsJson jobs)))"

definition post_cancel :: "job_runtime \<Rightarrow> string \<Rightarrow> http_request \<Rightarrow> response eff" where
  "post_cancel rt jobId req =
     (if \<not> rt_is_uuid rt jobId then returnM (fail_reply 400 ''Invalid job id'')
      else bindM (cancelJob (rt_config rt) jobId (req_ownerId req)) (\<lambda>result.
        case result of
          not_found \<Rightarrow> returnM (fail_reply 404 ''Job not found'')
        | not_cancellable st \<Rightarrow>
            returnM (fail_reply 409 (''A '' @ status_text st @ '' job cannot be cancelled''))
        | cancelled job \<Rightarrow> returnM (reply 200 (JobJson job))))"

definition get_downloads :: "job_runtime \<Rightarrow> string \<Rightarrow> http_request \<Rightarrow> response eff" where
  "get_downloads rt jobId req =
     (if \<not> rt_is_uuid rt jobId then returnM (fail_reply 400 ''Invalid job id'')
      else bindM (findOwnedJob jobId (req_ownerId req)) (\<lambda>found.
        case found of
          None \<Rightarrow> returnM (fail_reply 404 ''Job not found'')
        | Some job \<Rightarrow>
            if status job \<noteq> COMPLETED
            then returnM (reply 409 (NotCompletedJson ''Job is not completed yet''
                   (status job) (progress job)))
            else if hasStorageExpired job (rt_now rt)
            then returnM (fail_reply 410
                   ''These audio results have expired and are no longer available'')
            else case result_object_keys job of
              None \<Rightarrow> returnM (fail_reply 409 ''Job is completed but has no result files'')
            | Some keys \<Rightarrow>
                bindM (liftE (createResultDownloadUrls (rt_sign_get rt) keys)) (\<lambda>downloadUrls.
                  returnM (reply 200 (DownloadsJson (job_id job) downloadUrls (60 * 5))))))"

definition get_job :: "job_runtime \<Rightarrow> string \<Rightarrow> http_request \<Rightarrow> response eff" where
  "get_job rt jobId req =
     (if \<not> rt_is_uuid rt jobId then returnM (fail_reply 400 ''Invalid job id'')
      else bindM (findOwnedJob jobId (req_ownerId req)) (\<lambda>found.
        case found of
          None \<Rightarrow> returnM (fail_reply 404 ''Job not found'')
        | Some job \<Rightarrow> returnM (reply 200 (JobJson job))))"

section \<open>uploads.ts\<close>

text \<open>\<open>z.number().int().positive().max(n)\<close>\<close>

definition positive_integer_field :: "nat \<Rightarrow> string \<Rightarrow> json \<Rightarrow> zod_issue list + nat" where
  "positive_integer_field n k body =
     (case json_field k body of
        Some (JNumber x) \<Rightarrow>
          (case safe_integer x of
             Some i \<Rightarrow> if 0 < i \<and> i \<le> int n then Inr (nat i) else Inl [LibraryIssue]
           | None \<Rightarrow> Inl [LibraryIssue])
      | _ \<Rightarrow> Inl [LibraryIssue])"

definition presignRequestSchema :: "nat \<Rightarrow> json \<Rightarrow> zod_issue list + string \<times> string \<times> nat" where
  "presignRequestSchema maxBytes body =
     (let a = string_field (trimmed_text 255) ''fileName'' body;
          b = string_field (trimmed_text 100) ''contentType'' body;
          c = positive_integer_field maxBytes ''fileSize'' body;
          issues = issues_of a @ issues_of b @ issues_of c @
                   unknown_keys [''fileName'', ''contentType'', ''fileSize''] body
      in if \<not> is_object body then Inl [LibraryIssue]
         else if issues \<noteq> [] then Inl issues
         else (case (a, b, c) of
                 (Inr x, Inr y, Inr z) \<Rightarrow> Inr (x, y, z)
               | _ \<Rightarrow> Inl issues))"

definition replaceAll :: "char \<Rightarrow> char \<Rightarrow> string \<Rightarrow> string" where
  "replaceAll c d s = map (\<lambda>x. if x = c then d else x) s"

text \<open>The class \<open>[a-zA-Z0-9._ -]\<close>.\<close>

definition safe_name_char :: "char \<Rightarrow> bool" where
  "safe_name_char c \<longleftrightarrow>
     (let n = (of_char c :: nat) in
      (97 \<le> n \<and> n \<le> 122) \<or> (65 \<le> n \<and> n \<le> 90) \<or> (48 \<le> n \<and> n \<le> 57) \<or>
      n = 46 \<or> n = 95 \<or> n = 32 \<or> n = 45)"

definition safeFileName :: "string \<Rightarrow> string" where
  "safeFileName fileName =
     map (\<lambda>x. if safe_name_char x then x else CHR ''-'')
       (replaceAll (CHR 0x5C) (CHR ''-'') (replaceAll (CHR ''/'') (CHR ''-'') fileName))"

definition upload_object_key :: "uuid \<Rightarrow> string \<Rightarrow> string \<Rightarrow> string" where
  "upload_object_key owner randomUUID fileName =
     ''uploads/'' @ owner @ ''/'' @ randomUUID @ ''-'' @ safeFileName fileName"

record PutObjectCommand =
  put_Bucket :: string
  put_Key :: string
  put_ContentLength :: nat
  put_ContentType :: string
  put_owner_id :: string

definition post_presign :: "job_runtime \<Rightarrow> (PutObjectCommand \<Rightarrow> error + string) \<Rightarrow> string \<Rightarrow>
    http_request \<Rightarrow> response eff" where
  "post_presign rt sign_put randomUUID req =
     (case presignRequestSchema (rt_maxUploadBytes rt) (req_body req) of
        Inl issues \<Rightarrow> returnM (reply 400 (ErrorJson (first_issue ''Invalid upload request'' issues)))
      | Inr (fileName, contentType, fileSize) \<Rightarrow>
          if contentType \<notin> set allowedAudioContentTypes
          then returnM (fail_reply 400 ''This audio content type is not supported'')
          else if \<not> hasAllowedAudioExtension fileName
          then returnM (fail_reply 400
                 ''Supported file extensions are MP3, WAV, FLAC, M4A, AAC, and OGG'')
          else bindM (countActiveOwnedJobs (req_ownerId req)) (\<lambda>activeJobCount.
            if maxActiveJobsPerOwner (rt_config rt) \<le> activeJobCount
            then returnM (reply 409 (LimitJson
                   (createActiveJobLimitMessage (maxActiveJobsPerOwner (rt_config rt)))
                   (maxActiveJobsPerOwner (rt_config rt))))
            else
              let objectKey = upload_object_key (req_ownerId req) randomUUID fileName;
                  command = \<lparr>put_Bucket = rt_bucket rt, put_Key = objectKey,
                    put_ContentLength = fileSize, put_ContentType = contentType,
                    put_owner_id = req_ownerId req\<rparr>
              in bindM (liftE (sign_put command)) (\<lambda>uploadUrl.
                   returnM (reply 200 (PresignJson uploadUrl objectKey (rt_bucket rt) (60 * 5)
                     (rt_maxUploadBytes rt))))))"

section \<open>Object keys\<close>

lemma length_safeFileName [simp]: "length (safeFileName f) = length f"
  by (simp add: safeFileName_def replaceAll_def)

lemma safe_name_dash: "safe_name_char (CHR ''-'')"
  by (simp add: safe_name_char_def)

lemma safeFileName_chars: "list_all safe_name_char (safeFileName f)"
  by (auto simp: safeFileName_def list_all_iff safe_name_dash)

lemma safe_name_no_slash: "\<not> safe_name_char (CHR ''/'')" "\<not> safe_name_char (CHR 0x5C)"
  by (simp_all add: safe_name_char_def)

lemma safeFileName_no_slash: "CHR ''/'' \<notin> set (safeFileName f)"
  using safeFileName_chars[of f] safe_name_no_slash by (auto simp: list_all_iff)

lemma safeFileName_map:
  "safeFileName f = map (\<lambda>x. if safe_name_char x then x else CHR ''-'') f"
  using safe_name_no_slash safe_name_dash by (auto simp: safeFileName_def replaceAll_def)

text \<open>A trimmed name stays free of a space at its end.\<close>

lemma safeFileName_last:
  assumes "f \<noteq> []" "js_trim f = f"
  shows "\<not> is_js_space (last (safeFileName f))"
proof -
  have l: "\<not> is_js_space (last f)" using last_js_trim[of f] assms by simp
  have "last (safeFileName f) = (if safe_name_char (last f) then last f else CHR ''-'')"
    using assms(1) by (simp add: safeFileName_map last_map)
  then show ?thesis using l by (simp add: is_js_space_def)
qed

lemma upload_object_key_trimmed:
  assumes "f \<noteq> []" "js_trim f = f"
  shows "js_trim (upload_object_key ow u f) = upload_object_key ow u f"
proof (rule js_trim_id)
  have "safeFileName f \<noteq> []" using assms(1) by (metis length_0_conv length_safeFileName)
  then have "last (upload_object_key ow u f) = last (safeFileName f)"
    by (simp add: upload_object_key_def)
  then show "\<not> is_js_space (last (upload_object_key ow u f))" using safeFileName_last[OF assms] by simp
  show "\<not> is_js_space (hd (upload_object_key ow u f))"
    by (simp add: upload_object_key_def is_js_space_def)
qed

lemma upload_object_key_prefix: "startsWith (upload_object_key ow u f) (requiredObjectPrefix ow)"
  unfolding upload_object_key_def requiredObjectPrefix_def startsWith_iff by auto

lemma length_upload_object_key:
  "length (upload_object_key ow u f) = 10 + length ow + length u + length f"
  by (simp add: upload_object_key_def)

lemma upload_object_key_path:
  assumes "CHR ''/'' \<notin> set ow" "CHR ''/'' \<notin> set u"
  shows "js_split (CHR ''/'') (upload_object_key ow u f) =
     [''uploads'', ow, u @ ''-'' @ safeFileName f]"
proof -
  have k: "upload_object_key ow u f = ''uploads'' @ CHR ''/'' # ow @ CHR ''/'' # (u @ ''-'' @ safeFileName f)"
    by (simp add: upload_object_key_def)
  show ?thesis
    unfolding k using assms safeFileName_no_slash
    by (subst js_split_append, simp, subst js_split_append, simp, subst js_split_no_sep) auto
qed

section \<open>Outcomes\<close>

lemma presign_accepts:
  assumes "presignRequestSchema n body = Inr (f, ct, sz)"
  shows "f \<noteq> [] \<and> js_trim f = f \<and> length f \<le> 255 \<and> 0 < sz \<and> sz \<le> n"
proof -
  have "string_field (trimmed_text 255) ''fileName'' body = Inr f \<and>
      positive_integer_field n ''fileSize'' body = Inr sz"
    using assms unfolding presignRequestSchema_def
    by (auto simp: Let_def issues_of_def split: if_splits sum.splits)
  then show ?thesis
    by (auto simp: string_field_Inr trimmed_text_Inr positive_integer_field_def
        split: option.splits json.splits if_splits)
qed

text \<open>The answers of an upload permission request.\<close>

lemma post_presign_granted:
  assumes "post_presign rt sign_put uuid req w s = (Inr r, s')" "resp_status r = 200"
  shows "\<exists>f ct sz url. presignRequestSchema (rt_maxUploadBytes rt) (req_body req) = Inr (f, ct, sz) \<and>
     ct \<in> set allowedAudioContentTypes \<and> hasAllowedAudioExtension f \<and>
     count_active_jobs (req_ownerId req) (db s) < maxActiveJobsPerOwner (rt_config rt) \<and>
     sign_put \<lparr>put_Bucket = rt_bucket rt, put_Key = upload_object_key (req_ownerId req) uuid f,
               put_ContentLength = sz, put_ContentType = ct, put_owner_id = req_ownerId req\<rparr> = Inr url \<and>
     resp_body r = PresignJson url (upload_object_key (req_ownerId req) uuid f) (rt_bucket rt) 300
       (rt_maxUploadBytes rt) \<and> db s' = db s"
proof (cases "presignRequestSchema (rt_maxUploadBytes rt) (req_body req)")
  case (Inl issues)
  then show ?thesis using assms by (simp add: post_presign_def effect_simps)
next
  case (Inr v)
  obtain f ct sz where v: "presignRequestSchema (rt_maxUploadBytes rt) (req_body req) = Inr (f, ct, sz)"
    using Inr by (cases v) auto
  have "ct \<in> set allowedAudioContentTypes" "hasAllowedAudioExtension f"
    using assms unfolding post_presign_def v by (auto simp: effect_simps split: if_splits)
  then show ?thesis
    using assms unfolding post_presign_def v
    by (auto simp: effect_simps countActiveOwnedJobs_def pool_query_def select_active_count_def Let_def
        split: if_splits)
qed

text \<open>The answers of a job creation.\<close>

lemma post_job_cases:
  assumes "idle s" "post_job rt req w s = (Inr r, s')"
  obtains (refused) "resp_status r = 400" "db s' = db s"
  | (duplicate) name key j where "createJobSchema (req_body req) = Inr (name, key)" "resp_status r = 409"
      "db s' = db s" "j \<in> set (jobs (db s))" "owner_id j = req_ownerId req" "input_object_key j = key"
      "resp_body r = DuplicateJson ''This uploaded audio file already has a processing job.''
         (job_id j) (status j)"
  | (limited) "resp_status r = 409" "db s' = db s"
      "maxActiveJobsPerOwner (rt_config rt) \<le> count_active_jobs (req_ownerId req) (db s)"
      "resp_body r = LimitJson (createActiveJobLimitMessage (maxActiveJobsPerOwner (rt_config rt)))
         (maxActiveJobsPerOwner (rt_config rt))"
  | (created) name key ident ev now where "createJobSchema (req_body req) = Inr (name, key)"
      "startsWith key (requiredObjectPrefix (req_ownerId req))"
      "verifyOwnedAudioUpload (rt_maxUploadBytes rt) (rt_head_object rt) (req_ownerId req) key = Inr ()"
      "duplicates_of (req_ownerId req) key (db s) = []"
      "count_active_jobs (req_ownerId req) (db s) < maxActiveJobsPerOwner (rt_config rt)"
      "ident \<notin> set (map job_id (jobs (db s)))" "ev \<notin> set (map event_id (outbox_events (db s)))"
      "r = reply 201 (JobJson (jobColumns (new_job ident now (req_ownerId req) name key)))"
      "db s' = created_db (rt_config rt) (req_ownerId req) name key ident ev now (db s)"
proof (cases "createJobSchema (req_body req)")
  case (Inl issues)
  then show ?thesis using assms(2) refused by (simp add: post_job_def effect_simps)
next
  case (Inr v)
  obtain name key where v: "createJobSchema (req_body req) = Inr (name, key)"
    using Inr by (cases v) auto
  let ?ver = "verifyOwnedAudioUpload (rt_maxUploadBytes rt) (rt_head_object rt) (req_ownerId req) key"
  let ?create = "createJob (rt_config rt) (req_ownerId req) name key"
  show ?thesis
  proof (cases "startsWith key (requiredObjectPrefix (req_ownerId req))")
    case False
    then show ?thesis using assms(2) v refused by (simp add: post_job_def effect_simps)
  next
    case pre: True
    show ?thesis
    proof (cases ?ver)
      case (Inl e)
      then obtain m where "e = UploadValidationError m" using verifyOwnedAudioUpload_Inl by blast
      then show ?thesis using assms(2) v pre Inl refused by (simp add: post_job_def effect_simps)
    next
      case ok: (Inr u)
      obtain res s1 where run: "?create w s = (res, s1)" by fastforce
      show ?thesis
      proof (cases res)
        case job: (Inr job)
        have st: "r = reply 201 (JobJson job)" "s' = s1"
          using assms(2) v pre ok run job
          by (simp_all add: post_job_def catchM_def bindM_def returnM_def)
        show ?thesis
        proof (rule createJob_success[OF assms(1)])
          show "?create w s = (Inr job, s1)" using run job by simp
        next
          fix ident ev now
          assume h: "duplicates_of (req_ownerId req) key (db s) = []"
            "count_active_jobs (req_ownerId req) (db s) < maxActiveJobsPerOwner (rt_config rt)"
            "ident \<notin> set (map job_id (jobs (db s)))" "ev \<notin> set (map event_id (outbox_events (db s)))"
            "job = jobColumns (new_job ident now (req_ownerId req) name key)"
            "db s1 = created_db (rt_config rt) (req_ownerId req) name key ident ev now (db s)"
          show ?thesis
            by (rule created[OF v pre _ h(1,2,3,4)]) (use st h ok in simp_all)
        qed
      next
        case (Inl e)
        note k = createJob_error_kind[OF assms(1), of "rt_config rt" "req_ownerId req" name key w e s1]
        have run': "?create w s = (Inl e, s1)" using run Inl by simp
        have rest: "(case e of
                   DuplicateUploadJobError existingJob \<Rightarrow>
                     returnM (reply 409 (DuplicateJson
                       ''This uploaded audio file already has a processing job.''
                       (job_id existingJob) (status existingJob)))
                 | ActiveJobLimitError limit \<Rightarrow>
                     returnM (reply 409 (LimitJson
                       (createActiveJobLimitMessage (maxActiveJobsPerOwner (rt_config rt))) limit))
                 | _ \<Rightarrow> throwM e) w s1 = (Inr r, s')"
          using assms(2) v pre ok run'
          by (simp add: post_job_def catchM_def bindM_def)
        show ?thesis
        proof (cases "\<exists>n. e = ActiveJobLimitError n")
          case True
          then show ?thesis using rest k[OF run'] limited by (auto simp: effect_simps)
        next
          case False
          then obtain x where e: "e = DuplicateUploadJobError x"
            using rest by (cases e) (auto simp: effect_simps)
          then obtain j where "j \<in> set (jobs (db s))" "owner_id j = req_ownerId req"
            "input_object_key j = key" "x = jobColumns j" using k[OF run'] by auto
          then show ?thesis using rest e k[OF run'] v
            by (intro duplicate[of name key j]) (simp_all add: effect_simps)
        qed
      qed
    qed
  qed
qed

lemma get_downloads_200:
  assumes "get_downloads rt jobId req w s = (Inr r, s')" "resp_status r = 200"
  shows "\<exists>j keys urls. j \<in> set (jobs (db s)) \<and> job_id j = jobId \<and> owner_id j = req_ownerId req \<and>
     status j = COMPLETED \<and> \<not> hasStorageExpired (jobColumns j) (rt_now rt) \<and>
     result_object_keys j = Some keys \<and> createResultDownloadUrls (rt_sign_get rt) keys = Inr urls \<and>
     r = reply 200 (DownloadsJson jobId urls 300) \<and> db s' = db s"
proof -
  obtain found s1 where f: "findOwnedJob jobId (req_ownerId req) w s = (Inr found, s1)"
    using assms by (auto simp: get_downloads_def effect_simps split: if_splits)
  note ff = findOwnedJob_Inr[OF f]
  have u: "rt_is_uuid rt jobId" using assms by (auto simp: get_downloads_def effect_simps split: if_splits)
  then obtain x where x: "found = Some x"
    using assms f by (cases found) (auto simp: get_downloads_def effect_simps)
  then obtain j where j: "j \<in> set (jobs (db s))" "job_id j = jobId" "owner_id j = req_ownerId req"
    "x = jobColumns j"
    using owned_reader.read_sound[of jobId "req_ownerId req" "db s" x] ff by auto
  have "status x = COMPLETED \<and> \<not> hasStorageExpired x (rt_now rt) \<and> (\<exists>keys urls.
      result_object_keys x = Some keys \<and> createResultDownloadUrls (rt_sign_get rt) keys = Inr urls \<and>
      r = reply 200 (DownloadsJson (job_id x) urls 300) \<and> s' = s1)"
    using assms f u unfolding x get_downloads_def
    by (auto simp: effect_simps split: if_splits option.splits)
  then show ?thesis using j ff by auto
qed

text \<open>The request that redeems an upload permission.\<close>

definition redeem_request :: "uuid \<Rightarrow> string \<Rightarrow> string \<Rightarrow> http_request" where
  "redeem_request owner name key =
     \<lparr>req_cookie = None,
      req_body = JObject [(''originalFileName'', JString name), (''inputObjectKey'', JString key)],
      req_ownerId = owner, req_anonymousOwnerId = owner, req_authenticatedUser = None\<rparr>"

text \<open>An object stored with exactly what a signed command fixes.\<close>

definition stored_as :: "PutObjectCommand \<Rightarrow> object_head" where
  "stored_as c = \<lparr>meta_owner_id = Some (put_owner_id c), content_type = Some (put_ContentType c),
     content_length = Some (put_ContentLength c)\<rparr>"

lemma redeem_schema:
  assumes "js_trim name \<noteq> []" "length (js_trim name) \<le> 255" "js_trim key = key" "key \<noteq> []" "length key \<le> 1024"
  shows "createJobSchema (req_body (redeem_request ow name key)) = Inr (js_trim name, key)"
  using assms
  by (simp add: createJobSchema_def strict_two_def redeem_request_def string_field_def json_field_def
      trimmed_text_def issues_of_def unknown_keys_def is_object_def Let_def)

lemma allowed_types_nonempty: "ct \<in> set allowedAudioContentTypes \<Longrightarrow> ct \<noteq> []"
  by (auto simp: allowedAudioContentTypes_def)

lemma upload_policy_stored:
  "put_ContentType c \<in> set allowedAudioContentTypes \<Longrightarrow> 0 < put_ContentLength c \<Longrightarrow>
     put_ContentLength c \<le> n \<Longrightarrow> upload_policy n (stored_as c)"
  using allowed_types_nonempty by (auto simp: upload_policy_def stored_as_def)

lemma redeem_not_refused:
  assumes "idle s" "js_trim name \<noteq> []" "length (js_trim name) \<le> 255"
    and key: "js_trim key = key" "key \<noteq> []" "length key \<le> 1024" "startsWith key (requiredObjectPrefix ow)"
    and ver: "verifyOwnedAudioUpload (rt_maxUploadBytes rt) (rt_head_object rt) ow key = Inr ()"
    and run: "post_job rt (redeem_request ow name key) w s = (Inr r, s')"
  shows "resp_status r = 201 \<or> resp_status r = 409"
proof -
  let ?create = "createJob (rt_config rt) ow (js_trim name) key"
  have ow: "req_ownerId (redeem_request ow name key) = ow" by (simp add: redeem_request_def)
  obtain res s1 where c: "?create w s = (res, s1)" by fastforce
  show ?thesis
    using run ver key(4) c
    unfolding post_job_def redeem_schema[OF assms(2,3) key(1,2,3)] ow
    by (cases res) (auto simp: catchM_def bindM_def returnM_def throwM_def split: error.splits)
qed

section \<open>Properties\<close>

text \<open>C18: an upload permission can be redeemed: when an object has been stored exactly as the
  signed command says, the owner's request to create a job for the issued key is never
  rejected as invalid; it is answered 201, or 409 for a limit or a duplicate.\<close>

theorem upload_permission_redeemable:
  assumes "post_presign rt sign_put uuid req w s = (Inr r, s')" "resp_status r = 200"
    and "length (req_ownerId req) = 36" "length uuid = 36"
  shows "\<exists>c url. sign_put c = Inr url \<and> put_owner_id c = req_ownerId req \<and>
     resp_body r = PresignJson url (put_Key c) (rt_bucket rt) 300 (rt_maxUploadBytes rt) \<and>
     (\<forall>rt2 name w2 s2. rt_maxUploadBytes rt2 = rt_maxUploadBytes rt \<and>
        rt_head_object rt2 (put_Key c) = Inr (stored_as c) \<and>
        js_trim name \<noteq> [] \<and> length (js_trim name) \<le> 255 \<and> idle s2 \<longrightarrow>
        (case post_job rt2 (redeem_request (req_ownerId req) name (put_Key c)) w2 s2 of
           (Inr r2, s3) \<Rightarrow> resp_status r2 = 201 \<or> resp_status r2 = 409
         | (Inl e, s3) \<Rightarrow> True))"
proof -
  obtain f ct sz url where p: "presignRequestSchema (rt_maxUploadBytes rt) (req_body req) = Inr (f, ct, sz)"
    and ct: "ct \<in> set allowedAudioContentTypes"
    and sign: "sign_put \<lparr>put_Bucket = rt_bucket rt, put_Key = upload_object_key (req_ownerId req) uuid f,
               put_ContentLength = sz, put_ContentType = ct, put_owner_id = req_ownerId req\<rparr> = Inr url"
    and body: "resp_body r = PresignJson url (upload_object_key (req_ownerId req) uuid f) (rt_bucket rt) 300
       (rt_maxUploadBytes rt)"
    using post_presign_granted[OF assms(1,2)] by blast
  let ?c = "\<lparr>put_Bucket = rt_bucket rt, put_Key = upload_object_key (req_ownerId req) uuid f,
               put_ContentLength = sz, put_ContentType = ct, put_owner_id = req_ownerId req\<rparr>"
  note a = presign_accepts[OF p]
  have key: "js_trim (put_Key ?c) = put_Key ?c" "put_Key ?c \<noteq> []" "length (put_Key ?c) \<le> 1024"
    "startsWith (put_Key ?c) (requiredObjectPrefix (req_ownerId req))"
    using a assms(3,4) upload_object_key_trimmed[of f "req_ownerId req" uuid] upload_object_key_prefix
    by (auto simp: length_upload_object_key) (simp add: upload_object_key_def)
  have pol: "upload_policy (rt_maxUploadBytes rt) (stored_as ?c)"
    using ct a by (intro upload_policy_stored) simp_all
  have main: "case post_job rt2 (redeem_request (req_ownerId req) name (put_Key ?c)) w2 s2 of
           (Inr r2, s3) \<Rightarrow> resp_status r2 = 201 \<or> resp_status r2 = 409 | (Inl e, s3) \<Rightarrow> True"
    if h: "rt_maxUploadBytes rt2 = rt_maxUploadBytes rt" "rt_head_object rt2 (put_Key ?c) = Inr (stored_as ?c)"
      "js_trim name \<noteq> []" "length (js_trim name) \<le> 255" "idle s2" for rt2 name w2 s2
  proof -
    have ver: "verifyOwnedAudioUpload (rt_maxUploadBytes rt2) (rt_head_object rt2) (req_ownerId req)
        (put_Key ?c) = Inr ()"
      unfolding verifyOwnedAudioUpload_Inr using h(1,2) pol by (simp add: stored_as_def)
    show ?thesis
      using redeem_not_refused[OF h(5,3,4) key ver]
      by (cases "post_job rt2 (redeem_request (req_ownerId req) name (put_Key ?c)) w2 s2")
        (auto split: sum.split)
  qed
  show ?thesis using sign body main by (intro exI[of _ ?c] exI[of _ url]) simp
qed

definition sample_job_rt :: job_runtime where
  "sample_job_rt = \<lparr>rt_config = demo_config, rt_maxUploadBytes = 1000, rt_is_uuid = (\<lambda>_. True),
     rt_head_object = (\<lambda>_. Inl (ObjectStorageError ''NotFound'')), rt_sign_get = (\<lambda>k. Inr (''https://'' @ k)),
     rt_bucket = ''audio'', rt_now = 1000\<rparr>"

definition presign_request :: http_request where
  "presign_request = \<lparr>req_cookie = None,
     req_body = JObject [(''fileName'', JString '' a b.mp3''), (''contentType'', JString ''audio/mpeg''),
                         (''fileSize'', JNumber (Finite 7))],
     req_ownerId = sample_uuid, req_anonymousOwnerId = sample_uuid, req_authenticatedUser = None\<rparr>"

definition presign_result :: response where
  "presign_result = reply 200 (PresignJson ''url''
     (''uploads/'' @ sample_uuid @ ''/'' @ sample_uuid @ ''-a b.mp3'') ''audio'' 300 1000)"

lemma presign_sample_schema:
  "presignRequestSchema 1000 (req_body presign_request) = Inr (''a b.mp3'', ''audio/mpeg'', 7)"
proof -
  have "js_trim '' a b.mp3'' = ''a b.mp3''" "js_trim ''audio/mpeg'' = ''audio/mpeg''"
    by (simp_all add: js_trim_def is_js_space_def)
  moreover have "safe_integer (Finite 7) = Some 7"
    using safe_integer_Finite_of_int[of 7] by (simp add: max_safe_integer_def)
  ultimately show ?thesis
    by (simp add: presignRequestSchema_def presign_request_def string_field_def json_field_def
        trimmed_text_def positive_integer_field_def issues_of_def unknown_keys_def is_object_def Let_def)
qed

lemma presign_sample_run:
  "post_presign sample_job_rt (\<lambda>_. Inr ''url'') sample_uuid presign_request quiet_world (idle_exec empty_db) =
     (Inr presign_result,
      snd (post_presign sample_job_rt (\<lambda>_. Inr ''url'') sample_uuid presign_request quiet_world (idle_exec empty_db)))"
proof (rule run_of_fst)
  have ext: "hasAllowedAudioExtension ''a b.mp3''" "''audio/mpeg'' \<in> set allowedAudioContentTypes"
    by code_simp+
  have safe: "safeFileName ''a b.mp3'' = ''a b.mp3''" by code_simp
  have cnt: "count_active_jobs ow empty_db = 0" for ow by (simp add: count_active_jobs_def empty_db_def)
  have rt: "rt_maxUploadBytes sample_job_rt = 1000" "rt_config sample_job_rt = demo_config"
    "rt_bucket sample_job_rt = ''audio''" "req_ownerId presign_request = sample_uuid"
    "maxActiveJobsPerOwner demo_config = 1"
    by (simp_all add: sample_job_rt_def presign_request_def demo_config_def)
  show "fst (post_presign sample_job_rt (\<lambda>_. Inr ''url'') sample_uuid presign_request quiet_world
      (idle_exec empty_db)) = Inr presign_result"
    unfolding post_presign_def rt presign_sample_schema
    using ext by (simp add: bindM_def countActiveOwnedJobs_def pool_query_def client_query_def Let_def
        idle_exec_def select_active_count_def cnt returnM_def liftE_def safe upload_object_key_def
        presign_result_def)
qed

lemma upload_permission_redeemable_witness:
  "\<exists>(c :: PutObjectCommand) url. put_owner_id c = sample_uuid \<and> resp_body presign_result = PresignJson url (put_Key c) ''audio'' 300 1000"
proof -
  have rt: "rt_maxUploadBytes sample_job_rt = 1000" "rt_bucket sample_job_rt = ''audio''"
    "req_ownerId presign_request = sample_uuid" "resp_status presign_result = 200" "length sample_uuid = 36"
    by (simp_all add: sample_job_rt_def presign_request_def presign_result_def sample_uuid_def)
  obtain c :: PutObjectCommand and url where "put_owner_id c = req_ownerId presign_request"
    "resp_body presign_result = PresignJson url (put_Key c) (rt_bucket sample_job_rt) 300
       (rt_maxUploadBytes sample_job_rt)"
    using upload_permission_redeemable[OF presign_sample_run rt(4) rt(5)[folded rt(3)] rt(5)]
    by - (elim exE conjE, rule that)
  then show ?thesis unfolding rt by blast
qed

text \<open>C40: an issued object key lies directly in the owner's own upload directory, whatever the
  file was called: its path has exactly the three segments uploads, owner and object name.\<close>

theorem upload_key_confined:
  assumes "CHR ''/'' \<notin> set owner" "CHR ''/'' \<notin> set uuid"
  shows "js_split (CHR ''/'') (upload_object_key owner uuid fileName) =
     [''uploads'', owner, uuid @ ''-'' @ safeFileName fileName] \<and>
     startsWith (upload_object_key owner uuid fileName) (requiredObjectPrefix owner)"
  using upload_object_key_path[OF assms] upload_object_key_prefix by simp

lemma upload_key_confined_witness:
  "js_split (CHR ''/'') (upload_object_key ''o1'' ''u1'' ''../../etc/x.mp3'') =
     [''uploads'', ''o1'', ''u1'' @ ''-'' @ safeFileName ''../../etc/x.mp3'']"
  using upload_key_confined[of "''o1''" "''u1''" "''../../etc/x.mp3''"] by simp

lemma post_job_thrown:
  assumes "idle s" "post_job rt req w s = (Inl e, s')"
  shows "db s' = db s"
proof (cases "createJobSchema (req_body req)")
  case (Inl issues)
  then show ?thesis using assms(2) by (simp add: post_job_def effect_simps)
next
  case (Inr v)
  obtain name key where v: "v = (name, key)" by (cases v)
  let ?ver = "verifyOwnedAudioUpload (rt_maxUploadBytes rt) (rt_head_object rt) (req_ownerId req) key"
  obtain res s1 where run: "createJob (rt_config rt) (req_ownerId req) name key w s = (res, s1)" by fastforce
  show ?thesis
  proof (cases "startsWith key (requiredObjectPrefix (req_ownerId req)) \<and> ?ver = Inr ()")
    case True
    show ?thesis
    proof (cases res)
      case (Inl e1)
      have "s' = s1"
        using assms(2) Inr v True run Inl
        by (cases e1) (simp_all add: post_job_def catchM_def bindM_def returnM_def throwM_def)
      then show ?thesis using create_job.op_error[OF assms(1)] run Inl by blast
    qed (use assms(2) Inr v True run in \<open>simp add: post_job_def catchM_def bindM_def returnM_def\<close>)
  next
    case False
    have "?ver = Inl e1 \<Longrightarrow> \<exists>m. e1 = UploadValidationError m" for e1
      by (rule verifyOwnedAudioUpload_Inl)
    then show ?thesis
      using assms(2) Inr v False
      by (cases ?ver) (auto simp: post_job_def effect_simps split: if_splits)
  qed
qed

text \<open>C8: job creation is guarded: an answer 201 carries the new PENDING job, the object was
  verified as the owner's allowed audio under the owner's prefix, the owner had no job for it
  and fewer active jobs than the maximum, and exactly that job and its creation event were
  added. Every other answer changes nothing, and neither does a request that throws, whichever
  of its statements fails.\<close>

theorem job_creation_guarded:
  assumes "idle s"
  shows "case post_job rt req w s of
      (Inl e, s') \<Rightarrow> db s' = db s
    | (Inr r, s') \<Rightarrow> (resp_status r \<noteq> 201 \<and> db s' = db s) \<or>
        (\<exists>name key ident ev now obj. createJobSchema (req_body req) = Inr (name, key) \<and>
           startsWith key (requiredObjectPrefix (req_ownerId req)) \<and>
           rt_head_object rt key = Inr obj \<and> meta_owner_id obj = Some (req_ownerId req) \<and>
           upload_policy (rt_maxUploadBytes rt) obj \<and>
           duplicates_of (req_ownerId req) key (db s) = [] \<and>
           count_active_jobs (req_ownerId req) (db s) < maxActiveJobsPerOwner (rt_config rt) \<and>
           r = reply 201 (JobJson (jobColumns (new_job ident now (req_ownerId req) name key))) \<and>
           db s' = created_db (rt_config rt) (req_ownerId req) name key ident ev now (db s))"
proof (cases "post_job rt req w s")
  case (Pair res s')
  show ?thesis
  proof (cases res)
    case (Inr r)
    from assms Pair[unfolded Inr] show ?thesis
      by (cases rule: post_job_cases) (use Pair Inr verifyOwnedAudioUpload_Inr in fastforce)+
  qed (use Pair post_job_thrown[OF assms] in simp)
qed

text \<open>The example: an uploaded file of the owner becomes a job.\<close>

definition stored_job_rt :: job_runtime where
  "stored_job_rt = sample_job_rt\<lparr>rt_head_object := (\<lambda>_. Inr \<lparr>meta_owner_id = Some ''u2'',
     content_type = Some ''audio/mpeg'', content_length = Some 7\<rparr>)\<rparr>"

lemma job_creation_guarded_witness:
  "\<exists>ident ev now. fst (post_job stored_job_rt (redeem_request ''u2'' ''a.mp3'' ''uploads/u2/x.mp3'')
       quiet_world (idle_exec sample_db)) =
     Inr (reply 201 (JobJson (jobColumns (new_job ident now ''u2'' ''a.mp3'' ''uploads/u2/x.mp3'')))) \<and>
   db (snd (post_job stored_job_rt (redeem_request ''u2'' ''a.mp3'' ''uploads/u2/x.mp3'')
     quiet_world (idle_exec sample_db))) =
     created_db demo_config ''u2'' ''a.mp3'' ''uploads/u2/x.mp3'' ident ev now sample_db"
proof -
  let ?req = "redeem_request ''u2'' ''a.mp3'' ''uploads/u2/x.mp3''"
  have schema: "createJobSchema (req_body ?req) = Inr (''a.mp3'', ''uploads/u2/x.mp3'')"
    by (subst redeem_schema) (simp_all add: js_trim_def is_js_space_def)
  have ow: "req_ownerId ?req = ''u2''" by (simp add: redeem_request_def)
  have "case fst (post_job stored_job_rt ?req quiet_world (idle_exec sample_db)) of
      Inr r \<Rightarrow> resp_status r = 201 | Inl e \<Rightarrow> False"
    by code_simp
  then obtain r where r: "fst (post_job stored_job_rt ?req quiet_world (idle_exec sample_db)) = Inr r"
      "resp_status r = 201"
    by (auto split: sum.splits)
  have cfg: "rt_config stored_job_rt = demo_config" by (simp add: stored_job_rt_def sample_job_rt_def)
  note p = run_InrD[OF job_creation_guarded[where s = "idle_exec sample_db" and w = quiet_world] r(1)]
  show ?thesis using p r schema ow cfg by auto
qed

text \<open>Downloads are released only to the owner of a completed job before its storage expires,
  and the answer holds one link per stored result, signed for exactly its object.\<close>

theorem downloads_guarded:
  assumes "get_downloads rt jobId req w s = (Inr r, s')" "resp_status r = 200"
  shows "\<exists>j keys urls. j \<in> set (jobs (db s)) \<and> job_id j = jobId \<and> owner_id j = req_ownerId req \<and>
     status j = COMPLETED \<and> storage_deleted_at j = None \<and>
     (\<forall>t. storage_expires_at j = Some t \<longrightarrow> rt_now rt < t) \<and>
     result_object_keys j = Some keys \<and> r = reply 200 (DownloadsJson jobId urls 300) \<and>
     map fst urls = map fst keys \<and> list_all2 (\<lambda>k u. rt_sign_get rt (snd k) = Inr (snd u)) keys urls"
proof -
  obtain j keys urls where j: "j \<in> set (jobs (db s))" "job_id j = jobId" "owner_id j = req_ownerId req"
     "status j = COMPLETED" and e: "\<not> hasStorageExpired (jobColumns j) (rt_now rt)"
     and k: "result_object_keys j = Some keys" "createResultDownloadUrls (rt_sign_get rt) keys = Inr urls"
       "r = reply 200 (DownloadsJson jobId urls 300)"
    using get_downloads_200[OF assms] by blast
  have "storage_deleted_at j = None \<and> (\<forall>t. storage_expires_at j = Some t \<longrightarrow> rt_now rt < t)"
    using e by (auto simp: hasStorageExpired_def split: if_splits option.splits)
  then show ?thesis using j k createResultDownloadUrls_names[OF k(2)] by blast
qed

definition finished_db :: database where
  "finished_db = empty_db\<lparr>jobs := [(sample_job ''j2'' ''u1'' COMPLETED)\<lparr>
     result_object_keys := Some [(''vocals'', ''results/j2/vocals.wav'')]\<rparr>]\<rparr>"

definition owner_request :: "uuid \<Rightarrow> http_request" where
  "owner_request ow = \<lparr>req_cookie = None, req_body = JNull, req_ownerId = ow,
     req_anonymousOwnerId = ow, req_authenticatedUser = None\<rparr>"

lemma downloads_guarded_witness:
  "\<exists>j \<in> set (jobs finished_db). owner_id j = ''u1'' \<and> status j = COMPLETED"
proof -
  let ?r = "reply 200 (DownloadsJson ''j2'' [(''vocals'', ''https://results/j2/vocals.wav'')] 300)"
  have "fst (get_downloads sample_job_rt ''j2'' (owner_request ''u1'') quiet_world (idle_exec finished_db)) = Inr ?r"
    by (simp add: get_downloads_def sample_job_rt_def bindM_def findOwnedJob_def pool_query_def client_query_def
        idle_exec_def finished_db_def owner_request_def select_owned_job_def sample_job_def empty_db_def returnM_def
        hasStorageExpired_def createResultDownloadUrls_def liftE_def Let_def)
  then have run: "get_downloads sample_job_rt ''j2'' (owner_request ''u1'') quiet_world (idle_exec finished_db) =
      (Inr ?r, snd (get_downloads sample_job_rt ''j2'' (owner_request ''u1'') quiet_world (idle_exec finished_db)))"
    by (rule run_of_fst)
  from downloads_guarded[OF run] show ?thesis by (auto simp: owner_request_def)
qed

text \<open>The handlers that read, list or cancel jobs see only the rows of the requesting owner.\<close>

lemma blind_lift: "blind owner (liftE r)"
  by (cases r) (simp_all add: liftE_def blind_return blind_throw)

lemma get_job_blind: "blind (req_ownerId req) (get_job rt jobId req)"
  unfolding get_job_def by (intro blind_intros findOwnedJob_blind)

lemma get_jobs_blind: "blind (req_ownerId req) (get_jobs req)"
  unfolding get_jobs_def by (intro blind_intros findRecentOwnedJobs_blind)

lemma get_downloads_blind: "blind (req_ownerId req) (get_downloads rt jobId req)"
  unfolding get_downloads_def by (intro blind_intros findOwnedJob_blind blind_lift)

lemma post_cancel_blind: "blind (req_ownerId req) (post_cancel rt jobId req)"
proof -
  have "blind (req_ownerId req) (case result of
          not_found \<Rightarrow> returnM (fail_reply 404 ''Job not found'')
        | not_cancellable st \<Rightarrow>
            returnM (fail_reply 409 (''A '' @ status_text st @ '' job cannot be cancelled''))
        | cancelled job \<Rightarrow> returnM (reply 200 (JobJson job)))" for result
    by (cases result) (simp_all add: blind_return)
  then show ?thesis unfolding post_cancel_def by (intro blind_intros cancelJob_blind)
qed

lemma post_presign_blind: "blind (req_ownerId req) (post_presign rt sign_put uuid req)"
proof (cases "presignRequestSchema (rt_maxUploadBytes rt) (req_body req)")
  case (Inl issues)
  then show ?thesis by (simp add: post_presign_def blind_return)
next
  case (Inr v)
  obtain f ct sz where "v = (f, ct, sz)" by (cases v) auto
  then show ?thesis
    unfolding post_presign_def Inr Let_def
    by (simp only: sum.case prod.case) (intro blind_intros countActiveOwnedJobs_blind blind_lift)
qed

text \<open>C10: jobs of others are invisible: exchange the job rows of all other owners for any others
  (none at all, for instance), and a request to read a job, to list the jobs, to get the
  downloads of a job, to cancel a job or to get an upload permission is answered, or fails,
  exactly as before. In particular a job of somebody else is answered like one that does not
  exist, whatever its state.\<close>

theorem foreign_jobs_invisible:
  assumes "idle s"
    and "filter (\<lambda>j. owner_id j = req_ownerId req) js =
         filter (\<lambda>j. owner_id j = req_ownerId req) (jobs (db s))"
  shows "fst (get_job rt jobId req w (s\<lparr>db := (db s)\<lparr>jobs := js\<rparr>\<rparr>)) = fst (get_job rt jobId req w s) \<and>
     fst (get_jobs req w (s\<lparr>db := (db s)\<lparr>jobs := js\<rparr>\<rparr>)) = fst (get_jobs req w s) \<and>
     fst (get_downloads rt jobId req w (s\<lparr>db := (db s)\<lparr>jobs := js\<rparr>\<rparr>)) =
       fst (get_downloads rt jobId req w s) \<and>
     fst (post_cancel rt jobId req w (s\<lparr>db := (db s)\<lparr>jobs := js\<rparr>\<rparr>)) = fst (post_cancel rt jobId req w s) \<and>
     fst (post_presign rt sign_put uuid req w (s\<lparr>db := (db s)\<lparr>jobs := js\<rparr>\<rparr>)) =
       fst (post_presign rt sign_put uuid req w s)"
proof -
  note same = same_handle_exchanged[OF assms]
  show ?thesis
    using blind_answer[OF get_job_blind same] blind_answer[OF get_jobs_blind same]
      blind_answer[OF get_downloads_blind same] blind_answer[OF post_cancel_blind same]
      blind_answer[OF post_presign_blind same]
    by blast
qed

text \<open>The example: the job of another owner is not found, as if the table were empty.\<close>

lemma foreign_jobs_invisible_witness:
  "fst (post_cancel sample_job_rt ''j1'' (owner_request ''u2'') quiet_world (idle_exec sample_db)) =
     fst (post_cancel sample_job_rt ''j1'' (owner_request ''u2'') quiet_world
       ((idle_exec sample_db)\<lparr>db := sample_db\<lparr>jobs := []\<rparr>\<rparr>)) \<and>
   fst (post_cancel sample_job_rt ''j1'' (owner_request ''u2'') quiet_world (idle_exec sample_db)) =
     Inr (fail_reply 404 ''Job not found'')"
proof -
  have o: "req_ownerId (owner_request ''u2'') = ''u2''" by (simp add: owner_request_def)
  have "filter (\<lambda>j. owner_id j = req_ownerId (owner_request ''u2'')) [] =
      filter (\<lambda>j. owner_id j = req_ownerId (owner_request ''u2'')) (jobs (db (idle_exec sample_db)))"
    unfolding o by (simp add: sample_db_def sample_job_def)
  from foreign_jobs_invisible[OF _ this, of sample_job_rt "''j1''" quiet_world "\<lambda>_. Inr []" "[]"]
  have "fst (post_cancel sample_job_rt ''j1'' (owner_request ''u2'') quiet_world
       ((idle_exec sample_db)\<lparr>db := sample_db\<lparr>jobs := []\<rparr>\<rparr>)) =
     fst (post_cancel sample_job_rt ''j1'' (owner_request ''u2'') quiet_world (idle_exec sample_db))"
    by simp
  moreover have "fst (post_cancel sample_job_rt ''j1'' (owner_request ''u2'') quiet_world (idle_exec sample_db)) =
     Inr (fail_reply 404 ''Job not found'')"
    by code_simp
  ultimately show ?thesis by simp
qed

end
