(* ===== verification/Operations.thy ===== *)
theory Operations
  imports Http
begin

text \<open>
  backend/src/services/operationsService.ts, routes/operations.ts and system.ts,
  observability/metrics.ts and logger.ts, middleware/requestObservability.ts and origin.ts: what
  the backend reports about itself. Counts travel from PostgreSQL as texts and are converted
  with \<open>Number\<close>; the waiting time of the oldest event is a rational number of seconds.
\<close>

section \<open>Worker capacity\<close>

record WorkerRow =
  active_workers :: string
  idle_workers :: string
  busy_workers :: string
  recently_stale_workers :: string

record WorkerCounts =
  wc_active :: js_number
  wc_idle :: js_number
  wc_busy :: js_number
  wc_recentlyStale :: js_number

datatype capacity = Available | Busy | Offline

record WorkerAvailability =
  capacity_status :: capacity
  onlineWorkers :: js_number
  idleWorkers :: js_number
  busyWorkers :: js_number

definition worker_online :: "time \<Rightarrow> worker_instance \<Rightarrow> bool" where
  "worker_online now v \<longleftrightarrow> now - seconds (heartbeat_timeout_seconds v) \<le> last_heartbeat_at v"

definition recently_stale :: "time \<Rightarrow> worker_instance \<Rightarrow> bool" where
  "recently_stale now v \<longleftrightarrow> last_heartbeat_at v < now - seconds (heartbeat_timeout_seconds v) \<and>
     now - hours 24 \<le> last_heartbeat_at v"

definition count_text :: "('r \<Rightarrow> bool) \<Rightarrow> 'r list \<Rightarrow> string" where
  "count_text P rows = show_nat (length (filter P rows))"

definition workerAggregateQuery :: "WorkerRow list stmt" where
  "workerAggregateQuery _ now d =
     Inr ([\<lparr>active_workers = count_text (worker_online now) (worker_instances d),
            idle_workers = count_text (\<lambda>v. worker_status v = IDLE \<and> worker_online now v) (worker_instances d),
            busy_workers = count_text (\<lambda>v. worker_status v = BUSY \<and> worker_online now v) (worker_instances d),
            recently_stale_workers = count_text (recently_stale now) (worker_instances d)\<rparr>], d)"

definition parseWorkerCounts :: "WorkerRow \<Rightarrow> WorkerCounts" where
  "parseWorkerCounts row =
     \<lparr>wc_active = js_Number (active_workers row), wc_idle = js_Number (idle_workers row),
      wc_busy = js_Number (busy_workers row), wc_recentlyStale = js_Number (recently_stale_workers row)\<rparr>"

fun js_positive :: "js_number \<Rightarrow> bool" where
  "js_positive (Finite q) = (0 < q)"
| "js_positive Infinity = True"
| "js_positive _ = False"

definition describeWorkerAvailability :: "WorkerRow \<Rightarrow> WorkerAvailability" where
  "describeWorkerAvailability row =
     (let counts = parseWorkerCounts row
      in if wc_active counts = Finite 0
         then \<lparr>capacity_status = Offline, onlineWorkers = Finite 0, idleWorkers = Finite 0,
               busyWorkers = Finite 0\<rparr>
         else \<lparr>capacity_status = (if js_positive (wc_idle counts) then Available else Busy),
               onlineWorkers = wc_active counts, idleWorkers = wc_idle counts,
               busyWorkers = wc_busy counts\<rparr>)"

definition getWorkerAvailability :: "WorkerAvailability eff" where
  "getWorkerAvailability =
     bindM (pool_query workerAggregateQuery) (\<lambda>rows.
       case first_row rows of
         None \<Rightarrow> throwM (PlainError ''PostgreSQL did not return the worker aggregate'')
       | Some row \<Rightarrow> returnM (describeWorkerAvailability row))"

section \<open>The operations snapshot\<close>

record QueueRow =
  pending_outbox_events :: string
  oldest_pending_seconds :: "rat option"
  expired_storage_waiting :: string
  cleanup_failures_waiting :: string

text \<open>\<open>GROUP BY status ORDER BY status\<close>\<close>

definition select_job_counts :: "(job_status \<times> string) list stmt" where
  "select_job_counts _ now d =
     Inr (map (\<lambda>st. (st, count_text (\<lambda>j. status j = st) (jobs d)))
            (sort (remdups (map status (jobs d)))), d)"

definition pending_event :: "outbox_event \<Rightarrow> bool" where
  "pending_event e \<longleftrightarrow> event_status e = EvPENDING"

definition oldest_pending :: "time \<Rightarrow> outbox_event list \<Rightarrow> rat option" where
  "oldest_pending now es =
     (case map event_created_at (filter pending_event es) of
        [] \<Rightarrow> None
      | t # ts \<Rightarrow> Some (of_int (now - foldl min t ts) / 1000))"

definition expired_waiting :: "time \<Rightarrow> job \<Rightarrow> bool" where
  "expired_waiting now j \<longleftrightarrow>
     (case storage_expires_at j of None \<Rightarrow> False | Some t \<Rightarrow> t \<le> now) \<and> storage_deleted_at j = None"

definition cleanup_failed_waiting :: "job \<Rightarrow> bool" where
  "cleanup_failed_waiting j \<longleftrightarrow> cleanup_error_message j \<noteq> None \<and> storage_deleted_at j = None"

definition select_queues :: "QueueRow list stmt" where
  "select_queues _ now d =
     Inr ([\<lparr>pending_outbox_events = count_text pending_event (outbox_events d),
            oldest_pending_seconds = oldest_pending now (outbox_events d),
            expired_storage_waiting = count_text (expired_waiting now) (jobs d),
            cleanup_failures_waiting = count_text cleanup_failed_waiting (jobs d)\<rparr>], d)"

record operations_snapshot =
  jobCounts :: "(string \<times> js_number) list"
  pendingOutboxEvents :: js_number
  oldestPendingOutboxSeconds :: "int option"
  expiredStorageWaiting :: js_number
  cleanupFailuresWaiting :: js_number
  snapshot_workers :: WorkerCounts

definition math_round :: "rat \<Rightarrow> int" where
  "math_round q = \<lfloor>q + 1 / 2\<rfloor>"

text \<open>The three reads are independent; any failure rejects the whole snapshot.\<close>

definition getDurableOperationsSnapshot :: "operations_snapshot eff" where
  "getDurableOperationsSnapshot =
     bindM (pool_query select_job_counts) (\<lambda>jobRows.
     bindM (pool_query select_queues) (\<lambda>queueRows.
     bindM (pool_query workerAggregateQuery) (\<lambda>workerRows.
       case first_row queueRows of
         None \<Rightarrow> throwM (PlainError ''PostgreSQL did not return the operations aggregate'')
       | Some queues \<Rightarrow>
           (case first_row workerRows of
              None \<Rightarrow> throwM (PlainError ''PostgreSQL did not return the worker aggregate'')
            | Some workers \<Rightarrow>
                returnM \<lparr>jobCounts = map (\<lambda>(st, n). (status_text st, js_Number n)) jobRows,
                  pendingOutboxEvents = js_Number (pending_outbox_events queues),
                  oldestPendingOutboxSeconds = map_option math_round (oldest_pending_seconds queues),
                  expiredStorageWaiting = js_Number (expired_storage_waiting queues),
                  cleanupFailuresWaiting = js_Number (cleanup_failures_waiting queues),
                  snapshot_workers = parseWorkerCounts workers\<rparr>))))"


section \<open>Process counters\<close>

record http_metrics =
  httpRequestsTotal :: nat
  responses_2xx :: nat
  responses_3xx :: nat
  responses_4xx :: nat
  responses_5xx :: nat
  activeWebSocketConnections :: nat

definition zero_metrics :: http_metrics where
  "zero_metrics = \<lparr>httpRequestsTotal = 0, responses_2xx = 0, responses_3xx = 0, responses_4xx = 0,
     responses_5xx = 0, activeWebSocketConnections = 0\<rparr>"

definition recordHttpResponse :: "nat \<Rightarrow> http_metrics \<Rightarrow> http_metrics" where
  "recordHttpResponse statusCode m0 =
     (let m = m0\<lparr>httpRequestsTotal := httpRequestsTotal m0 + 1\<rparr>; g = statusCode div 100
      in if g = 2 then m\<lparr>responses_2xx := responses_2xx m + 1\<rparr>
         else if g = 3 then m\<lparr>responses_3xx := responses_3xx m + 1\<rparr>
         else if g = 4 then m\<lparr>responses_4xx := responses_4xx m + 1\<rparr>
         else if g = 5 then m\<lparr>responses_5xx := responses_5xx m + 1\<rparr>
         else m)"

definition recordWebSocketOpened :: "http_metrics \<Rightarrow> http_metrics" where
  "recordWebSocketOpened m = m\<lparr>activeWebSocketConnections := activeWebSocketConnections m + 1\<rparr>"

text \<open>\<open>Math.max(0, n - 1)\<close>: subtraction on nat stops at zero.\<close>

definition recordWebSocketClosed :: "http_metrics \<Rightarrow> http_metrics" where
  "recordWebSocketClosed m = m\<lparr>activeWebSocketConnections := activeWebSocketConnections m - 1\<rparr>"

datatype metric_event = ResponseFinished nat | WebSocketOpened | WebSocketClosed

fun metrics_step :: "metric_event \<Rightarrow> http_metrics \<Rightarrow> http_metrics" where
  "metrics_step (ResponseFinished c) m = recordHttpResponse c m"
| "metrics_step WebSocketOpened m = recordWebSocketOpened m"
| "metrics_step WebSocketClosed m = recordWebSocketClosed m"

lemmas [machine_defs] = recordHttpResponse_def recordWebSocketOpened_def recordWebSocketClosed_def

text \<open>The groups never count more than the total.\<close>

definition groups_bounded :: "http_metrics \<Rightarrow> bool" where
  "groups_bounded m \<longleftrightarrow>
     responses_2xx m + responses_3xx m + responses_4xx m + responses_5xx m \<le> httpRequestsTotal m"

interpretation metrics_machine: handler_invariant metrics_step groups_bounded
proof
  fix m e
  assume "groups_bounded m"
  then show "groups_bounded (metrics_step e m)"
    by (cases e) (auto simp: machine_defs Let_def groups_bounded_def)
qed

section \<open>Logging\<close>

datatype log_value = LogText string | LogNumber js_number | LogErrorObject string string string | LogMessage string | LogNull

datatype log_level = Debug | Info | Warn | ErrorLevel

fun level_text :: "log_level \<Rightarrow> string" where
  "level_text Debug = ''debug''"
| "level_text Info = ''info''"
| "level_text Warn = ''warn''"
| "level_text ErrorLevel = ''error''"

type_synonym log_object = "(string \<times> log_value) list"

text \<open>Assigning a property keeps its place when it exists and appends it otherwise.\<close>

fun assign :: "string \<Rightarrow> log_value \<Rightarrow> log_object \<Rightarrow> log_object" where
  "assign k v [] = [(k, v)]"
| "assign k v ((k', v') # o') = (if k = k' then (k, v) # o' else (k', v') # assign k v o')"

definition spread :: "log_object \<Rightarrow> log_object \<Rightarrow> log_object" where
  "spread props obj = foldl (\<lambda>acc (k, v). assign k v acc) obj props"

datatype thrown = ErrorInstance string string string | OtherValue string

fun serializeError :: "thrown \<Rightarrow> log_value" where
  "serializeError (ErrorInstance name message stack) = LogErrorObject name message stack"
| "serializeError (OtherValue text) = LogMessage text"

record log_context =
  log_timestamp :: string
  log_service :: string
  log_instance :: string
  log_requestId :: "string option"

text \<open>
  The record of \<open>writeLog\<close>; the \<open>error\<close> field has been taken out of the caller's fields. An
  empty request identifier counts as absent.
\<close>

definition log_record :: "log_context \<Rightarrow> log_level \<Rightarrow> string \<Rightarrow> log_object \<Rightarrow> thrown option \<Rightarrow> log_object" where
  "log_record cx level event remainingFields err =
     spread (case err of None \<Rightarrow> [] | Some e \<Rightarrow> [(''error'', serializeError e)])
    (spread (case log_requestId cx of
               None \<Rightarrow> [] | Some r \<Rightarrow> if r = [] then [] else [(''requestId'', LogText r)])
    (spread [(''timestamp'', LogText (log_timestamp cx)), (''level'', LogText (level_text level)),
             (''service'', LogText (log_service cx)), (''instanceId'', LogText (log_instance cx)),
             (''event'', LogText event)]
      (spread remainingFields [])))"

definition log_to_stderr :: "log_level \<Rightarrow> bool" where
  "log_to_stderr level \<longleftrightarrow> level = ErrorLevel \<or> level = Warn"

section \<open>Middleware and routes\<close>

definition quietHealthPaths :: "string list" where
  "quietHealthPaths = [''/health'', ''/ready'']"

text \<open>The \<open>finish\<close> callback: the counters, and whether the request is logged.\<close>

definition request_finished :: "string \<Rightarrow> nat \<Rightarrow> http_metrics \<Rightarrow> http_metrics \<times> bool" where
  "request_finished path statusCode m =
     (recordHttpResponse statusCode m, path \<notin> set quietHealthPaths \<or> 500 \<le> statusCode)"

definition requireAllowedOrigin :: "SecurityConfiguration \<Rightarrow> string option \<Rightarrow> response option" where
  "requireAllowedOrigin sec originHeader =
     (if isAllowedOrigin sec originHeader then None
      else Some (fail_reply 403 ''Request origin is not allowed''))"

record operations_report =
  report_instance :: string
  report_uptime :: int
  report_process :: http_metrics
  report_durable :: operations_snapshot

definition get_operations :: "string \<Rightarrow> rat \<Rightarrow> http_metrics \<Rightarrow> operations_report eff" where
  "get_operations instanceId uptime m =
     bindM getDurableOperationsSnapshot (\<lambda>durable.
       returnM \<lparr>report_instance = instanceId, report_uptime = math_round uptime,
         report_process = m, report_durable = durable\<rparr>)"

definition get_availability :: "WorkerAvailability eff" where
  "get_availability = getWorkerAvailability"

section \<open>What is reported is what is there\<close>

definition online_count :: "time \<Rightarrow> database \<Rightarrow> nat" where
  "online_count now d = length (filter (worker_online now) (worker_instances d))"

definition idle_count :: "time \<Rightarrow> database \<Rightarrow> nat" where
  "idle_count now d =
     length (filter (\<lambda>v. worker_status v = IDLE \<and> worker_online now v) (worker_instances d))"

lemma length_filter_two:
  "length (filter (\<lambda>v. worker_status v = IDLE \<and> P v) vs) + length (filter (\<lambda>v. worker_status v = BUSY \<and> P v) vs) =
     length (filter P vs)"
proof (induction vs)
  case (Cons v vs)
  then show ?case by (cases "worker_status v") auto
qed simp

lemma count_number:
  "length rows < 2 ^ 53 \<Longrightarrow> js_Number (count_text P rows) = Finite (of_nat (length (filter P rows)))"
  using js_Number_show_nat[of "length (filter P rows)"] length_filter_le[of P rows]
  by (simp add: count_text_def)

lemma getWorkerAvailability_Inr:
  assumes "getWorkerAvailability w s = (Inr a, s')" "length (worker_instances (db s)) < 2 ^ 53"
  shows "db s' = db s \<and>
     onlineWorkers a = Finite (of_nat (online_count (stmt_now w s) (db s))) \<and>
     idleWorkers a = Finite (of_nat (idle_count (stmt_now w s) (db s))) \<and>
     busyWorkers a = Finite (of_nat (online_count (stmt_now w s) (db s) - idle_count (stmt_now w s) (db s))) \<and>
     capacity_status a =
       (if online_count (stmt_now w s) (db s) = 0 then Offline
        else if idle_count (stmt_now w s) (db s) = 0 then Busy else Available)"
proof -
  let ?now = "stmt_now w s" and ?d = "db s"
  note two = length_filter_two[of "worker_online ?now" "worker_instances ?d"]
  have busy: "length (filter (\<lambda>v. worker_status v = BUSY \<and> worker_online ?now v) (worker_instances ?d)) =
      online_count ?now ?d - idle_count ?now ?d"
    using two by (simp add: online_count_def idle_count_def)
  have le: "idle_count ?now ?d \<le> online_count ?now ?d"
    using two by (simp add: online_count_def idle_count_def)
  from assms(1) obtain row where row: "db s' = db s" "a = describeWorkerAvailability row"
    "workerAggregateQuery (random_uuid w (tick s)) ?now ?d = Inr ([row], ?d)"
    by (auto simp: getWorkerAvailability_def pool_query_def effect_simps workerAggregateQuery_def)
  have counts: "wc_active (parseWorkerCounts row) = Finite (of_nat (online_count ?now ?d))"
    "wc_idle (parseWorkerCounts row) = Finite (of_nat (idle_count ?now ?d))"
    "wc_busy (parseWorkerCounts row) = Finite (of_nat (online_count ?now ?d - idle_count ?now ?d))"
    using row(3) count_number[OF assms(2)] busy
    by (auto simp: workerAggregateQuery_def parseWorkerCounts_def online_count_def idle_count_def)
  show ?thesis
    using row(1,2) le by (simp add: describeWorkerAvailability_def counts Let_def)
qed


text \<open>
  The reported capacity is the real one. The public answer counts exactly the workers whose
  last heartbeat is within their own timeout, splits them into idle and busy, says offline exactly
  when there is none, busy when there are some but none is idle, and leaves the tables alone.
\<close>

theorem availability_truthful:
  assumes "getWorkerAvailability w s = (Inr a, s')" "length (worker_instances (db s)) < 2 ^ 53"
  shows "db s' = db s \<and>
     onlineWorkers a = Finite (of_nat (online_count (stmt_now w s) (db s))) \<and>
     idleWorkers a = Finite (of_nat (idle_count (stmt_now w s) (db s))) \<and>
     busyWorkers a = Finite (of_nat (online_count (stmt_now w s) (db s) - idle_count (stmt_now w s) (db s))) \<and>
     capacity_status a =
       (if online_count (stmt_now w s) (db s) = 0 then Offline
        else if idle_count (stmt_now w s) (db s) = 0 then Busy else Available)"
  using assms by (rule getWorkerAvailability_Inr)

text \<open>Grouping: one entry per status that occurs.\<close>

lemma status_text_inj: "status_text a = status_text b \<longleftrightarrow> a = b"
  by (cases a; cases b) simp_all

lemma map_of_status:
  "map_of (map (\<lambda>st. (status_text st, f st)) sts) (status_text st) = (if st \<in> set sts then Some (f st) else None)"
  by (induction sts) (auto simp: status_text_inj)

lemma snapshot_run:
  assumes "getDurableOperationsSnapshot w s = (Inr a, s')"
  shows "db s' = db s \<and>
    jobCounts a = map (\<lambda>st. (status_text st, js_Number (count_text (\<lambda>j. status j = st) (jobs (db s)))))
      (sort (remdups (map status (jobs (db s))))) \<and>
    pendingOutboxEvents a = js_Number (count_text pending_event (outbox_events (db s))) \<and>
    (oldestPendingOutboxSeconds a = None \<longleftrightarrow> filter pending_event (outbox_events (db s)) = [])"
  using assms
  by (auto simp: getDurableOperationsSnapshot_def pool_query_def effect_simps select_job_counts_def
      select_queues_def workerAggregateQuery_def oldest_pending_def comp_def split_def split: list.splits)

text \<open>
  The operations snapshot counts what the tables hold: for every job status the number of jobs
  in it (a status without jobs has no entry), and the number of events still to be published; an
  oldest waiting time is reported exactly when there is such an event.
\<close>

theorem operations_counts:
  assumes "getDurableOperationsSnapshot w s = (Inr a, s')"
    "length (jobs (db s)) < 2 ^ 53" "length (outbox_events (db s)) < 2 ^ 53"
  shows "db s' = db s \<and>
    map_of (jobCounts a) (status_text st) =
      (if st \<in> status ` set (jobs (db s))
       then Some (Finite (of_nat (length (filter (\<lambda>j. status j = st) (jobs (db s)))))) else None) \<and>
    pendingOutboxEvents a = Finite (of_nat (length (filter pending_event (outbox_events (db s))))) \<and>
    (oldestPendingOutboxSeconds a = None) = (filter pending_event (outbox_events (db s)) = [])"
  using snapshot_run[OF assms(1)] count_number[OF assms(2)] count_number[OF assms(3)]
  by (simp add: map_of_status)

section \<open>Log records\<close>

lemma map_of_assign: "map_of (assign k v obj) k' = (if k' = k then Some v else map_of obj k')"
  by (induction k v obj rule: assign.induct) auto

lemma map_of_spread:
  "map_of (spread props obj) k = (case map_of (rev props) k of None \<Rightarrow> map_of obj k | Some v \<Rightarrow> Some v)"
proof (induction props arbitrary: obj)
  case (Cons p props)
  obtain k' v where p: "p = (k', v)" by fastforce
  have "map_of (spread (p # props) obj) k = map_of (spread props (assign k' v obj)) k"
    by (simp add: spread_def p)
  then show ?case
    using Cons.IH[of "assign k' v obj"] by (auto simp: p map_of_assign map_add_def split: option.splits)
qed (simp add: spread_def)

text \<open>
  Callers cannot forge the fixed fields of a log record. Whatever fields a caller passes, the
  record's timestamp, level, service, instance and event are those of the server, and inside a
  request so is its identifier. Outside a request a caller's requestId passes through.
\<close>

theorem log_fields_fixed:
  "map_of (log_record cx level event remainingFields err) ''timestamp'' = Some (LogText (log_timestamp cx)) \<and>
   map_of (log_record cx level event remainingFields err) ''level'' = Some (LogText (level_text level)) \<and>
   map_of (log_record cx level event remainingFields err) ''service'' = Some (LogText (log_service cx)) \<and>
   map_of (log_record cx level event remainingFields err) ''instanceId'' = Some (LogText (log_instance cx)) \<and>
   map_of (log_record cx level event remainingFields err) ''event'' = Some (LogText event) \<and>
   map_of (log_record (cx\<lparr>log_requestId := Some (c # rid)\<rparr>) level event remainingFields err) ''requestId'' =
     Some (LogText (c # rid)) \<and>
   map_of (log_record (cx\<lparr>log_requestId := None\<rparr>) level event remainingFields err) ''requestId'' =
     map_of (rev remainingFields) ''requestId''"
  by (auto simp: log_record_def map_of_spread split: option.splits)

section \<open>Witnesses\<close>

definition worker :: "string \<Rightarrow> worker_state \<Rightarrow> time \<Rightarrow> worker_instance" where
  "worker i st t = \<lparr>worker_id = i, worker_status = st, heartbeat_timeout_seconds = 30, last_heartbeat_at = t\<rparr>"

definition workers_db :: database where
  "workers_db = sample_db\<lparr>worker_instances := [worker ''a'' BUSY 0, worker ''b'' IDLE (- 60000)]\<rparr>"

theorem availability_truthful_witness:
  "capacity_status (describeWorkerAvailability \<lparr>active_workers = ''1'', idle_workers = ''0'',
     busy_workers = ''1'', recently_stale_workers = ''1''\<rparr>) = Busy"
proof -
  let ?row = "\<lparr>active_workers = ''1'', idle_workers = ''0'', busy_workers = ''1'', recently_stale_workers = ''1''\<rparr>"
  have q: "workerAggregateQuery u 0 workers_db = Inr ([?row], workers_db)" for u
    unfolding workerAggregateQuery_def by code_simp
  have run: "getWorkerAvailability quiet_world (idle_exec workers_db) =
      (Inr (describeWorkerAvailability ?row), after_query quiet_world workers_db (idle_exec workers_db))"
    by (simp add: getWorkerAvailability_def pool_query_def effect_simps q stmt_now_def idle_exec_def)
  have n: "online_count 0 workers_db = 1" "idle_count 0 workers_db = 0" by code_simp+
  show ?thesis
    using availability_truthful[OF run] n
    by (simp add: stmt_now_def idle_exec_def workers_db_def)
qed

theorem operations_counts_witness:
  "map_of (jobCounts (the (case fst (getDurableOperationsSnapshot quiet_world (idle_exec sample_db)) of
       Inr a \<Rightarrow> Some a | Inl e \<Rightarrow> None))) ''COMPLETED'' = Some (Finite 1)"
proof -
  obtain a s' where run: "getDurableOperationsSnapshot quiet_world (idle_exec sample_db) = (Inr a, s')"
    by (auto simp: getDurableOperationsSnapshot_def pool_query_def effect_simps select_job_counts_def
        select_queues_def workerAggregateQuery_def idle_exec_def)
  have j: "length (jobs sample_db) < 2 ^ 53" "length (outbox_events sample_db) < 2 ^ 53"
    "COMPLETED \<in> status ` set (jobs sample_db)"
    "length (filter (\<lambda>j. status j = COMPLETED) (jobs sample_db)) = 1"
    by (simp_all add: sample_db_def sample_job_def new_job_def)
  show ?thesis
    using operations_counts[OF run, of COMPLETED] j by (simp add: run)
qed

end
