(* ===== verification/Server.thy ===== *)
theory Server
  imports AuthRoutes JobRoutes Operations
begin

text \<open>
  The request pipeline of backend/src/server.ts: middleware and routers in the order they are
  mounted, with middleware/rateLimits.ts in front. Paths are matched segment by segment as Express
  does (literal segments without regard to case, one trailing slash ignored; a path parameter is
  taken as it stands). Helmet and the CORS headers do not change what is answered and are left
  out; what \<open>express.json\<close> makes of the body, and whether a limiter is exhausted, are given.
\<close>

section \<open>Requests\<close>

datatype limiter = ApiLimit | UploadLimit | AuthenticationLimit

fun limit_message :: "limiter \<Rightarrow> string" where
  "limit_message ApiLimit = ''Too many API requests. Please try again later.''"
| "limit_message UploadLimit = ''Too many upload requests. Please try again later.''"
| "limit_message AuthenticationLimit = ''Too many authentication attempts. Please try again later.''"

record raw_request =
  rq_method :: string
  rq_path :: string
  rq_cookie :: "string option"
  rq_origin :: "string option"
  rq_body :: "error + json"

record server_runtime =
  sv_security :: SecurityConfiguration
  sv_auth :: auth_runtime
  sv_jobs :: job_runtime
  sv_sign_put :: "PutObjectCommand \<Rightarrow> error + string"
  sv_uuid :: string
  sv_limited :: "limiter \<Rightarrow> bool"
  sv_production :: bool
  sv_instance :: string
  sv_uptime :: rat
  sv_metrics :: http_metrics

datatype server_response =
    ApiResponse response
  | AvailabilityResponse WorkerAvailability
  | OperationsResponse operations_report
  | HealthResponse nat string

definition segments :: "string \<Rightarrow> string list" where
  "segments path =
     (let parts = tl (js_split (CHR ''/'') path)
      in if parts \<noteq> [] \<and> last parts = [] then butlast parts else parts)"

text \<open>What remains of a path below a mount point.\<close>

fun below :: "string list \<Rightarrow> string list \<Rightarrow> string list option" where
  "below [] segs = Some segs"
| "below (p # ps) [] = None"
| "below (p # ps) (x # xs) = (if toLowerCase x = p then below ps xs else None)"

definition is_get :: "string \<Rightarrow> bool" where
  "is_get m \<longleftrightarrow> m = ''GET'' \<or> m = ''HEAD''"

text \<open>Literal segments of a route.\<close>

definition route_at :: "string list \<Rightarrow> string list \<Rightarrow> bool" where
  "route_at ps segs \<longleftrightarrow> map toLowerCase segs = ps"

definition with_limit :: "server_runtime \<Rightarrow> limiter \<Rightarrow> server_response eff \<Rightarrow> server_response eff" where
  "with_limit sr l route =
     (if sv_limited sr l then returnM (ApiResponse (fail_reply 429 (limit_message l))) else route)"

definition api :: "response eff \<Rightarrow> server_response eff" where
  "api route = bindM route (\<lambda>r. returnM (ApiResponse r))"

definition notFoundHandler :: "server_response eff" where
  "notFoundHandler = returnM (ApiResponse (fail_reply 404 ''Route not found''))"

section \<open>Routers\<close>

definition jobs_router :: "server_runtime \<Rightarrow> string \<Rightarrow> string list \<Rightarrow> http_request \<Rightarrow> server_response eff" where
  "jobs_router sr m segs req =
     (case segs of
        [] \<Rightarrow> if m = ''POST'' then api (post_job (sv_jobs sr) req)
              else if is_get m then api (get_jobs req) else notFoundHandler
      | [i] \<Rightarrow> if is_get m then api (get_job (sv_jobs sr) i req) else notFoundHandler
      | [i, a] \<Rightarrow>
          if m = ''POST'' \<and> toLowerCase a = ''cancel'' then api (post_cancel (sv_jobs sr) i req)
          else if is_get m \<and> toLowerCase a = ''downloads'' then api (get_downloads (sv_jobs sr) i req)
          else notFoundHandler
      | _ \<Rightarrow> notFoundHandler)"

definition uploads_router :: "server_runtime \<Rightarrow> string \<Rightarrow> string list \<Rightarrow> http_request \<Rightarrow> server_response eff" where
  "uploads_router sr m segs req =
     (if m = ''POST'' \<and> route_at [''presign''] segs
      then api (post_presign (sv_jobs sr) (sv_sign_put sr) (sv_uuid sr) req) else notFoundHandler)"

definition account_router :: "server_runtime \<Rightarrow> string \<Rightarrow> string list \<Rightarrow> http_request \<Rightarrow> server_response eff" where
  "account_router sr m segs req =
     (if req_authenticatedUser req = None
      then api (require_account (\<lambda>_. returnM (reply 204 NoBody)) req)
      else if is_get m \<and> route_at [''sessions''] segs
      then api (require_account (get_sessions (sv_auth sr)) req)
      else if m = ''POST'' \<and> route_at [''sessions'', ''revoke-others''] segs
      then api (require_account (post_revoke_others (sv_auth sr)) req)
      else if m = ''POST'' \<and> route_at [''password''] segs
      then with_limit sr AuthenticationLimit (api (require_account (post_password (sv_auth sr)) req))
      else if m = ''POST'' \<and> route_at [''account''] segs
      then with_limit sr AuthenticationLimit
             (api (require_account (post_account (rt_config (sv_jobs sr)) (sv_auth sr)) req))
      else notFoundHandler)"

definition auth_router :: "server_runtime \<Rightarrow> string \<Rightarrow> string list \<Rightarrow> http_request \<Rightarrow> server_response eff" where
  "auth_router sr m segs req =
     (if is_get m \<and> route_at [''me''] segs then api (get_me req)
      else if m = ''POST'' \<and> route_at [''register''] segs
      then with_limit sr AuthenticationLimit (api (post_register (sv_auth sr) req))
      else if m = ''POST'' \<and> route_at [''login''] segs
      then with_limit sr AuthenticationLimit (api (post_login (sv_auth sr) req))
      else if m = ''POST'' \<and> route_at [''logout''] segs then api (post_logout (sv_auth sr) req)
      else account_router sr m segs req)"

definition request_of :: "raw_request \<Rightarrow> json \<Rightarrow> RequestPrincipal \<Rightarrow> http_request" where
  "request_of rq body p =
     \<lparr>req_cookie = rq_cookie rq, req_body = body, req_ownerId = principal_ownerId p,
      req_anonymousOwnerId = principal_anonymousOwnerId p, req_authenticatedUser = principal_user p\<rparr>"

definition anonymous_request :: "raw_request \<Rightarrow> json \<Rightarrow> http_request" where
  "anonymous_request rq body =
     \<lparr>req_cookie = rq_cookie rq, req_body = body, req_ownerId = [], req_anonymousOwnerId = [],
      req_authenticatedUser = None\<rparr>"

text \<open>\<open>requirePrincipal\<close> in front of a router.\<close>

definition with_principal ::
    "server_runtime \<Rightarrow> raw_request \<Rightarrow> json \<Rightarrow> (http_request \<Rightarrow> server_response eff) \<Rightarrow> server_response eff" where
  "with_principal sr rq body router =
     bindM (requirePrincipal (rt_auth (sv_auth sr)) (rq_cookie rq)) (\<lambda>g.
       case g of
         Unauthorized m \<Rightarrow> returnM (ApiResponse (fail_reply 401 m))
       | Forward p \<Rightarrow> router (request_of rq body p)
       | Forward_error e \<Rightarrow> throwM e)"

definition session_router :: "server_runtime \<Rightarrow> string \<Rightarrow> string list \<Rightarrow> http_request \<Rightarrow> server_response eff" where
  "session_router sr m segs req =
     (if m = ''POST'' \<and> segs = []
      then returnM (ApiResponse (post_session (sv_auth sr) (sv_uuid sr) req)) else notFoundHandler)"

definition system_router :: "string \<Rightarrow> string list \<Rightarrow> server_response eff" where
  "system_router m segs =
     (if is_get m \<and> route_at [''availability''] segs
      then bindM get_availability (\<lambda>a. returnM (AvailabilityResponse a)) else notFoundHandler)"

section \<open>The application\<close>

definition api_routes :: "server_runtime \<Rightarrow> raw_request \<Rightarrow> json \<Rightarrow> string list \<Rightarrow> server_response eff" where
  "api_routes sr rq body segs =
     (case below [''session''] segs of Some rest \<Rightarrow> session_router sr (rq_method rq) rest (anonymous_request rq body)
      | None \<Rightarrow>
     (case below [''system''] segs of Some rest \<Rightarrow> system_router (rq_method rq) rest
      | None \<Rightarrow>
     (case below [''auth''] segs of
        Some rest \<Rightarrow> with_principal sr rq body (auth_router sr (rq_method rq) rest)
      | None \<Rightarrow>
     (case below [''uploads''] segs of
        Some rest \<Rightarrow> with_principal sr rq body (\<lambda>req.
          with_limit sr UploadLimit (uploads_router sr (rq_method rq) rest req))
      | None \<Rightarrow>
     (case below [''jobs''] segs of
        Some rest \<Rightarrow> with_principal sr rq body (jobs_router sr (rq_method rq) rest)
      | None \<Rightarrow> notFoundHandler)))))"

definition select_one :: "unit stmt" where
  "select_one _ now d = Inr ((), d)"

definition ready :: "server_response eff" where
  "ready = catchM (bindM (pool_query select_one) (\<lambda>_. returnM (HealthResponse 200 ''ready'')))
             (\<lambda>_. returnM (HealthResponse 503 ''not ready''))"

definition db_health :: "server_response eff" where
  "db_health = catchM (bindM (pool_query select_one) (\<lambda>_. returnM (HealthResponse 200 ''connected'')))
                 (\<lambda>_. returnM (HealthResponse 500 ''disconnected''))"

definition other_routes :: "server_runtime \<Rightarrow> string \<Rightarrow> string list \<Rightarrow> server_response eff" where
  "other_routes sr m segs =
     (if is_get m \<and> route_at [''health''] segs then returnM (HealthResponse 200 ''ok'')
      else if is_get m \<and> route_at [''ready''] segs then ready
      else if \<not> sv_production sr \<and> is_get m \<and> route_at [''db-health''] segs then db_health
      else if is_get m \<and> route_at [''internal'', ''operations''] segs
      then bindM (get_operations (sv_instance sr) (sv_uptime sr) (sv_metrics sr))
             (\<lambda>r. returnM (OperationsResponse r))
      else notFoundHandler)"

definition application :: "server_runtime \<Rightarrow> raw_request \<Rightarrow> server_response eff" where
  "application sr rq =
     (if rq_method rq = ''OPTIONS'' \<and> isAllowedOrigin (sv_security sr) (rq_origin rq)
      then returnM (ApiResponse (reply 204 NoBody))
      else case rq_body rq of
        Inl e \<Rightarrow> throwM e
      | Inr body \<Rightarrow>
          (case below [''api''] (segments (rq_path rq)) of
             None \<Rightarrow> other_routes sr (rq_method rq) (segments (rq_path rq))
           | Some segs \<Rightarrow>
               (case requireAllowedOrigin (sv_security sr) (rq_origin rq) of
                  Some r \<Rightarrow> returnM (ApiResponse r)
                | None \<Rightarrow> with_limit sr ApiLimit (api_routes sr rq body segs))))"

text \<open>Whatever is thrown, by a route or by the body parser, becomes the neutral 500 answer.\<close>

definition handle_request :: "server_runtime \<Rightarrow> raw_request \<Rightarrow> server_response eff" where
  "handle_request sr rq w s =
     (case application sr rq w s of
        (Inl e, s') \<Rightarrow> (Inr (ApiResponse (fail_reply 500 ''Internal server error'')), s')
      | (Inr r, s') \<Rightarrow> (Inr r, s'))"


section \<open>What requests keep\<close>

text \<open>
  A property \<open>I\<close> of the tables that every statement of the services keeps, as far as it concerns
  the rows of owners for whom \<open>acts\<close> holds. Deleting an account is a contract of its own: between
  its statements less is known than before and after it.
\<close>

text \<open>A request whose owners, visitor and account, may act.\<close>

definition may_act :: "(uuid \<Rightarrow> bool) \<Rightarrow> http_request \<Rightarrow> bool" where
  "may_act acts req \<longleftrightarrow> acts (req_ownerId req) \<and> acts (req_anonymousOwnerId req) \<and>
     (\<forall>u. req_authenticatedUser req = Some u \<longrightarrow> acts (auth_id u))"

lemma preserves_pool [preserves_intros]: "stmt_preserves I q \<Longrightarrow> preserves I (pool_query q)"
  unfolding pool_query_def by (rule preserves_query)

lemma preserves_liftE [preserves_intros]: "preserves I (liftE r)"
  by (cases r) (simp_all add: liftE_def preserves_return preserves_throw)

lemma preserves_catch [preserves_intros]:
  assumes "preserves I m" "\<And>e. preserves I (h e)"
  shows "preserves I (catchM m h)"
  unfolding preserves_def
proof (intro allI impI)
  fix w s
  assume s: "exec_ok I s"
  obtain r s1 where m: "m w s = (r, s1)" by fastforce
  then have "exec_ok I s1" using assms(1) s unfolding preserves_def by (metis snd_conv)
  then show "exec_ok I (snd (catchM m h w s))"
    using assms(2) m by (cases r) (auto simp: catchM_def preserves_def)
qed

lemma preserves_cases [preserves_intros]:
  "(\<And>a. preserves I (f a)) \<Longrightarrow> (\<And>b. preserves I (g b)) \<Longrightarrow> preserves I (case r of Inl a \<Rightarrow> f a | Inr b \<Rightarrow> g b)"
  "(\<And>a b. preserves I (h a b)) \<Longrightarrow> preserves I (case p of (a, b) \<Rightarrow> h a b)"
  by (cases r; simp) (cases p; simp)

lemma preserves_case_error [preserves_intros]:
  assumes "\<And>a. preserves I (f1 a)" "\<And>a. preserves I (f2 a)" "\<And>a. preserves I (f3 a)"
    "\<And>a. preserves I (f4 a)" "\<And>a. preserves I (f5 a)" "\<And>a. preserves I (f6 a)"
    "\<And>a. preserves I (f7 a)" "\<And>a. preserves I (f8 a)" "\<And>a. preserves I (f9 a)"
  shows "preserves I (case_error f1 f2 f3 f4 f5 f6 f7 f8 f9 e)"
  using assms by (cases e) simp_all

lemma preserves_case_cancel [preserves_intros]:
  assumes "\<And>a. preserves I (f1 a)" "preserves I f2" "\<And>a. preserves I (f3 a)"
  shows "preserves I (case_CancelJobResult f1 f2 f3 r)"
  using assms by (cases r) simp_all

lemma preserves_case_list [preserves_intros]:
  "preserves I f \<Longrightarrow> (\<And>x xs. preserves I (g x xs)) \<Longrightarrow> preserves I (case l of [] \<Rightarrow> f | x # xs \<Rightarrow> g x xs)"
  by (cases l) simp_all

lemma preserves_let [preserves_intros]: "(\<And>v. preserves I (f v)) \<Longrightarrow> preserves I (Let x f)"
  by (simp add: Let_def)

lemma principal_user_owner:
  "principal_of env h now d = Some p \<Longrightarrow> principal_user p = Some u \<Longrightarrow> principal_ownerId p = auth_id u"
  by (auto simp: principal_of_def visitor_principal_def user_principal_def split: option.splits if_splits)

locale request_invariant =
  fixes I :: "database \<Rightarrow> bool" and acts :: "uuid \<Rightarrow> bool"
  assumes account_writes: "stmt_preserves I (update_revoked t)" "stmt_preserves I (insert_session user t ex)"
      "stmt_preserves I (insert_user name hash)" "stmt_preserves I (select_user_by_session token)"
      "stmt_preserves I (update_password user hash)"
      "stmt_preserves I (update_other_sessions user t)" "stmt_preserves I (update_other_active_sessions user t)"
    and job_writes: "stmt_preserves I (insert_event tp k b)" "stmt_preserves I (insert_job owner name key)"
      "acts owner \<Longrightarrow> stmt_preserves I (update_cancelled h i owner)"
      "acts anon \<Longrightarrow> stmt_preserves I (update_adopted anon user)"
    and deletion: "acts user \<Longrightarrow> preserves I (deleteUserAccount cfg user)"
begin

lemmas writes_preserve [preserves_intros] = account_writes job_writes deletion

text \<open>Reads keep everything.\<close>

lemma reads_preserve [preserves_intros]:
  "stmt_preserves I (select_user_for_login name)" "stmt_preserves I (select_password_hash user)"
  "stmt_preserves I (select_active_sessions user)" "stmt_preserves I workerAggregateQuery"
  "stmt_preserves I select_job_counts" "stmt_preserves I select_queues" "stmt_preserves I select_one"
  by (rule read_only_preserves, auto simp: sql_defs Let_def workerAggregateQuery_def select_job_counts_def
      select_queues_def select_one_def)+

subsubsection \<open>Service operations\<close>

lemma keeps_createJob [preserves_intros]: "preserves I (createJob cfg owner name key)"
  unfolding createJob_def createJob_body_def by (intro preserves_intros)

lemma keeps_cancelJob [preserves_intros]:
  "acts owner \<Longrightarrow> preserves I (cancelJob cfg i owner)"
  unfolding cancelJob_def cancelJob_body_def by (intro preserves_intros)

lemma keeps_reads [preserves_intros]:
  "preserves I (findOwnedJob i owner)" "preserves I (findRecentOwnedJobs owner)"
  "preserves I (countActiveOwnedJobs owner)" "preserves I (findUserForLogin name)"
  "preserves I (findPasswordHashForUser user)" "preserves I (listActiveUserSessions user t)"
  "preserves I (revokeUserSession t)" "preserves I (revokeOtherUserSessions user t)"
  "preserves I (findUserByActiveSession t)"
  unfolding findOwnedJob_def findRecentOwnedJobs_def countActiveOwnedJobs_def findUserForLogin_def
    findPasswordHashForUser_def listActiveUserSessions_def revokeUserSession_def
    revokeOtherUserSessions_def findUserByActiveSession_def
  by (intro preserves_intros)+

lemma keeps_login [preserves_intros]:
  assumes "acts (anonymousOwnerId input)"
  shows "preserves I (createUserSession user input)"
    "preserves I (registerUser name hash input)"
  unfolding createUserSession_def createUserSession_body_def registerUser_def registerUser_body_def
    adoptAnonymousJobs_def insertUserSession_def
  by (intro preserves_intros assms)+

lemma keeps_password_change [preserves_intros]: "preserves I (changeUserPassword user hash t)"
  unfolding changeUserPassword_def changeUserPassword_body_def by (intro preserves_intros)


subsubsection \<open>Routes\<close>

lemma keeps_post_job [preserves_intros]: "preserves I (post_job rt req)"
  unfolding post_job_def by (intro preserves_intros)

lemma keeps_post_cancel [preserves_intros]:
  "acts (req_ownerId req) \<Longrightarrow> preserves I (post_cancel rt i req)"
  unfolding post_cancel_def by (intro preserves_intros)

lemma keeps_job_reads [preserves_intros]:
  "preserves I (get_jobs req)" "preserves I (get_job rt i req)"
  "preserves I (get_downloads rt i req)" "preserves I (post_presign rt sp u req)"
  unfolding get_jobs_def get_job_def get_downloads_def post_presign_def
  by (intro preserves_intros)+

lemma keeps_with_current [preserves_intros]:
  "(\<And>h u. preserves I (f h u)) \<Longrightarrow> preserves I (with_current rt req f)"
  unfolding with_current_def by (intro preserves_intros)

lemma keeps_account_routes [preserves_intros]:
  "preserves I (get_me req)" "preserves I (post_logout rt req)"
  "preserves I (get_sessions rt req)" "preserves I (post_revoke_others rt req)"
  "preserves I (post_password rt req)"
  unfolding get_me_def post_logout_def get_sessions_def post_revoke_others_def post_password_def
  by (intro preserves_intros)+

lemma keeps_login_routes [preserves_intros]:
  assumes "may_act acts req"
  shows "preserves I (post_login rt req)" "preserves I (post_register rt req)"
    "preserves I (post_account cfg rt req)"
proof -
  have o: "acts (anonymousOwnerId (session_input sv (req_anonymousOwnerId req)))" for sv
    using assms by (simp add: may_act_def session_input_def)
  show "preserves I (post_login rt req)" "preserves I (post_register rt req)"
    unfolding post_login_def post_register_def password_matches_def by (intro preserves_intros o)+
  show "preserves I (post_account cfg rt req)"
    using assms unfolding post_account_def may_act_def
    by (auto split: sum.splits option.splits intro!: preserves_intros)
qed

lemma keeps_require_account [preserves_intros]:
  "preserves I (route req) \<Longrightarrow> preserves I (require_account route req)"
  unfolding require_account_def by (auto intro!: preserves_intros)

lemma keeps_wrappers [preserves_intros]:
  "preserves I m \<Longrightarrow> preserves I (api m)"
  "preserves I r \<Longrightarrow> preserves I (with_limit sr l r)"
  "preserves I notFoundHandler" "preserves I getWorkerAvailability"
  "preserves I getDurableOperationsSnapshot"
  unfolding api_def with_limit_def notFoundHandler_def getWorkerAvailability_def
    getDurableOperationsSnapshot_def
  by (auto intro!: preserves_intros split: option.splits)

lemma keeps_jobs_router:
  "may_act acts req \<Longrightarrow> preserves I (jobs_router sr m segs req)"
  unfolding jobs_router_def may_act_def by (elim conjE) (intro preserves_intros; assumption)

lemma keeps_uploads_router: "preserves I (uploads_router sr m segs req)"
  unfolding uploads_router_def by (intro preserves_intros)

lemma keeps_account_router:
  "may_act acts req \<Longrightarrow> preserves I (account_router sr m segs req)"
  unfolding account_router_def by (intro preserves_intros; assumption)

lemma keeps_auth_router:
  "may_act acts req \<Longrightarrow> preserves I (auth_router sr m segs req)"
  unfolding auth_router_def by (intro preserves_intros keeps_account_router; assumption)

lemma keeps_public [preserves_intros]:
  "preserves I (session_router sr m segs req)" "preserves I (system_router m segs)"
  "preserves I (other_routes sr m segs)"
  unfolding session_router_def system_router_def other_routes_def ready_def db_health_def
    get_availability_def get_operations_def
  by (auto intro!: preserves_intros)

subsubsection \<open>The guard in front of the routers\<close>

lemma keeps_guard: "preserves I (requirePrincipal env h)"
proof -
  have r: "preserves I (resolveRequestPrincipal env h)"
    unfolding resolveRequestPrincipal_def by (intro preserves_intros)
  show ?thesis
    unfolding preserves_def
  proof (intro allI impI)
    fix w s
    assume "exec_ok I s"
    then have "exec_ok I (snd (resolveRequestPrincipal env h w s))"
      using r by (simp add: preserves_def)
    then show "exec_ok I (snd (requirePrincipal env h w s))"
      by (auto simp: requirePrincipal_def split: prod.splits sum.splits option.splits)
  qed
qed

text \<open>
  The owners that the cookies of a request prove are the only ones for whom its handlers act.
\<close>

lemma with_principal_keeps:
  assumes sig: "signer (env_sign (rt_auth (sv_auth sr)))" and ok: "db_ok (db s)" and s: "exec_ok I s"
    and nt: "\<And>p. principal_of (rt_auth (sv_auth sr)) (rq_cookie rq) (stmt_now w s) (db s) = Some p \<Longrightarrow>
      acts (principal_ownerId p) \<and> acts (principal_anonymousOwnerId p)"
    and router: "\<And>req. may_act acts req \<Longrightarrow> preserves I (router req)"
  shows "exec_ok I (snd (with_principal sr rq body router w s))"
proof -
  obtain g s1 where g: "requirePrincipal (rt_auth (sv_auth sr)) (rq_cookie rq) w s = (g, s1)" by fastforce
  have s1: "exec_ok I s1" using keeps_guard s g unfolding preserves_def by (metis snd_conv)
  show ?thesis
  proof (cases "\<exists>p. g = Inr (Forward p)")
    case True
    then obtain p where p: "g = Inr (Forward p)" by blast
    then have "principal_of (rt_auth (sv_auth sr)) (rq_cookie rq) (stmt_now w s) (db s) = Some p"
      using resolveRequestPrincipal_Inr(1)[OF sig ok] requirePrincipal_Forward g by metis
    then have "may_act acts (request_of rq body p)"
      using nt principal_user_owner by (auto simp: may_act_def request_of_def)
    then show ?thesis using router s1 g p by (auto simp: with_principal_def bindM_def preserves_def)
  next
    case False
    then show ?thesis
      using s1 g by (auto simp: with_principal_def bindM_def returnM_def throwM_def
          split: sum.splits guard_outcome.splits)
  qed
qed

lemma request_keeps:
  assumes sig: "signer (env_sign (rt_auth (sv_auth sr)))" and ok: "db_ok (db s)" and s: "exec_ok I s"
    and nt: "\<And>p. principal_of (rt_auth (sv_auth sr)) (rq_cookie rq) (stmt_now w s) (db s) = Some p \<Longrightarrow>
      acts (principal_ownerId p) \<and> acts (principal_anonymousOwnerId p)"
  shows "exec_ok I (snd (handle_request sr rq w s))"
proof -
  note wp = with_principal_keeps[OF sig ok s nt]
  have keep: "exec_ok I (snd (m w s))" if "preserves I m" for m :: "server_response eff"
    using that s by (simp add: preserves_def)
  have upload: "preserves I (with_limit sr UploadLimit (uploads_router sr (rq_method rq) rest req))"
    for rest req by (intro preserves_intros keeps_uploads_router)
  have routes: "exec_ok I (snd (api_routes sr rq body segs w s))" for body segs
    unfolding api_routes_def
    using keep[OF keeps_public(1)] keep[OF keeps_public(2)] keep[OF keeps_wrappers(3)]
      wp[OF _ keeps_auth_router] wp[OF _ upload] wp[OF _ keeps_jobs_router]
    by (auto split: option.split)
  have limited: "exec_ok I (snd (with_limit sr ApiLimit (api_routes sr rq body segs) w s))" for body segs
    using routes s by (auto simp: with_limit_def returnM_def)
  have "exec_ok I (snd (application sr rq w s))"
    unfolding application_def
    using limited s keep[OF keeps_public(3)]
    by (auto simp: returnM_def throwM_def split: sum.split option.split)
  then show ?thesis by (auto simp: handle_request_def split: prod.splits sum.splits)
qed

end

section \<open>Rows of other owners\<close>

definition has_job :: "job \<Rightarrow> database \<Rightarrow> bool" where
  "has_job j d \<longleftrightarrow> j \<in> set (jobs d)"

lemma has_job_same_jobs:
  "(\<And>u t d a d'. q u t d = Inr (a, d') \<Longrightarrow> jobs d' = jobs d) \<Longrightarrow> stmt_preserves (has_job j) q"
  by (rule stmt_preservesI) (metis has_job_def)

lemma has_job_account_stmts:
  "stmt_preserves (has_job j) (update_revoked t)" "stmt_preserves (has_job j) (insert_session user t ex)"
  "stmt_preserves (has_job j) (insert_user name hash)" "stmt_preserves (has_job j) (select_user_by_session t)"
  "stmt_preserves (has_job j) (update_password user hash)"
  "stmt_preserves (has_job j) (update_other_sessions user t)"
  "stmt_preserves (has_job j) (update_other_active_sessions user t)"
  "stmt_preserves (has_job j) (delete_user user)" "stmt_preserves (has_job j) (insert_event tp k b)"
  by (rule has_job_same_jobs, auto simp: sql_defs Let_def)+

lemma has_job_job_stmts:
  "stmt_preserves (has_job j) (insert_job owner name key)"
  "owner_id j \<noteq> owner \<Longrightarrow> stmt_preserves (has_job j) (update_cancelled h i owner)"
  "owner_id j \<noteq> anon \<Longrightarrow> stmt_preserves (has_job j) (update_adopted anon user)"
  "owner_id j \<noteq> user \<Longrightarrow> stmt_preserves (has_job j) (cancel_owned_jobs user tp)"
  "owner_id j \<noteq> user \<Longrightarrow> stmt_preserves (has_job j) (expire_owned_jobs user)"
  "owner_id j \<noteq> user \<Longrightarrow> stmt_preserves (has_job j) (delete_cleaned_jobs user)"
  by (rule stmt_preservesI,
      auto simp: sql_defs has_job_def set_update_where cancellable_def owned_active_def delete_where_def Let_def)+

lemma has_job_deletion: "owner_id j \<noteq> user \<Longrightarrow> preserves (has_job j) (deleteUserAccount cfg user)"
  unfolding deleteUserAccount_def deleteUserAccount_body_def
  by (intro preserves_intros has_job_account_stmts has_job_job_stmts; assumption)

interpretation foreign_row: request_invariant "has_job j" "\<lambda>owner. owner_id j \<noteq> owner" for j
  by unfold_locales (simp_all add: has_job_account_stmts has_job_job_stmts has_job_deletion)

text \<open>Who may be behind a request, and that the request then belongs to them.\<close>

definition not_theirs :: "server_runtime \<Rightarrow> raw_request \<Rightarrow> time \<Rightarrow> database \<Rightarrow> job \<Rightarrow> bool" where
  "not_theirs sr rq now d j \<longleftrightarrow>
     (case principal_of (rt_auth (sv_auth sr)) (rq_cookie rq) now d of
        None \<Rightarrow> True
      | Some p \<Rightarrow> owner_id j \<noteq> principal_ownerId p \<and> owner_id j \<noteq> principal_anonymousOwnerId p)"

text \<open>
  C2: no request touches the jobs of others. Whatever the request (any method, path, body, origin
  and cookies), whatever fails on the way, every job row whose owner is neither the account nor
  the visitor that the request's own cookies prove is still there afterwards, unchanged.
\<close>

theorem foreign_rows_untouched:
  assumes "env_sign (rt_auth (sv_auth sr)) = createSignature hmac secret" "db_ok (db s)" "idle s"
    "j \<in> set (jobs (db s))" "not_theirs sr rq (stmt_now w s) (db s) j"
  shows "j \<in> set (jobs (db (snd (handle_request sr rq w s))))"
proof -
  have "exec_ok (has_job j) s" using assms(3,4) by (simp add: exec_ok_def has_job_def idle_def)
  then have "exec_ok (has_job j) (snd (handle_request sr rq w s))"
    using assms(1,2,5) by (intro foreign_row.request_keeps) (auto simp: createSignature_signer not_theirs_def)
  then show ?thesis by (simp add: exec_ok_def has_job_def)
qed

text \<open>
  C9: the interface needs an allowed origin, and uploads, jobs and accounts a proven session as
  well. Whatever its cookies hold, a request below /api with a readable body is answered 403 when
  its Origin is not an allowed one, and otherwise 429 when the client's limit is exhausted (a
  preflight request apart). One to the uploads, jobs or account routes that passes both is
  answered 401 when its cookies hold no validly signed session. In all three cases nothing in the
  tables changes, and no statement is sent to the database.
\<close>

theorem protected_routes_guarded:
  assumes "below [''api''] (segments (rq_path rq)) = Some segs" "rq_body rq = Inr body"
  shows "(\<not> isAllowedOrigin (sv_security sr) (rq_origin rq) \<longrightarrow>
       handle_request sr rq w s =
         (Inr (ApiResponse (fail_reply 403 ''Request origin is not allowed'')), s)) \<and>
    (isAllowedOrigin (sv_security sr) (rq_origin rq) \<and> rq_method rq \<noteq> ''OPTIONS'' \<and> sv_limited sr ApiLimit \<longrightarrow>
       handle_request sr rq w s = (Inr (ApiResponse (fail_reply 429 (limit_message ApiLimit))), s)) \<and>
    (isAllowedOrigin (sv_security sr) (rq_origin rq) \<and> rq_method rq \<noteq> ''OPTIONS'' \<and> \<not> sv_limited sr ApiLimit \<and>
       (below [''auth''] segs \<noteq> None \<or> below [''uploads''] segs \<noteq> None \<or> below [''jobs''] segs \<noteq> None) \<and>
       readSessionId (env_parseCookie (rt_auth (sv_auth sr))) (env_sign (rt_auth (sv_auth sr))) (rq_cookie rq) = None
       \<longrightarrow> handle_request sr rq w s =
         (Inr (ApiResponse (fail_reply 401 ''A valid browser session is required'')), s))"
proof -
  have routes: "api_routes sr rq body segs w s =
      (Inr (ApiResponse (fail_reply 401 ''A valid browser session is required'')), s)"
    if b: "below [''auth''] segs \<noteq> None \<or> below [''uploads''] segs \<noteq> None \<or> below [''jobs''] segs \<noteq> None"
      and c: "readSessionId (env_parseCookie (rt_auth (sv_auth sr))) (env_sign (rt_auth (sv_auth sr)))
        (rq_cookie rq) = None"
  proof -
    have r: "resolveRequestPrincipal (rt_auth (sv_auth sr)) (rq_cookie rq) w s = (Inr None, s)"
      using c by (simp add: resolveRequestPrincipal_def returnM_def)
    have g: "with_principal sr rq body router w s =
        (Inr (ApiResponse (fail_reply 401 ''A valid browser session is required'')), s)" for router
      by (simp add: with_principal_def bindM_def requirePrincipal_def r returnM_def)
    obtain x xs where segs: "segs = x # xs" using b by (cases segs) auto
    show ?thesis using b g unfolding segs by (auto simp: api_routes_def)
  qed
  show ?thesis
    using assms routes
    by (simp add: handle_request_def application_def requireAllowedOrigin_def with_limit_def returnM_def)
qed

text \<open>A body that cannot be parsed is reported as a server failure, whatever the parser says.\<close>

lemma unreadable_body_is_500:
  assumes "rq_body rq = Inl e" "rq_method rq \<noteq> ''OPTIONS''"
  shows "handle_request sr rq w s = (Inr (ApiResponse (fail_reply 500 ''Internal server error'')), s)"
  using assms by (simp add: handle_request_def application_def throwM_def)

section \<open>Witnesses\<close>

definition sample_server :: server_runtime where
  "sample_server = \<lparr>sv_security = \<lparr>allowedOrigins = [''http://localhost:5173''], sessionCookieSecure = False\<rparr>,
     sv_auth = sample_rt, sv_jobs = sample_job_rt, sv_sign_put = (\<lambda>c. Inr (put_Key c)),
     sv_uuid = sample_uuid, sv_limited = (\<lambda>_. False), sv_production = False, sv_instance = ''h'',
     sv_uptime = 1, sv_metrics = zero_metrics\<rparr>"

definition sample_get :: "string \<Rightarrow> string option \<Rightarrow> raw_request" where
  "sample_get path cookie = \<lparr>rq_method = ''GET'', rq_path = path, rq_cookie = cookie, rq_origin = None,
     rq_body = Inr (JObject [])\<rparr>"


theorem foreign_rows_untouched_witness:
  "sample_job ''j3'' ''visitor'' PROCESSING \<in> set (jobs (db (snd (handle_request sample_server
     (sample_get ''/api/jobs'' (Some sample_header)) quiet_world (idle_exec session_db)))))"
proof -
  have n: "not_theirs sample_server (sample_get ''/api/jobs'' (Some sample_header)) 0 session_db
      (sample_job ''j3'' ''visitor'' PROCESSING)" by code_simp
  have ok: "db_ok session_db" by code_simp
  have j: "sample_job ''j3'' ''visitor'' PROCESSING \<in> set (jobs session_db)"
    by (simp add: session_db_def sample_db_def)
  have t: "stmt_now quiet_world (idle_exec session_db) = 0" by (simp add: stmt_now_def idle_exec_def)
  show ?thesis
    by (rule foreign_rows_untouched[of _ sample_hmac "''k''"])
      (simp_all add: n ok j t sample_server_def[THEN arg_cong, of "\<lambda>r. rt_auth (sv_auth r)"] sample_rt_def sample_env_def)
qed

text \<open>The examples: a request from a foreign page with the cookies of a login, and one without cookies.\<close>

theorem protected_routes_guarded_witness:
  "fst (handle_request sample_server ((sample_get ''/api/jobs/j1'' (Some sample_header))
       \<lparr>rq_origin := Some ''http://evil.example''\<rparr>) quiet_world (idle_exec session_db)) =
     Inr (ApiResponse (fail_reply 403 ''Request origin is not allowed'')) \<and>
   fst (handle_request sample_server (sample_get ''/api/jobs/j1'' None) quiet_world (idle_exec session_db)) =
     Inr (ApiResponse (fail_reply 401 ''A valid browser session is required''))"
proof -
  have p: "below [''api''] (segments ''/api/jobs/j1'') = Some [''jobs'', ''j1'']"
    "below [''jobs''] [''jobs'', ''j1''] \<noteq> None" by code_simp+
  have o: "\<not> isAllowedOrigin (sv_security sample_server) (Some ''http://evil.example'')"
    "isAllowedOrigin (sv_security sample_server) None"
    by (simp_all add: isAllowedOrigin_def sample_server_def)
  let ?foreign = "(sample_get ''/api/jobs/j1'' (Some sample_header))\<lparr>rq_origin := Some ''http://evil.example''\<rparr>"
  have "handle_request sample_server ?foreign quiet_world (idle_exec session_db) =
      (Inr (ApiResponse (fail_reply 403 ''Request origin is not allowed'')), idle_exec session_db)"
    using protected_routes_guarded[of ?foreign "[''jobs'', ''j1'']" "JObject []" sample_server] p o
    by (simp add: sample_get_def)
  moreover have "handle_request sample_server (sample_get ''/api/jobs/j1'' None) quiet_world (idle_exec session_db) =
      (Inr (ApiResponse (fail_reply 401 ''A valid browser session is required'')), idle_exec session_db)"
    using protected_routes_guarded[of "sample_get ''/api/jobs/j1'' None" "[''jobs'', ''j1'']" "JObject []" sample_server]
      p o
    by (simp add: sample_get_def readSessionId_def sample_server_def)
  ultimately show ?thesis by simp
qed

end
