(* ===== verification/Integrity.thy ===== *)
theory Integrity
  imports Server Processes
begin

text \<open>
  The tables stay well-formed: every statement that the server sends keeps the constraints of the
  schema and the life-cycle rules of jobs (\<open>db_ok\<close>), so that every request does, whatever it is and
  wherever it fails. The deletion of an account keeps them as a transaction only: between
  its statements a cancelled job has no storage deadline yet.
\<close>

section \<open>Statements\<close>

lemma accounts_ok_new_session:
  assumes "accounts_ok us ss" "length token = 64" "ident \<notin> set (map session_id ss)"
    "token \<notin> set (map token_hash ss)" "userId \<in> set (map user_id us)"
  shows "accounts_ok us (ss @ [new_session ident now userId token expires])"
  using assms by (auto simp: accounts_ok_def new_session_def)

lemma accounts_ok_new_user:
  assumes "accounts_ok us ss" "3 \<le> length name" "length name \<le> 30" "toLowerCase name = name"
    "ident \<notin> set (map user_id us)" "name \<notin> set (map username us)"
  shows "accounts_ok (us @ [new_user ident now name hash]) ss"
  using assms by (auto simp: accounts_ok_def new_user_def user_ok_def)

lemma session_updates_ok:
  "stmt_preserves db_ok (update_revoked t)" "stmt_preserves db_ok (select_user_by_session t)"
  "stmt_preserves db_ok (update_other_sessions user t)" "stmt_preserves db_ok (update_other_active_sessions user t)"
  by (rule stmt_preservesI,
      auto simp: sql_defs db_ok_def revoked_row_def touched_row_def ended_row_def Let_def
        intro!: accounts_ok_sessions_update)+

lemma account_updates_ok:
  "stmt_preserves db_ok (update_password user hash)" "stmt_preserves db_ok (insert_session user t ex)"
  "stmt_preserves db_ok (insert_user name hash)"
proof -
  show "stmt_preserves db_ok (update_password user hash)"
    by (rule stmt_preservesI) (auto simp: sql_defs db_ok_def password_row_def intro!: accounts_ok_users_update)
  show "stmt_preserves db_ok (insert_session user t ex)"
    by (rule stmt_preservesI) (auto simp: insert_session_def db_ok_def split: if_splits intro!: accounts_ok_new_session)
  show "stmt_preserves db_ok (insert_user name hash)"
    by (rule stmt_preservesI) (auto simp: insert_user_def db_ok_def Let_def split: if_splits intro!: accounts_ok_new_user)
qed

lemma adoption_ok: "stmt_preserves db_ok (update_adopted anon user)"
  by (rule stmt_preservesI)
    (auto simp: update_adopted_def db_ok_def adopted_row_def[abs_def] intro!: jobs_ok_update job_ok_adopted[unfolded adopted_row_def])

section \<open>A transaction as a whole\<close>

text \<open>A transaction keeps \<open>I\<close> when its body, run to its end, does; what happens before is rolled back.\<close>

lemma preserves_atomic:
  assumes body: "in_txn body" "straight body"
    and I: "\<And>w s a s1. I (db s) \<Longrightarrow> body w (txn_start w s) = (Inr a, s1) \<Longrightarrow> I (db s1)"
  shows "preserves I (transaction body)"
  unfolding preserves_def
proof (intro allI impI)
  fix w s
  assume s: "exec_ok I s"
  have s0: "s\<lparr>clients := Suc (clients s), tick := Suc (Suc (tick s)),
       txn_now := clock w (Suc (tick s)), snapshot := Some (db s), aborted := False\<rparr>
       = txn_start w s"
    by (simp add: txn_start_def)
  obtain r s1 where b: "body w (txn_start w s) = (r, s1)" by fastforce
  have s1: "snapshot s1 = Some (db s)" using in_txnD[OF body(1), of "txn_start w s" "db s" w] b by simp
  have end_ok: "I (db s1) \<and> \<not> aborted s1" if "r = Inr a" for a
    using that I s b body(2) unfolding straight_def exec_ok_def by (metis txn_start_simps(5))
  show "exec_ok I (snd (transaction body w s))"
    using s s1 b end_ok
    by (cases r) (auto simp: transaction_def with_client_def thenM_def bindM_def client_begin_def s0
        client_commit_def client_rollback_def throwM_def returnM_def restored_def Let_def exec_ok_def
        split: option.splits)
qed

lemma deletion_body:
  assumes "deleteUserAccount_body cfg userId w (txn_start w s) = (Inr x, s1)"
  shows "\<exists>uuids now. distinct (map event_id (outbox_events (deleted_db cfg userId uuids now (db s)))) \<and>
    db s1 = deleted_db cfg userId uuids now (db s)"
proof -
  have "length (filter (\<lambda>u. user_id u = userId) (users (db s))) = Suc 0"
    using assms by (auto simp: deleteUserAccount_body_def effect_simps sql_defs split: if_splits)
  then have "userId \<in> user_id ` set (users (db s))" using filter_length_pos by force
  then show ?thesis
    using assms
    by (intro exI[of _ "random_uuid w (Suc (Suc (tick s)))"] exI[of _ "clock w (Suc (tick s))"])
      (auto simp: deleteUserAccount_body_def deleted_db_def effect_simps sql_defs split: if_splits)
qed

lemma deletion_ok: "preserves db_ok (deleteUserAccount cfg user)"
  unfolding deleteUserAccount_def
proof (rule preserves_atomic)
  fix w s a s1
  assume ok: "db_ok (db s)" and b: "deleteUserAccount_body cfg user w (txn_start w s) = (Inr a, s1)"
  show "db_ok (db s1)" using deletion_body[OF b] deleted_db_ok[OF ok] by auto
qed (fact deleteUserAccount_txn)+

section \<open>Requests\<close>

interpretation schema: request_invariant db_ok "\<lambda>_. True"
  by unfold_locales
    (simp_all add: session_updates_ok account_updates_ok adoption_ok deletion_ok insert_event_preserves
      insert_job_preserves update_cancelled_preserves)

section \<open>Publishing and cleaning up\<close>

text \<open>The same contract for the two other monads: the publisher's, and the one with an object store.\<close>

definition preservesP :: "(database \<Rightarrow> bool) \<Rightarrow> 'a peff \<Rightarrow> bool" where
  "preservesP I m \<longleftrightarrow> (\<forall>w kw s r s'. exec_ok I (px s) \<longrightarrow> m w kw s = (r, s') \<longrightarrow> exec_ok I (px s'))"

definition preservesS :: "(database \<Rightarrow> bool) \<Rightarrow> 'a seff \<Rightarrow> bool" where
  "preservesS I m \<longleftrightarrow> (\<forall>w sw s r s'. exec_ok I (sx s) \<longrightarrow> m w sw s = Some (r, s') \<longrightarrow> exec_ok I (sx s'))"

lemma preservesD: "preserves I m \<Longrightarrow> exec_ok I s \<Longrightarrow> m w s = (r, s') \<Longrightarrow> exec_ok I s'"
  unfolding preserves_def by (metis snd_conv)

lemma preservesP_db: "preserves I m \<Longrightarrow> preservesP I (dbP m)"
  by (auto simp: preservesP_def dbP_def split: prod.splits dest: preservesD)

lemma preservesP_bind:
  assumes "preservesP I m" "\<And>a. preservesP I (f a)"
  shows "preservesP I (bindP m f)"
  unfolding preservesP_def
proof (intro allI impI)
  fix w kw s r s'
  assume s: "exec_ok I (px s)" and run: "bindP m f w kw s = (r, s')"
  obtain r1 s1 where m: "m w kw s = (r1, s1)" by fastforce
  have s1: "exec_ok I (px s1)" using assms(1) s m unfolding preservesP_def by blast
  show "exec_ok I (px s')"
    using run m s1 assms(2) unfolding preservesP_def by (cases r1) (auto simp: bindP_def)
qed

lemma preservesP_catch:
  assumes "preservesP I m" "\<And>e. preservesP I (h e)"
  shows "preservesP I (catchP m h)"
  unfolding preservesP_def
proof (intro allI impI)
  fix w kw s r s'
  assume s: "exec_ok I (px s)" and run: "catchP m h w kw s = (r, s')"
  obtain r1 s1 where m: "m w kw s = (r1, s1)" by fastforce
  have s1: "exec_ok I (px s1)" using assms(1) s m unfolding preservesP_def by blast
  show "exec_ok I (px s')"
    using run m s1 assms(2) unfolding preservesP_def by (cases r1) (auto simp: catchP_def)
qed

lemma connect_tables: "px (snd (connectKafkaProducer w kw s)) = px s"
  unfolding connectKafkaProducer_def Let_def by (cases "connect_error kw (kcalls s)"; simp)

lemma send_tables: "px (snd (producer_send m w kw s)) = px s"
  unfolding producer_send_def Let_def by (cases "send_result kw (kcalls s) m"; simp)

lemma preservesP_rest:
  "preservesP I (returnP a)" "preservesP I (throwP e)" "preservesP I connectKafkaProducer"
  "preservesP I (producer_send m)"
  unfolding preservesP_def returnP_def throwP_def
  by (simp_all, (metis connect_tables send_tables snd_conv)+)

lemma preservesP_finally: "preservesP I n \<Longrightarrow> preservesP I (finallyP n client_release)"
  unfolding preservesP_def
proof (intro allI impI)
  fix w kw s r s'
  assume n: "\<forall>w kw s r s'. exec_ok I (px s) \<longrightarrow> n w kw s = (r, s') \<longrightarrow> exec_ok I (px s')"
    and s: "exec_ok I (px s)" and run: "finallyP n client_release w kw s = (r, s')"
  obtain r1 s1 where m: "n w kw s = (r1, s1)" by fastforce
  then have "exec_ok I (px s1)" using n s by blast
  then show "exec_ok I (px s')" using run m by (auto simp: finallyP_def client_release_def)
qed

lemma preservesS_db: "preserves I m \<Longrightarrow> preservesS I (dbS m)"
  by (auto simp: preservesS_def dbS_def split: prod.splits dest: preservesD)

lemma preservesS_bind:
  assumes "preservesS I m" "\<And>a. preservesS I (f a)"
  shows "preservesS I (bindS m f)"
  unfolding preservesS_def
proof (intro allI impI)
  fix w sw s r s'
  assume s: "exec_ok I (sx s)" and run: "bindS m f w sw s = Some (r, s')"
  obtain r1 s1 where m: "m w sw s = Some (r1, s1)" using run by (cases "m w sw s") (auto simp: bindS_def)
  have s1: "exec_ok I (sx s1)" using assms(1) s m unfolding preservesS_def by blast
  show "exec_ok I (sx s')"
    using run m s1 assms(2) unfolding preservesS_def by (cases r1) (auto simp: bindS_def)
qed

lemma preservesS_catch:
  assumes "preservesS I m" "\<And>e. preservesS I (h e)"
  shows "preservesS I (catchS m h)"
  unfolding preservesS_def
proof (intro allI impI)
  fix w sw s r s'
  assume s: "exec_ok I (sx s)" and run: "catchS m h w sw s = Some (r, s')"
  obtain r1 s1 where m: "m w sw s = Some (r1, s1)" using run by (cases "m w sw s") (auto simp: catchS_def)
  have s1: "exec_ok I (sx s1)" using assms(1) s m unfolding preservesS_def by blast
  show "exec_ok I (sx s')"
    using run m s1 assms(2) unfolding preservesS_def by (cases r1) (auto simp: catchS_def)
qed

lemma preservesS_return: "preservesS I (returnS a)"
  by (auto simp: preservesS_def returnS_def)

text \<open>Deleting objects leaves the tables alone.\<close>

lemma preservesS_objects: "preservesS I (deleteJobObjects c)"
proof -
  have one: "preservesS I (delete_batch ks)" for ks
    by (auto simp: preservesS_def delete_batch_def Let_def split: sum.splits if_splits)
  have "preservesS I (delete_batches bs)" for bs
    by (induction bs) (auto intro: preservesS_return preservesS_bind one)
  then have "exec_ok I (sx s')" if "exec_ok I (sx s)" "delete_batches bs w sw (s\<lparr>calls := n\<rparr>) = Some (r, s')"
    for bs w sw s n r s'
    unfolding preservesS_def using that by (metis store_exec.select_convs(1) store_exec.surjective store_exec.update_convs(3))
  then show ?thesis unfolding preservesS_def deleteJobObjects_def Let_def by (auto split: option.splits sum.splits)
qed

lemma event_updates_ok:
  "stmt_preserves db_ok (select_pending l)" "stmt_preserves db_ok (update_published i)"
  "stmt_preserves db_ok (update_attempted i m)"
  by (rule stmt_preservesI,
      auto simp: select_pending_def update_published_def update_attempted_def db_ok_def published_row_def
        attempted_row_def map_update_where_key)+

lemma publish_pass_ok: "preservesP db_ok publish_pass"
proof -
  note rules = preservesP_bind preservesP_catch preservesP_rest preservesP_finally preservesP_db preserves_intros event_updates_ok
  have c: "preserves db_ok client_connect"
    by (auto simp: preserves_def client_connect_def Let_def exec_ok_def)
  have "preservesP db_ok (publish_event e)" for e unfolding publish_event_def by (intro rules)
  then have es: "preservesP db_ok (publish_events es)" for es by (induction es) (auto intro: rules)
  have q: "preservesP db_ok (\<lambda>w kw s. bindP (dbP (client_query (select_pending (row_locked kw (tick (px s))))))
      (\<lambda>events. bindP (publish_events events) (\<lambda>_. dbP client_commit)) w kw s)"
  proof -
    have "preservesP db_ok (bindP (dbP (client_query (select_pending l)))
        (\<lambda>events. bindP (publish_events events) (\<lambda>_. dbP client_commit)))" for l
      by (intro rules es)
    then show ?thesis unfolding preservesP_def by blast
  qed
  have "preservesP db_ok publish_batch"
    unfolding publish_batch_def by (intro preservesP_bind preservesP_db preserves_begin q)
  then show ?thesis unfolding publish_pass_def by (intro rules c)
qed

lemma cleanup_cycle_ok: "preservesS db_ok (cleanup_cycle n tmo)"
proof -
  note rules = preservesS_bind preservesS_catch preservesS_return preservesS_db
  have claim: "preserves db_ok (claimExpiredJobs n tmo)"
    unfolding preserves_def
  proof (intro allI impI)
    fix w s
    assume s: "exec_ok db_ok s"
    obtain r s' where run: "claimExpiredJobs n tmo w s = (r, s')" by fastforce
    have snap: "snapshot s' = snapshot s"
      using run by (auto simp: claimExpiredJobs_def pool_query_def client_query_def Let_def
          split: sum.splits prod.splits if_splits)
    have "db_ok (db s')"
    proof (cases r)
      case (Inl e)
      then have "db s' = db s" using run by (auto simp: claimExpiredJobs_def pool_query_def dest: client_query_Inl)
      then show ?thesis using s by (simp add: exec_ok_def)
    next
      case (Inr cs)
      then show ?thesis using claimExpiredJobs_Inr run claimed_db_ok s by (auto simp: exec_ok_def)
    qed
    then show "exec_ok db_ok (snd (claimExpiredJobs n tmo w s))" using snap s run by (simp add: exec_ok_def)
  qed
  have prune: "preserves db_ok deleteInactiveUserSessions"
    unfolding deleteInactiveUserSessions_def pool_query_def
    by (intro preserves_query stmt_preservesI)
      (auto simp: delete_inactive_sessions_def db_ok_def intro: accounts_ok_sessions_delete)
  have "preservesS db_ok (cleanup_job c)" for c
    unfolding cleanup_job_def
    by (intro rules preservesS_objects markCleanupCompleted_preserves markCleanupFailed_preserves)
  then have js: "preservesS db_ok (cleanup_jobs js a b)" for js a b
    by (induction js arbitrary: a b) (auto intro: rules)
  have result: "preservesS db_ok (case p of (x, y) \<Rightarrow> returnS (g x y))" for p and g :: "nat \<Rightarrow> nat \<Rightarrow> CleanupBatchResult"
    by (cases p) (simp add: preservesS_return)
  show ?thesis
    unfolding cleanup_cycle_def cleanupExpiredStorageBatch_def by (intro rules claim prune js result)
qed

section \<open>The backend\<close>

text \<open>
  The processes over one database: requests, passes of the publisher and cycles of the cleanup
  process, in any order, each with what fails meanwhile.
\<close>

record backend =
  tables :: store_exec
  outbox :: publisher

datatype backend_event =
    Request raw_request world
  | PublishingTick world kafka_world
  | CleanupCycle nat nat world store_world

fun backend_step :: "server_runtime \<Rightarrow> backend_event \<Rightarrow> backend \<Rightarrow> backend" where
  "backend_step sr (Request rq w) b =
     b\<lparr>tables := (tables b)\<lparr>sx := snd (handle_request sr rq w (sx (tables b)))\<rparr>\<rparr>"
| "backend_step sr (PublishingTick w kw) b =
     (let p = publishPendingOutboxEvents w kw ((outbox b)\<lparr>px := sx (tables b)\<rparr>)
      in b\<lparr>tables := (tables b)\<lparr>sx := px p\<rparr>, outbox := p\<rparr>)"
| "backend_step sr (CleanupCycle n tmo w sw) b =
     (case caught_cycle n tmo w sw (tables b) of None \<Rightarrow> b | Some t \<Rightarrow> b\<lparr>tables := t\<rparr>)"

definition well_formed :: "backend \<Rightarrow> bool" where
  "well_formed b \<longleftrightarrow> exec_ok db_ok (sx (tables b))"

lemma request_ok:
  assumes "signer (env_sign (rt_auth (sv_auth sr)))" "exec_ok db_ok s"
  shows "exec_ok db_ok (snd (handle_request sr rq w s))"
  using assms by (intro schema.request_keeps) (auto simp: exec_ok_def)

lemma tick_ok:
  assumes "exec_ok db_ok (px p)"
  shows "exec_ok db_ok (px (publishPendingOutboxEvents w kw p))"
proof -
  obtain r q where run: "publish_pass w kw (p\<lparr>isPublishing := True\<rparr>) = (r, q)" by fastforce
  moreover have "exec_ok db_ok (px (p\<lparr>isPublishing := True\<rparr>))" using assms by simp
  ultimately have "exec_ok db_ok (px q)" using publish_pass_ok unfolding preservesP_def by blast
  then show ?thesis using assms run by (cases r) (simp_all add: publishPendingOutboxEvents_def)
qed

lemma backend_step_ok:
  assumes "signer (env_sign (rt_auth (sv_auth sr)))" "well_formed b"
  shows "well_formed (backend_step sr e b)"
proof (cases e)
  case (CleanupCycle n tmo w sw)
  then show ?thesis using assms(2) cleanup_cycle_ok
    by (fastforce simp: well_formed_def caught_cycle_def preservesS_def split: option.split)
qed (use assms request_ok tick_ok in \<open>auto simp: well_formed_def Let_def\<close>)

text \<open>
  C5: The tables stay well-formed. Whatever requests arrive, whenever the publisher and the cleanup
  process run, and whatever statements, broker and store do, the database keeps unique keys,
  valid references and normalised user names, and jobs have a storage deadline exactly when they
  are finished.
\<close>

theorem tables_stay_well_formed:
  assumes "env_sign (rt_auth (sv_auth sr)) = createSignature hmac secret"
    and "db_ok (db (sx (tables b)))" "idle (sx (tables b))"
  shows "db_ok (db (sx (tables (run_events (backend_step sr) es b))))"
proof -
  have "signer (env_sign (rt_auth (sv_auth sr)))" by (simp add: assms(1) createSignature_signer)
  moreover have "well_formed b" using assms(2,3) by (simp add: well_formed_def exec_ok_def idle_def)
  ultimately have "well_formed (run_events (backend_step sr) es b)"
    by (induction es arbitrary: b) (auto intro: backend_step_ok)
  then show ?thesis by (simp add: well_formed_def exec_ok_def)
qed

definition sample_backend :: backend where
  "sample_backend = \<lparr>tables = \<lparr>sx = idle_exec session_db, bucket = [], calls = 0\<rparr>,
     outbox = \<lparr>px = idle_exec session_db, broker = [], kcalls = 0, connectionPromise = False,
       isPublishing = False, batch_failures = 0\<rparr>\<rparr>"

theorem tables_stay_well_formed_witness:
  "db_ok (db (sx (tables (run_events (backend_step sample_server)
     [Request (sample_get ''/api/jobs'' (Some sample_header)) quiet_world] sample_backend))))"
proof (rule tables_stay_well_formed[of _ sample_hmac "''k''"])
  have "db_ok session_db" by code_simp
  then show "db_ok (db (sx (tables sample_backend)))" by (simp add: sample_backend_def idle_exec_def)
qed (simp_all add: sample_server_def sample_rt_def sample_env_def sample_backend_def idle_exec_def idle_def)

end
