(* ===== verification/RealtimeClient.thy ===== *)
theory RealtimeClient
  imports WsSubscription
begin

text \<open>
  The browser's side of the realtime connection: frontend/src/realtime/jobSubscription.ts,
  jobMessageHandler.ts and jobSubscriptionConfig.ts. All sockets and timers a subscription ever
  creates are kept, with the variables that refer to them, so that losing or doubling one would
  show. The browser's callbacks are events; what awaits is split where it awaits. Two jobs have
  the same JSON text when they are the same record.
\<close>

section \<open>The policy\<close>

definition connectionTimeoutMs :: nat where "connectionTimeoutMs = 10000"

definition fallbackPollingIntervalMs :: nat where "fallbackPollingIntervalMs = 2000"

definition reconnectDelaysMs :: "nat list" where
  "reconnectDelaysMs = [1000, 2000, 4000, 8000, 10000]"

definition terminalStatuses :: "job_status list" where
  "terminalStatuses = [COMPLETED, FAILED, CANCELLED]"

section \<open>The state of a subscription\<close>

text \<open>A caught value: an Error with its message, or anything else.\<close>

datatype failure = ErrorObject string | OtherFailure

fun failure_text :: "failure \<Rightarrow> string \<Rightarrow> string" where
  "failure_text (ErrorObject m) fallback = m"
| "failure_text OtherFailure fallback = fallback"

datatype ready_state = CONNECTING | OPEN | CLOSING | CLOSED

datatype timer_kind = ReconnectTimer | ConnectionTimer | PollTimer

record realtime =
  rc_jobId :: uuid
  rc_sockets :: "ready_state list"
  rc_socket :: "nat option"
  rc_timers :: "nat \<Rightarrow> (timer_kind \<times> nat) option"
  rc_next :: nat
  reconnectTimer :: "nat option"
  connectionTimer :: "nat option"
  fallbackPollingTimer :: "nat option"
  reconnectAttempt :: nat
  rc_stopped :: bool
  terminalJobReached :: bool
  previousJobPayload :: "JobRecord option"
  polls_pending :: nat
  deliveries :: "(JobRecord \<times> bool) list"
  rc_delivered :: "JobRecord list"
  rc_messages :: "string list"
  rc_commands :: "client_message list"

text \<open>\<open>setTimeout\<close> and \<open>setInterval\<close> hand out the identifier \<open>rc_next\<close>.\<close>

definition new_timer :: "timer_kind \<Rightarrow> nat \<Rightarrow> realtime \<Rightarrow> realtime" where
  "new_timer k delay s =
     s\<lparr>rc_timers := (rc_timers s)(rc_next s := Some (k, delay)), rc_next := Suc (rc_next s)\<rparr>"

definition clearTimer :: "nat option \<Rightarrow> realtime \<Rightarrow> realtime" where
  "clearTimer t s = (case t of None \<Rightarrow> s | Some i \<Rightarrow> s\<lparr>rc_timers := (rc_timers s)(i := None)\<rparr>)"

definition onStatusMessage :: "string \<Rightarrow> realtime \<Rightarrow> realtime" where
  "onStatusMessage m s = s\<lparr>rc_messages := rc_messages s @ [m]\<rparr>"

definition current_state :: "realtime \<Rightarrow> ready_state option" where
  "current_state s = (case rc_socket s of None \<Rightarrow> None | Some n \<Rightarrow> Some (rc_sockets s ! n))"

text \<open>\<open>socket?.close\<close> and \<open>socket?.send\<close>.\<close>

definition close_current :: "realtime \<Rightarrow> realtime" where
  "close_current s =
     (case rc_socket s of
        None \<Rightarrow> s
      | Some n \<Rightarrow>
          if rc_sockets s ! n = CONNECTING \<or> rc_sockets s ! n = OPEN
          then s\<lparr>rc_sockets := (rc_sockets s)[n := CLOSING]\<rparr> else s)"

definition send_current :: "client_message \<Rightarrow> realtime \<Rightarrow> realtime" where
  "send_current m s =
     (if current_state s = Some OPEN then s\<lparr>rc_commands := rc_commands s @ [m]\<rparr> else s)"

section \<open>Updates and polling\<close>

definition stopFallbackPolling :: "realtime \<Rightarrow> realtime" where
  "stopFallbackPolling s =
     (case fallbackPollingTimer s of
        None \<Rightarrow> s
      | Some i \<Rightarrow> (clearTimer (Some i) s)\<lparr>fallbackPollingTimer := None\<rparr>)"

text \<open>\<open>deliverJobUpdate\<close> up to its await of the callback, and from there on.\<close>

definition deliverJobUpdate :: "JobRecord \<Rightarrow> bool \<Rightarrow> realtime \<Rightarrow> realtime" where
  "deliverJobUpdate job polled s =
     (if previousJobPayload s = Some job then s
      else s\<lparr>previousJobPayload := Some job, rc_delivered := rc_delivered s @ [job],
             deliveries := deliveries s @ [(job, polled)]\<rparr>)"

definition callback_returns :: "nat \<Rightarrow> failure option \<Rightarrow> realtime \<Rightarrow> realtime" where
  "callback_returns k outcome s0 =
     (if k < length (deliveries s0) then
        let job = fst (deliveries s0 ! k); polled = snd (deliveries s0 ! k);
            s = s0\<lparr>deliveries := take k (deliveries s0) @ drop (Suc k) (deliveries s0)\<rparr>
        in case outcome of
             Some f \<Rightarrow>
               if polled then onStatusMessage (failure_text f ''Could not recover the job status.'') s else s
           | None \<Rightarrow>
               if status job \<in> set terminalStatuses
               then close_current (stopFallbackPolling (s\<lparr>terminalJobReached := True\<rparr>)) else s
      else s0)"

text \<open>\<open>pollJobStatus\<close> up to the answer of \<open>fetchJob\<close>, and from there on.\<close>

definition pollJobStatus :: "realtime \<Rightarrow> realtime" where
  "pollJobStatus s = s\<lparr>polls_pending := Suc (polls_pending s)\<rparr>"

definition poll_answers :: "failure + JobRecord \<Rightarrow> realtime \<Rightarrow> realtime" where
  "poll_answers answer s0 =
     (if polls_pending s0 = 0 then s0
      else let s = s0\<lparr>polls_pending := polls_pending s0 - 1\<rparr>
      in case answer of
           Inl f \<Rightarrow> onStatusMessage (failure_text f ''Could not recover the job status.'') s
         | Inr job \<Rightarrow> deliverJobUpdate job True s)"

definition startFallbackPolling :: "realtime \<Rightarrow> realtime" where
  "startFallbackPolling s =
     (if fallbackPollingTimer s \<noteq> None \<or> terminalJobReached s then s
      else let s1 = pollJobStatus
                 (onStatusMessage ''Realtime connection is unavailable. Using status polling.'' s)
           in (new_timer PollTimer fallbackPollingIntervalMs s1)\<lparr>fallbackPollingTimer := Some (rc_next s1)\<rparr>)"

section \<open>Connecting and reconnecting\<close>

definition reconnect_message :: "nat \<Rightarrow> string" where
  "reconnect_message delay =
     ''Realtime connection lost. Reconnecting in '' @ show_nat (delay div 1000) @ '' seconds.''"

definition scheduleReconnect :: "realtime \<Rightarrow> realtime" where
  "scheduleReconnect s =
     (if rc_stopped s \<or> terminalJobReached s then s
      else let delay = reconnectDelaysMs ! min (reconnectAttempt s) (length reconnectDelaysMs - 1);
               s1 = s\<lparr>reconnectAttempt := Suc (reconnectAttempt s)\<rparr>;
               s2 = (if reconnectAttempt s1 \<ge> 3 then startFallbackPolling s1 else s1);
               s3 = onStatusMessage (reconnect_message delay) s2
           in (new_timer ReconnectTimer delay s3)\<lparr>reconnectTimer := Some (rc_next s3)\<rparr>)"

definition openSocket :: "realtime \<Rightarrow> realtime" where
  "openSocket s =
     (if rc_stopped s \<or> terminalJobReached s then s
      else let s1 = s\<lparr>rc_sockets := rc_sockets s @ [CONNECTING], rc_socket := Some (length (rc_sockets s))\<rparr>
           in (new_timer ConnectionTimer connectionTimeoutMs s1)\<lparr>connectionTimer := Some (rc_next s1)\<rparr>)"

definition socket_opens :: "nat \<Rightarrow> realtime \<Rightarrow> realtime" where
  "socket_opens n s =
     (if n < length (rc_sockets s) \<and> rc_sockets s ! n = CONNECTING
      then (clearTimer (connectionTimer s) (s\<lparr>rc_sockets := (rc_sockets s)[n := OPEN]\<rparr>))
             \<lparr>connectionTimer := None\<rparr>
      else s)"

definition socket_closes :: "nat \<Rightarrow> realtime \<Rightarrow> realtime" where
  "socket_closes n s =
     (if n < length (rc_sockets s) \<and> rc_sockets s ! n \<noteq> CLOSED
      then scheduleReconnect
             ((clearTimer (connectionTimer s) (s\<lparr>rc_sockets := (rc_sockets s)[n := CLOSED]\<rparr>))
                \<lparr>connectionTimer := None\<rparr>)
      else s)"

text \<open>
  The handler of parsed messages, over the four callbacks; \<open>None\<close> is text that is not JSON. The
  callbacks of \<open>openSocket\<close> follow.
\<close>

definition createJobMessageHandler ::
    "('s \<Rightarrow> 's) \<Rightarrow> ('s \<Rightarrow> 's) \<Rightarrow> (JobRecord \<Rightarrow> 's \<Rightarrow> 's) \<Rightarrow> (string \<Rightarrow> 's \<Rightarrow> 's) \<Rightarrow>
       server_message option \<Rightarrow> 's \<Rightarrow> 's" where
  "createJobMessageHandler sendSubscription onSubscribed onJobUpdate onError received =
     (case received of
        None \<Rightarrow> onError ''Received an invalid realtime update.''
      | Some message \<Rightarrow>
          (case message of
             ConnectionReady beat \<Rightarrow> sendSubscription
           | SubscribedMessage jobId \<Rightarrow> onSubscribed
           | JobUpdate job \<Rightarrow> onJobUpdate job
           | ErrorMessage e \<Rightarrow> onError e
           | UnsubscribedMessage \<Rightarrow> (\<lambda>s. s)))"

definition sendSubscription :: "realtime \<Rightarrow> realtime" where
  "sendSubscription s = send_current (Subscribe (rc_jobId s)) s"

definition onSubscribed :: "realtime \<Rightarrow> realtime" where
  "onSubscribed s =
     onStatusMessage ''Connected to realtime job updates.''
       (stopFallbackPolling (s\<lparr>reconnectAttempt := 0\<rparr>))"

definition socket_message :: "nat \<Rightarrow> server_message option \<Rightarrow> realtime \<Rightarrow> realtime" where
  "socket_message n received s =
     (if n < length (rc_sockets s) \<and> rc_sockets s ! n = OPEN
      then createJobMessageHandler sendSubscription onSubscribed
             (\<lambda>job. deliverJobUpdate job False) onStatusMessage received s
      else s)"

definition timer_fires :: "nat \<Rightarrow> realtime \<Rightarrow> realtime" where
  "timer_fires i s =
     (case rc_timers s i of
        None \<Rightarrow> s
      | Some timer \<Rightarrow>
          (case fst timer of
             ReconnectTimer \<Rightarrow> openSocket (clearTimer (Some i) s)
           | ConnectionTimer \<Rightarrow> close_current (clearTimer (Some i) s)
           | PollTimer \<Rightarrow> pollJobStatus s))"

text \<open>The cleanup function that \<open>startJobSubscription\<close> returns.\<close>

definition stop_subscription :: "realtime \<Rightarrow> realtime" where
  "stop_subscription s =
     close_current (send_current Unsubscribe (stopFallbackPolling
       (clearTimer (reconnectTimer s) (clearTimer (connectionTimer s) (s\<lparr>rc_stopped := True\<rparr>)))))"

definition startJobSubscription :: "uuid \<Rightarrow> realtime" where
  "startJobSubscription jobId =
     openSocket \<lparr>rc_jobId = jobId, rc_sockets = [], rc_socket = None, rc_timers = (\<lambda>_. None), rc_next = 0,
       reconnectTimer = None, connectionTimer = None, fallbackPollingTimer = None, reconnectAttempt = 0,
       rc_stopped = False, terminalJobReached = False, previousJobPayload = None, polls_pending = 0,
       deliveries = [], rc_delivered = [], rc_messages = [], rc_commands = []\<rparr>"

datatype realtime_event =
    SocketOpens nat
  | MessageArrives nat "server_message option"
  | SocketErrors nat
  | SocketCloses nat
  | TimerFires nat
  | PollAnswers "failure + JobRecord"
  | CallbackReturns nat "failure option"
  | CleanupRuns

fun realtime_step :: "realtime_event \<Rightarrow> realtime \<Rightarrow> realtime" where
  "realtime_step (SocketOpens n) s = socket_opens n s"
| "realtime_step (MessageArrives n received) s = socket_message n received s"
| "realtime_step (SocketErrors n) s = close_current s"
| "realtime_step (SocketCloses n) s = socket_closes n s"
| "realtime_step (TimerFires i) s = timer_fires i s"
| "realtime_step (PollAnswers answer) s = poll_answers answer s"
| "realtime_step (CallbackReturns k outcome) s = callback_returns k outcome s"
| "realtime_step CleanupRuns s = stop_subscription s"

section \<open>Invariants\<close>

definition last_state :: "realtime \<Rightarrow> ready_state" where
  "last_state s = rc_sockets s ! (length (rc_sockets s) - 1)"

text \<open>Only the newest socket may be alive, and the variable refers to it.\<close>

definition sockets_ok :: "realtime \<Rightarrow> bool" where
  "sockets_ok s \<longleftrightarrow> rc_sockets s \<noteq> [] \<and> rc_socket s = Some (length (rc_sockets s) - 1) \<and>
     (\<forall>n. n < length (rc_sockets s) - 1 \<longrightarrow> rc_sockets s ! n = CLOSED)"

definition timer_var :: "realtime \<Rightarrow> timer_kind \<Rightarrow> nat option" where
  "timer_var s k =
     (case k of
        ReconnectTimer \<Rightarrow> reconnectTimer s
      | ConnectionTimer \<Rightarrow> connectionTimer s
      | PollTimer \<Rightarrow> fallbackPollingTimer s)"

text \<open>
  A table of timers with the variables that refer to them: every pending timer is the one its
  variable refers to, so that it can be cancelled, and no two variables share an identifier.
\<close>

definition timer_table ::
    "(nat \<Rightarrow> (timer_kind \<times> nat) option) \<Rightarrow> nat \<Rightarrow> (timer_kind \<Rightarrow> nat option) \<Rightarrow> bool" where
  "timer_table T n v \<longleftrightarrow>
     (\<forall>i k d. T i = Some (k, d) \<longrightarrow> v k = Some i) \<and>
     (\<forall>k i. v k = Some i \<longrightarrow> i < n) \<and>
     (\<forall>k l i. v k = Some i \<and> v l = Some i \<longrightarrow> k = l)"

definition runs :: "(nat \<Rightarrow> (timer_kind \<times> nat) option) \<Rightarrow> timer_kind \<Rightarrow> bool" where
  "runs T k \<longleftrightarrow> (\<exists>i d. T i = Some (k, d))"

abbreviation pending :: "timer_kind \<Rightarrow> realtime \<Rightarrow> bool" where
  "pending k s \<equiv> runs (rc_timers s) k"

definition table_ok :: "realtime \<Rightarrow> bool" where
  "table_ok s \<longleftrightarrow> timer_table (rc_timers s) (rc_next s) (timer_var s) \<and>
     (fallbackPollingTimer s = None \<longleftrightarrow> \<not> pending PollTimer s)"

definition phases_ok :: "realtime \<Rightarrow> bool" where
  "phases_ok s \<longleftrightarrow>
     (pending ReconnectTimer s \<longrightarrow> last_state s = CLOSED \<and> \<not> rc_stopped s) \<and>
     (pending ConnectionTimer s \<longrightarrow> last_state s \<in> {CONNECTING, CLOSING} \<and> \<not> rc_stopped s) \<and>
     (rc_stopped s \<or> terminalJobReached s \<longrightarrow>
        \<not> pending PollTimer s \<and> last_state s \<in> {CLOSING, CLOSED}) \<and>
     (last_state s = CONNECTING \<longrightarrow> pending ConnectionTimer s) \<and>
     (\<not> rc_stopped s \<and> \<not> terminalJobReached s \<and> 3 \<le> reconnectAttempt s \<longrightarrow> pending PollTimer s)"

definition recovering :: "realtime \<Rightarrow> bool" where
  "recovering s \<longleftrightarrow>
     (\<not> rc_stopped s \<and> \<not> terminalJobReached s \<and> last_state s = CLOSED \<longrightarrow> pending ReconnectTimer s)"

definition delays_ok :: "realtime \<Rightarrow> bool" where
  "delays_ok s \<longleftrightarrow>
     (\<forall>i d. rc_timers s i = Some (ReconnectTimer, d) \<longrightarrow>
        0 < reconnectAttempt s \<and> d = reconnectDelaysMs ! min (reconnectAttempt s - 1) 4)"

text \<open>Without \<open>recovering\<close>, what holds while a closed socket or an expired timer is dealt with.\<close>

definition between_ok :: "realtime \<Rightarrow> bool" where
  "between_ok s \<longleftrightarrow> sockets_ok s \<and> table_ok s \<and> phases_ok s \<and> delays_ok s"

definition realtime_ok :: "realtime \<Rightarrow> bool" where
  "realtime_ok s \<longleftrightarrow> between_ok s \<and> recovering s"

section \<open>Timers\<close>

lemma table_held: "timer_table T n v \<Longrightarrow> T i = Some (k, d) \<Longrightarrow> v k = Some i"
  by (simp add: timer_table_def)

lemma table_bound: "timer_table T n v \<Longrightarrow> v k = Some i \<Longrightarrow> i < n"
  unfolding timer_table_def by blast

lemma table_inj: "timer_table T n v \<Longrightarrow> v k = Some i \<Longrightarrow> v l = Some i \<Longrightarrow> k = l"
  unfolding timer_table_def by blast

lemma table_fresh: "timer_table T n v \<Longrightarrow> T n = None"
  using table_held table_bound by (metis less_irrefl option.exhaust surj_pair)

lemma table_new:
  assumes t: "timer_table T n v" and k: "\<not> runs T k"
  shows "timer_table (T(n := Some (k, d))) (Suc n) (v(k := Some n))"
  unfolding timer_table_def
proof (intro conjI allI impI)
  fix i l e assume "(T(n := Some (k, d))) i = Some (l, e)"
  then show "(v(k := Some n)) l = Some i"
    using table_held[OF t, of i l e] k by (auto simp: runs_def split: if_splits)
next
  fix l i assume "(v(k := Some n)) l = Some i"
  then show "i < Suc n" using table_bound[OF t, of l i] by (auto split: if_splits)
next
  fix l m i assume "(v(k := Some n)) l = Some i \<and> (v(k := Some n)) m = Some i"
  then show "l = m" using table_inj[OF t, of l i m] table_bound[OF t, of _ n] by (auto split: if_splits)
qed

lemma table_clear:
  assumes t: "timer_table T n v" and k: "v k = Some i"
  shows "timer_table (T(i := None)) n v" "timer_table (T(i := None)) n (v(k := None))"
proof -
  show c: "timer_table (T(i := None)) n v" using t by (simp add: timer_table_def)
  have "(v(k := None)) l = Some j" if "(T(i := None)) j = Some (l, d)" for l j d
    using that table_held[OF t, of j l d] k by (auto split: if_splits)
  moreover have "j < n" if "(v(k := None)) l = Some j" for l j
    using that table_bound[OF t, of l j] by (simp split: if_splits)
  moreover have "l = m" if "(v(k := None)) l = Some j" "(v(k := None)) m = Some j" for l m j
    using that table_inj[OF t, of l j m] by (simp split: if_splits)
  ultimately show "timer_table (T(i := None)) n (v(k := None))" unfolding timer_table_def by blast
qed

lemma table_forget: "timer_table T n v \<Longrightarrow> v k = None \<Longrightarrow> v(k := None) = v"
  by (rule ext) simp

lemma runs_new: "timer_table T n v \<Longrightarrow> runs (T(n := Some (k, d))) l \<longleftrightarrow> l = k \<or> runs T l"
  using table_fresh[of T n v] by (auto simp: runs_def) (metis option.distinct(1))

lemma runs_clear:
  assumes t: "timer_table T n v" and k: "v k = Some i"
  shows "runs (T(i := None)) l \<longleftrightarrow> l \<noteq> k \<and> runs T l"
proof
  assume "runs (T(i := None)) l"
  then obtain j d where j: "j \<noteq> i" "T j = Some (l, d)" by (auto simp: runs_def split: if_splits)
  then show "l \<noteq> k \<and> runs T l" using table_held[OF t j(2)] k by (auto simp: runs_def)
next
  assume l: "l \<noteq> k \<and> runs T l"
  then obtain j d where j: "T j = Some (l, d)" by (auto simp: runs_def)
  then have "j \<noteq> i" using table_held[OF t j] table_inj[OF t k, of l] l by auto
  then show "runs (T(i := None)) l" using j by (auto simp: runs_def)
qed

lemma runs_unset: "timer_table T n v \<Longrightarrow> v k = None \<Longrightarrow> \<not> runs T k"
  using table_held[of T n v] by (auto simp: runs_def)

lemma timer_var_updates [simp]:
  "timer_var (s\<lparr>reconnectTimer := x\<rparr>) = (timer_var s)(ReconnectTimer := x)"
  "timer_var (s\<lparr>connectionTimer := x\<rparr>) = (timer_var s)(ConnectionTimer := x)"
  "timer_var (s\<lparr>fallbackPollingTimer := x\<rparr>) = (timer_var s)(PollTimer := x)"
  by (auto simp: timer_var_def fun_eq_iff split: timer_kind.splits)

lemma timer_var_values [simp]:
  "timer_var s ReconnectTimer = reconnectTimer s" "timer_var s ConnectionTimer = connectionTimer s"
  "timer_var s PollTimer = fallbackPollingTimer s"
  by (simp_all add: timer_var_def)

lemma clearTimer_simps [simp]:
  "rc_sockets (clearTimer t s) = rc_sockets s" "rc_socket (clearTimer t s) = rc_socket s"
  "rc_next (clearTimer t s) = rc_next s" "timer_var (clearTimer t s) = timer_var s"
  "reconnectTimer (clearTimer t s) = reconnectTimer s" "connectionTimer (clearTimer t s) = connectionTimer s"
  "fallbackPollingTimer (clearTimer t s) = fallbackPollingTimer s"
  "reconnectAttempt (clearTimer t s) = reconnectAttempt s" "rc_stopped (clearTimer t s) = rc_stopped s"
  "terminalJobReached (clearTimer t s) = terminalJobReached s" "last_state (clearTimer t s) = last_state s"
  "sockets_ok (clearTimer t s) = sockets_ok s"
  by (simp_all add: clearTimer_def timer_var_def fun_eq_iff last_state_def sockets_ok_def
      split: option.splits timer_kind.splits)

lemma timers_clear: "rc_timers (clearTimer (Some i) s) = (rc_timers s)(i := None)"
  "rc_timers (clearTimer None s) = rc_timers s"
  by (simp_all add: clearTimer_def)

lemma clear_var:
  assumes "timer_table (rc_timers s) (rc_next s) (timer_var s)"
  shows "timer_table (rc_timers (clearTimer (timer_var s k) s)) (rc_next s) (timer_var s)"
    and "timer_table (rc_timers (clearTimer (timer_var s k) s)) (rc_next s) ((timer_var s)(k := None))"
    and "pending l (clearTimer (timer_var s k) s) \<longleftrightarrow> l \<noteq> k \<and> pending l s"
  using assms table_clear[OF assms, of k] runs_clear[OF assms, of k] runs_unset[OF assms, of k]
    table_forget[OF assms, of k]
  by (cases "timer_var s k"; auto simp: timers_clear)+

lemma clear_delays: "delays_ok s \<Longrightarrow> delays_ok (clearTimer t s)"
  by (cases t) (auto simp: delays_ok_def timers_clear)

section \<open>The handlers keep the invariants\<close>

lemma timer_var_rest [simp]:
  "timer_var (s\<lparr>rc_messages := a\<rparr>) = timer_var s" "timer_var (s\<lparr>rc_commands := b\<rparr>) = timer_var s"
  "timer_var (s\<lparr>rc_delivered := c\<rparr>) = timer_var s" "timer_var (s\<lparr>deliveries := d\<rparr>) = timer_var s"
  "timer_var (s\<lparr>previousJobPayload := e\<rparr>) = timer_var s" "timer_var (s\<lparr>polls_pending := f\<rparr>) = timer_var s"
  "timer_var (s\<lparr>rc_sockets := g\<rparr>) = timer_var s" "timer_var (s\<lparr>rc_stopped := h\<rparr>) = timer_var s"
  "timer_var (s\<lparr>terminalJobReached := h\<rparr>) = timer_var s" "timer_var (s\<lparr>reconnectAttempt := j\<rparr>) = timer_var s"
  "timer_var (s\<lparr>rc_socket := k\<rparr>) = timer_var s" "timer_var (s\<lparr>rc_next := j\<rparr>) = timer_var s"
  "timer_var (s\<lparr>rc_timers := l\<rparr>) = timer_var s"
  by (simp_all add: timer_var_def fun_eq_iff split: timer_kind.split)

lemmas between_defs = between_ok_def sockets_ok_def table_ok_def phases_ok_def delays_ok_def last_state_def

lemma unobserved [simp]:
  "realtime_ok (s\<lparr>rc_messages := a\<rparr>) = realtime_ok s" "realtime_ok (s\<lparr>rc_commands := b\<rparr>) = realtime_ok s"
  "realtime_ok (s\<lparr>rc_delivered := c\<rparr>) = realtime_ok s" "realtime_ok (s\<lparr>deliveries := d\<rparr>) = realtime_ok s"
  "realtime_ok (s\<lparr>previousJobPayload := e\<rparr>) = realtime_ok s" "realtime_ok (s\<lparr>polls_pending := f\<rparr>) = realtime_ok s"
  by (simp_all add: realtime_ok_def recovering_def between_defs)

lemma say_ok [simp]: "realtime_ok (onStatusMessage m s) = realtime_ok s"
  by (simp add: onStatusMessage_def)

lemma send_current_ok [simp]: "realtime_ok (send_current m s) = realtime_ok s"
  by (simp add: send_current_def)

lemma poll_ok [simp]: "realtime_ok (pollJobStatus s) = realtime_ok s"
  by (simp add: pollJobStatus_def)

lemma deliver_ok [simp]: "realtime_ok (deliverJobUpdate job polled s) = realtime_ok s"
  by (simp add: deliverJobUpdate_def)

lemma poll_answers_ok: "realtime_ok s \<Longrightarrow> realtime_ok (poll_answers answer s)"
  by (simp add: poll_answers_def Let_def split: sum.split)

text \<open>Closing changes the state of the newest socket only.\<close>

lemma close_current_fields:
  assumes "sockets_ok s"
  shows "sockets_ok (close_current s)"
    "last_state (close_current s) =
       (if last_state s = CONNECTING \<or> last_state s = OPEN then CLOSING else last_state s)"
    "\<exists>ss. close_current s = s\<lparr>rc_sockets := ss\<rparr>"
proof -
  obtain n where n: "rc_socket s = Some n" "n = length (rc_sockets s) - 1" "n < length (rc_sockets s)"
    using assms by (auto simp: sockets_ok_def)
  show "sockets_ok (close_current s)"
    using assms n by (auto simp: sockets_ok_def close_current_def nth_list_update)
  show "last_state (close_current s) =
       (if last_state s = CONNECTING \<or> last_state s = OPEN then CLOSING else last_state s)"
    using n by (simp add: last_state_def close_current_def)
  have "s = s\<lparr>rc_sockets := rc_sockets s\<rparr>" by simp
  then have "\<exists>ss. s = s\<lparr>rc_sockets := ss\<rparr>" ..
  then show "\<exists>ss. close_current s = s\<lparr>rc_sockets := ss\<rparr>" using n unfolding close_current_def by auto
qed

lemma close_current_ok:
  assumes "realtime_ok s" shows "realtime_ok (close_current s)"
proof -
  have k: "sockets_ok s" using assms by (simp add: realtime_ok_def between_ok_def)
  obtain ss where "close_current s = s\<lparr>rc_sockets := ss\<rparr>" using close_current_fields(3)[OF k] by blast
  then show ?thesis
    using assms close_current_fields(1,2)[OF k]
    by (cases "last_state s")
      (simp_all add: realtime_ok_def between_ok_def table_ok_def phases_ok_def delays_ok_def recovering_def)
qed

lemma stop_polling_fields:
  assumes "table_ok s"
  shows "table_ok (stopFallbackPolling s)"
    "pending k (stopFallbackPolling s) \<longleftrightarrow> k \<noteq> PollTimer \<and> pending k s"
    "delays_ok s \<Longrightarrow> delays_ok (stopFallbackPolling s)"
    "sockets_ok (stopFallbackPolling s) = sockets_ok s" "last_state (stopFallbackPolling s) = last_state s"
    "rc_stopped (stopFallbackPolling s) = rc_stopped s"
    "terminalJobReached (stopFallbackPolling s) = terminalJobReached s"
    "reconnectAttempt (stopFallbackPolling s) = reconnectAttempt s"
proof -
  have t: "timer_table (rc_timers s) (rc_next s) (timer_var s)" using assms by (simp add: table_ok_def)
  note c = clear_var[OF t, of PollTimer, simplified]
  show "pending k (stopFallbackPolling s) \<longleftrightarrow> k \<noteq> PollTimer \<and> pending k s"
    using c(3)[of k] assms by (auto simp: stopFallbackPolling_def table_ok_def timers_clear split: option.splits)
  show "table_ok (stopFallbackPolling s)"
    using c(2) c(3)[of PollTimer] assms
    by (auto simp: stopFallbackPolling_def table_ok_def split: option.splits)
  show "delays_ok s \<Longrightarrow> delays_ok (stopFallbackPolling s)"
    using clear_delays[of s "fallbackPollingTimer s"]
    by (auto simp: stopFallbackPolling_def delays_ok_def split: option.splits)
qed (simp_all add: stopFallbackPolling_def last_state_def sockets_ok_def split: option.split)

text \<open>A handler may set a timer whose kind is not pending.\<close>

lemma new_var:
  assumes "timer_table (rc_timers s) (rc_next s) (timer_var s)" "\<not> pending k s"
  shows "timer_table (rc_timers (new_timer k d s)) (Suc (rc_next s)) ((timer_var s)(k := Some (rc_next s)))"
    "pending l (new_timer k d s) \<longleftrightarrow> l = k \<or> pending l s"
  using table_new[OF assms] runs_new[OF assms(1)] by (simp_all add: new_timer_def)

lemma new_timer_simps [simp]:
  "rc_sockets (new_timer k d s) = rc_sockets s" "rc_socket (new_timer k d s) = rc_socket s"
  "rc_next (new_timer k d s) = Suc (rc_next s)" "timer_var (new_timer k d s) = timer_var s"
  "fallbackPollingTimer (new_timer k d s) = fallbackPollingTimer s"
  "reconnectAttempt (new_timer k d s) = reconnectAttempt s" "rc_stopped (new_timer k d s) = rc_stopped s"
  "terminalJobReached (new_timer k d s) = terminalJobReached s" "last_state (new_timer k d s) = last_state s"
  "sockets_ok (new_timer k d s) = sockets_ok s"
  by (simp_all add: new_timer_def last_state_def sockets_ok_def)

lemma sockets_updates [simp]:
  "sockets_ok (s\<lparr>reconnectTimer := x\<rparr>) = sockets_ok s" "sockets_ok (s\<lparr>connectionTimer := x\<rparr>) = sockets_ok s"
  "sockets_ok (s\<lparr>fallbackPollingTimer := x\<rparr>) = sockets_ok s" "sockets_ok (s\<lparr>reconnectAttempt := i\<rparr>) = sockets_ok s"
  "sockets_ok (s\<lparr>rc_stopped := b\<rparr>) = sockets_ok s" "sockets_ok (s\<lparr>terminalJobReached := b\<rparr>) = sockets_ok s"
  "sockets_ok (s\<lparr>rc_messages := m\<rparr>) = sockets_ok s" "sockets_ok (s\<lparr>polls_pending := i\<rparr>) = sockets_ok s"
  "last_state (s\<lparr>reconnectTimer := x\<rparr>) = last_state s" "last_state (s\<lparr>connectionTimer := x\<rparr>) = last_state s"
  "last_state (s\<lparr>fallbackPollingTimer := x\<rparr>) = last_state s" "last_state (s\<lparr>reconnectAttempt := i\<rparr>) = last_state s"
  "last_state (s\<lparr>rc_stopped := b\<rparr>) = last_state s" "last_state (s\<lparr>terminalJobReached := b\<rparr>) = last_state s"
  "last_state (s\<lparr>rc_messages := m\<rparr>) = last_state s" "last_state (s\<lparr>polls_pending := i\<rparr>) = last_state s"
  by (simp_all add: sockets_ok_def last_state_def)

lemma start_polling_fields:
  assumes "table_ok s" "\<not> terminalJobReached s" "delays_ok s"
  shows "table_ok (startFallbackPolling s)"
    "pending k (startFallbackPolling s) \<longleftrightarrow> k = PollTimer \<or> pending k s"
    "delays_ok (startFallbackPolling s)"
proof -
  have t: "timer_table (rc_timers s) (rc_next s) (timer_var s)" using assms by (simp add: table_ok_def)
  have p: "fallbackPollingTimer s = None \<longleftrightarrow> \<not> pending PollTimer s" using assms by (simp add: table_ok_def)
  define u where "u = pollJobStatus
    (onStatusMessage ''Realtime connection is unavailable. Using status polling.'' s)"
  have u: "rc_timers u = rc_timers s" "rc_next u = rc_next s" "timer_var u = timer_var s"
    "reconnectAttempt u = reconnectAttempt s"
    by (simp_all add: u_def pollJobStatus_def onStatusMessage_def)
  have step: "startFallbackPolling s = (if pending PollTimer s then s
      else (new_timer PollTimer fallbackPollingIntervalMs u)\<lparr>fallbackPollingTimer := Some (rc_next u)\<rparr>)"
    using p assms(2) by (simp add: startFallbackPolling_def u_def Let_def)
  have n: "\<not> pending PollTimer s \<Longrightarrow> \<not> pending PollTimer u" by (simp add: u)
  note c = new_var[of u PollTimer, unfolded u, OF t n[unfolded u]]
  show "pending k (startFallbackPolling s) \<longleftrightarrow> k = PollTimer \<or> pending k s"
    using c(2)[unfolded u] by (auto simp: step)
  show "table_ok (startFallbackPolling s)"
    using c[unfolded u] assms(1) by (auto simp: step table_ok_def u)
  show "delays_ok (startFallbackPolling s)"
    using assms(3) by (auto simp: step delays_ok_def new_timer_def u)
qed

lemma start_polling_simps [simp]:
  "sockets_ok (startFallbackPolling s) = sockets_ok s" "last_state (startFallbackPolling s) = last_state s"
  "rc_stopped (startFallbackPolling s) = rc_stopped s"
  "terminalJobReached (startFallbackPolling s) = terminalJobReached s"
  "reconnectAttempt (startFallbackPolling s) = reconnectAttempt s"
  by (simp_all add: startFallbackPolling_def Let_def pollJobStatus_def onStatusMessage_def)

lemma delay_count: "length reconnectDelaysMs - 1 = 4" "length reconnectDelaysMs - Suc 0 = 4"
  by (simp_all add: reconnectDelaysMs_def)

lemma schedule_ok:
  assumes s: "between_ok s" "last_state s = CLOSED" and r: "\<not> pending ReconnectTimer s"
  shows "realtime_ok (scheduleReconnect s)"
proof (cases "rc_stopped s \<or> terminalJobReached s")
  case True
  then show ?thesis using s by (auto simp: scheduleReconnect_def realtime_ok_def recovering_def)
next
  case False
  define a where "a = s\<lparr>reconnectAttempt := Suc (reconnectAttempt s)\<rparr>"
  define b where "b = (if reconnectAttempt a \<ge> 3 then startFallbackPolling a else a)"
  define d where "d = reconnectDelaysMs ! min (reconnectAttempt s) (length reconnectDelaysMs - 1)"
  define c where "c = onStatusMessage (reconnect_message d) b"
  have a: "table_ok a" "delays_ok a" "\<And>k. pending k a \<longleftrightarrow> pending k s" "\<not> terminalJobReached a"
    using s r False by (auto simp: a_def between_ok_def table_ok_def delays_ok_def runs_def)
  note f = start_polling_fields[OF a(1,4,2)]
  have b: "table_ok b" "delays_ok b" "pending k b \<longleftrightarrow> pending k s \<or> (k = PollTimer \<and> 3 \<le> reconnectAttempt a)" for k
    using a f by (auto simp: b_def)
  have c: "table_ok c" "delays_ok c" "pending k c \<longleftrightarrow> pending k s \<or> (k = PollTimer \<and> 3 \<le> reconnectAttempt a)"
    "sockets_ok c = sockets_ok s" "last_state c = last_state s" "rc_stopped c = rc_stopped s"
    "terminalJobReached c = terminalJobReached s" "reconnectAttempt c = Suc (reconnectAttempt s)" for k
    using b by (simp_all add: c_def b_def a_def onStatusMessage_def table_ok_def delays_ok_def)
  have t: "timer_table (rc_timers c) (rc_next c) (timer_var c)" using c(1) by (simp add: table_ok_def)
  have p: "\<not> pending ReconnectTimer c" using r by (simp add: c(3))
  note n = new_var[OF t p]
  have e: "scheduleReconnect s = (new_timer ReconnectTimer d c)\<lparr>reconnectTimer := Some (rc_next c)\<rparr>"
    using False by (simp add: scheduleReconnect_def a_def b_def c_def d_def Let_def)
  have "table_ok (scheduleReconnect s)" using n c(1) by (simp add: e table_ok_def)
  moreover have "delays_ok (scheduleReconnect s)"
    using p by (simp add: e delays_ok_def new_timer_def c(8) d_def delay_count runs_def)
  moreover have "phases_ok (scheduleReconnect s)"
    using s False by (simp add: e phases_ok_def n(2) c between_ok_def a_def)
  ultimately show ?thesis
    using s n(2) by (simp add: e realtime_ok_def between_ok_def c recovering_def)
qed

lemma open_ok:
  assumes s: "between_ok s" and c: "last_state s = CLOSED" "\<not> pending ReconnectTimer s"
  shows "realtime_ok (openSocket s)"
proof (cases "rc_stopped s \<or> terminalJobReached s")
  case True
  then show ?thesis using s by (auto simp: openSocket_def realtime_ok_def recovering_def)
next
  case False
  define a where "a = s\<lparr>rc_sockets := rc_sockets s @ [CONNECTING], rc_socket := Some (length (rc_sockets s))\<rparr>"
  have a: "table_ok a" "\<And>k. pending k a \<longleftrightarrow> pending k s" "last_state a = CONNECTING"
    "rc_timers a = rc_timers s" "reconnectAttempt a = reconnectAttempt s" "rc_stopped a = rc_stopped s"
    "terminalJobReached a = terminalJobReached s"
    using s by (simp_all add: a_def between_ok_def table_ok_def last_state_def)
  have k: "sockets_ok a"
    using s c(1) by (auto simp: a_def between_ok_def sockets_ok_def last_state_def nth_append less_Suc_eq)
      (metis One_nat_def Suc_pred diff_Suc_1 length_greater_0_conv less_antisym)
  have t: "timer_table (rc_timers a) (rc_next a) (timer_var a)" using a(1) by (simp add: table_ok_def)
  have p: "\<not> pending ConnectionTimer a" using s c(1) by (auto simp: a(2) between_ok_def phases_ok_def)
  note n = new_var[OF t p]
  have e: "openSocket s = (new_timer ConnectionTimer connectionTimeoutMs a)\<lparr>connectionTimer := Some (rc_next a)\<rparr>"
    using False by (simp add: openSocket_def a_def Let_def)
  have "table_ok (openSocket s)" using n a(1) by (simp add: e table_ok_def)
  moreover have "delays_ok (openSocket s)"
    using s by (simp add: e delays_ok_def new_timer_def a between_ok_def)
  moreover have "phases_ok (openSocket s)"
    using s False c by (simp add: e phases_ok_def n(2) a between_ok_def)
  ultimately show ?thesis
    using k n(2) by (simp add: e realtime_ok_def between_ok_def a recovering_def)
qed

lemma alive_newest:
  assumes "sockets_ok s" "n < length (rc_sockets s)" "rc_sockets s ! n \<noteq> CLOSED"
  shows "n = length (rc_sockets s) - 1" "last_state s = rc_sockets s ! n"
proof -
  show n: "n = length (rc_sockets s) - 1" using assms not_less_less_Suc_eq[of "length (rc_sockets s) - 1" n]
    by (cases "n < length (rc_sockets s) - 1") (auto simp: sockets_ok_def)
  then show "last_state s = rc_sockets s ! n" by (simp add: last_state_def)
qed

text \<open>Moving the newest socket on and dropping the connection timer.\<close>

lemma move_on:
  assumes s: "realtime_ok s" and n: "n < length (rc_sockets s)" "rc_sockets s ! n \<noteq> CLOSED"
    and t: "t = (clearTimer (connectionTimer s) (s\<lparr>rc_sockets := (rc_sockets s)[n := x]\<rparr>))\<lparr>connectionTimer := None\<rparr>"
  shows "sockets_ok t" "table_ok t" "delays_ok t" "last_state t = x"
    "pending k t \<longleftrightarrow> k \<noteq> ConnectionTimer \<and> pending k s" "\<not> pending ReconnectTimer t"
    "rc_stopped t = rc_stopped s" "terminalJobReached t = terminalJobReached s"
    "reconnectAttempt t = reconnectAttempt s"
proof -
  define u where "u = s\<lparr>rc_sockets := (rc_sockets s)[n := x]\<rparr>"
  have k: "sockets_ok s" "table_ok s" "delays_ok s" "phases_ok s"
    using s by (auto simp: realtime_ok_def between_ok_def)
  note l = alive_newest[OF k(1) n]
  have u: "rc_timers u = rc_timers s" "timer_var u = timer_var s" "rc_next u = rc_next s"
    by (simp_all add: u_def)
  have tt: "timer_table (rc_timers u) (rc_next u) (timer_var u)" using k(2) by (simp add: u table_ok_def)
  note c = clear_var[OF tt, of ConnectionTimer, simplified]
  have t': "t = (clearTimer (connectionTimer u) u)\<lparr>connectionTimer := None\<rparr>" by (simp add: t u_def)
  show "sockets_ok t" using k(1) by (simp add: t' u_def sockets_ok_def l(1) nth_list_update)
  show "last_state t = x" using n l(1) by (simp add: t' u_def last_state_def)
  show p: "pending k t \<longleftrightarrow> k \<noteq> ConnectionTimer \<and> pending k s" for k using c(3) by (simp add: t' u)
  show "table_ok t" using k(2) c(2) p[of PollTimer] by (simp add: t' table_ok_def u_def)
  show "delays_ok t" using clear_delays[of u] k(3) by (simp add: t' delays_ok_def u u_def)
  show "\<not> pending ReconnectTimer t" using p k(4) n(2) l(2) by (simp add: phases_ok_def)
qed (simp_all add: t)

lemma opens_ok:
  assumes "realtime_ok s" shows "realtime_ok (socket_opens n s)"
proof (cases "n < length (rc_sockets s) \<and> rc_sockets s ! n = CONNECTING")
  case True
  then have n: "n < length (rc_sockets s)" "rc_sockets s ! n \<noteq> CLOSED" by simp_all
  note m = move_on[OF assms n refl, where x = OPEN]
  have "last_state s = CONNECTING" using alive_newest[OF _ n] True assms by (simp add: realtime_ok_def between_ok_def)
  then show ?thesis
    using m True assms
    by (simp add: socket_opens_def realtime_ok_def between_ok_def phases_ok_def recovering_def)
qed (use assms in \<open>auto simp: socket_opens_def\<close>)

lemma closes_ok:
  assumes "realtime_ok s" shows "realtime_ok (socket_closes n s)"
proof (cases "n < length (rc_sockets s) \<and> rc_sockets s ! n \<noteq> CLOSED")
  case True
  then have n: "n < length (rc_sockets s)" "rc_sockets s ! n \<noteq> CLOSED" by simp_all
  define t where "t = (clearTimer (connectionTimer s) (s\<lparr>rc_sockets := (rc_sockets s)[n := CLOSED]\<rparr>))
    \<lparr>connectionTimer := None\<rparr>"
  note m = move_on[OF assms n t_def]
  have "between_ok t"
    using m assms by (auto simp: between_ok_def realtime_ok_def phases_ok_def)
  then show ?thesis using schedule_ok[OF _ m(4,6)] n by (simp add: socket_closes_def t_def)
qed (use assms in \<open>auto simp: socket_closes_def\<close>)

lemma subscribed_ok:
  assumes s: "realtime_ok s" and l: "last_state s = OPEN"
  shows "realtime_ok (onSubscribed s)"
proof -
  have k: "table_ok s" "delays_ok s" "phases_ok s" "sockets_ok s" "\<not> pending ReconnectTimer s"
    using s l by (auto simp: realtime_ok_def between_ok_def phases_ok_def)
  define a where "a = s\<lparr>reconnectAttempt := 0\<rparr>"
  have a: "table_ok a" "delays_ok a" "pending k a \<longleftrightarrow> pending k s" for k
    using k by (auto simp: a_def table_ok_def delays_ok_def runs_def)
  note f = stop_polling_fields[OF a(1)]
  show ?thesis
    using f a k l
    by (simp add: onSubscribed_def a_def[symmetric] realtime_ok_def[of "stopFallbackPolling a"] between_ok_def phases_ok_def
        recovering_def) (simp add: a_def)
qed

lemma clear_kind:
  assumes s: "table_ok s" "delays_ok s" and k: "k \<noteq> PollTimer"
  shows "table_ok (clearTimer (timer_var s k) s)" "delays_ok (clearTimer (timer_var s k) s)"
    "pending l (clearTimer (timer_var s k) s) \<longleftrightarrow> l \<noteq> k \<and> pending l s"
proof -
  have t: "timer_table (rc_timers s) (rc_next s) (timer_var s)" using s by (simp add: table_ok_def)
  show p: "pending l (clearTimer (timer_var s k) s) \<longleftrightarrow> l \<noteq> k \<and> pending l s" for l
    by (rule clear_var(3)[OF t])
  show "table_ok (clearTimer (timer_var s k) s)"
    using clear_var(1)[OF t, of k] p[of PollTimer] k s(1) by (simp add: table_ok_def)
qed (rule clear_delays[OF s(2)])

lemma timer_ok:
  assumes s: "realtime_ok s" shows "realtime_ok (timer_fires i s)"
proof (cases "rc_timers s i")
  case None then show ?thesis using s by (simp add: timer_fires_def)
next
  case (Some p)
  obtain k d where p: "p = (k, d)" by (cases p)
  have b: "table_ok s" "delays_ok s" "phases_ok s" "sockets_ok s"
    using s by (auto simp: realtime_ok_def between_ok_def)
  have v: "timer_var s k = Some i"
    using b(1) Some p table_held by (fastforce simp: table_ok_def)
  have r: "pending k s" using Some p by (auto simp: runs_def)
  define t where "t = clearTimer (Some i) s"
  note c = clear_kind[OF b(1,2), of k, unfolded v, folded t_def]
  have t: "last_state t = last_state s" "rc_stopped t = rc_stopped s" "reconnectAttempt t = reconnectAttempt s"
    "terminalJobReached t = terminalJobReached s" by (simp_all add: t_def)
  show ?thesis
  proof (cases k)
    case ReconnectTimer
    have x: "last_state s = CLOSED" "\<not> rc_stopped s" using r b(3) ReconnectTimer by (simp_all add: phases_ok_def)
    have "phases_ok t" using b(3) c(3) t x ReconnectTimer by (simp add: phases_ok_def)
    then have "between_ok t" "last_state t = CLOSED" "\<not> pending ReconnectTimer t"
      using c b(4) t x(1) ReconnectTimer by (simp_all add: between_ok_def t_def)
    then show ?thesis using open_ok ReconnectTimer Some p by (simp add: timer_fires_def t_def)
  next
    case ConnectionTimer
    then have k: "sockets_ok t" "table_ok t" "delays_ok t" using c b by (simp_all add: t_def)
    have l: "last_state s \<in> {CONNECTING, CLOSING}" "\<not> rc_stopped s"
      using r b(3) ConnectionTimer by (auto simp: phases_ok_def)
    obtain ss where e: "close_current t = t\<lparr>rc_sockets := ss\<rparr>" using close_current_fields(3)[OF k(1)] by blast
    note x = close_current_fields(1,2)[OF k(1)]
    have l': "last_state (close_current t) = CLOSING" using x(2) l(1) t(1) by auto
    have "between_ok (close_current t)"
      using x k c(3) ConnectionTimer l b(3) l' t unfolding e
      by (auto simp: between_ok_def table_ok_def delays_ok_def phases_ok_def)
    then have "realtime_ok (close_current t)" using l' by (simp add: realtime_ok_def recovering_def)
    then show ?thesis using ConnectionTimer Some p by (simp add: timer_fires_def t_def)
  next
    case PollTimer then show ?thesis using s Some p by (simp add: timer_fires_def)
  qed
qed

text \<open>The end of a subscription, by a terminal job or by the cleanup function.\<close>

lemma close_finished:
  assumes k: "sockets_ok t" "table_ok t" "delays_ok t" "\<not> pending PollTimer t"
    and f: "rc_stopped t \<or> terminalJobReached t"
    and r: "pending ReconnectTimer t \<longrightarrow> last_state t = CLOSED \<and> \<not> rc_stopped t"
    and c: "pending ConnectionTimer t \<longrightarrow> last_state t \<in> {CONNECTING, CLOSING} \<and> \<not> rc_stopped t"
  shows "realtime_ok (close_current t)"
proof -
  obtain ss where e: "close_current t = t\<lparr>rc_sockets := ss\<rparr>" using close_current_fields(3)[OF k(1)] by blast
  show ?thesis
    using close_current_fields(1,2)[OF k(1)] k f r c unfolding e
    by (cases "last_state t")
      (auto simp: realtime_ok_def between_ok_def table_ok_def delays_ok_def phases_ok_def recovering_def)
qed

lemma terminal_ok:
  assumes s: "realtime_ok s"
  shows "realtime_ok (close_current (stopFallbackPolling (s\<lparr>terminalJobReached := True\<rparr>)))"
proof -
  define a where "a = s\<lparr>terminalJobReached := True\<rparr>"
  have a: "table_ok a" "delays_ok a" "sockets_ok a" "last_state a = last_state s" "phases_ok s"
    "terminalJobReached a" "rc_timers a = rc_timers s" "rc_stopped a = rc_stopped s"
    using s by (auto simp: a_def realtime_ok_def between_ok_def table_ok_def delays_ok_def)
  note f = stop_polling_fields[OF a(1)]
  show ?thesis unfolding a_def[symmetric]
    by (rule close_finished) (use f a in \<open>auto simp: phases_ok_def\<close>)
qed

lemma callback_ok:
  assumes s: "realtime_ok s" shows "realtime_ok (callback_returns k outcome s)"
proof -
  have "realtime_ok (s\<lparr>deliveries := ds\<rparr>)" for ds using s by simp
  from this terminal_ok[OF this] show ?thesis
    using s by (simp add: callback_returns_def Let_def split: option.split)
qed

lemma stop_ok:
  assumes s: "realtime_ok s" shows "realtime_ok (stop_subscription s)"
proof -
  define a where "a = s\<lparr>rc_stopped := True\<rparr>"
  define b where "b = clearTimer (reconnectTimer a) (clearTimer (connectionTimer a) a)"
  define c where "c = stopFallbackPolling b"
  have a: "table_ok a" "delays_ok a" "sockets_ok a"
    using s by (auto simp: a_def realtime_ok_def between_ok_def table_ok_def delays_ok_def)
  note a1 = clear_kind[OF a(1,2), of ConnectionTimer, simplified]
  note a2 = clear_kind[OF a1(1,2), of ReconnectTimer, simplified, folded b_def]
  note f = stop_polling_fields[OF a2(1), folded c_def]
  define d where "d = send_current Unsubscribe c"
  have d: "rc_timers d = rc_timers c" "sockets_ok d = sockets_ok c" "table_ok d = table_ok c"
    "delays_ok d = delays_ok c" "rc_stopped d = rc_stopped c" "last_state d = last_state c"
    by (simp_all add: d_def send_current_def sockets_ok_def table_ok_def delays_ok_def last_state_def)
  have e: "stop_subscription s = close_current d"
    by (simp add: stop_subscription_def a_def b_def c_def d_def)
  show ?thesis unfolding e
    by (rule close_finished) (use f d a a1 a2 in \<open>auto simp: b_def a_def\<close>)
qed

lemma message_ok:
  assumes s: "realtime_ok s" shows "realtime_ok (socket_message n received s)"
proof (cases "n < length (rc_sockets s) \<and> rc_sockets s ! n = OPEN")
  case True
  then have "last_state s = OPEN"
    using alive_newest[of s n] s by (simp add: realtime_ok_def between_ok_def)
  then show ?thesis
    using True s subscribed_ok
    by (simp add: socket_message_def createJobMessageHandler_def sendSubscription_def
        split: option.split server_message.split)
qed (use s in \<open>auto simp: socket_message_def\<close>)

lemma start_ok: "realtime_ok (startJobSubscription jobId)"
  by (simp add: startJobSubscription_def openSocket_def new_timer_def realtime_ok_def between_ok_def
      sockets_ok_def table_ok_def timer_table_def runs_def phases_ok_def delays_ok_def recovering_def
      last_state_def timer_var_def split: timer_kind.split)

lemma realtime_step_ok: "realtime_ok s \<Longrightarrow> realtime_ok (realtime_step e s)"
  by (cases e) (simp_all add: opens_ok closes_ok close_current_ok timer_ok poll_answers_ok callback_ok
      stop_ok message_ok)

interpretation realtime_machine: handler_invariant realtime_step realtime_ok
  by unfold_locales (rule realtime_step_ok)

section \<open>What a subscription does in every run\<close>

definition live_sockets :: "realtime \<Rightarrow> nat" where
  "live_sockets s = length (filter (\<lambda>x. x \<noteq> CLOSED) (rc_sockets s))"

definition reconnects_waiting :: "realtime \<Rightarrow> nat" where
  "reconnects_waiting s = (if pending ReconnectTimer s then 1 else 0)"

lemma live_newest:
  assumes "sockets_ok s"
  shows "live_sockets s = (if last_state s = CLOSED then 0 else 1)"
proof -
  define ss where "ss = butlast (rc_sockets s)"
  have e: "rc_sockets s = ss @ [last_state s]"
    using assms append_butlast_last_id[of "rc_sockets s"]
    by (simp add: ss_def sockets_ok_def last_state_def last_conv_nth)
  have "x = CLOSED" if "x \<in> set ss" for x
  proof -
    obtain n where "n < length ss" "x = ss ! n" using \<open>x \<in> set ss\<close> by (auto simp: in_set_conv_nth)
    then show ?thesis using assms by (simp add: ss_def sockets_ok_def nth_butlast)
  qed
  then have "filter (\<lambda>x. x \<noteq> CLOSED) ss = []" by (auto simp: filter_empty_conv)
  then show ?thesis by (simp add: live_sockets_def e)
qed

lemma run_ok: "realtime_ok (run_events realtime_step es (startJobSubscription jobId))"
  by (rule realtime_machine.run_inv[OF start_ok])

lemma ok_conjuncts:
  assumes "realtime_ok s"
  shows "sockets_ok s" "table_ok s" "phases_ok s" "delays_ok s" "recovering s"
  using assms by (simp_all add: realtime_ok_def between_ok_def)

lemma one_timer_each:
  assumes "table_ok s"
  shows "card {i. \<exists>d. rc_timers s i = Some (k, d)} \<le> 1"
proof -
  have "{i. \<exists>d. rc_timers s i = Some (k, d)} \<subseteq> {i. timer_var s k = Some i}"
    using assms table_held by (fastforce simp: table_ok_def)
  also have "\<dots> = set_option (timer_var s k)" by (cases "timer_var s k") auto
  finally show ?thesis
    by (cases "timer_var s k") (auto dest: card_mono[rotated])
qed

text \<open>
  One connection at a time. In every state the browser's subscription can reach, whatever order
  sockets open, fail, close and deliver in and timers fire, at most one of all sockets ever created
  is not closed, none is while a reconnection is scheduled, and of each kind at most one timer
  is pending.
\<close>

theorem realtime_single_connection:
  "live_sockets (run_events realtime_step es (startJobSubscription jobId)) +
     reconnects_waiting (run_events realtime_step es (startJobSubscription jobId)) \<le> 1 \<and>
   card {i. \<exists>d. rc_timers (run_events realtime_step es (startJobSubscription jobId)) i = Some (k, d)} \<le> 1"
  using ok_conjuncts[OF run_ok, of es jobId] live_newest one_timer_each
  by (simp add: reconnects_waiting_def phases_ok_def)

text \<open>
  An unfinished subscription never gives up. Until the cleanup function runs or a terminal job
  was handled, there is always either a socket that is not yet closed (an attempt to connect
  being limited by the connection timer) or a scheduled reconnection, whose delay is the one of the
  policy for the number of failures in a row, and after three failures the HTTP polling runs.
\<close>

theorem realtime_keeps_trying:
  assumes "s = run_events realtime_step es (startJobSubscription jobId)"
    "\<not> rc_stopped s" "\<not> terminalJobReached s"
  shows "live_sockets s + reconnects_waiting s = 1 \<and>
    (last_state s = CONNECTING \<longrightarrow> pending ConnectionTimer s) \<and>
    (\<forall>i d. rc_timers s i = Some (ReconnectTimer, d) \<longrightarrow>
       0 < reconnectAttempt s \<and> d = reconnectDelaysMs ! min (reconnectAttempt s - 1) 4) \<and>
    (3 \<le> reconnectAttempt s \<longrightarrow> pending PollTimer s)"
proof -
  have ok: "realtime_ok s" using assms(1) run_ok by simp
  note k = ok_conjuncts[OF ok]
  have "live_sockets s + reconnects_waiting s = 1"
    using k assms(2,3) live_newest by (simp add: reconnects_waiting_def recovering_def phases_ok_def)
  moreover have "last_state s = CONNECTING \<longrightarrow> pending ConnectionTimer s" "3 \<le> reconnectAttempt s \<longrightarrow> pending PollTimer s"
    using k(3) assms(2,3) by (simp_all add: phases_ok_def)
  ultimately show ?thesis using k(4) unfolding delays_ok_def by blast
qed

definition stopped_at :: "nat \<Rightarrow> client_message list \<Rightarrow> realtime \<Rightarrow> bool" where
  "stopped_at n cs s \<longleftrightarrow> realtime_ok s \<and> rc_stopped s \<and> length (rc_sockets s) = n \<and> rc_commands s = cs"

lemma stopped_not_open: "stopped_at n cs s \<Longrightarrow> i < length (rc_sockets s) \<Longrightarrow> rc_sockets s ! i \<noteq> OPEN"
  using alive_newest(2)[of s i] ok_conjuncts(1,3)[of s] by (auto simp: stopped_at_def phases_ok_def)

lemma close_current_keeps [simp]:
  "length (rc_sockets (close_current s)) = length (rc_sockets s)"
  "rc_commands (close_current s) = rc_commands s" "rc_stopped (close_current s) = rc_stopped s"
  "rc_delivered (close_current s) = rc_delivered s" "polls_pending (close_current s) = polls_pending s"
  "terminalJobReached (close_current s) = terminalJobReached s"
  by (simp_all add: close_current_def split: option.split)

lemma rest_keeps [simp]:
  "rc_commands (clearTimer t s) = rc_commands s" "rc_commands (stopFallbackPolling s) = rc_commands s"
  "rc_sockets (stopFallbackPolling s) = rc_sockets s" "rc_stopped (stopFallbackPolling s) = rc_stopped s"
  "rc_delivered (clearTimer t s) = rc_delivered s" "rc_delivered (stopFallbackPolling s) = rc_delivered s"
  "polls_pending (clearTimer t s) = polls_pending s" "polls_pending (stopFallbackPolling s) = polls_pending s"
  "terminalJobReached (stopFallbackPolling s) = terminalJobReached s"
  by (simp_all add: clearTimer_def stopFallbackPolling_def split: option.split)

lemma ended_step: "stopped_at n cs s \<Longrightarrow> stopped_at n cs (realtime_step e s)"
proof -
  assume s: "stopped_at n cs s"
  then have r: "rc_stopped s" "realtime_ok (realtime_step e s)" "last_state s \<in> {CLOSING, CLOSED}"
    "\<not> pending ReconnectTimer s" "sockets_ok s"
    using realtime_step_ok ok_conjuncts(1,3)[of s] by (auto simp: stopped_at_def phases_ok_def)
  then have o: "current_state s \<noteq> Some OPEN"
    by (auto simp: current_state_def sockets_ok_def last_state_def)
  have c: "rc_sockets s ! i \<noteq> CONNECTING \<and> rc_sockets s ! i \<noteq> OPEN" if "i < length (rc_sockets s)" for i
    using alive_newest(2)[OF r(5) that] r(3) by auto
  have "rc_stopped (realtime_step e s) \<and> length (rc_sockets (realtime_step e s)) = length (rc_sockets s) \<and>
      rc_commands (realtime_step e s) = rc_commands s"
  proof (cases e)
    case (TimerFires i)
    then show ?thesis using r(1)
      by (simp add: timer_fires_def openSocket_def pollJobStatus_def split: option.split timer_kind.split)
  next
    case CleanupRuns
    have "send_current m t = t" if "rc_socket t = rc_socket s" "rc_sockets t = rc_sockets s" for m t
    proof -
      have "current_state t = current_state s" unfolding current_state_def that ..
      then show ?thesis using o by (simp add: send_current_def)
    qed
    then show ?thesis using CleanupRuns
      by (simp add: stop_subscription_def) (simp add: stopFallbackPolling_def split: option.split)
  qed (use r(1) c in \<open>auto simp: socket_opens_def socket_message_def socket_closes_def scheduleReconnect_def
        poll_answers_def deliverJobUpdate_def onStatusMessage_def callback_returns_def Let_def
        split: sum.splits option.splits\<close>)
  then show ?thesis using s r(2) by (simp add: stopped_at_def)
qed

interpretation stopped_machine: handler_invariant realtime_step "stopped_at n cs"
  for n cs by unfold_locales (rule ended_step)

lemma ended_timers:
  assumes "realtime_ok s" "rc_stopped s"
  shows "rc_timers s = (\<lambda>_. None)"
proof
  fix i show "rc_timers s i = None"
  proof (cases "rc_timers s i")
    case (Some p)
    then have "pending (fst p) s" by (cases p) (auto simp: runs_def)
    then show ?thesis using ok_conjuncts(3)[OF assms(1)] assms(2) by (cases "fst p") (auto simp: phases_ok_def)
  qed simp
qed

lemma ended_sockets:
  assumes "realtime_ok s" "rc_stopped s"
  shows "set (rc_sockets s) \<subseteq> {CLOSING, CLOSED}"
proof
  fix x assume "x \<in> set (rc_sockets s)"
  then obtain i where "i < length (rc_sockets s)" "x = rc_sockets s ! i" by (auto simp: in_set_conv_nth)
  then show "x \<in> {CLOSING, CLOSED}"
    using alive_newest(2)[of s i] ok_conjuncts(1,3)[OF assms(1)] assms(2) by (auto simp: phases_ok_def)
qed

text \<open>
  The cleanup function is final. Whenever it runs and whatever the browser reports afterwards,
  no timer is left, every socket is closed or closing, and none is opened and no command sent
  any more.
\<close>

theorem realtime_cleanup_final:
  "rc_timers (run_events realtime_step (earlier @ CleanupRuns # later) (startJobSubscription jobId)) = (\<lambda>_. None) \<and>
   set (rc_sockets (run_events realtime_step (earlier @ CleanupRuns # later) (startJobSubscription jobId)))
     \<subseteq> {CLOSING, CLOSED} \<and>
   length (rc_sockets (run_events realtime_step (earlier @ CleanupRuns # later) (startJobSubscription jobId))) =
     length (rc_sockets (run_events realtime_step earlier (startJobSubscription jobId))) \<and>
   rc_commands (run_events realtime_step (earlier @ CleanupRuns # later) (startJobSubscription jobId)) =
     rc_commands (run_events realtime_step (earlier @ [CleanupRuns]) (startJobSubscription jobId))"
proof -
  define s where "s = run_events realtime_step earlier (startJobSubscription jobId)"
  define t where "t = stop_subscription s"
  have ok: "realtime_ok t" using stop_ok run_ok by (simp add: t_def s_def)
  have "rc_stopped t" "length (rc_sockets t) = length (rc_sockets s)"
    by (simp_all add: t_def stop_subscription_def send_current_def)
  then have st: "stopped_at (length (rc_sockets s)) (rc_commands t) t" using ok by (simp add: stopped_at_def)
  define u where "u = run_events realtime_step later t"
  have u: "stopped_at (length (rc_sockets s)) (rc_commands t) u"
    unfolding u_def by (rule stopped_machine.run_inv[OF st])
  then have "rc_timers u = (\<lambda>_. None)" "set (rc_sockets u) \<subseteq> {CLOSING, CLOSED}"
    using ended_timers[of u] ended_sockets[of u] by (simp_all add: stopped_at_def)
  then show ?thesis using u by (simp add: run_events_append stopped_at_def s_def t_def u_def)
qed

text \<open>A finished subscription with no request under way delivers nothing more.\<close>

definition silent_after :: "JobRecord list \<Rightarrow> realtime \<Rightarrow> bool" where
  "silent_after js s \<longleftrightarrow> realtime_ok s \<and> (rc_stopped s \<or> terminalJobReached s) \<and>
     polls_pending s = 0 \<and> rc_delivered s = js"

lemma silent_after_step: "silent_after js s \<Longrightarrow> silent_after js (realtime_step e s)"
proof -
  assume s: "silent_after js s"
  then have r: "realtime_ok (realtime_step e s)" "last_state s \<in> {CLOSING, CLOSED}" "sockets_ok s"
    "rc_stopped s \<or> terminalJobReached s" "polls_pending s = 0" "\<not> pending PollTimer s"
    using realtime_step_ok ok_conjuncts(1,3)[of s] by (auto simp: silent_after_def phases_ok_def)
  have c: "rc_sockets s ! i \<noteq> CONNECTING \<and> rc_sockets s ! i \<noteq> OPEN" if "i < length (rc_sockets s)" for i
    using alive_newest(2)[OF r(3) that] r(2) by auto
  have "(rc_stopped (realtime_step e s) \<or> terminalJobReached (realtime_step e s)) \<and>
      polls_pending (realtime_step e s) = 0 \<and> rc_delivered (realtime_step e s) = rc_delivered s"
  proof (cases e)
    case (TimerFires i)
    have "rc_timers s i \<noteq> Some (PollTimer, d)" for d using r(6) by (auto simp: runs_def)
    then show ?thesis using r(4,5) TimerFires
      by (auto simp: timer_fires_def openSocket_def clearTimer_def split: option.split timer_kind.split)
  next
    case CleanupRuns
    then show ?thesis using r(5) by (simp add: stop_subscription_def send_current_def)
  qed (use r(4,5) c in \<open>auto simp: socket_opens_def socket_message_def socket_closes_def scheduleReconnect_def
        poll_answers_def onStatusMessage_def callback_returns_def Let_def clearTimer_def
        split: sum.splits option.splits\<close>)
  then show ?thesis using s r(1) by (simp add: silent_after_def)
qed

interpretation silent_machine: handler_invariant realtime_step "silent_after js"
  for js by unfold_locales (rule silent_after_step)

text \<open>
  A late answer has the last word. An HTTP request that is still under way when the subscription
  ends, because the job became terminal or the cleanup function ran, delivers its answer all the
  same when it differs from the last job delivered, and nothing delivered afterwards corrects it,
  although the answer may be older than what was shown.
\<close>

theorem late_answer_overwrites:
  assumes "s = run_events realtime_step es (startJobSubscription jobId)"
    "rc_stopped s \<or> terminalJobReached s" "polls_pending s = 1" "previousJobPayload s \<noteq> Some late"
  shows "rc_delivered (run_events realtime_step (PollAnswers (Inr late) # later) s) = rc_delivered s @ [late]"
proof -
  define t where "t = realtime_step (PollAnswers (Inr late)) s"
  have "realtime_ok t" using realtime_step_ok run_ok assms(1) by (simp only: t_def)
  then have "silent_after (rc_delivered s @ [late]) t"
    using assms(2-4) by (auto simp: silent_after_def t_def poll_answers_def deliverJobUpdate_def)
  from silent_machine.run_inv[OF this, of later] show ?thesis by (simp add: silent_after_def t_def)
qed

section \<open>Witnesses\<close>

definition outage :: "realtime_event list" where
  "outage = [SocketCloses 0, TimerFires 1, SocketCloses 1, TimerFires 3, SocketCloses 2]"

definition demo_update :: "job_status \<Rightarrow> JobRecord" where
  "demo_update st = \<lparr>job_id = ''j'', original_file_name = ''a.mp3'', input_object_key = ''k'', status = st,
     progress = 0, result_object_keys = None, error_message = None, storage_expires_at = None,
     storage_deleted_at = None, created_at = 0, updated_at = 0\<rparr>"

definition recovery :: "realtime_event list" where
  "recovery = outage @ [TimerFires 6, SocketOpens 3, MessageArrives 3 (Some (SubscribedMessage ''j'')),
     MessageArrives 3 (Some (JobUpdate (demo_update COMPLETED))), CallbackReturns 0 None]"

lemmas demo_defs = startJobSubscription_def openSocket_def new_timer_def clearTimer_def socket_opens_def
  socket_closes_def scheduleReconnect_def startFallbackPolling_def pollJobStatus_def onStatusMessage_def
  timer_fires_def socket_message_def createJobMessageHandler_def onSubscribed_def stopFallbackPolling_def
  deliverJobUpdate_def callback_returns_def close_current_def terminalStatuses_def demo_update_def Let_def

theorem realtime_keeps_trying_witness:
  "\<exists>s. s = run_events realtime_step outage (startJobSubscription ''j'') \<and> reconnectAttempt s = 3 \<and>
     live_sockets s + reconnects_waiting s = 1 \<and> pending PollTimer s"
proof -
  define s where "s = run_events realtime_step outage (startJobSubscription ''j'')"
  have e: "\<not> rc_stopped s" "\<not> terminalJobReached s" "reconnectAttempt s = 3"
    unfolding s_def outage_def by (simp_all add: demo_defs)
  show ?thesis using realtime_keeps_trying[OF s_def e(1,2)] e(3) s_def by auto
qed

theorem late_answer_overwrites_witness:
  "\<exists>s. s = run_events realtime_step recovery (startJobSubscription ''j'') \<and>
     rc_delivered s = [demo_update COMPLETED] \<and>
     rc_delivered (run_events realtime_step [PollAnswers (Inr (demo_update PROCESSING)), CleanupRuns] s) =
       [demo_update COMPLETED, demo_update PROCESSING]"
proof -
  define s where "s = run_events realtime_step recovery (startJobSubscription ''j'')"
  have e: "terminalJobReached s" "polls_pending s = 1" "rc_delivered s = [demo_update COMPLETED]"
    "previousJobPayload s = Some (demo_update COMPLETED)"
    unfolding s_def recovery_def outage_def by (simp_all add: demo_defs)
  have "previousJobPayload s \<noteq> Some (demo_update PROCESSING)" by (simp add: e demo_update_def)
  from late_answer_overwrites[OF s_def _ e(2) this, of "[CleanupRuns]"] show ?thesis using e s_def by auto
qed

end
