(* ===== verification/Page.thy ===== *)
theory Page
  imports RealtimeClient ObjectStore
begin

text \<open>
  The state of the browser page: frontend/src/utils/jobs.ts and utils/audio.ts, and the hooks
  useJobHistory.ts, useSelectedJob.ts, useJobWebSocket.ts and useAudioProcessing.ts with
  useApplicationInitialization.ts. A hook's variables are fields of one record; user actions,
  answers of requests and job updates are events. Updates may come from a subscription that is
  no longer current, as late answers do.
\<close>

section \<open>utils/jobs.ts\<close>

definition activeStatuses :: "job_status list" where
  "activeStatuses = [PENDING, PROCESSING, RETRYING]"

definition isActiveJob :: "JobRecord \<Rightarrow> bool" where
  "isActiveJob job \<longleftrightarrow> status job \<in> set activeStatuses"

definition haveJobResultsExpired :: "JobRecord \<Rightarrow> time \<Rightarrow> bool" where
  "haveJobResultsExpired job now =
     (if status job \<noteq> COMPLETED then False
      else if storage_deleted_at job \<noteq> None then True
      else case storage_expires_at job of
             None \<Rightarrow> False
           | Some t \<Rightarrow> t \<le> now)"

section \<open>utils/audio.ts\<close>

text \<open>
  The table is a plain object, so that a lookup may also find what every object inherits: of the
  inherited names two are spelled in lower case.
\<close>

record browser_file =
  file_name :: string
  file_type :: string
  file_size :: nat

datatype looked_up = Text_value string | Inherited_object

definition fallbackAudioContentTypes :: "(string \<times> string) list" where
  "fallbackAudioContentTypes =
     [(''aac'', ''audio/aac''), (''flac'', ''audio/flac''), (''m4a'', ''audio/mp4''),
      (''mp3'', ''audio/mpeg''), (''ogg'', ''audio/ogg''), (''wav'', ''audio/wav'')]"

definition getAudioContentType :: "browser_file \<Rightarrow> looked_up" where
  "getAudioContentType file =
     (if file_type file \<noteq> [] then Text_value (file_type file)
      else let extension = last (js_split (CHR ''.'') (toLowerCase (file_name file)))
      in if extension = [] then Text_value []
         else case map_of fallbackAudioContentTypes extension of
                Some t \<Rightarrow> Text_value t
              | None \<Rightarrow> if extension = ''constructor'' \<or> extension = ''__proto__''
                       then Inherited_object else Text_value [])"

section \<open>useJobHistory.ts\<close>

fun findIndex :: "('a \<Rightarrow> bool) \<Rightarrow> 'a list \<Rightarrow> nat option" where
  "findIndex P [] = None"
| "findIndex P (x # xs) = (if P x then Some 0 else map_option Suc (findIndex P xs))"

definition upsertHistoryJob :: "JobRecord \<Rightarrow> JobRecord list \<Rightarrow> JobRecord list" where
  "upsertHistoryJob updatedJob currentJobs =
     (case findIndex (\<lambda>historyJob. job_id historyJob = job_id updatedJob) currentJobs of
        None \<Rightarrow> updatedJob # currentJobs
      | Some existingIndex \<Rightarrow>
          map (\<lambda>historyJob. if job_id historyJob = job_id updatedJob then updatedJob else historyJob)
            currentJobs)"

section \<open>The page\<close>

text \<open>One run of \<open>startProcessing\<close>, by the request it is waiting for.\<close>

datatype upload_flow =
    Presigning browser_file string
  | Uploading browser_file string string
  | Creating browser_file string

text \<open>The requests that leave the page.\<close>

datatype page_request =
    PresignRequest string string nat
  | UploadRequest string string
  | CreateRequest string string
  | CancelRequest uuid
  | HistoryRequest
  | DownloadsRequest uuid

text \<open>What to do when a history request is answered.\<close>

datatype history_purpose = AtStartup | AfterIdentityChange string

record page =
  pg_job :: "JobRecord option"
  pg_downloadUrls :: "(string \<times> string) list option"
  selectedJobIdRef :: "uuid option"
  pg_awaiting_urls :: "uuid list"
  subscribedJobId :: "uuid option"
  jobHistory :: "JobRecord list"
  isJobHistoryLoading :: bool
  pg_loading :: "history_purpose list"
  pg_message :: string
  selectedFile :: "browser_file option"
  sessionReady :: bool
  isUploading :: bool
  pg_flows :: "upload_flow list"
  isCancelling :: bool
  pg_cancels :: "uuid list"
  pg_log :: "page_request list"

definition setMessage :: "string \<Rightarrow> page \<Rightarrow> page" where
  "setMessage m s = s\<lparr>pg_message := m\<rparr>"

definition issue :: "page_request \<Rightarrow> page \<Rightarrow> page" where
  "issue r s = s\<lparr>pg_log := pg_log s @ [r]\<rparr>"

definition show_int :: "int \<Rightarrow> string" where
  "show_int n = (if n < 0 then CHR ''-'' # show_nat (nat (- n)) else show_nat (nat n))"

subsection \<open>useSelectedJob.ts\<close>

definition handleJobUpdate :: "time \<Rightarrow> JobRecord \<Rightarrow> page \<Rightarrow> page" where
  "handleJobUpdate now updatedJob s0 =
     (let s = s0\<lparr>jobHistory := upsertHistoryJob updatedJob (jobHistory s0)\<rparr>
      in if selectedJobIdRef s \<noteq> Some (job_id updatedJob) then s
      else let s1 = s\<lparr>pg_job := Some updatedJob\<rparr>
      in if status updatedJob = COMPLETED then
           (if haveJobResultsExpired updatedJob now
            then setMessage ''These audio results have expired and are no longer available.''
                   (s1\<lparr>pg_downloadUrls := None\<rparr>)
            else issue (DownloadsRequest (job_id updatedJob))
                   (s1\<lparr>pg_awaiting_urls := job_id updatedJob # pg_awaiting_urls s1\<rparr>))
         else if status updatedJob = FAILED then
           setMessage (case error_message updatedJob of
                         Some m \<Rightarrow> if m = [] then ''Job failed.'' else ''Job failed: '' @ m
                       | None \<Rightarrow> ''Job failed.'') s1
         else if status updatedJob = CANCELLED then setMessage ''Job processing was cancelled.'' s1
         else setMessage (''Job is '' @ status_text (status updatedJob) @ ''. Progress: '' @
                show_int (progress updatedJob) @ ''%'') s1)"

text \<open>The rest of \<open>handleJobUpdate\<close>, once \<open>fetchDownloadUrls\<close> has answered.\<close>

definition urls_answered :: "uuid \<Rightarrow> failure + (string \<times> string) list \<Rightarrow> page \<Rightarrow> page" where
  "urls_answered jobId answer s0 =
     (if jobId \<notin> set (pg_awaiting_urls s0) then s0
      else let s = s0\<lparr>pg_awaiting_urls := remove1 jobId (pg_awaiting_urls s0)\<rparr>
      in if selectedJobIdRef s \<noteq> Some jobId then s
         else case answer of
                Inr urls \<Rightarrow>
                  setMessage ''Job completed! The separated stems are ready to play.''
                    (s\<lparr>pg_downloadUrls := Some urls\<rparr>)
              | Inl f \<Rightarrow>
                  setMessage (failure_text f
                    ''Job completed, but the separated stems could not be loaded.'') s)"

definition selectJob :: "time \<Rightarrow> JobRecord \<Rightarrow> page \<Rightarrow> page" where
  "selectJob now job s0 =
     (let s = handleJobUpdate now job
            (s0\<lparr>selectedJobIdRef := Some (job_id job), subscribedJobId := None, pg_downloadUrls := None\<rparr>)
      in if isActiveJob job then s\<lparr>subscribedJobId := Some (job_id job)\<rparr> else s)"

definition clearSelectedJob :: "page \<Rightarrow> page" where
  "clearSelectedJob s =
     s\<lparr>selectedJobIdRef := None, subscribedJobId := None, pg_job := None, pg_downloadUrls := None\<rparr>"

subsection \<open>Loading the history\<close>

definition loadJobHistory :: "history_purpose \<Rightarrow> page \<Rightarrow> page" where
  "loadJobHistory p s =
     issue HistoryRequest (s\<lparr>isJobHistoryLoading := True, pg_loading := pg_loading s @ [p]\<rparr>)"

definition recovered_message :: "JobRecord \<Rightarrow> string" where
  "recovered_message job =
     ''Recovered '' @ original_file_name job @ '' at '' @ show_int (progress job) @ ''%.''"

text \<open>
  The answer, and what the two callers of \<open>loadJobHistory\<close> do with it:
  \<open>initializeApplication\<close> and \<open>reloadJobsAfterIdentityChange\<close>.
\<close>

definition history_answered ::
    "time \<Rightarrow> history_purpose \<Rightarrow> failure + JobRecord list \<Rightarrow> page \<Rightarrow> page" where
  "history_answered now p answer s0 =
     (if p \<notin> set (pg_loading s0) then s0
      else let s = s0\<lparr>pg_loading := remove1 p (pg_loading s0), isJobHistoryLoading := False\<rparr>;
               ready = (\<lambda>t. case p of AtStartup \<Rightarrow> t\<lparr>sessionReady := True\<rparr> | AfterIdentityChange m \<Rightarrow> t)
      in case answer of
           Inr recovered \<Rightarrow>
             let s1 = ready (s\<lparr>jobHistory := recovered\<rparr>)
             in (case List.find isActiveJob recovered of
                   Some job \<Rightarrow> setMessage (recovered_message job) (selectJob now job s1)
                 | None \<Rightarrow>
                     setMessage (case p of AtStartup \<Rightarrow> ''Backend is connected.'' | AfterIdentityChange m \<Rightarrow> m) s1)
         | Inl f \<Rightarrow>
             setMessage (failure_text f
               (case p of AtStartup \<Rightarrow> ''Backend connected, but job history could not be loaded.''
                        | AfterIdentityChange m \<Rightarrow> ''Account changed, but job history could not be loaded.''))
               (ready s))"

definition reloadJobsAfterIdentityChange :: "string \<Rightarrow> page \<Rightarrow> page" where
  "reloadJobsAfterIdentityChange successMessage s =
     loadJobHistory (AfterIdentityChange successMessage) (clearSelectedJob s)"

subsection \<open>useAudioProcessing.ts\<close>

definition selectFile :: "browser_file option \<Rightarrow> page \<Rightarrow> page" where
  "selectFile file s =
     setMessage (case file of Some f \<Rightarrow> ''Selected file: '' @ file_name f | None \<Rightarrow> ''Please choose an audio file'')
       ((clearSelectedJob s)\<lparr>selectedFile := file\<rparr>)"

text \<open>
  A content type that is an inherited object is left out of the JSON request; the request that
  leaves is recorded with an empty type.
\<close>

fun sent_type :: "looked_up \<Rightarrow> string" where
  "sent_type (Text_value t) = t"
| "sent_type Inherited_object = []"

definition startProcessing :: "page \<Rightarrow> page" where
  "startProcessing s =
     (case selectedFile s of
        None \<Rightarrow> setMessage ''Please choose an audio file first.'' s
      | Some file \<Rightarrow>
          if \<not> sessionReady s then setMessage ''The secure browser session is not ready.'' s
          else if getAudioContentType file = Text_value []
          then setMessage ''Could not determine the selected file's audio type.'' s
          else let contentType = sent_type (getAudioContentType file)
               in issue (PresignRequest (file_name file) contentType (file_size file))
                    (setMessage ''Requesting presigned URL...''
                      (s\<lparr>isUploading := True, pg_flows := Presigning file contentType # pg_flows s\<rparr>)))"

text \<open>Each answer moves its run on; a failure of any of the three ends it the same way.\<close>

definition flow_failed :: "failure \<Rightarrow> page \<Rightarrow> page" where
  "flow_failed f s = (setMessage (failure_text f ''Something went wrong.'') s)\<lparr>isUploading := False\<rparr>"

definition presign_answered :: "browser_file \<Rightarrow> string \<Rightarrow> failure + string \<times> string \<Rightarrow> page \<Rightarrow> page" where
  "presign_answered file contentType answer s0 =
     (if Presigning file contentType \<notin> set (pg_flows s0) then s0
      else let s = s0\<lparr>pg_flows := remove1 (Presigning file contentType) (pg_flows s0)\<rparr>
      in case answer of
           Inl f \<Rightarrow> flow_failed f s
         | Inr (uploadUrl, objectKey) \<Rightarrow>
             issue (UploadRequest uploadUrl contentType)
               (setMessage ''Uploading file to object storage...''
                 (s\<lparr>pg_flows := Uploading file uploadUrl objectKey # pg_flows s\<rparr>)))"

definition upload_answered :: "browser_file \<Rightarrow> string \<Rightarrow> string \<Rightarrow> failure option \<Rightarrow> page \<Rightarrow> page" where
  "upload_answered file uploadUrl objectKey outcome s0 =
     (if Uploading file uploadUrl objectKey \<notin> set (pg_flows s0) then s0
      else let s = s0\<lparr>pg_flows := remove1 (Uploading file uploadUrl objectKey) (pg_flows s0)\<rparr>
      in case outcome of
           Some f \<Rightarrow> flow_failed f s
         | None \<Rightarrow>
             issue (CreateRequest (file_name file) objectKey)
               (setMessage ''Creating processing job...''
                 (s\<lparr>pg_flows := Creating file objectKey # pg_flows s\<rparr>)))"

definition create_answered :: "time \<Rightarrow> browser_file \<Rightarrow> string \<Rightarrow> failure + JobRecord \<Rightarrow> page \<Rightarrow> page" where
  "create_answered now file objectKey answer s0 =
     (if Creating file objectKey \<notin> set (pg_flows s0) then s0
      else let s = s0\<lparr>pg_flows := remove1 (Creating file objectKey) (pg_flows s0)\<rparr>
      in case answer of
           Inl f \<Rightarrow> flow_failed f s
         | Inr createdJob \<Rightarrow>
             (setMessage ''Job created. The worker will process it in the background.''
               (selectJob now createdJob s))\<lparr>isUploading := False\<rparr>)"

definition cancelJob_clicked :: "page \<Rightarrow> page" where
  "cancelJob_clicked s =
     (case pg_job s of
        None \<Rightarrow> s
      | Some job \<Rightarrow>
          if isCancelling s then s
          else issue (CancelRequest (job_id job))
                 (setMessage ''Cancelling job processing...''
                   (s\<lparr>isCancelling := True, pg_cancels := job_id job # pg_cancels s\<rparr>)))"

text \<open>The rest of \<open>cancelJob\<close>, for the request of the job with the given identifier.\<close>

definition cancel_answered :: "time \<Rightarrow> uuid \<Rightarrow> failure + JobRecord \<Rightarrow> page \<Rightarrow> page" where
  "cancel_answered now jobId answer s0 =
     (if jobId \<notin> set (pg_cancels s0) then s0
      else let s = s0\<lparr>pg_cancels := remove1 jobId (pg_cancels s0)\<rparr>
      in case answer of
        Inr cancelledJob \<Rightarrow>
          (setMessage ''Job processing was cancelled.'' (selectJob now cancelledJob s))\<lparr>isCancelling := False\<rparr>
      | Inl f \<Rightarrow> (setMessage (failure_text f ''Failed to cancel job.'') s)\<lparr>isCancelling := False\<rparr>)"

text \<open>The outer catch of \<open>initializeApplication\<close>: session, identity or health check failed.\<close>

definition initialization_failed :: "page \<Rightarrow> page" where
  "initialization_failed s = setMessage ''Could not connect to backend.'' (s\<lparr>sessionReady := False\<rparr>)"

section \<open>The machine\<close>

datatype page_event =
    ApplicationStarts
  | InitializationFails
  | IdentityChanges string
  | HistoryAnswers time history_purpose "failure + JobRecord list"
  | HistoryJobClicked time JobRecord
  | UpdateArrives time JobRecord
  | StatusArrives string
  | UrlsAnswer uuid "failure + (string \<times> string) list"
  | FileChosen "browser_file option"
  | StartClicked
  | PresignAnswers browser_file string "failure + string \<times> string"
  | UploadAnswers browser_file string string "failure option"
  | CreateAnswers time browser_file string "failure + JobRecord"
  | CancelClicked
  | CancelAnswers time uuid "failure + JobRecord"

fun page_step :: "page_event \<Rightarrow> page \<Rightarrow> page" where
  "page_step ApplicationStarts s = loadJobHistory AtStartup s"
| "page_step InitializationFails s = initialization_failed s"
| "page_step (IdentityChanges m) s = reloadJobsAfterIdentityChange m s"
| "page_step (HistoryAnswers now p answer) s = history_answered now p answer s"
| "page_step (HistoryJobClicked now job) s = selectJob now job s"
| "page_step (UpdateArrives now job) s = handleJobUpdate now job s"
| "page_step (StatusArrives m) s = setMessage m s"
| "page_step (UrlsAnswer jobId answer) s = urls_answered jobId answer s"
| "page_step (FileChosen file) s = selectFile file s"
| "page_step StartClicked s = startProcessing s"
| "page_step (PresignAnswers file ct answer) s = presign_answered file ct answer s"
| "page_step (UploadAnswers file url key outcome) s = upload_answered file url key outcome s"
| "page_step (CreateAnswers now file key answer) s = create_answered now file key answer s"
| "page_step CancelClicked s = cancelJob_clicked s"
| "page_step (CancelAnswers now jobId answer) s = cancel_answered now jobId answer s"

definition empty_page :: page where
  "empty_page = \<lparr>pg_job = None, pg_downloadUrls = None, selectedJobIdRef = None, pg_awaiting_urls = [],
     subscribedJobId = None, jobHistory = [], isJobHistoryLoading = False, pg_loading = [],
     pg_message = ''Checking backend...'', selectedFile = None, sessionReady = False,
     isUploading = False, pg_flows = [], isCancelling = False, pg_cancels = [], pg_log = []\<rparr>"

section \<open>What the page shows\<close>

text \<open>
  The job in the detail panel is the selected one, a subscription belongs to it, and download
  links shown were answered for it.
\<close>

definition shown_ok :: "(uuid \<times> (string \<times> string) list) set \<Rightarrow> page \<Rightarrow> bool" where
  "shown_ok A s \<longleftrightarrow>
     (\<forall>job. pg_job s = Some job \<longrightarrow> selectedJobIdRef s = Some (job_id job)) \<and>
     (\<forall>i. subscribedJobId s = Some i \<longrightarrow> selectedJobIdRef s = Some i) \<and>
     (\<forall>urls. pg_downloadUrls s = Some urls \<longrightarrow> (\<exists>i. selectedJobIdRef s = Some i \<and> (i, urls) \<in> A))"

lemma shown_rest [simp]:
  "shown_ok A (s\<lparr>pg_message := a\<rparr>) = shown_ok A s" "shown_ok A (s\<lparr>pg_log := b\<rparr>) = shown_ok A s"
  "shown_ok A (s\<lparr>jobHistory := c\<rparr>) = shown_ok A s" "shown_ok A (s\<lparr>pg_awaiting_urls := d\<rparr>) = shown_ok A s"
  "shown_ok A (s\<lparr>isJobHistoryLoading := e\<rparr>) = shown_ok A s" "shown_ok A (s\<lparr>pg_loading := f\<rparr>) = shown_ok A s"
  "shown_ok A (s\<lparr>selectedFile := g\<rparr>) = shown_ok A s" "shown_ok A (s\<lparr>sessionReady := e\<rparr>) = shown_ok A s"
  "shown_ok A (s\<lparr>isUploading := e\<rparr>) = shown_ok A s" "shown_ok A (s\<lparr>pg_flows := i\<rparr>) = shown_ok A s"
  "shown_ok A (s\<lparr>isCancelling := e\<rparr>) = shown_ok A s" "shown_ok A (s\<lparr>pg_cancels := g'\<rparr>) = shown_ok A s"
  by (simp_all add: shown_ok_def)

lemma shown_helpers [simp]:
  "shown_ok A (setMessage m s) = shown_ok A s" "shown_ok A (issue r s) = shown_ok A s"
  "shown_ok A (flow_failed f s) = shown_ok A s" "shown_ok A (loadJobHistory p s) = shown_ok A s"
  by (simp_all add: setMessage_def issue_def flow_failed_def loadJobHistory_def)

lemma shown_update: "shown_ok A s \<Longrightarrow> shown_ok A (handleJobUpdate now job s)"
  by (simp add: handleJobUpdate_def Let_def) (auto simp: shown_ok_def)

lemma shown_clear [simp]: "shown_ok A (clearSelectedJob s)"
  by (simp add: clearSelectedJob_def shown_ok_def)

lemma update_keeps [simp]:
  "selectedJobIdRef (handleJobUpdate now job s) = selectedJobIdRef s"
  "subscribedJobId (handleJobUpdate now job s) = subscribedJobId s"
  by (simp_all add: handleJobUpdate_def Let_def setMessage_def issue_def)

text \<open>Selecting: the old job may still be in the panel's variable when the update starts.\<close>

lemma shown_select: "shown_ok A (selectJob now job s)"
proof -
  define t where "t = s\<lparr>selectedJobIdRef := Some (job_id job), subscribedJobId := None, pg_downloadUrls := None\<rparr>"
  have "pg_job (handleJobUpdate now job t) = Some job" "pg_downloadUrls (handleJobUpdate now job t) = None"
    by (simp_all add: handleJobUpdate_def t_def Let_def setMessage_def issue_def)
  moreover have "selectedJobIdRef (handleJobUpdate now job t) = Some (job_id job)"
    "subscribedJobId (handleJobUpdate now job t) = None" by (simp_all add: t_def)
  ultimately show ?thesis by (simp add: selectJob_def t_def[symmetric] Let_def shown_ok_def)
qed

lemma shown_urls:
  "shown_ok A s \<Longrightarrow> (\<And>urls. answer = Inr urls \<Longrightarrow> (jobId, urls) \<in> A) \<Longrightarrow> shown_ok A (urls_answered jobId answer s)"
  by (cases answer) (simp_all add: urls_answered_def Let_def, auto simp: shown_ok_def)

fun answered_urls :: "page_event \<Rightarrow> (uuid \<times> (string \<times> string) list) set" where
  "answered_urls (UrlsAnswer jobId (Inr urls)) = {(jobId, urls)}"
| "answered_urls _ = {}"

lemma answered_urls_D: "(j, urls) \<in> answered_urls e \<Longrightarrow> e = UrlsAnswer j (Inr urls)"
  by (cases e rule: answered_urls.cases) auto

lemma shown_step:
  assumes s: "shown_ok A s" and e: "answered_urls e \<subseteq> A"
  shows "shown_ok A (page_step e s)"
proof (cases e)
  case (UrlsAnswer jobId answer)
  then show ?thesis using shown_urls[OF s, of answer jobId] e by (cases answer) auto
next
  case (HistoryAnswers now p answer)
  show ?thesis using s unfolding HistoryAnswers
    by (simp add: history_answered_def Let_def shown_select split: sum.split option.split history_purpose.split)
qed (use s in \<open>simp_all add: initialization_failed_def reloadJobsAfterIdentityChange_def shown_select
  shown_update selectFile_def startProcessing_def presign_answered_def upload_answered_def
  create_answered_def cancelJob_clicked_def cancel_answered_def Let_def
  split: option.split sum.split prod.split\<close>)

lemma shown_run:
  "shown_ok A s \<Longrightarrow> (\<forall>e \<in> set es. answered_urls e \<subseteq> A) \<Longrightarrow> shown_ok A (run_events page_step es s)"
  by (induction es arbitrary: s) (auto intro: shown_step)

text \<open>
  C20: the page never mixes jobs up. Whatever the user clicks while requests are under way, and in
  whatever order they are answered and updates arrive, the job in the detail panel is the
  selected one, the realtime subscription is the selected job's, and download links on the screen
  are links that the backend answered for the selected job.
\<close>

theorem page_shows_selected:
  assumes "s = run_events page_step es empty_page"
  shows "(pg_job s = Some job \<longrightarrow> selectedJobIdRef s = Some (job_id job)) \<and>
    (subscribedJobId s = Some i \<longrightarrow> selectedJobIdRef s = Some i) \<and>
    (pg_downloadUrls s = Some urls \<longrightarrow>
       (\<exists>j. selectedJobIdRef s = Some j \<and> UrlsAnswer j (Inr urls) \<in> set es))"
proof -
  let ?A = "\<Union>e \<in> set es. answered_urls e"
  have "shown_ok ?A empty_page" by (simp add: shown_ok_def empty_page_def)
  then have "shown_ok ?A s" unfolding assms by (rule shown_run) auto
  moreover have "UrlsAnswer j (Inr urls) \<in> set es" if "(j, urls) \<in> ?A" for j
    using that answered_urls_D by blast
  ultimately show ?thesis unfolding shown_ok_def by blast
qed

section \<open>History\<close>

lemma findIndex_None: "findIndex P xs = None \<longleftrightarrow> (\<forall>x \<in> set xs. \<not> P x)"
  by (induction xs) auto

definition history_map :: "JobRecord list \<Rightarrow> uuid \<Rightarrow> JobRecord option" where
  "history_map js = map_of (map (\<lambda>j. (job_id j, j)) js)"

lemma history_map_None: "history_map js i = None \<longleftrightarrow> i \<notin> job_id ` set js"
  by (auto simp: history_map_def map_of_eq_None_iff image_image)

lemma replace_absent:
  "job_id job \<notin> job_id ` set js \<Longrightarrow> map (\<lambda>j. if job_id j = job_id job then job else j) js = js"
  by (rule map_idI) (metis imageI)

lemma history_map_replace:
  assumes "job_id job \<in> job_id ` set js"
  shows "history_map (map (\<lambda>j. if job_id j = job_id job then job else j) js) = (history_map js)(job_id job \<mapsto> job)"
  using assms
proof (induction js)
  case (Cons x xs)
  show ?case
  proof (cases "job_id job \<in> job_id ` set xs")
    case True
    then show ?thesis using Cons.IH by (auto simp: history_map_def fun_upd_twist)
  next
    case False
    then have "job_id x = job_id job" using Cons.prems by auto
    then show ?thesis using replace_absent[OF False] by (simp add: history_map_def fun_eq_iff)
  qed
qed simp

lemma upsert_eq:
  "upsertHistoryJob job js =
     (if job_id job \<in> job_id ` set js then map (\<lambda>j. if job_id j = job_id job then job else j) js
      else job # js)"
proof (cases "findIndex (\<lambda>h. job_id h = job_id job) js")
  case None
  then have "job_id job \<notin> job_id ` set js" unfolding findIndex_None by (metis imageE)
  then show ?thesis using None by (simp add: upsertHistoryJob_def)
next
  case (Some k)
  then have "\<not> (\<forall>h \<in> set js. job_id h \<noteq> job_id job)"
    using findIndex_None[of "\<lambda>h. job_id h = job_id job" js] by simp
  then have "job_id job \<in> job_id ` set js" by (metis imageI)
  then show ?thesis using Some by (simp add: upsertHistoryJob_def)
qed

lemma upsert_ids:
  "map job_id (upsertHistoryJob job js) =
     (if job_id job \<in> job_id ` set js then map job_id js else job_id job # map job_id js)"
  by (simp add: upsert_eq)

text \<open>
  C38: the history is a map ordered by age. Storing an update refines the update of a finite map from
  job identifiers to jobs: exactly this job's entry changes, a known job keeps its place, an
  unknown one comes first, and the list never shows a job twice.
\<close>

theorem history_upsert_refines:
  "history_map (upsertHistoryJob job js) = (history_map js)(job_id job \<mapsto> job) \<and>
   map job_id (upsertHistoryJob job js) =
     (if job_id job \<in> job_id ` set js then map job_id js else job_id job # map job_id js) \<and>
   distinct (map job_id (upsertHistoryJob job js)) = distinct (map job_id js)"
proof (intro conjI)
  show "history_map (upsertHistoryJob job js) = (history_map js)(job_id job \<mapsto> job)"
    using history_map_replace by (simp add: upsert_eq history_map_def)
  show "distinct (map job_id (upsertHistoryJob job js)) = distinct (map job_id js)"
    by (auto simp: upsert_ids)
qed (rule upsert_ids)

section \<open>Uploads\<close>

text \<open>
  An upload under way has the address and key that were granted for its file; a job was only ever
  requested for a key whose upload was granted for a file of this name and has succeeded.
\<close>

definition uploads_ok :: "page_event set \<Rightarrow> page \<Rightarrow> bool" where
  "uploads_ok E s \<longleftrightarrow>
     (\<forall>file url key. Uploading file url key \<in> set (pg_flows s) \<longrightarrow>
        (\<exists>ct. PresignAnswers file ct (Inr (url, key)) \<in> E)) \<and>
     (\<forall>name key. CreateRequest name key \<in> set (pg_log s) \<longrightarrow>
        (\<exists>file url ct. name = file_name file \<and> PresignAnswers file ct (Inr (url, key)) \<in> E \<and>
           UploadAnswers file url key None \<in> E))"

lemma uploads_rest [simp]:
  "uploads_ok E (s\<lparr>pg_message := a\<rparr>) = uploads_ok E s" "uploads_ok E (s\<lparr>pg_job := b\<rparr>) = uploads_ok E s"
  "uploads_ok E (s\<lparr>jobHistory := c\<rparr>) = uploads_ok E s" "uploads_ok E (s\<lparr>pg_awaiting_urls := d\<rparr>) = uploads_ok E s"
  "uploads_ok E (s\<lparr>isJobHistoryLoading := e\<rparr>) = uploads_ok E s" "uploads_ok E (s\<lparr>pg_loading := f\<rparr>) = uploads_ok E s"
  "uploads_ok E (s\<lparr>selectedFile := g\<rparr>) = uploads_ok E s" "uploads_ok E (s\<lparr>sessionReady := e\<rparr>) = uploads_ok E s"
  "uploads_ok E (s\<lparr>isUploading := e\<rparr>) = uploads_ok E s" "uploads_ok E (s\<lparr>isCancelling := e\<rparr>) = uploads_ok E s"
  "uploads_ok E (s\<lparr>pg_cancels := g'\<rparr>) = uploads_ok E s"
  "uploads_ok E (s\<lparr>pg_downloadUrls := h\<rparr>) = uploads_ok E s" "uploads_ok E (s\<lparr>selectedJobIdRef := i\<rparr>) = uploads_ok E s"
  "uploads_ok E (s\<lparr>subscribedJobId := i\<rparr>) = uploads_ok E s"
  by (simp_all add: uploads_ok_def)

lemma uploads_issue [simp]:
  assumes "\<And>name key. r \<noteq> CreateRequest name key"
  shows "uploads_ok E (issue r s) = uploads_ok E s"
  by (simp add: uploads_ok_def issue_def assms[symmetric])

lemma uploads_helpers [simp]:
  "uploads_ok E (setMessage m s) = uploads_ok E s" "uploads_ok E (flow_failed f s) = uploads_ok E s"
  "uploads_ok E (loadJobHistory p s) = uploads_ok E s" "uploads_ok E (clearSelectedJob s) = uploads_ok E s"
  "uploads_ok E (handleJobUpdate now job s) = uploads_ok E s"
  by (simp_all add: setMessage_def flow_failed_def loadJobHistory_def clearSelectedJob_def
      handleJobUpdate_def Let_def)

lemma uploads_select [simp]: "uploads_ok E (selectJob now job s) = uploads_ok E s"
  by (simp add: selectJob_def Let_def)

lemma uploads_flows:
  "uploads_ok E s \<Longrightarrow> (\<And>file url key. Uploading file url key \<in> set fs \<Longrightarrow>
      Uploading file url key \<in> set (pg_flows s) \<or> (\<exists>ct. PresignAnswers file ct (Inr (url, key)) \<in> E)) \<Longrightarrow>
    uploads_ok E (s\<lparr>pg_flows := fs\<rparr>)"
  unfolding uploads_ok_def by simp blast

lemma uploads_create:
  assumes "uploads_ok E s" "PresignAnswers file ct (Inr (url, key)) \<in> E" "UploadAnswers file url key None \<in> E"
  shows "uploads_ok E (issue (CreateRequest (file_name file) key) s)"
  using assms unfolding uploads_ok_def issue_def by simp blast

lemma uploads_removed:
  "uploads_ok E s \<Longrightarrow> uploads_ok E (s\<lparr>pg_flows := remove1 f (pg_flows s)\<rparr>)"
  by (erule uploads_flows) (auto dest: notin_set_remove1)

lemma uploads_moved:
  assumes "uploads_ok E s" "\<And>file url key. g = Uploading file url key \<Longrightarrow> \<exists>ct. PresignAnswers file ct (Inr (url, key)) \<in> E"
  shows "uploads_ok E (s\<lparr>pg_flows := g # remove1 f (pg_flows s)\<rparr>)"
  using assms by (intro uploads_flows) (auto dest: notin_set_remove1)

lemma uploads_step:
  assumes s: "uploads_ok E s" and e: "e \<in> E"
  shows "uploads_ok E (page_step e s)"
proof (cases e)
  case StartClicked
  have "uploads_ok E (s\<lparr>isUploading := True, pg_flows := Presigning f ct # pg_flows s\<rparr>)" for f ct
    using uploads_flows[of E "s\<lparr>isUploading := True\<rparr>" "Presigning f ct # pg_flows s"] s by auto
  then show ?thesis using s StartClicked by (simp add: startProcessing_def Let_def split: option.split)
next
  case (PresignAnswers fl ct answer)
  have "uploads_ok E (s\<lparr>pg_flows := Uploading fl url key # remove1 (Presigning fl ct) (pg_flows s)\<rparr>)"
    if "answer = Inr (url, key)" for url key
    using e that PresignAnswers by (intro uploads_moved[OF s]) auto
  then show ?thesis using s uploads_removed[OF s] unfolding PresignAnswers
    by (simp add: presign_answered_def Let_def split: sum.split prod.split)
next
  case (UploadAnswers fl url key outcome)
  show ?thesis
  proof (cases "Uploading fl url key \<in> set (pg_flows s) \<and> outcome = None")
    case True
    obtain ct where "PresignAnswers fl ct (Inr (url, key)) \<in> E" using s True unfolding uploads_ok_def by blast
    moreover have "UploadAnswers fl url key None \<in> E" using e UploadAnswers True by simp
    ultimately show ?thesis
      using True UploadAnswers uploads_moved[OF s, of "Creating fl key"] uploads_create
      by (simp add: upload_answered_def Let_def)
  next
    case False
    then show ?thesis using s uploads_removed[OF s] UploadAnswers
      by (cases outcome) (simp_all add: upload_answered_def Let_def)
  qed
next
  case (CreateAnswers now fl key answer)
  then show ?thesis using s uploads_removed[OF s] by (simp add: create_answered_def Let_def split: sum.split)
next
  case (HistoryAnswers now p answer)
  show ?thesis using s unfolding HistoryAnswers
    by (simp add: history_answered_def Let_def split: sum.split option.split history_purpose.split)
qed (use s in \<open>simp_all add: initialization_failed_def reloadJobsAfterIdentityChange_def selectFile_def
  urls_answered_def cancelJob_clicked_def cancel_answered_def Let_def split: option.split sum.split\<close>)

lemma uploads_run:
  "uploads_ok E s \<Longrightarrow> set es \<subseteq> E \<Longrightarrow> uploads_ok E (run_events page_step es s)"
  by (induction es arbitrary: s) (auto intro: uploads_step)

text \<open>
  No job without an upload. Whatever else happens on the page, a job is requested only for an
  object key that the backend granted for a file, under that file's name, and after the upload to
  the address granted with that key has succeeded.
\<close>

theorem job_requested_after_upload:
  assumes "CreateRequest name key \<in> set (pg_log (run_events page_step es empty_page))"
  shows "\<exists>file url ct. name = file_name file \<and> PresignAnswers file ct (Inr (url, key)) \<in> set es \<and>
    UploadAnswers file url key None \<in> set es"
proof -
  have "uploads_ok (set es) (run_events page_step es empty_page)"
    by (rule uploads_run) (simp_all add: uploads_ok_def empty_page_def)
  then show ?thesis using assms unfolding uploads_ok_def by blast
qed

section \<open>Content types\<close>

text \<open>
  Browser and server agree on audio files. For a file of unknown type the browser finds a
  content type exactly when the server accepts the file's extension, and the type it finds is
  one the server accepts.
\<close>

theorem audio_type_agreement:
  "(\<exists>t. getAudioContentType \<lparr>file_name = name, file_type = [], file_size = n\<rparr> = Text_value t \<and>
      t \<in> set allowedAudioContentTypes) = hasAllowedAudioExtension name \<and>
   getAudioContentType \<lparr>file_name = name, file_type = [], file_size = n\<rparr>
     \<in> {Text_value [], Inherited_object} \<union> Text_value ` set allowedAudioContentTypes"
  by (auto simp: getAudioContentType_def hasAllowedAudioExtension_def allowedAudioExtensions_def
      allowedAudioContentTypes_def fallbackAudioContentTypes_def Let_def)

text \<open>The browser's and the server's view of expired results are the same.\<close>

lemma expired_agreement:
  "haveJobResultsExpired job now \<longleftrightarrow> status job = COMPLETED \<and> hasStorageExpired job now"
  by (simp add: haveJobResultsExpired_def hasStorageExpired_def)

lemma active_agreement: "isActiveJob job \<longleftrightarrow> \<not> terminal_status (status job)"
  by (cases "status job") (simp_all add: isActiveJob_def activeStatuses_def terminal_status_def)

section \<open>Witnesses\<close>

definition demo_file :: browser_file where
  "demo_file = \<lparr>file_name = ''a.mp3'', file_type = [], file_size = 9\<rparr>"

definition demo_job_row :: "job_status \<Rightarrow> JobRecord" where
  "demo_job_row st = (demo_update st)\<lparr>storage_expires_at := Some 10\<rparr>"

definition demo_visit :: "page_event list" where
  "demo_visit = [HistoryJobClicked 1 (demo_job_row COMPLETED), UrlsAnswer ''j'' (Inr [(''vocals'', ''v'')])]"

definition demo_upload :: "page_event list" where
  "demo_upload =
     [ApplicationStarts, HistoryAnswers 0 AtStartup (Inr []), FileChosen (Some demo_file), StartClicked,
      PresignAnswers demo_file ''audio/mpeg'' (Inr (''url'', ''k'')), UploadAnswers demo_file ''url'' ''k'' None]"

lemma demo_visit_end:
  "pg_downloadUrls (run_events page_step demo_visit empty_page) = Some [(''vocals'', ''v'')]"
  by (simp add: demo_visit_def selectJob_def handleJobUpdate_def urls_answered_def setMessage_def issue_def
      haveJobResultsExpired_def isActiveJob_def activeStatuses_def Let_def demo_job_row_def demo_update_def
      empty_page_def)

lemma demo_upload_end:
  "CreateRequest ''a.mp3'' ''k'' \<in> set (pg_log (run_events page_step demo_upload empty_page))"
proof -
  have t: "getAudioContentType demo_file = Text_value ''audio/mpeg''" by code_simp
  have f: "file_name demo_file = ''a.mp3''" by (simp add: demo_file_def)
  define ready where "ready = run_events page_step [ApplicationStarts, HistoryAnswers 0 AtStartup (Inr []),
    FileChosen (Some demo_file)] empty_page"
  have r: "sessionReady ready" "selectedFile ready = Some demo_file" "pg_flows ready = []"
    by (simp_all add: ready_def loadJobHistory_def history_answered_def selectFile_def clearSelectedJob_def
        setMessage_def issue_def Let_def empty_page_def)
  have "CreateRequest ''a.mp3'' ''k'' \<in> set (pg_log (run_events page_step [StartClicked,
      PresignAnswers demo_file ''audio/mpeg'' (Inr (''url'', ''k'')), UploadAnswers demo_file ''url'' ''k'' None] ready))"
    using r t f by (simp add: startProcessing_def presign_answered_def upload_answered_def setMessage_def
        issue_def Let_def)
  then show ?thesis by (simp add: demo_upload_def ready_def)
qed

theorem page_shows_selected_witness:
  "\<exists>s. s = run_events page_step demo_visit empty_page \<and>
     pg_downloadUrls s = Some [(''vocals'', ''v'')] \<and> selectedJobIdRef s = Some ''j''"
proof -
  define s where "s = run_events page_step demo_visit empty_page"
  have u: "pg_downloadUrls s = Some [(''vocals'', ''v'')]" by (simp only: s_def demo_visit_end)
  then obtain j where "selectedJobIdRef s = Some j" "UrlsAnswer j (Inr [(''vocals'', ''v'')]) \<in> set demo_visit"
    using page_shows_selected[OF s_def] by blast
  then show ?thesis using u s_def by (auto simp: demo_visit_def)
qed

theorem job_requested_after_upload_witness:
  "\<exists>file url ct. ''a.mp3'' = file_name file \<and> PresignAnswers file ct (Inr (url, ''k'')) \<in> set demo_upload"
  using job_requested_after_upload[OF demo_upload_end] by blast

end
