(* ===== verification/BrowserApi.thy ===== *)
theory BrowserApi
  imports Page Server
begin

text \<open>
  The network layer of the browser: frontend/src/api/audioProcessing.ts, authentication.ts,
  accountManagement.ts and apiErrors.ts, with the address normalisation of config.ts. \<open>fetch\<close> is a
  parameter that answers a request or fails; an answer has its status, its body as parsed JSON
  (\<open>None\<close> when the body is not JSON) and the correlation header. The requests are then met
  with the routes of the server.
\<close>

section \<open>config.ts\<close>

definition normalizeBaseUrl :: "string \<Rightarrow> string" where
  "normalizeBaseUrl v = rev (dropWhile (\<lambda>c. c = CHR ''/'') (rev (js_trim v)))"

definition API_BASE_URL :: "string option \<Rightarrow> bool \<Rightarrow> string" where
  "API_BASE_URL configured dev =
     normalizeBaseUrl (case configured of Some v \<Rightarrow> v
       | None \<Rightarrow> if dev then ''http://localhost:4000'' else [])"

text \<open>
  A parsed URL by its protocol and its host with port. \<open>parse\<close> is the URL constructor, which throws
  where it is \<open>None\<close>. The protocol of a URL of the Web can be changed to that of a WebSocket;
  other URLs keep theirs and have the opaque origin.
\<close>

record web_url =
  url_protocol :: string
  url_host :: string

definition web_protocols :: "string list" where
  "web_protocols = [''http:'', ''https:'', ''ws:'', ''wss:'', ''ftp:'']"

definition createDefaultWebSocketBaseUrl ::
    "(string \<Rightarrow> web_url option) \<Rightarrow> string \<Rightarrow> string \<Rightarrow> string option" where
  "createDefaultWebSocketBaseUrl parse apiBaseUrl pageOrigin =
     (case parse (if apiBaseUrl = [] then pageOrigin else apiBaseUrl) of
        None \<Rightarrow> None
      | Some httpUrl \<Rightarrow>
          Some (if url_protocol httpUrl \<in> set web_protocols
                then (if url_protocol httpUrl = ''https:'' then ''wss:'' else ''ws:'') @ ''//'' @ url_host httpUrl
                else ''null''))"

definition WS_BASE_URL ::
    "(string \<Rightarrow> web_url option) \<Rightarrow> string option \<Rightarrow> string \<Rightarrow> string \<Rightarrow> string option" where
  "WS_BASE_URL parse configured apiBaseUrl pageOrigin =
     (case map_option js_trim configured of
        Some (c # cs) \<Rightarrow> Some (normalizeBaseUrl (c # cs))
      | _ \<Rightarrow> map_option normalizeBaseUrl (createDefaultWebSocketBaseUrl parse apiBaseUrl pageOrigin))"

text \<open>
  Without settings of its own a production page connects to the host that served it, encrypted
  exactly when the page was.
\<close>

lemma default_socket_address:
  assumes "parse pageOrigin = Some \<lparr>url_protocol = p, url_host = h\<rparr>" "p = ''http:'' \<or> p = ''https:''"
  shows "createDefaultWebSocketBaseUrl parse (API_BASE_URL None False) pageOrigin =
    Some ((if p = ''https:'' then ''wss://'' else ''ws://'') @ h)"
  using assms by (auto simp: createDefaultWebSocketBaseUrl_def API_BASE_URL_def normalizeBaseUrl_def
      js_trim_def web_protocols_def)

section \<open>Requests and answers\<close>

record fetch_request =
  fr_method :: string
  fr_path :: string
  fr_credentials :: bool
  fr_body :: "json option"

record fetch_reply =
  fp_status :: nat
  fp_json :: "json option"
  fp_request_id :: "string option"

text \<open>
  The browser: \<open>fetch\<close> of an address of the API, \<open>fetch\<close> with PUT of a file to an address of the
  object store, the texts of the language's own errors, and \<open>String\<close> of values that are
  not strings.
\<close>

record browser =
  br_fetch :: "fetch_request \<Rightarrow> failure + fetch_reply"
  br_put :: "string \<Rightarrow> browser_file \<Rightarrow> string \<Rightarrow> failure + fetch_reply"
  br_type_error :: string
  br_syntax_error :: string
  br_text :: "json \<Rightarrow> string"

definition response_ok :: "fetch_reply \<Rightarrow> bool" where
  "response_ok r \<longleftrightarrow> 200 \<le> fp_status r \<and> fp_status r \<le> 299"

definition response_json :: "browser \<Rightarrow> fetch_reply \<Rightarrow> failure + json" where
  "response_json br r =
     (case fp_json r of None \<Rightarrow> Inl (ErrorObject (br_syntax_error br)) | Some v \<Rightarrow> Inr v)"

text \<open>Reading a property: of \<open>null\<close> it throws, of anything but an object it is undefined.\<close>

definition property_of :: "browser \<Rightarrow> json \<Rightarrow> string \<Rightarrow> failure + json option" where
  "property_of br v k = (if v = JNull then Inl (ErrorObject (br_type_error br)) else Inr (json_field k v))"

definition text_of :: "browser \<Rightarrow> json \<Rightarrow> string" where
  "text_of br v = (case v of JString t \<Rightarrow> t | _ \<Rightarrow> br_text br v)"

section \<open>apiErrors.ts\<close>

definition getApiErrorMessage :: "browser \<Rightarrow> fetch_reply \<Rightarrow> string \<Rightarrow> string" where
  "getApiErrorMessage br r fallback =
     (case bindE (response_json br r) (\<lambda>data.
             bindE (property_of br data ''error'') (\<lambda>e.
               let message = (if js_truthy e then text_of br (the e) else fallback)
               in if 500 \<le> fp_status r
                  then bindE (property_of br data ''requestId'') (\<lambda>i.
                    let requestId = (if js_truthy i then Some (text_of br (the i)) else fp_request_id r)
                    in case requestId of
                         None \<Rightarrow> Inr message
                       | Some i \<Rightarrow> if i = [] then Inr message
                                  else Inr (message @ '' (Request ID: '' @ i @ '')''))
                  else Inr message)) of
        Inl f \<Rightarrow> fallback
      | Inr m \<Rightarrow> m)"

text \<open>The shape of every call: the request, the error text of an unsuccessful answer, the JSON.\<close>

definition checked :: "browser \<Rightarrow> fetch_request \<Rightarrow> (fetch_reply \<Rightarrow> string) \<Rightarrow> failure + fetch_reply" where
  "checked br rq message =
     bindE (br_fetch br rq) (\<lambda>r. if response_ok r then Inr r else Inl (ErrorObject (message r)))"

definition api_call :: "browser \<Rightarrow> fetch_request \<Rightarrow> string \<Rightarrow> failure + json" where
  "api_call br rq fallback =
     bindE (checked br rq (\<lambda>r. getApiErrorMessage br r fallback)) (response_json br)"

definition api_command :: "browser \<Rightarrow> fetch_request \<Rightarrow> string \<Rightarrow> failure + unit" where
  "api_command br rq fallback =
     bindE (checked br rq (\<lambda>r. getApiErrorMessage br r fallback)) (\<lambda>_. Inr ())"

definition api_get :: "string \<Rightarrow> fetch_request" where
  "api_get path = \<lparr>fr_method = ''GET'', fr_path = path, fr_credentials = True, fr_body = None\<rparr>"

definition api_post :: "string \<Rightarrow> json option \<Rightarrow> fetch_request" where
  "api_post path body = \<lparr>fr_method = ''POST'', fr_path = path, fr_credentials = True, fr_body = body\<rparr>"

section \<open>audioProcessing.ts\<close>

definition session_request :: fetch_request where
  "session_request = api_post ''/api/session'' None"

definition createBrowserSession :: "browser \<Rightarrow> failure + unit" where
  "createBrowserSession br =
     bindE (checked br session_request (\<lambda>_. ''Could not create a secure browser session'')) (\<lambda>_. Inr ())"

definition health_request :: fetch_request where
  "health_request = (api_get ''/health'')\<lparr>fr_credentials := False\<rparr>"

definition fetchBackendHealth :: "browser \<Rightarrow> failure + json" where
  "fetchBackendHealth br =
     bindE (checked br health_request (\<lambda>_. ''Backend health check failed'')) (response_json br)"

definition availability_request :: fetch_request where
  "availability_request = (api_get ''/api/system/availability'')\<lparr>fr_credentials := False\<rparr>"

definition fetchWorkerAvailability :: "browser \<Rightarrow> failure + json" where
  "fetchWorkerAvailability br =
     bindE (checked br availability_request (\<lambda>_. ''Worker availability check failed'')) (response_json br)"

definition presign_body :: "string \<Rightarrow> nat \<Rightarrow> string \<Rightarrow> json" where
  "presign_body name bytes contentType =
     JObject [(''fileName'', JString name), (''contentType'', JString contentType),
              (''fileSize'', JNumber (Finite (of_nat bytes)))]"

definition upload_request :: "browser_file \<Rightarrow> string \<Rightarrow> fetch_request" where
  "upload_request fl contentType =
     api_post ''/api/uploads/presign'' (Some (presign_body (file_name fl) (file_size fl) contentType))"

definition requestPresignedUpload :: "browser \<Rightarrow> browser_file \<Rightarrow> string \<Rightarrow> failure + json" where
  "requestPresignedUpload br fl contentType =
     api_call br (upload_request fl contentType) ''Failed to get upload URL''"

definition uploadAudioFile :: "browser \<Rightarrow> string \<Rightarrow> browser_file \<Rightarrow> string \<Rightarrow> failure + unit" where
  "uploadAudioFile br uploadUrl fl contentType =
     bindE (br_put br uploadUrl fl contentType) (\<lambda>r.
       if response_ok r then Inr () else Inl (ErrorObject ''Failed to upload file to object storage''))"

definition create_request :: "string \<Rightarrow> string \<Rightarrow> fetch_request" where
  "create_request originalFileName inputObjectKey =
     api_post ''/api/jobs'' (Some (JObject [(''originalFileName'', JString originalFileName),
       (''inputObjectKey'', JString inputObjectKey)]))"

definition createProcessingJob :: "browser \<Rightarrow> string \<Rightarrow> string \<Rightarrow> failure + json" where
  "createProcessingJob br originalFileName inputObjectKey =
     api_call br (create_request originalFileName inputObjectKey) ''Failed to create job''"

definition cancel_request :: "uuid \<Rightarrow> fetch_request" where
  "cancel_request jobId = api_post (''/api/jobs/'' @ jobId @ ''/cancel'') None"

definition cancelProcessingJob :: "browser \<Rightarrow> uuid \<Rightarrow> failure + json" where
  "cancelProcessingJob br jobId = api_call br (cancel_request jobId) ''Failed to cancel job''"

definition downloads_request :: "uuid \<Rightarrow> fetch_request" where
  "downloads_request jobId = api_get (''/api/jobs/'' @ jobId @ ''/downloads'')"

definition fetchDownloadUrls :: "browser \<Rightarrow> uuid \<Rightarrow> failure + json option" where
  "fetchDownloadUrls br jobId =
     bindE (api_call br (downloads_request jobId) ''Failed to fetch download URLs'')
       (\<lambda>data. property_of br data ''downloadUrls'')"

definition job_request :: "uuid \<Rightarrow> fetch_request" where
  "job_request jobId = api_get (''/api/jobs/'' @ jobId)"

definition fetchJob :: "browser \<Rightarrow> uuid \<Rightarrow> failure + json" where
  "fetchJob br jobId = api_call br (job_request jobId) ''Failed to fetch job status''"

definition history_request :: fetch_request where
  "history_request = api_get ''/api/jobs''"

definition fetchJobHistory :: "browser \<Rightarrow> failure + json option" where
  "fetchJobHistory br =
     bindE (api_call br history_request ''Failed to load job history'') (\<lambda>data. property_of br data ''jobs'')"

section \<open>authentication.ts\<close>

definition credentials_call :: "string \<Rightarrow> string \<Rightarrow> string \<Rightarrow> fetch_request" where
  "credentials_call endpoint name password =
     api_post (''/api/auth/'' @ endpoint)
       (Some (JObject [(''username'', JString name), (''password'', JString password)]))"

definition submitCredentials :: "browser \<Rightarrow> string \<Rightarrow> string \<Rightarrow> string \<Rightarrow> failure + json option" where
  "submitCredentials br endpoint name password =
     bindE (api_call br (credentials_call endpoint name password) (''Could not '' @ endpoint)) (\<lambda>data.
     bindE (property_of br data ''authenticated'') (\<lambda>authenticated.
       if \<not> js_truthy authenticated
       then Inl (ErrorObject ''The backend did not create an authenticated session'')
       else property_of br data ''user''))"

definition registerAccount :: "browser \<Rightarrow> string \<Rightarrow> string \<Rightarrow> failure + json option" where
  "registerAccount br = submitCredentials br ''register''"

definition loginToAccount :: "browser \<Rightarrow> string \<Rightarrow> string \<Rightarrow> failure + json option" where
  "loginToAccount br = submitCredentials br ''login''"

definition me_request :: fetch_request where
  "me_request = api_get ''/api/auth/me''"

definition fetchCurrentUser :: "browser \<Rightarrow> failure + json option" where
  "fetchCurrentUser br =
     bindE (api_call br me_request ''Could not check account status'') (\<lambda>data.
     bindE (property_of br data ''authenticated'') (\<lambda>authenticated.
       if js_truthy authenticated then property_of br data ''user'' else Inr (Some JNull)))"

definition logout_request :: fetch_request where
  "logout_request = api_post ''/api/auth/logout'' None"

definition logoutFromAccount :: "browser \<Rightarrow> failure + unit" where
  "logoutFromAccount br = api_command br logout_request ''Could not sign out''"

section \<open>accountManagement.ts\<close>

definition sessions_request :: fetch_request where
  "sessions_request = api_get ''/api/auth/sessions''"

definition fetchAccountSessions :: "browser \<Rightarrow> failure + json option" where
  "fetchAccountSessions br =
     bindE (api_call br sessions_request ''Could not load active sessions'')
       (\<lambda>data. property_of br data ''sessions'')"

definition revoke_request :: fetch_request where
  "revoke_request = api_post ''/api/auth/sessions/revoke-others'' None"

definition revokeOtherAccountSessions :: "browser \<Rightarrow> failure + json" where
  "revokeOtherAccountSessions br = api_call br revoke_request ''Could not sign out other browsers''"

definition password_request :: "string \<Rightarrow> string \<Rightarrow> fetch_request" where
  "password_request currentPassword newPassword =
     api_post ''/api/auth/password'' (Some (JObject
       [(''currentPassword'', JString currentPassword), (''newPassword'', JString newPassword)]))"

definition changeAccountPassword :: "browser \<Rightarrow> string \<Rightarrow> string \<Rightarrow> failure + unit" where
  "changeAccountPassword br currentPassword newPassword =
     api_command br (password_request currentPassword newPassword) ''Could not change the password''"

definition deletion_request :: "string \<Rightarrow> fetch_request" where
  "deletion_request password = api_post ''/api/auth/account'' (Some (JObject [(''password'', JString password)]))"

definition requestAccountDeletion :: "browser \<Rightarrow> string \<Rightarrow> failure + unit" where
  "requestAccountDeletion br password =
     api_command br (deletion_request password) ''Could not delete the account''"

section \<open>Meeting the server\<close>

text \<open>
  A request as the server receives it, with the cookies of the browser and the page's origin. A
  missing body leaves nothing that a schema would accept.
\<close>

definition received :: "fetch_request \<Rightarrow> string option \<Rightarrow> string option \<Rightarrow> raw_request" where
  "received rq cookie originHeader =
     \<lparr>rq_method = fr_method rq, rq_path = fr_path rq,
      rq_cookie = (if fr_credentials rq then cookie else None), rq_origin = originHeader,
      rq_body = Inr (case fr_body rq of Some b \<Rightarrow> b | None \<Rightarrow> JNull)\<rparr>"

lemma lower_literals [simp]:
  "toLowerCase ''api'' = ''api''" "toLowerCase ''session'' = ''session''" "toLowerCase ''system'' = ''system''"
  "toLowerCase ''auth'' = ''auth''" "toLowerCase ''uploads'' = ''uploads''" "toLowerCase ''jobs'' = ''jobs''"
  "toLowerCase ''cancel'' = ''cancel''" "toLowerCase ''downloads'' = ''downloads''"
  "toLowerCase ''presign'' = ''presign''" "toLowerCase ''availability'' = ''availability''"
  "toLowerCase ''me'' = ''me''" "toLowerCase ''register'' = ''register''" "toLowerCase ''login'' = ''login''"
  "toLowerCase ''logout'' = ''logout''" "toLowerCase ''sessions'' = ''sessions''"
  "toLowerCase ''revoke-others'' = ''revoke-others''" "toLowerCase ''password'' = ''password''"
  "toLowerCase ''account'' = ''account''" "toLowerCase ''health'' = ''health''"
  by code_simp+

lemma api_segments:
  assumes "CHR ''/'' \<notin> set jobId" "jobId \<noteq> []"
  shows "segments (''/api/jobs/'' @ jobId @ ''/cancel'') = [''api'', ''jobs'', jobId, ''cancel'']"
    "segments (''/api/jobs/'' @ jobId @ ''/downloads'') = [''api'', ''jobs'', jobId, ''downloads'']"
    "segments (''/api/jobs/'' @ jobId) = [''api'', ''jobs'', jobId]"
proof -
  have s: "js_split (CHR ''/'') (''/api/jobs/'' @ rest) = [] # ''api'' # ''jobs'' # js_split (CHR ''/'') rest" for rest
    by simp
  have c: "js_split (CHR ''/'') (jobId @ ''/cancel'') = [jobId, ''cancel'']"
    "js_split (CHR ''/'') (jobId @ ''/downloads'') = [jobId, ''downloads'']"
    "js_split (CHR ''/'') jobId = [jobId]"
    using js_split_append[OF assms(1), of "''cancel''"] js_split_append[OF assms(1), of "''downloads''"]
      js_split_no_sep[OF assms(1)] by simp_all
  show "segments (''/api/jobs/'' @ jobId @ ''/cancel'') = [''api'', ''jobs'', jobId, ''cancel'']"
    "segments (''/api/jobs/'' @ jobId @ ''/downloads'') = [''api'', ''jobs'', jobId, ''downloads'']"
    "segments (''/api/jobs/'' @ jobId) = [''api'', ''jobs'', jobId]"
    using assms(2) unfolding segments_def s c by simp_all
qed

lemma fixed_segments [simp]:
  "segments ''/api/session'' = [''api'', ''session'']" "segments ''/health'' = [''health'']"
  "segments ''/api/system/availability'' = [''api'', ''system'', ''availability'']"
  "segments ''/api/uploads/presign'' = [''api'', ''uploads'', ''presign'']"
  "segments ''/api/jobs'' = [''api'', ''jobs'']" "segments ''/api/auth/me'' = [''api'', ''auth'', ''me'']"
  "segments ''/api/auth/register'' = [''api'', ''auth'', ''register'']"
  "segments ''/api/auth/login'' = [''api'', ''auth'', ''login'']"
  "segments ''/api/auth/logout'' = [''api'', ''auth'', ''logout'']"
  "segments ''/api/auth/sessions'' = [''api'', ''auth'', ''sessions'']"
  "segments ''/api/auth/sessions/revoke-others'' = [''api'', ''auth'', ''sessions'', ''revoke-others'']"
  "segments ''/api/auth/password'' = [''api'', ''auth'', ''password'']"
  "segments ''/api/auth/account'' = [''api'', ''auth'', ''account'']"
  by code_simp+

lemmas request_defs = session_request_def availability_request_def upload_request_def create_request_def
  cancel_request_def downloads_request_def job_request_def history_request_def credentials_call_def
  me_request_def logout_request_def sessions_request_def revoke_request_def password_request_def
  deletion_request_def api_get_def api_post_def received_def

lemmas router_defs = application_def api_routes_def requireAllowedOrigin_def with_limit_def session_router_def
  system_router_def uploads_router_def jobs_router_def auth_router_def account_router_def is_get_def route_at_def

lemma api_reached:
  assumes "isAllowedOrigin (sv_security sr) (rq_origin rq)" "\<not> sv_limited sr ApiLimit"
    "rq_method rq \<noteq> ''OPTIONS''" "rq_body rq = Inr body" "segments (rq_path rq) = ''api'' # segs"
  shows "application sr rq = api_routes sr rq body segs"
  using assms by (simp add: application_def requireAllowedOrigin_def with_limit_def)

text \<open>That a request is answered by a handler behind \<open>requirePrincipal\<close>.\<close>

definition routes_to :: "server_runtime \<Rightarrow> raw_request \<Rightarrow> json \<Rightarrow> (http_request \<Rightarrow> server_response eff) \<Rightarrow> bool" where
  "routes_to sr rq body handler \<longleftrightarrow> application sr rq = with_principal sr rq body handler"

definition sent_body :: "fetch_request \<Rightarrow> json" where
  "sent_body rq = (case fr_body rq of Some b \<Rightarrow> b | None \<Rightarrow> JNull)"

lemma behind_principal:
  assumes "isAllowedOrigin (sv_security sr) page_origin" "\<not> sv_limited sr ApiLimit" "fr_method rq \<noteq> ''OPTIONS''"
  shows "segments (fr_path rq) = ''api'' # ''jobs'' # segs \<Longrightarrow>
      routes_to sr (received rq cookie page_origin) (sent_body rq) (jobs_router sr (fr_method rq) segs)"
    "segments (fr_path rq) = ''api'' # ''uploads'' # segs \<Longrightarrow>
      routes_to sr (received rq cookie page_origin) (sent_body rq)
        (\<lambda>req. with_limit sr UploadLimit (uploads_router sr (fr_method rq) segs req))"
    "segments (fr_path rq) = ''api'' # ''auth'' # segs \<Longrightarrow>
      routes_to sr (received rq cookie page_origin) (sent_body rq) (auth_router sr (fr_method rq) segs)"
  using api_reached[OF _ assms(2), of "received rq cookie page_origin" "sent_body rq"] assms
  by (simp_all add: received_def api_routes_def routes_to_def sent_body_def)

lemma request_fields:
  "fr_method (cancel_request i) = ''POST''" "sent_body (cancel_request i) = JNull"
  "fr_method (downloads_request i) = ''GET''" "sent_body (downloads_request i) = JNull"
  "fr_method (job_request i) = ''GET''" "sent_body (job_request i) = JNull"
  "fr_method history_request = ''GET''" "fr_path history_request = ''/api/jobs''" "sent_body history_request = JNull"
  "fr_method (create_request name key) = ''POST''" "fr_path (create_request name key) = ''/api/jobs''"
  "sent_body (create_request name key) =
     JObject [(''originalFileName'', JString name), (''inputObjectKey'', JString key)]"
  "fr_method (upload_request fl ct) = ''POST''" "fr_path (upload_request fl ct) = ''/api/uploads/presign''"
  "sent_body (upload_request fl ct) = presign_body (file_name fl) (file_size fl) ct"
  by (simp_all add: request_defs sent_body_def)

text \<open>
  C33: the browser's calls meet the server's routes. From an allowed page and within the limits, the
  request of every function about jobs and uploads is answered by the intended handler, behind the
  check of the session, with the job identifier or body it was given.
\<close>

theorem job_calls_routed:
  assumes "isAllowedOrigin (sv_security sr) page_origin" "\<not> sv_limited sr ApiLimit"
    "CHR ''/'' \<notin> set jobId" "jobId \<noteq> []"
  shows "routes_to sr (received (cancel_request jobId) cookie page_origin) JNull
      (\<lambda>req. api (post_cancel (sv_jobs sr) jobId req)) \<and>
    routes_to sr (received (downloads_request jobId) cookie page_origin) JNull
      (\<lambda>req. api (get_downloads (sv_jobs sr) jobId req)) \<and>
    routes_to sr (received (job_request jobId) cookie page_origin) JNull
      (\<lambda>req. api (get_job (sv_jobs sr) jobId req)) \<and>
    routes_to sr (received history_request cookie page_origin) JNull (\<lambda>req. api (get_jobs req)) \<and>
    routes_to sr (received (create_request name key) cookie page_origin)
      (JObject [(''originalFileName'', JString name), (''inputObjectKey'', JString key)])
      (\<lambda>req. api (post_job (sv_jobs sr) req)) \<and>
    routes_to sr (received (upload_request fl ct) cookie page_origin) (presign_body (file_name fl) (file_size fl) ct)
      (\<lambda>req. with_limit sr UploadLimit (api (post_presign (sv_jobs sr) (sv_sign_put sr) (sv_uuid sr) req)))"
proof (intro conjI)
  note seg = api_segments[OF assms(3,4)]
  have path: "segments (fr_path (cancel_request jobId)) = ''api'' # ''jobs'' # [jobId, ''cancel'']"
    "segments (fr_path (downloads_request jobId)) = ''api'' # ''jobs'' # [jobId, ''downloads'']"
    "segments (fr_path (job_request jobId)) = ''api'' # ''jobs'' # [jobId]"
    unfolding cancel_request_def downloads_request_def job_request_def api_post_def api_get_def
      fetch_request.simps seg by (rule refl)+
  show "routes_to sr (received (cancel_request jobId) cookie page_origin) JNull
      (\<lambda>req. api (post_cancel (sv_jobs sr) jobId req))"
    using behind_principal(1)[where cookie = cookie, OF assms(1,2) _ path(1)] by (simp add: request_fields jobs_router_def[abs_def])
  show "routes_to sr (received (downloads_request jobId) cookie page_origin) JNull
      (\<lambda>req. api (get_downloads (sv_jobs sr) jobId req))"
    using behind_principal(1)[where cookie = cookie, OF assms(1,2) _ path(2)] by (simp add: request_fields jobs_router_def[abs_def] is_get_def)
  show "routes_to sr (received (job_request jobId) cookie page_origin) JNull
      (\<lambda>req. api (get_job (sv_jobs sr) jobId req))"
    using behind_principal(1)[where cookie = cookie, OF assms(1,2) _ path(3)] by (simp add: request_fields jobs_router_def[abs_def] is_get_def)
  show "routes_to sr (received history_request cookie page_origin) JNull (\<lambda>req. api (get_jobs req))"
    using behind_principal(1)[where cookie = cookie, OF assms(1,2), of history_request] by (simp add: request_fields jobs_router_def[abs_def] is_get_def)
  show "routes_to sr (received (create_request name key) cookie page_origin)
      (JObject [(''originalFileName'', JString name), (''inputObjectKey'', JString key)])
      (\<lambda>req. api (post_job (sv_jobs sr) req))"
    using behind_principal(1)[where cookie = cookie, OF assms(1,2), of "create_request name key"]
    by (simp add: request_fields jobs_router_def[abs_def])
  show "routes_to sr (received (upload_request fl ct) cookie page_origin) (presign_body (file_name fl) (file_size fl) ct)
      (\<lambda>req. with_limit sr UploadLimit (api (post_presign (sv_jobs sr) (sv_sign_put sr) (sv_uuid sr) req)))"
    using behind_principal(2)[where cookie = cookie, OF assms(1,2), of "upload_request fl ct"]
    by (simp add: request_fields uploads_router_def[abs_def] route_at_def)
qed

text \<open>The account calls likewise; the stricter limit is the route's own.\<close>

lemma account_calls_routed:
  assumes "isAllowedOrigin (sv_security sr) page_origin" "\<not> sv_limited sr ApiLimit"
  shows "routes_to sr (received me_request cookie page_origin) JNull (\<lambda>req. api (get_me req))"
    "routes_to sr (received logout_request cookie page_origin) JNull (\<lambda>req. api (post_logout (sv_auth sr) req))"
    "routes_to sr (received (credentials_call ''login'' name password) cookie page_origin)
      (JObject [(''username'', JString name), (''password'', JString password)])
      (\<lambda>req. with_limit sr AuthenticationLimit (api (post_login (sv_auth sr) req)))"
    "routes_to sr (received (credentials_call ''register'' name password) cookie page_origin)
      (JObject [(''username'', JString name), (''password'', JString password)])
      (\<lambda>req. with_limit sr AuthenticationLimit (api (post_register (sv_auth sr) req)))"
  using behind_principal(3)[where cookie = cookie, OF assms, of me_request] behind_principal(3)[where cookie = cookie, OF assms, of logout_request]
    behind_principal(3)[where cookie = cookie, OF assms, of "credentials_call ''login'' name password"]
    behind_principal(3)[where cookie = cookie, OF assms, of "credentials_call ''register'' name password"]
  by (simp_all add: me_request_def logout_request_def credentials_call_def api_get_def api_post_def sent_body_def
      auth_router_def[abs_def] is_get_def route_at_def)

theorem job_calls_routed_witness:
  "routes_to sample_server (received (cancel_request ''j1'') None (Some ''http://localhost:5173'')) JNull
     (\<lambda>req. api (post_cancel (sv_jobs sample_server) ''j1'' req))"
proof -
  have "isAllowedOrigin (sv_security sample_server) (Some ''http://localhost:5173'')"
    "\<not> sv_limited sample_server ApiLimit" "CHR ''/'' \<notin> set ''j1''" "''j1'' \<noteq> []"
    by (simp_all add: sample_server_def isAllowedOrigin_def)
  from job_calls_routed[OF this] show ?thesis by blast
qed

section \<open>An audio file without a type\<close>

lemma fallback_types: "(e, t) \<in> set fallbackAudioContentTypes \<Longrightarrow> t \<in> set allowedAudioContentTypes \<and> js_trim t = t \<and> t \<noteq> [] \<and> length t \<le> 100"
  by (auto simp: fallbackAudioContentTypes_def allowedAudioContentTypes_def js_trim_def is_js_space_def)

lemma extension_has_type:
  assumes "hasAllowedAudioExtension (file_name fl)" "file_type fl = []"
  obtains t where "getAudioContentType fl = Text_value t" "t \<in> set allowedAudioContentTypes" "js_trim t = t"
    "t \<noteq> []" "length t \<le> 100"
proof -
  define e where "e = last (js_split (CHR ''.'') (toLowerCase (file_name fl)))"
  have "e \<in> set allowedAudioExtensions" using assms(1) by (simp add: hasAllowedAudioExtension_def e_def)
  then obtain t where t: "map_of fallbackAudioContentTypes e = Some t" "e \<noteq> []"
    by (auto simp: allowedAudioExtensions_def fallbackAudioContentTypes_def)
  then have "getAudioContentType fl = Text_value t"
    using assms(2) by (simp add: getAudioContentType_def e_def[symmetric] Let_def)
  then show ?thesis using that fallback_types[OF map_of_SomeD[OF t(1)]] by blast
qed

text \<open>
  An audio file that the server would accept is never refused for its type. For a file whose
  name has an accepted extension but for which the browser knows no type, the page finds a type, and
  the permission request it sends for a file within the size limit passes the server's schema with
  exactly the file's name and size and a content type the server supports.
\<close>

theorem untyped_audio_accepted:
  assumes "hasAllowedAudioExtension (file_name fl)" "file_type fl = []"
    and "js_trim (file_name fl) = file_name fl" "file_name fl \<noteq> []" "length (file_name fl) \<le> 255"
    and "0 < file_size fl" "file_size fl \<le> limit" "int limit \<le> max_safe_integer"
  shows "\<exists>t. getAudioContentType fl = Text_value t \<and> t \<in> set allowedAudioContentTypes \<and>
    fr_body (upload_request fl t) = Some (presign_body (file_name fl) (file_size fl) t) \<and>
    presignRequestSchema limit (presign_body (file_name fl) (file_size fl) t) = Inr (file_name fl, t, file_size fl)"
proof -
  obtain t where t: "getAudioContentType fl = Text_value t" "t \<in> set allowedAudioContentTypes" "js_trim t = t"
    "t \<noteq> []" "length t \<le> 100"
    using extension_has_type[OF assms(1,2)] by blast
  have n: "safe_integer (Finite (of_nat (file_size fl))) = Some (int (file_size fl))"
    using safe_integer_Finite_of_int[of "int (file_size fl)"] assms(7,8) by simp
  have "presignRequestSchema limit (presign_body (file_name fl) (file_size fl) t) = Inr (file_name fl, t, file_size fl)"
    using assms(3-7) t n
    by (simp add: presignRequestSchema_def presign_body_def string_field_def trimmed_text_def json_field_def
        positive_integer_field_def issues_of_def unknown_keys_def is_object_def)
  then show ?thesis using t(1,2) by (auto simp: upload_request_def api_post_def)
qed

theorem untyped_audio_accepted_witness:
  "\<exists>t. getAudioContentType demo_file = Text_value t \<and>
     presignRequestSchema 1000 (presign_body ''a.mp3'' 9 t) = Inr (''a.mp3'', t, 9)"
proof -
  have h: "hasAllowedAudioExtension (file_name demo_file)" "js_trim (file_name demo_file) = file_name demo_file"
    by code_simp+
  show ?thesis
    using untyped_audio_accepted[OF h(1) _ h(2), of 1000] by (auto simp: demo_file_def max_safe_integer_def)
qed

section \<open>What the user reads when a call fails\<close>

text \<open>
  The message of an answer in the server's error format: its text, with the correlation identifier
  exactly for server failures.
\<close>

lemma error_message_of_server_format:
  assumes "fp_json r = Some (JObject ((''error'', JString m) # rest))" "m \<noteq> []"
    "map_of rest ''requestId'' = None \<or> map_of rest ''requestId'' = Some (JString i)" "i \<noteq> []"
  shows "getApiErrorMessage br r fallback =
    (if fp_status r < 500 then m
     else case (map_of rest ''requestId'', fp_request_id r) of
            (Some _, _) \<Rightarrow> m @ '' (Request ID: '' @ i @ '')''
          | (None, Some h) \<Rightarrow> if h = [] then m else m @ '' (Request ID: '' @ h @ '')''
          | (None, None) \<Rightarrow> m)"
  using assms
  by (auto simp: getApiErrorMessage_def response_json_def property_of_def json_field_def text_of_def Let_def
      split: option.split)

lemma error_message_not_json: "fp_json r = None \<Longrightarrow> getApiErrorMessage br r fallback = fallback"
  by (simp add: getApiErrorMessage_def response_json_def)

end
