(* ===== verification/AccountState.thy ===== *)
theory AccountState
  imports BrowserApi
begin

text \<open>
  Account state and worker availability in the browser: the hooks useAuthentication.ts and
  useWorkerAvailability.ts and utils/workerAvailability.ts. An action of useAuthentication is
  its part up to the request and its part after the answer; the second yields the flag that the
  caller awaits.
\<close>

section \<open>useAuthentication.ts\<close>

record account_state =
  currentUser :: "AuthenticatedUser option"
  authenticationError :: "string option"
  isAuthenticating :: bool
  accountSessions :: "AccountSession list"
  accountManagementError :: "string option"
  isManagingAccount :: bool

definition no_account :: account_state where
  "no_account = \<lparr>currentUser = None, authenticationError = None, isAuthenticating = False,
     accountSessions = [], accountManagementError = None, isManagingAccount = False\<rparr>"

definition loadAuthentication_answered :: "AuthenticatedUser option \<Rightarrow> account_state \<Rightarrow> account_state" where
  "loadAuthentication_answered user s = s\<lparr>currentUser := user\<rparr>"

text \<open>Login, registration and logout set the same flags before their request.\<close>

definition authentication_begins :: "account_state \<Rightarrow> account_state" where
  "authentication_begins s =
     s\<lparr>authenticationError := None, accountManagementError := None, isAuthenticating := True\<rparr>"

definition runAuthentication_answered ::
    "failure + AuthenticatedUser \<Rightarrow> account_state \<Rightarrow> bool \<times> account_state" where
  "runAuthentication_answered answer s =
     (case answer of
        Inr user \<Rightarrow> (True, s\<lparr>currentUser := Some user, accountSessions := [], isAuthenticating := False\<rparr>)
      | Inl f \<Rightarrow> (False, s\<lparr>authenticationError := Some (failure_text f ''Authentication failed''),
                         isAuthenticating := False\<rparr>))"

definition logout_answered :: "failure + unit \<Rightarrow> account_state \<Rightarrow> bool \<times> account_state" where
  "logout_answered answer s =
     (case answer of
        Inr _ \<Rightarrow> (True, s\<lparr>currentUser := None, accountSessions := [], isAuthenticating := False\<rparr>)
      | Inl f \<Rightarrow> (False, s\<lparr>authenticationError := Some (failure_text f ''Could not sign out''),
                         isAuthenticating := False\<rparr>))"

text \<open>The management actions: sessions, password, other browsers, deletion.\<close>

definition management_begins :: "account_state \<Rightarrow> account_state" where
  "management_begins s = s\<lparr>accountManagementError := None, isManagingAccount := True\<rparr>"

definition management_fails :: "failure \<Rightarrow> string \<Rightarrow> account_state \<Rightarrow> account_state" where
  "management_fails f fallback s =
     s\<lparr>accountManagementError := Some (failure_text f fallback), isManagingAccount := False\<rparr>"

definition loadAccountSessions_answered ::
    "failure + AccountSession list \<Rightarrow> account_state \<Rightarrow> bool \<times> account_state" where
  "loadAccountSessions_answered answer s =
     (case answer of
        Inr rows \<Rightarrow> (True, s\<lparr>accountSessions := rows, isManagingAccount := False\<rparr>)
      | Inl f \<Rightarrow> (False, management_fails f ''Could not load sessions'' s))"

text \<open>
  A password change makes two requests, the change and the new list of sessions. The first answer
  either ends the action or leads to the second request (\<open>None\<close>).
\<close>

definition changePassword_answered :: "failure + unit \<Rightarrow> account_state \<Rightarrow> bool option \<times> account_state" where
  "changePassword_answered answer s =
     (case answer of
        Inr _ \<Rightarrow> (None, s)
      | Inl f \<Rightarrow> (Some False, management_fails f ''Could not change password'' s))"

definition changePassword_listed ::
    "failure + AccountSession list \<Rightarrow> account_state \<Rightarrow> bool \<times> account_state" where
  "changePassword_listed answer s =
     (case answer of
        Inr rows \<Rightarrow> (True, s\<lparr>accountSessions := rows, isManagingAccount := False\<rparr>)
      | Inl f \<Rightarrow> (False, management_fails f ''Could not change password'' s))"

definition revokeOtherSessions_answered ::
    "failure + AccountSession list \<Rightarrow> account_state \<Rightarrow> bool \<times> account_state" where
  "revokeOtherSessions_answered answer s =
     (case answer of
        Inr rows \<Rightarrow> (True, s\<lparr>accountSessions := rows, isManagingAccount := False\<rparr>)
      | Inl f \<Rightarrow> (False, management_fails f ''Could not sign out other browsers'' s))"

definition deleteAccount_answered :: "failure + unit \<Rightarrow> account_state \<Rightarrow> bool \<times> account_state" where
  "deleteAccount_answered answer s =
     (case answer of
        Inr _ \<Rightarrow> (True, s\<lparr>currentUser := None, accountSessions := [], isManagingAccount := False\<rparr>)
      | Inl f \<Rightarrow> (False, management_fails f ''Could not delete account'' s))"

section \<open>utils/workerAvailability.ts\<close>

text \<open>
  A number in a template literal. Whole numbers below the range of the exponent notation are
  written in decimal; \<open>other\<close> writes the rest.
\<close>

definition number_literal :: "(rat \<Rightarrow> string) \<Rightarrow> js_number \<Rightarrow> string" where
  "number_literal other x =
     (case x of
        NaN \<Rightarrow> ''NaN''
      | Infinity \<Rightarrow> ''Infinity''
      | NegInfinity \<Rightarrow> ''-Infinity''
      | Finite r \<Rightarrow> if r = of_int \<lfloor>r\<rfloor> \<and> \<bar>r\<bar> < 10 ^ 21 then show_int \<lfloor>r\<rfloor> else other r)"

record WorkerAvailabilityDisplay =
  display_class :: string
  display_label :: string
  display_message :: string

definition describeWorkerDisplay ::
    "(rat \<Rightarrow> string) \<Rightarrow> WorkerAvailability option \<Rightarrow> WorkerAvailabilityDisplay" where
  "describeWorkerDisplay other availability =
     (case availability of
        None \<Rightarrow> \<lparr>display_class = ''status-pill unknown'', display_label = ''Checking'',
                 display_message = ''Processing-worker availability is being checked.''\<rparr>
      | Some a \<Rightarrow>
          (case capacity_status a of
             Offline \<Rightarrow> \<lparr>display_class = ''status-pill offline'', display_label = ''Offline'',
               display_message =
                 ''No processing worker is online. New jobs will wait safely in the queue.''\<rparr>
           | Busy \<Rightarrow> \<lparr>display_class = ''status-pill busy'', display_label = ''Busy'',
               display_message =
                 ''All online processing workers are busy. New jobs will wait in the queue.''\<rparr>
           | Available \<Rightarrow>
               let workerWord = (if idleWorkers a = Finite 1 then ''worker is'' else ''workers are'')
               in \<lparr>display_class = ''status-pill online'', display_label = ''Available'',
                    display_message =
                      number_literal other (idleWorkers a) @ '' processing '' @ workerWord @ '' ready.''\<rparr>))"

section \<open>useWorkerAvailability.ts\<close>

text \<open>
  Each run of the effect has a number; its closure holds \<open>isActive\<close> and the interval timer until its
  cleanup. \<open>av_active\<close> is the run that is active, \<open>av_requests\<close> the runs that requests under way
  belong to, \<open>av_timers\<close> the runs whose interval timer exists.
\<close>

definition availabilityRefreshMilliseconds :: nat where
  "availabilityRefreshMilliseconds = 15000"

record availability_hook =
  workerAvailability :: "WorkerAvailability option"
  av_connected :: bool
  av_runs :: nat
  av_active :: "nat option"
  av_requests :: "nat list"
  av_timers :: "nat list"

definition refreshWorkerAvailability :: "nat \<Rightarrow> availability_hook \<Rightarrow> availability_hook" where
  "refreshWorkerAvailability k s = s\<lparr>av_requests := av_requests s @ [k]\<rparr>"

definition availability_answered ::
    "nat \<Rightarrow> failure + WorkerAvailability \<Rightarrow> availability_hook \<Rightarrow> availability_hook" where
  "availability_answered k answer s0 =
     (if k \<notin> set (av_requests s0) then s0
      else let s = s0\<lparr>av_requests := remove1 k (av_requests s0)\<rparr>
      in if av_active s = Some k
         then s\<lparr>workerAvailability := (case answer of Inr a \<Rightarrow> Some a | Inl _ \<Rightarrow> None)\<rparr>
         else s)"

definition availability_cleanup :: "availability_hook \<Rightarrow> availability_hook" where
  "availability_cleanup s =
     (case av_active s of
        None \<Rightarrow> s
      | Some k \<Rightarrow> s\<lparr>av_active := None, av_timers := removeAll k (av_timers s)\<rparr>)"

text \<open>React runs the effect after a render in which \<open>backendConnected\<close> has changed.\<close>

definition availability_effect :: "bool \<Rightarrow> availability_hook \<Rightarrow> availability_hook" where
  "availability_effect backendConnected s0 =
     (let s = (availability_cleanup s0)\<lparr>av_connected := backendConnected\<rparr>; k = Suc (av_runs s)
      in if \<not> backendConnected then s
         else (refreshWorkerAvailability k (s\<lparr>av_runs := k, av_active := Some k\<rparr>))
                \<lparr>av_timers := av_timers s @ [k]\<rparr>)"

text \<open>A hook that is mounted again after it was unmounted has fresh variables.\<close>

datatype availability_event =
    ConnectionRendered bool
  | IntervalElapsed nat
  | AvailabilityAnswers nat "failure + WorkerAvailability"
  | HookUnmounts

fun availability_step :: "availability_event \<Rightarrow> availability_hook \<Rightarrow> availability_hook" where
  "availability_step (ConnectionRendered b) s = (if b = av_connected s then s else availability_effect b s)"
| "availability_step (IntervalElapsed k) s =
     (if k \<in> set (av_timers s) then refreshWorkerAvailability k s else s)"
| "availability_step (AvailabilityAnswers k answer) s = availability_answered k answer s"
| "availability_step HookUnmounts s = (availability_cleanup s)\<lparr>workerAvailability := None, av_connected := False\<rparr>"

definition shownAvailability :: "availability_hook \<Rightarrow> WorkerAvailability option" where
  "shownAvailability s = (if av_connected s then workerAvailability s else None)"

definition mounted_hook :: availability_hook where
  "mounted_hook = \<lparr>workerAvailability = None, av_connected = False, av_runs = 0, av_active = None,
     av_requests = [], av_timers = []\<rparr>"

text \<open>At most one timer, the active run's, and a run is active exactly while connected.\<close>

definition availability_ok :: "availability_hook \<Rightarrow> bool" where
  "availability_ok s \<longleftrightarrow>
     av_timers s = (case av_active s of None \<Rightarrow> [] | Some k \<Rightarrow> [k]) \<and>
     (av_active s = None \<longleftrightarrow> \<not> av_connected s) \<and>
     (\<forall>k \<in> set (av_requests s) \<union> set_option (av_active s). k \<le> av_runs s)"

lemma cleanup_ok:
  "availability_ok s \<Longrightarrow> availability_ok ((availability_cleanup s)\<lparr>av_connected := False\<rparr>)"
  "availability_ok s \<Longrightarrow> availability_ok ((availability_cleanup s)\<lparr>workerAvailability := None, av_connected := False\<rparr>)"
  by (auto simp: availability_ok_def availability_cleanup_def split: option.splits)

lemma availability_step_ok: "availability_ok s \<Longrightarrow> availability_ok (availability_step e s)"
proof (cases e)
  case (ConnectionRendered b)
  assume "availability_ok s"
  then show ?thesis using cleanup_ok(1)[of s] unfolding ConnectionRendered
    by (cases b; cases "av_active s")
      (auto simp: availability_effect_def availability_ok_def refreshWorkerAvailability_def
        availability_cleanup_def Let_def)
next
  case (IntervalElapsed k)
  assume "availability_ok s"
  then show ?thesis unfolding IntervalElapsed
    by (cases "av_active s") (auto simp: availability_ok_def refreshWorkerAvailability_def)
next
  case (AvailabilityAnswers k answer)
  assume "availability_ok s"
  then show ?thesis unfolding AvailabilityAnswers
    by (auto simp: availability_ok_def availability_answered_def Let_def dest: notin_set_remove1 split: option.splits)
next
  case HookUnmounts
  assume "availability_ok s"
  then show ?thesis using HookUnmounts cleanup_ok(2) by simp
qed

interpretation availability_machine: handler_invariant availability_step availability_ok
  by unfold_locales (rule availability_step_ok)

text \<open>
  The status display never polls twice at a time: at most one interval timer exists, only while
  the backend is connected, and without a connection no availability is shown.
\<close>

theorem availability_one_timer:
  "length (av_timers (run_events availability_step es mounted_hook)) \<le> 1 \<and>
   (shownAvailability (run_events availability_step es mounted_hook) \<noteq> None \<longrightarrow>
      av_timers (run_events availability_step es mounted_hook) \<noteq> [])"
proof -
  let ?s = "run_events availability_step es mounted_hook"
  have "availability_ok ?s"
    by (rule availability_machine.run_inv) (simp add: availability_ok_def mounted_hook_def)
  then show ?thesis by (cases "av_active ?s") (auto simp: availability_ok_def shownAvailability_def)
qed

lemma availability_origin:
  assumes "\<forall>a. workerAvailability s = Some a \<longrightarrow> P a"
    and "\<And>k a. AvailabilityAnswers k (Inr a) \<in> set es \<Longrightarrow> P a"
    and "workerAvailability (run_events availability_step es s) = Some a"
  shows "P a"
  using assms
proof (induction es arbitrary: s)
  case (Cons e es)
  have "\<forall>a. workerAvailability (availability_step e s) = Some a \<longrightarrow> P a"
    using Cons.prems(1,2) by (cases e) (auto simp: availability_effect_def availability_cleanup_def
        refreshWorkerAvailability_def availability_answered_def Let_def split: option.splits sum.splits)
  then show ?case by (rule Cons.IH) (use Cons.prems in auto)
qed simp

text \<open>
  A failed request shows "Checking", never "Offline": only an answer of the backend says that no
  worker is online.
\<close>

theorem offline_only_by_answer:
  assumes "display_label (describeWorkerDisplay other (shownAvailability
      (run_events availability_step es mounted_hook))) = ''Offline''"
  shows "\<exists>k a. AvailabilityAnswers k (Inr a) \<in> set es \<and> capacity_status a = Offline"
proof -
  let ?s = "run_events availability_step es mounted_hook"
  obtain a where "workerAvailability ?s = Some a" "capacity_status a = Offline"
    using assms by (cases "workerAvailability ?s"; cases "capacity_status (the (workerAvailability ?s))")
      (auto simp: describeWorkerDisplay_def shownAvailability_def Let_def split: if_splits)
  then show ?thesis using availability_origin[of mounted_hook "\<lambda>a. \<exists>k. AvailabilityAnswers k (Inr a) \<in> set es" es a]
    by (auto simp: mounted_hook_def)
qed

end
