(* ===== verification/View.thy ===== *)
theory View
  imports AccountState Stems
begin

text \<open>
  What the page renders: the components under frontend/src/components and App.tsx as functions from
  their props to trees of elements. An attribute holds a value or a handler; a handler names the
  user event that it passes on. \<open>live\<close> collects the handlers that the browser lets the user reach:
  none of a disabled control, and those of a form only through an enabled submit button.
\<close>

section \<open>Elements\<close>

datatype account_mode = LoginMode | RegisterMode

datatype ui_event =
    ChangeMode account_mode
  | SetUsername string
  | SetPassword string
  | SetConfirmedPassword string
  | SubmitAccountForm
  | ToggleSettings
  | SignOut
  | SetCurrentPassword string
  | SetNewPassword string
  | SetConfirmedNewPassword string
  | SubmitPasswordChange
  | RevokeOtherSessions
  | SetDeleteConfirmation string
  | SetDeletePassword string
  | SubmitAccountDeletion
  | CloseSettings
  | FileSelected "browser_file option"
  | StartProcessing
  | CancelJob
  | JobSelected JobRecord

datatype attr =
    Text string
  | Flag bool
  | Number int
  | OnClick ui_event
  | OnChange "string \<Rightarrow> ui_event"
  | OnFile "browser_file option \<Rightarrow> ui_event"
  | OnSubmit ui_event

datatype node = Txt string | El string "(string \<times> attr) list" "node list"

text \<open>\<open>condition && element\<close>, and a string that may be absent or empty in \<open>a || b\<close>.\<close>

definition only_if :: "bool \<Rightarrow> node list \<Rightarrow> node list" where
  "only_if c ns = (if c then ns else [])"

lemma only_if_simps [simp]: "only_if True ns = ns" "only_if False ns = []"
  by (simp_all add: only_if_def)

definition nonempty :: "string option \<Rightarrow> bool" where
  "nonempty t \<longleftrightarrow> t \<noteq> None \<and> t \<noteq> Some []"

definition text_or :: "string option \<Rightarrow> string option \<Rightarrow> string option" where
  "text_or a b = (if nonempty a then a else b)"

definition class_name :: "string \<Rightarrow> string \<times> attr" where
  "class_name c = (''className'', Text c)"

definition strong :: "string \<Rightarrow> node" where
  "strong t = El ''strong'' [] [Txt t]"

section \<open>Reaching handlers\<close>

definition disabled :: "(string \<times> attr) list \<Rightarrow> bool" where
  "disabled attrs \<longleftrightarrow> map_of attrs ''disabled'' = Some (Flag True)"

fun submits :: "node \<Rightarrow> bool" where
  "submits (Txt t) = False"
| "submits (El tag attrs ns) =
     (tag = ''button'' \<and> map_of attrs ''type'' = Some (Text ''submit'') \<and> \<not> disabled attrs \<or>
      (\<exists>n \<in> set ns. submits n))"

fun handler_of :: "bool \<Rightarrow> attr \<Rightarrow> attr list" where
  "handler_of s (OnClick e) = [OnClick e]"
| "handler_of s (OnChange f) = [OnChange f]"
| "handler_of s (OnFile f) = [OnFile f]"
| "handler_of s (OnSubmit e) = (if s then [OnSubmit e] else [])"
| "handler_of s _ = []"

fun live :: "node \<Rightarrow> attr list" where
  "live (Txt t) = []"
| "live (El tag attrs ns) =
     (if disabled attrs then []
      else concat (map (\<lambda>a. handler_of (\<exists>n \<in> set ns. submits n) (snd a)) attrs)) @ concat (map live ns)"

text \<open>What the user does with a handler: click, type, choose.\<close>

record user_input =
  typed :: string
  chosen :: "browser_file option"

fun fire :: "attr \<Rightarrow> user_input \<Rightarrow> ui_event option" where
  "fire (OnClick e) u = Some e"
| "fire (OnChange f) u = Some (f (typed u))"
| "fire (OnFile f) u = Some (f (chosen u))"
| "fire (OnSubmit e) u = Some e"
| "fire _ u = None"

section \<open>Display parameters\<close>

text \<open>
  The browser's locale: medium date with short time, the ISO text of a time, collation, and the
  number notation that \<open>number_literal\<close> leaves open.
\<close>

record browser_locale =
  date_text :: "time \<Rightarrow> string"
  iso_text :: "time \<Rightarrow> string"
  localeCompare :: "string \<Rightarrow> string \<Rightarrow> int"
  other_number :: "rat \<Rightarrow> string"

record BackendHealth =
  health_service :: string
  health_status :: string

section \<open>Hero.tsx, SystemStatus.tsx, UploadPanel.tsx\<close>

definition Hero :: node where
  "Hero = El ''section'' [class_name ''hero-section'']
     [El ''p'' [class_name ''eyebrow''] [Txt ''Distributed AI Audio Processing System''],
      El ''h1'' [] [Txt ''Upload audio. Track processing. Download separated stems.''],
      El ''p'' [class_name ''hero-copy'']
        [Txt ''A full-stack audio processing pipeline using React, Express, PostgreSQL, MinIO, Kafka, WebSockets, and a Python worker.'']]"

definition status_row :: "string \<Rightarrow> string \<Rightarrow> string \<Rightarrow> string \<Rightarrow> node" where
  "status_row title explanation pill label =
     El ''div'' [class_name ''system-status-row'']
       [El ''div'' [] [strong title, El ''p'' [] [Txt explanation]],
        El ''span'' [class_name pill] [Txt label]]"

definition SystemStatus ::
    "browser_locale \<Rightarrow> BackendHealth option \<Rightarrow> string \<Rightarrow> WorkerAvailability option \<Rightarrow> node" where
  "SystemStatus lc backendHealth message availability =
     (let workerDisplay = describeWorkerDisplay (other_number lc) availability
      in El ''section'' [class_name ''panel'']
        [El ''h2'' [] [Txt ''System Status''],
         El ''div'' [class_name ''system-status-list'']
           (case backendHealth of
              Some h \<Rightarrow>
                [status_row ''Web service'' (health_service h @ '' is '' @ health_status h @ ''.'')
                   ''status-pill online'' ''Connected'',
                 status_row ''Audio processing'' (display_message workerDisplay)
                   (display_class workerDisplay) (display_label workerDisplay)]
            | None \<Rightarrow>
                [status_row ''Web service'' message ''status-pill offline'' ''Disconnected'',
                 status_row ''Audio processing''
                   ''Worker status is unavailable while the web service is offline.''
                   ''status-pill unknown'' ''Unknown''])])"

definition UploadPanel :: "bool \<Rightarrow> string \<Rightarrow> browser_file option \<Rightarrow> bool \<Rightarrow> node" where
  "UploadPanel uploading message file readySession =
     El ''section'' [class_name ''panel'']
       [El ''div'' [class_name ''section-header''] [El ''h2'' [] [Txt ''Upload Audio'']],
        El ''input'' [class_name ''file-input'', (''type'', Text ''file''), (''accept'', Text ''audio/*''),
          (''onChange'', OnFile FileSelected)] [],
        El ''button'' [class_name ''primary-button'', (''type'', Text ''button''),
          (''onClick'', OnClick StartProcessing),
          (''disabled'', Flag (file = None \<or> uploading \<or> \<not> readySession))]
          [Txt (if uploading then ''Uploading...'' else ''Upload and Create Job'')],
        El ''p'' [class_name ''message''] [Txt message]]"

section \<open>JobDetails.tsx, JobHistory.tsx, DownloadResults.tsx\<close>

definition cancellableStatuses :: "job_status list" where
  "cancellableStatuses = [PENDING, PROCESSING, RETRYING]"

definition displayed_status :: "time \<Rightarrow> JobRecord \<Rightarrow> string" where
  "displayed_status now job =
     (if haveJobResultsExpired job now then ''EXPIRED'' else status_text (status job))"

definition status_pill :: "time \<Rightarrow> JobRecord \<Rightarrow> node" where
  "status_pill now job =
     El ''span'' [class_name (if haveJobResultsExpired job now then ''status-pill expired'' else ''status-pill'')]
       [Txt (displayed_status now job)]"

definition labelled :: "string \<Rightarrow> node list \<Rightarrow> node" where
  "labelled label ns = El ''p'' [] (strong label # Txt '' '' # ns)"

definition percent :: "JobRecord \<Rightarrow> string" where
  "percent job = show_int (progress job) @ ''%''"

definition JobDetails :: "browser_locale \<Rightarrow> time \<Rightarrow> bool \<Rightarrow> JobRecord \<Rightarrow> node" where
  "JobDetails lc now cancelling job =
     (let canCancel = status job \<in> set cancellableStatuses;
          resultsHaveExpired = haveJobResultsExpired job now
      in El ''section'' [class_name ''panel'']
        ([El ''div'' [class_name ''section-header''] [El ''h2'' [] [Txt ''Created Job''], status_pill now job],
          El ''div'' [class_name ''job-grid'']
            ([labelled ''Job ID:'' [Txt (job_id job)],
              labelled ''Progress:'' [Txt (percent job)],
              El ''progress'' [class_name ''job-progress'', (''max'', Text ''100''), (''value'', Number (progress job))]
                [Txt (percent job)],
              labelled ''Input Object Key:'' [Txt (input_object_key job)]] @
             only_if (status job = COMPLETED \<and> resultsHaveExpired)
               [labelled ''Results:'' [Txt ''Expired and no longer available'']] @
             (case storage_expires_at job of
                Some t \<Rightarrow> only_if (status job = COMPLETED \<and> \<not> resultsHaveExpired)
                  [labelled ''Results available until:''
                     [El ''time'' [(''dateTime'', Text (iso_text lc t))] [Txt (date_text lc t)]]]
              | None \<Rightarrow> []) @
             only_if (status job = CANCELLED)
               [labelled ''Results:'' [Txt ''No completed stems are available because processing was cancelled'']] @
             only_if (nonempty (error_message job))
               [labelled ''Error:'' [Txt (the (error_message job))]])] @
         only_if canCancel
           [El ''button'' [class_name ''secondary-button cancel-job-button'', (''type'', Text ''button''),
              (''onClick'', OnClick CancelJob), (''disabled'', Flag cancelling)]
              [Txt (if cancelling then ''Cancelling...'' else ''Cancel Processing'')]]))"

definition history_item :: "browser_locale \<Rightarrow> time \<Rightarrow> uuid option \<Rightarrow> JobRecord \<Rightarrow> node" where
  "history_item lc now selectedJobId historyJob =
     (let isSelected = (Some (job_id historyJob) = selectedJobId)
      in El ''li'' [(''key'', Text (job_id historyJob))]
        [El ''button''
           ([class_name (if isSelected then ''job-history-item selected'' else ''job-history-item''),
             (''type'', Text ''button'')] @
            (if isSelected then [(''aria-current'', Text ''true'')] else []) @
            [(''onClick'', OnClick (JobSelected historyJob))])
           [El ''span'' [class_name ''job-history-main'']
              [strong (original_file_name historyJob),
               El ''time'' [(''dateTime'', Text (iso_text lc (created_at historyJob)))]
                 [Txt (date_text lc (created_at historyJob))]],
            El ''span'' [class_name ''job-history-progress'']
              [status_pill now historyJob, El ''span'' [] [Txt (percent historyJob)]]]])"

definition JobHistory ::
    "browser_locale \<Rightarrow> time \<Rightarrow> bool \<Rightarrow> JobRecord list \<Rightarrow> uuid option \<Rightarrow> node" where
  "JobHistory lc now loading shownJobs selectedJobId =
     El ''section'' [class_name ''panel'']
       [El ''div'' [class_name ''section-header'']
          [El ''h2'' [] [Txt ''Job History''],
           El ''span'' [class_name ''history-count'']
             [Txt (if loading then ''Loading'' else show_nat (length shownJobs) @ '' recent'')]],
        if loading then El ''p'' [class_name ''message''] [Txt ''Loading job history...'']
        else if shownJobs = [] then El ''p'' [class_name ''message''] [Txt ''No processing jobs yet.'']
        else El ''ul'' [class_name ''job-history-list''] (map (history_item lc now selectedJobId) shownJobs)]"

definition stem_result :: "string \<times> string \<Rightarrow> node" where
  "stem_result entry =
     (let stemName = fst entry; url = snd entry; displayName = formatStemName stemName
      in El ''li'' [class_name ''stem-result'', (''key'', Text stemName)]
        [El ''div'' [class_name ''stem-result-header'']
           [El ''h3'' [] [Txt displayName],
            El ''a'' [class_name ''stem-download-link'', (''href'', Text url), (''download'', Text (stemName @ ''.wav''))]
              [Txt ''Download WAV'']],
         El ''audio'' [class_name ''stem-audio-player'', (''controls'', Flag True), (''preload'', Text ''metadata'')]
           [El ''source'' [(''src'', Text url), (''type'', Text ''audio/wav'')] [],
            El ''a'' [(''href'', Text url)] [Txt (''Download '' @ displayName)]]])"

definition DownloadResults :: "browser_locale \<Rightarrow> (string \<times> string) list \<Rightarrow> node" where
  "DownloadResults lc downloadUrls =
     El ''section'' [class_name ''panel'']
       [El ''div'' [class_name ''section-header''] [El ''h2'' [] [Txt ''Separated Results'']],
        El ''ul'' [class_name ''stem-results-list'']
          (map stem_result (orderStemEntries (localeCompare lc) downloadUrls))]"

section \<open>AccountSettings.tsx\<close>

text \<open>The component's own variables; a mounted instance is told from others by its number.\<close>

record account_settings =
  instance_of :: nat
  currentPassword :: string
  newPassword :: string
  confirmedNewPassword :: string
  deletePassword :: string
  deleteConfirmation :: string
  localMessage :: "string option"
  localError :: "string option"

definition fresh_settings :: "nat \<Rightarrow> account_settings" where
  "fresh_settings k = \<lparr>instance_of = k, currentPassword = [], newPassword = [], confirmedNewPassword = [],
     deletePassword = [], deleteConfirmation = [], localMessage = None, localError = None\<rparr>"

definition password_input :: "string \<Rightarrow> bool \<Rightarrow> string \<Rightarrow> (string \<Rightarrow> ui_event) \<Rightarrow> (string \<times> attr) list \<Rightarrow> node" where
  "password_input completion off v f named =
     El ''input'' (named @ [(''type'', Text ''password''), (''autoComplete'', Text completion), (''minLength'', Number 12),
       (''maxLength'', Number 128), (''required'', Flag True), (''disabled'', Flag off),
       (''value'', Text v), (''onChange'', OnChange f)]) []"

definition labelled_field :: "string \<Rightarrow> node \<Rightarrow> node" where
  "labelled_field label control = El ''label'' [] [El ''span'' [] [Txt label], control]"

definition session_item :: "browser_locale \<Rightarrow> AccountSession \<Rightarrow> node" where
  "session_item lc s =
     El ''li'' [(''key'', Text (account_session_id s))]
       [strong (if isCurrent s then ''Current browser'' else ''Other browser''),
        El ''span'' [] [Txt (''Started '' @ date_text lc (createdAt s))],
        El ''span'' [] [Txt (''Last active '' @ date_text lc (lastSeenAt s))],
        El ''span'' [] [Txt (''Expires '' @ date_text lc (sessionExpiresAt s))]]"

definition sessions_section :: "browser_locale \<Rightarrow> bool \<Rightarrow> AccountSession list \<Rightarrow> node" where
  "sessions_section lc isBusy sessions =
     (let otherSessionCount = length (filter (\<lambda>s. \<not> isCurrent s) sessions)
      in El ''section'' [class_name ''account-settings-section'', (''aria-labelledby'', Text ''sessions-heading'')]
        [El ''div'' [class_name ''account-settings-title-row'']
           [El ''h3'' [(''id'', Text ''sessions-heading'')] [Txt ''Active sessions''],
            El ''button'' [class_name ''secondary-button'', (''type'', Text ''button''),
              (''disabled'', Flag (isBusy \<or> otherSessionCount = 0)),
              (''onClick'', OnClick RevokeOtherSessions)] [Txt ''Sign out other browsers'']],
         if sessions = []
         then El ''p'' [class_name ''account-muted'']
                [Txt (if isBusy then ''Loading active sessions...'' else ''No sessions were returned.'')]
         else El ''ul'' [class_name ''account-session-list''] (map (session_item lc) sessions)])"

definition password_section :: "bool \<Rightarrow> account_settings \<Rightarrow> node" where
  "password_section isBusy st =
     El ''section'' [class_name ''account-settings-section'', (''aria-labelledby'', Text ''password-heading'')]
       [El ''h3'' [(''id'', Text ''password-heading'')] [Txt ''Change password''],
        El ''form'' [class_name ''settings-form'', (''onSubmit'', OnSubmit SubmitPasswordChange)]
          [labelled_field ''Current password''
             (password_input ''current-password'' isBusy (currentPassword st) SetCurrentPassword []),
           labelled_field ''New password'' (password_input ''new-password'' isBusy (newPassword st) SetNewPassword []),
           labelled_field ''Confirm new password''
             (password_input ''new-password'' isBusy (confirmedNewPassword st) SetConfirmedNewPassword []),
           El ''button'' [class_name ''primary-button'', (''type'', Text ''submit''), (''disabled'', Flag isBusy)]
             [Txt (if isBusy then ''Please wait...'' else ''Change password'')]]]"

definition deletion_section :: "bool \<Rightarrow> string \<Rightarrow> account_settings \<Rightarrow> node" where
  "deletion_section isBusy name st =
     El ''section'' [class_name ''account-settings-section account-danger'',
         (''aria-labelledby'', Text ''delete-heading'')]
       [El ''h3'' [(''id'', Text ''delete-heading'')] [Txt ''Delete account''],
        El ''p'' [] [Txt ''This cancels active processing and permanently removes private audio, job history, login sessions, and the account.''],
        El ''form'' [class_name ''settings-form delete-account-form'', (''onSubmit'', OnSubmit SubmitAccountDeletion)]
          [labelled_field (''Type '' @ name @ '' to confirm'')
             (El ''input'' [(''type'', Text ''text''), (''autoComplete'', Text ''off''), (''required'', Flag True),
               (''disabled'', Flag isBusy), (''value'', Text (deleteConfirmation st)),
               (''onChange'', OnChange SetDeleteConfirmation)] []),
           labelled_field ''Current password''
             (password_input ''current-password'' isBusy (deletePassword st) SetDeletePassword []),
           El ''button'' [class_name ''danger-button'', (''type'', Text ''submit''),
               (''disabled'', Flag (isBusy \<or> deleteConfirmation st \<noteq> name))]
             [Txt ''Delete account permanently'']]]"

definition AccountSettings ::
    "browser_locale \<Rightarrow> string option \<Rightarrow> bool \<Rightarrow> AccountSession list \<Rightarrow> string \<Rightarrow> account_settings \<Rightarrow> node" where
  "AccountSettings lc managementError isBusy sessions name st =
     El ''section'' [class_name ''panel account-settings'', (''aria-labelledby'', Text ''settings-heading'')]
       ([El ''div'' [class_name ''section-header'']
           [El ''div'' []
              [El ''h2'' [(''id'', Text ''settings-heading'')] [Txt ''Account settings''],
               El ''p'' [class_name ''account-settings-intro'']
                 [Txt ''Manage this password and the browsers currently signed in.'']],
            El ''button'' [class_name ''secondary-button'', (''type'', Text ''button''),
              (''onClick'', OnClick CloseSettings)] [Txt ''Close'']],
         sessions_section lc isBusy sessions,
         password_section isBusy st,
         deletion_section isBusy name st] @
        only_if (nonempty (text_or (localError st) managementError))
          [El ''p'' [class_name ''message error'', (''role'', Text ''alert'')]
             [Txt (the (text_or (localError st) managementError))]] @
        only_if (nonempty (localMessage st))
          [El ''p'' [class_name ''message account-success'', (''role'', Text ''status'')]
             [Txt (the (localMessage st))]])"

section \<open>AccountPanel.tsx\<close>

record account_panel =
  panelMode :: account_mode
  typedUsername :: string
  typedPassword :: string
  confirmedPassword :: string
  formError :: "string option"
  settingsOpen :: bool

definition fresh_panel :: account_panel where
  "fresh_panel = \<lparr>panelMode = LoginMode, typedUsername = [], typedPassword = [], confirmedPassword = [],
     formError = None, settingsOpen = False\<rparr>"

definition account_bar :: "account_state \<Rightarrow> bool \<Rightarrow> account_panel \<Rightarrow> string \<Rightarrow> node" where
  "account_bar au identityChangeDisabled pl name =
     El ''section'' [class_name ''account-bar'', (''aria-label'', Text ''Account'')]
       [El ''div'' [] [El ''span'' [class_name ''account-label''] [Txt ''Signed in''], strong name],
        El ''div'' [class_name ''account-actions'']
          [El ''button'' [class_name ''secondary-button'', (''type'', Text ''button''),
             (''disabled'', Flag (isAuthenticating au \<or> identityChangeDisabled)),
             (''aria-expanded'', Flag (settingsOpen pl)), (''onClick'', OnClick ToggleSettings)]
             [Txt (if settingsOpen pl then ''Hide settings'' else ''Manage account'')],
           El ''button'' [class_name ''secondary-button account-action'', (''type'', Text ''button''),
             (''disabled'', Flag (isAuthenticating au \<or> identityChangeDisabled)), (''onClick'', OnClick SignOut)]
             [Txt (if isAuthenticating au then ''Signing out...'' else ''Sign out'')]]]"

definition mode_button :: "account_mode \<Rightarrow> account_mode \<Rightarrow> string \<Rightarrow> node" where
  "mode_button mode m label =
     El ''button'' [class_name (if mode = m then ''active'' else []), (''type'', Text ''button''),
       (''aria-pressed'', Flag (mode = m)), (''onClick'', OnClick (ChangeMode m))] [Txt label]"

definition account_form :: "bool \<Rightarrow> bool \<Rightarrow> account_panel \<Rightarrow> node" where
  "account_form authenticating off pl =
     El ''form'' [class_name ''account-form'', (''onSubmit'', OnSubmit SubmitAccountForm)]
       ([labelled_field ''Username''
           (El ''input'' [(''name'', Text ''username''), (''type'', Text ''text''), (''autoComplete'', Text ''username''),
             (''minLength'', Number 3), (''maxLength'', Number 30), (''pattern'', Text ''[A-Za-z0-9_]+''),
             (''required'', Flag True), (''disabled'', Flag off), (''value'', Text (typedUsername pl)),
             (''onChange'', OnChange SetUsername)] []),
         labelled_field ''Password''
           (password_input (if panelMode pl = LoginMode then ''current-password'' else ''new-password'') off
             (typedPassword pl) SetPassword [(''name'', Text ''password'')])] @
        only_if (panelMode pl = RegisterMode)
          [labelled_field ''Confirm password''
             (password_input ''new-password'' off (confirmedPassword pl) SetConfirmedPassword
               [(''name'', Text ''confirmedPassword'')])] @
        [El ''button'' [class_name ''primary-button account-submit'', (''type'', Text ''submit''), (''disabled'', Flag off)]
           [Txt (if authenticating then ''Please wait...''
                 else if panelMode pl = LoginMode then ''Sign in'' else ''Create account'')]])"

definition visitor_panel :: "account_state \<Rightarrow> bool \<Rightarrow> account_panel \<Rightarrow> node" where
  "visitor_panel au identityChangeDisabled pl =
     El ''section'' [class_name ''panel account-panel'', (''aria-labelledby'', Text ''account-heading'')]
       ([El ''div'' [class_name ''account-heading-row'']
           [El ''div'' []
              [El ''h2'' [(''id'', Text ''account-heading'')] [Txt ''Your account''],
               El ''p'' [] [Txt ''Sign in to keep job history available across browsers. You can also continue without an account on this device.'']],
            El ''div'' [class_name ''account-mode'', (''aria-label'', Text ''Account action'')]
              [mode_button (panelMode pl) LoginMode ''Sign in'',
               mode_button (panelMode pl) RegisterMode ''Create account'']],
         account_form (isAuthenticating au) (isAuthenticating au \<or> identityChangeDisabled) pl] @
        only_if (panelMode pl = RegisterMode)
          [El ''p'' [class_name ''account-requirement'']
             [Txt ''Use 3-30 letters, numbers, or underscores for the username and at least 12 characters for the password.'']] @
        only_if (nonempty (text_or (formError pl) (authenticationError au)))
          [El ''p'' [class_name ''message error'', (''role'', Text ''alert'')]
             [Txt (the (text_or (formError pl) (authenticationError au)))]] @
        only_if identityChangeDisabled
          [El ''p'' [class_name ''account-requirement'']
             [Txt ''Finish the current direct upload before changing accounts.'']])"

text \<open>The settings are rendered from the variables of their instance; without one they are fresh.\<close>

definition AccountPanel ::
    "browser_locale \<Rightarrow> account_state \<Rightarrow> bool \<Rightarrow> account_panel \<Rightarrow> account_settings option \<Rightarrow> node list" where
  "AccountPanel lc au identityChangeDisabled pl st =
     (case currentUser au of
        Some user \<Rightarrow>
          account_bar au identityChangeDisabled pl (auth_username user) #
          only_if (settingsOpen pl)
            [AccountSettings lc (accountManagementError au) (isManagingAccount au) (accountSessions au)
               (auth_username user) (case st of Some x \<Rightarrow> x | None \<Rightarrow> fresh_settings 0)]
      | None \<Rightarrow> [visitor_panel au identityChangeDisabled pl])"

section \<open>What the page offers\<close>

text \<open>The events that the user can cause on a tree.\<close>

definition causes :: "attr list \<Rightarrow> ui_event set" where
  "causes hs = {e. \<exists>h \<in> set hs. \<exists>u. fire h u = Some e}"

definition fires :: "node \<Rightarrow> ui_event set" where
  "fires n = causes (live n)"

lemma causes_simps [simp]:
  "causes [] = {}" "causes (xs @ ys) = causes xs \<union> causes ys"
  "causes (OnClick e # hs) = insert e (causes hs)"
  "causes (OnSubmit e # hs) = insert e (causes hs)"
  "causes (OnChange f # hs) = range f \<union> causes hs"
  "causes (OnFile g # hs) = range g \<union> causes hs"
proof -
  have t: "range f = {e. \<exists>u :: user_input. f (typed u) = e}" for f :: "string \<Rightarrow> ui_event"
    by (auto simp: image_def) (metis user_input.select_convs(1))+
  have c: "range g = {e. \<exists>u :: user_input. g (chosen u) = e}" for g :: "browser_file option \<Rightarrow> ui_event"
    by (auto simp: image_def) (metis user_input.select_convs(2))+
  have h: "causes (h # hs) = {e. \<exists>u. fire h u = Some e} \<union> causes hs" for h by (auto simp: causes_def)
  show "causes [] = {}" "causes (xs @ ys) = causes xs \<union> causes ys" by (auto simp: causes_def)
  show "causes (OnClick e # hs) = insert e (causes hs)" "causes (OnSubmit e # hs) = insert e (causes hs)"
    unfolding h by auto
  show "causes (OnChange f # hs) = range f \<union> causes hs" "causes (OnFile g # hs) = range g \<union> causes hs"
    by (simp_all only: h fire.simps option.inject t c)
qed

lemma causes_concat [simp]: "causes (concat xss) = (\<Union>xs \<in> set xss. causes xs)"
  by (induction xss) auto

lemma fires_Txt [simp]: "fires (Txt t) = {}"
  by (simp add: fires_def)

lemma fires_El:
  "fires (El tag attrs ns) =
     (if disabled attrs then {}
      else (\<Union>a \<in> set attrs. causes (handler_of (\<exists>n \<in> set ns. submits n) (snd a)))) \<union> (\<Union>n \<in> set ns. fires n)"
  by (simp add: fires_def)

lemmas element_simps = fires_El disabled_def class_name_def strong_def labelled_def Let_def

lemma fires_Hero [simp]: "fires Hero = {}"
  by (simp add: Hero_def element_simps)

lemma fires_SystemStatus [simp]: "fires (SystemStatus lc h m a) = {}"
  by (simp add: SystemStatus_def status_row_def element_simps split: option.split)

lemma fires_UploadPanel [simp]:
  "fires (UploadPanel uploading m file r) =
     range FileSelected \<union> (if file \<noteq> None \<and> \<not> uploading \<and> r then {StartProcessing} else {})"
  by (auto simp: UploadPanel_def element_simps)

lemma fires_only_if [simp]: "(\<Union>n \<in> set (only_if c ns). fires n) = (if c then (\<Union>n \<in> set ns. fires n) else {})"
  by (simp add: only_if_def)

lemma fires_status_pill [simp]: "fires (status_pill now job) = {}"
  by (simp add: status_pill_def element_simps)

lemma fires_JobDetails [simp]:
  "fires (JobDetails lc now cancelling job) =
     (if isActiveJob job \<and> \<not> cancelling then {CancelJob} else {})"
  by (cases "storage_expires_at job")
    (simp_all add: JobDetails_def element_simps isActiveJob_def activeStatuses_def cancellableStatuses_def)

lemma fires_history_item [simp]: "fires (history_item lc now sel job) = {JobSelected job}"
  by (simp add: history_item_def element_simps)

lemma fires_JobHistory [simp]:
  "fires (JobHistory lc now loading js sel) = (if loading then {} else JobSelected ` set js)"
  by (auto simp: JobHistory_def element_simps)

lemma fires_DownloadResults [simp]: "fires (DownloadResults lc urls) = {}"
  by (simp add: DownloadResults_def stem_result_def element_simps)

lemma fires_password_input [simp]:
  "fires (password_input c off v f []) = (if off then {} else range f)"
  "fires (password_input c off v f [(''name'', Text t)]) = (if off then {} else range f)"
  by (simp_all add: password_input_def element_simps)

lemma submits_password_input [simp]: "submits (password_input c off v f named) = False"
  by (simp add: password_input_def)

lemma field_simps_view [simp]: "fires (labelled_field label c) = fires c" "submits (labelled_field label c) = submits c"
  by (simp_all add: labelled_field_def element_simps)

lemma fires_sessions_section [simp]:
  "fires (sessions_section lc busy rows) =
     (if \<not> busy \<and> (\<exists>x \<in> set rows. \<not> isCurrent x) then {RevokeOtherSessions} else {})"
  by (auto simp: sessions_section_def session_item_def element_simps filter_empty_conv)

lemma fires_password_section [simp]:
  "fires (password_section busy st) =
     (if busy then {} else range SetCurrentPassword \<union> range SetNewPassword \<union> range SetConfirmedNewPassword
        \<union> {SubmitPasswordChange})"
  by (auto simp: password_section_def element_simps)

lemma fires_deletion_section [simp]:
  "fires (deletion_section busy name st) =
     (if busy then {} else range SetDeleteConfirmation \<union> range SetDeletePassword
        \<union> (if deleteConfirmation st = name then {SubmitAccountDeletion} else {}))"
  by (auto simp: deletion_section_def element_simps)

lemma fires_AccountSettings [simp]:
  "fires (AccountSettings lc err busy rows name st) =
     {CloseSettings} \<union> fires (sessions_section lc busy rows) \<union> fires (password_section busy st)
       \<union> fires (deletion_section busy name st)"
  by (simp add: AccountSettings_def element_simps)

lemma fires_account_bar [simp]:
  "fires (account_bar au off pl name) = (if isAuthenticating au \<or> off then {} else {ToggleSettings, SignOut})"
  by (auto simp: account_bar_def element_simps)

lemma fires_account_form [simp]:
  "fires (account_form authenticating off pl) =
     (if off then {} else range SetUsername \<union> range SetPassword \<union> {SubmitAccountForm}
        \<union> (if panelMode pl = RegisterMode then range SetConfirmedPassword else {}))"
  by (auto simp: account_form_def element_simps only_if_def)

lemma fires_visitor_panel [simp]:
  "fires (visitor_panel au off pl) =
     {ChangeMode LoginMode, ChangeMode RegisterMode} \<union>
     fires (account_form (isAuthenticating au) (isAuthenticating au \<or> off) pl)"
  by (auto simp: visitor_panel_def mode_button_def element_simps)

end
