(* ===== verification/Application.thy ===== *)
theory Application
  imports View
begin

text \<open>
  The browser application as a whole: App.tsx composes the hooks and the components, and the user
  acts only through what is rendered. The state joins the variables of the hooks (Page,
  AccountState) with those of the components; an event is an action of the user on one of the
  live handlers of the current tree, or an answer to a request under way. Handlers that await are
  split where they await; what an answer finds is the state of that moment.
\<close>

section \<open>State\<close>

text \<open>
  Account requests under way; those of the settings carry the number of the instance that sent
  them. After a successful change of identity the history is loaded before the caller goes on.
\<close>

datatype account_call =
    LoginCall string string
  | RegisterCall string string
  | LogoutCall
  | SessionsCall
  | PasswordCall nat string string
  | PasswordListCall nat
  | RevokeCall nat
  | DeleteCall nat string

datatype account_answer =
    UserAnswer "failure + AuthenticatedUser"
  | DoneAnswer "failure + unit"
  | SessionsAnswer "failure + AccountSession list"

datatype identity_change = LoginChange string | RegisterChange string | LogoutChange | DeletionChange nat

datatype startup = AwaitSession | AwaitIdentity | AwaitHealth | StartupOver

record app =
  page_of :: page
  account_of :: account_state
  availability_of :: availability_hook
  panel_of :: account_panel
  settings_of :: "account_settings option"
  settings_count :: nat
  backendHealth :: "BackendHealth option"
  startup_of :: startup
  calls :: "account_call list"
  reloads :: "identity_change list"

definition on_page :: "(page \<Rightarrow> page) \<Rightarrow> app \<Rightarrow> app" where
  "on_page f s = s\<lparr>page_of := f (page_of s)\<rparr>"

definition on_account :: "(account_state \<Rightarrow> account_state) \<Rightarrow> app \<Rightarrow> app" where
  "on_account f s = s\<lparr>account_of := f (account_of s)\<rparr>"

definition on_panel :: "(account_panel \<Rightarrow> account_panel) \<Rightarrow> app \<Rightarrow> app" where
  "on_panel f s = s\<lparr>panel_of := f (panel_of s)\<rparr>"

text \<open>Setters of an instance of the settings that is no longer mounted have no effect.\<close>

definition on_settings :: "nat \<Rightarrow> (account_settings \<Rightarrow> account_settings) \<Rightarrow> app \<Rightarrow> app" where
  "on_settings k f s =
     s\<lparr>settings_of := map_option (\<lambda>st. if instance_of st = k then f st else st) (settings_of s)\<rparr>"

definition send_call :: "account_call \<Rightarrow> app \<Rightarrow> app" where
  "send_call c s = s\<lparr>calls := calls s @ [c]\<rparr>"

section \<open>User actions\<close>

definition changeMode :: "account_mode \<Rightarrow> app \<Rightarrow> app" where
  "changeMode nextMode = on_panel (\<lambda>pl. pl\<lparr>panelMode := nextMode, typedPassword := [], confirmedPassword := [],
     formError := None\<rparr>)"

definition submitAccountForm :: "app \<Rightarrow> app" where
  "submitAccountForm s0 =
     (let s = on_panel (\<lambda>pl. pl\<lparr>formError := None\<rparr>) s0; pl = panel_of s
      in if panelMode pl = RegisterMode \<and> typedPassword pl \<noteq> confirmedPassword pl
         then on_panel (\<lambda>pl. pl\<lparr>formError := Some ''The two passwords do not match.''\<rparr>) s
         else send_call ((if panelMode pl = LoginMode then LoginCall else RegisterCall)
                           (typedUsername pl) (typedPassword pl))
                (on_account authentication_begins s))"

definition toggleSettings :: "app \<Rightarrow> app" where
  "toggleSettings s =
     (let nextOpenState = (\<not> settingsOpen (panel_of s)); s1 = on_panel (\<lambda>pl. pl\<lparr>settingsOpen := nextOpenState\<rparr>) s
      in if nextOpenState then send_call SessionsCall (on_account management_begins s1) else s1)"

definition signOut :: "app \<Rightarrow> app" where
  "signOut s = send_call LogoutCall (on_account authentication_begins s)"

definition clear_notes :: "account_settings \<Rightarrow> account_settings" where
  "clear_notes st = st\<lparr>localError := None, localMessage := None\<rparr>"

text \<open>The handlers of AccountSettings, for the mounted instance.\<close>

definition with_settings :: "(account_settings \<Rightarrow> app \<Rightarrow> app) \<Rightarrow> app \<Rightarrow> app" where
  "with_settings f s = (case settings_of s of None \<Rightarrow> s | Some st \<Rightarrow> f st s)"

definition submitPasswordChange :: "account_settings \<Rightarrow> app \<Rightarrow> app" where
  "submitPasswordChange st s0 =
     (let k = instance_of st; s = on_settings k clear_notes s0
      in if newPassword st \<noteq> confirmedNewPassword st
         then on_settings k (\<lambda>st. st\<lparr>localError := Some ''The two new passwords do not match.''\<rparr>) s
         else send_call (PasswordCall k (currentPassword st) (newPassword st)) (on_account management_begins s))"

definition revokeOtherSessions :: "account_settings \<Rightarrow> app \<Rightarrow> app" where
  "revokeOtherSessions st s =
     (let k = instance_of st
      in send_call (RevokeCall k) (on_account management_begins (on_settings k clear_notes s)))"

definition submitAccountDeletion :: "account_settings \<Rightarrow> app \<Rightarrow> app" where
  "submitAccountDeletion st s0 =
     (let k = instance_of st; s = on_settings k clear_notes s0;
          name = (case currentUser (account_of s0) of Some u \<Rightarrow> auth_username u | None \<Rightarrow> [])
      in if deleteConfirmation st \<noteq> name
         then on_settings k (\<lambda>st. st\<lparr>localError :=
                Some (''Type '' @ name @ '' exactly to confirm account deletion.'')\<rparr>) s
         else send_call (DeleteCall k (deletePassword st)) (on_account management_begins s))"

definition type_setting :: "(account_settings \<Rightarrow> account_settings) \<Rightarrow> app \<Rightarrow> app" where
  "type_setting f = with_settings (\<lambda>st. on_settings (instance_of st) f)"

fun ui_step :: "time \<Rightarrow> ui_event \<Rightarrow> app \<Rightarrow> app" where
  "ui_step now (ChangeMode m) s = changeMode m s"
| "ui_step now (SetUsername t) s = on_panel (\<lambda>pl. pl\<lparr>typedUsername := t\<rparr>) s"
| "ui_step now (SetPassword t) s = on_panel (\<lambda>pl. pl\<lparr>typedPassword := t\<rparr>) s"
| "ui_step now (SetConfirmedPassword t) s = on_panel (\<lambda>pl. pl\<lparr>confirmedPassword := t\<rparr>) s"
| "ui_step now SubmitAccountForm s = submitAccountForm s"
| "ui_step now ToggleSettings s = toggleSettings s"
| "ui_step now SignOut s = signOut s"
| "ui_step now (SetCurrentPassword t) s = type_setting (\<lambda>st. st\<lparr>currentPassword := t\<rparr>) s"
| "ui_step now (SetNewPassword t) s = type_setting (\<lambda>st. st\<lparr>newPassword := t\<rparr>) s"
| "ui_step now (SetConfirmedNewPassword t) s = type_setting (\<lambda>st. st\<lparr>confirmedNewPassword := t\<rparr>) s"
| "ui_step now SubmitPasswordChange s = with_settings submitPasswordChange s"
| "ui_step now RevokeOtherSessions s = with_settings revokeOtherSessions s"
| "ui_step now (SetDeleteConfirmation t) s = type_setting (\<lambda>st. st\<lparr>deleteConfirmation := t\<rparr>) s"
| "ui_step now (SetDeletePassword t) s = type_setting (\<lambda>st. st\<lparr>deletePassword := t\<rparr>) s"
| "ui_step now SubmitAccountDeletion s = with_settings submitAccountDeletion s"
| "ui_step now CloseSettings s = on_panel (\<lambda>pl. pl\<lparr>settingsOpen := False\<rparr>) s"
| "ui_step now (FileSelected f) s = on_page (page_step (FileChosen f)) s"
| "ui_step now StartProcessing s = on_page (page_step StartClicked) s"
| "ui_step now CancelJob s = on_page (page_step CancelClicked) s"
| "ui_step now (JobSelected job) s = on_page (page_step (HistoryJobClicked now job)) s"

section \<open>Answers\<close>

text \<open>useAudioProcessing.ts: what follows a successful change of identity.\<close>

fun reload_message :: "identity_change \<Rightarrow> string" where
  "reload_message (LoginChange name) = ''Signed in as '' @ toLowerCase name @ ''.''"
| "reload_message (RegisterChange name) = ''Account '' @ toLowerCase name @ '' was created.''"
| "reload_message LogoutChange = ''Signed out. This browser now has a private visitor workspace.''"
| "reload_message (DeletionChange k) = ''Account deleted. This browser now has a private visitor workspace.''"

definition identity_changed :: "identity_change \<Rightarrow> app \<Rightarrow> app" where
  "identity_changed change s =
     on_page (page_step (IdentityChanges (reload_message change))) (s\<lparr>reloads := reloads s @ [change]\<rparr>)"

text \<open>The end of \<open>submitAccountForm\<close>: the passwords leave the form.\<close>

definition forget_passwords :: "app \<Rightarrow> app" where
  "forget_passwords = on_panel (\<lambda>pl. pl\<lparr>typedPassword := [], confirmedPassword := []\<rparr>)"

definition identity_answered :: "identity_change \<Rightarrow> failure + AuthenticatedUser \<Rightarrow> app \<Rightarrow> app" where
  "identity_answered change answer s =
     (case runAuthentication_answered answer (account_of s) of (succeeded, au) \<Rightarrow>
        if succeeded then identity_changed change (s\<lparr>account_of := au\<rparr>)
        else forget_passwords (s\<lparr>account_of := au\<rparr>))"

definition signed_out :: "failure + unit \<Rightarrow> app \<Rightarrow> app" where
  "signed_out answer s =
     (case logout_answered answer (account_of s) of (succeeded, au) \<Rightarrow>
        if succeeded then identity_changed LogoutChange (s\<lparr>account_of := au\<rparr>) else s\<lparr>account_of := au\<rparr>)"

definition forget_new_password :: "account_settings \<Rightarrow> account_settings" where
  "forget_new_password st = st\<lparr>currentPassword := [], newPassword := [], confirmedNewPassword := []\<rparr>"

definition password_changed :: "nat \<Rightarrow> failure + unit \<Rightarrow> app \<Rightarrow> app" where
  "password_changed k answer s =
     (case changePassword_answered answer (account_of s) of (outcome, au) \<Rightarrow>
        if outcome = None then send_call (PasswordListCall k) (s\<lparr>account_of := au\<rparr>)
        else on_settings k forget_new_password (s\<lparr>account_of := au\<rparr>))"

definition password_listed :: "nat \<Rightarrow> failure + AccountSession list \<Rightarrow> app \<Rightarrow> app" where
  "password_listed k answer s =
     (case changePassword_listed answer (account_of s) of (succeeded, au) \<Rightarrow>
        if succeeded
        then on_settings k (\<lambda>st. (forget_new_password st)
                 \<lparr>localMessage := Some ''Password changed. Other browsers have been signed out.''\<rparr>)
               (on_page (setMessage ''Password changed. Other browsers were signed out.'') (s\<lparr>account_of := au\<rparr>))
        else on_settings k forget_new_password (s\<lparr>account_of := au\<rparr>))"

definition others_revoked :: "nat \<Rightarrow> failure + AccountSession list \<Rightarrow> app \<Rightarrow> app" where
  "others_revoked k answer s =
     (case revokeOtherSessions_answered answer (account_of s) of (succeeded, au) \<Rightarrow>
        if succeeded
        then on_settings k (\<lambda>st. st\<lparr>localMessage := Some ''Other browser sessions were signed out.''\<rparr>)
               (on_page (setMessage ''Other browser sessions were signed out.'') (s\<lparr>account_of := au\<rparr>))
        else s\<lparr>account_of := au\<rparr>)"

definition account_deleted :: "nat \<Rightarrow> failure + unit \<Rightarrow> app \<Rightarrow> app" where
  "account_deleted k answer s =
     (case deleteAccount_answered answer (account_of s) of (succeeded, au) \<Rightarrow>
        if succeeded then identity_changed (DeletionChange k) (s\<lparr>account_of := au\<rparr>)
        else on_settings k (\<lambda>st. st\<lparr>deletePassword := []\<rparr>) (s\<lparr>account_of := au\<rparr>))"

definition sessions_loaded :: "failure + AccountSession list \<Rightarrow> app \<Rightarrow> app" where
  "sessions_loaded answer = on_account (\<lambda>au. snd (loadAccountSessions_answered answer au))"

fun account_answered :: "account_call \<Rightarrow> account_answer \<Rightarrow> app \<Rightarrow> app" where
  "account_answered (LoginCall name p) (UserAnswer a) s = identity_answered (LoginChange name) a s"
| "account_answered (RegisterCall name p) (UserAnswer a) s = identity_answered (RegisterChange name) a s"
| "account_answered LogoutCall (DoneAnswer a) s = signed_out a s"
| "account_answered SessionsCall (SessionsAnswer a) s = sessions_loaded a s"
| "account_answered (PasswordCall k p q) (DoneAnswer a) s = password_changed k a s"
| "account_answered (PasswordListCall k) (SessionsAnswer a) s = password_listed k a s"
| "account_answered (RevokeCall k) (SessionsAnswer a) s = others_revoked k a s"
| "account_answered (DeleteCall k p) (DoneAnswer a) s = account_deleted k a s"
| "account_answered _ _ s = s"

text \<open>An answer of the kind that the request has.\<close>

fun fits :: "account_call \<Rightarrow> account_answer \<Rightarrow> bool" where
  "fits (LoginCall name p) (UserAnswer a) = True"
| "fits (RegisterCall name p) (UserAnswer a) = True"
| "fits LogoutCall (DoneAnswer a) = True"
| "fits SessionsCall (SessionsAnswer a) = True"
| "fits (PasswordCall k p q) (DoneAnswer a) = True"
| "fits (PasswordListCall k) (SessionsAnswer a) = True"
| "fits (RevokeCall k) (SessionsAnswer a) = True"
| "fits (DeleteCall k p) (DoneAnswer a) = True"
| "fits _ _ = False"

definition call_answered :: "account_call \<Rightarrow> account_answer \<Rightarrow> app \<Rightarrow> app" where
  "call_answered c a s =
     (if c \<in> set (calls s) \<and> fits c a then account_answered c a (s\<lparr>calls := remove1 c (calls s)\<rparr>) else s)"

text \<open>The rest of the callers, once the history has been loaded or has failed to load.\<close>

fun reload_finished :: "identity_change \<Rightarrow> app \<Rightarrow> app" where
  "reload_finished (LoginChange name) s = on_panel (\<lambda>pl. pl\<lparr>formError := None\<rparr>) (forget_passwords s)"
| "reload_finished (RegisterChange name) s = on_panel (\<lambda>pl. pl\<lparr>formError := None\<rparr>) (forget_passwords s)"
| "reload_finished LogoutChange s = on_panel (\<lambda>pl. pl\<lparr>settingsOpen := False\<rparr>) s"
| "reload_finished (DeletionChange k) s =
     on_settings k (\<lambda>st. st\<lparr>deletePassword := [], deleteConfirmation := []\<rparr>)
       (on_panel (\<lambda>pl. pl\<lparr>settingsOpen := False\<rparr>) s)"

definition reload_answered ::
    "time \<Rightarrow> identity_change \<Rightarrow> failure + JobRecord list \<Rightarrow> app \<Rightarrow> app" where
  "reload_answered now change answer s =
     (if change \<notin> set (reloads s) then s
      else reload_finished change
             (on_page (page_step (HistoryAnswers now (AfterIdentityChange (reload_message change)) answer))
               (s\<lparr>reloads := remove1 change (reloads s)\<rparr>)))"

text \<open>useApplicationInitialization.ts up to the history request, one request after the other.\<close>

definition startup_fails :: "app \<Rightarrow> app" where
  "startup_fails s = on_page (page_step InitializationFails) (s\<lparr>startup_of := StartupOver\<rparr>)"

definition session_created :: "failure option \<Rightarrow> app \<Rightarrow> app" where
  "session_created outcome s =
     (if startup_of s \<noteq> AwaitSession then s
      else case outcome of None \<Rightarrow> s\<lparr>startup_of := AwaitIdentity\<rparr> | Some f \<Rightarrow> startup_fails s)"

definition identity_loaded :: "failure + AuthenticatedUser option \<Rightarrow> app \<Rightarrow> app" where
  "identity_loaded answer s =
     (if startup_of s \<noteq> AwaitIdentity then s
      else case answer of
             Inr u \<Rightarrow> on_account (loadAuthentication_answered u) (s\<lparr>startup_of := AwaitHealth\<rparr>)
           | Inl f \<Rightarrow> startup_fails s)"

definition health_checked :: "failure + BackendHealth \<Rightarrow> app \<Rightarrow> app" where
  "health_checked answer s =
     (if startup_of s \<noteq> AwaitHealth then s
      else case answer of
             Inr h \<Rightarrow> on_page (page_step ApplicationStarts)
                        (s\<lparr>startup_of := StartupOver, backendHealth := Some h\<rparr>)
           | Inl f \<Rightarrow> startup_fails s)"

section \<open>App.tsx\<close>

definition identityChangeDisabled :: "app \<Rightarrow> bool" where
  "identityChangeDisabled s \<longleftrightarrow> isUploading (page_of s) \<or> \<not> sessionReady (page_of s)"

definition App :: "browser_locale \<Rightarrow> time \<Rightarrow> app \<Rightarrow> node" where
  "App lc now s =
     (let pg = page_of s
      in El ''main'' [class_name ''app-shell'']
        ([Hero] @
         AccountPanel lc (account_of s) (identityChangeDisabled s) (panel_of s) (settings_of s) @
         [SystemStatus lc (backendHealth s) (pg_message pg) (shownAvailability (availability_of s)),
          UploadPanel (isUploading pg) (pg_message pg) (selectedFile pg) (sessionReady pg)] @
         (case pg_job pg of Some job \<Rightarrow> [JobDetails lc now (isCancelling pg) job] | None \<Rightarrow> []) @
         (case pg_downloadUrls pg of Some urls \<Rightarrow> [DownloadResults lc urls] | None \<Rightarrow> []) @
         only_if (backendHealth s \<noteq> None)
           [JobHistory lc now (isJobHistoryLoading pg) (jobHistory pg) (map_option job_id (pg_job pg))]))"

text \<open>
  After every event React renders: settings are mounted and unmounted, and the effect that polls
  worker availability follows the backend connection.
\<close>

definition mount_settings :: "app \<Rightarrow> app" where
  "mount_settings s =
     (if currentUser (account_of s) = None \<or> \<not> settingsOpen (panel_of s) then s\<lparr>settings_of := None\<rparr>
      else if settings_of s = None
      then s\<lparr>settings_of := Some (fresh_settings (Suc (settings_count s))), settings_count := Suc (settings_count s)\<rparr>
      else s)"

definition render_effects :: "app \<Rightarrow> app" where
  "render_effects s =
     (mount_settings s)\<lparr>availability_of :=
        availability_step (ConnectionRendered (backendHealth s \<noteq> None)) (availability_of s)\<rparr>"

text \<open>The user acts on the handler with number \<open>i\<close> of the rendered tree.\<close>

definition user_acts :: "browser_locale \<Rightarrow> time \<Rightarrow> nat \<Rightarrow> user_input \<Rightarrow> app \<Rightarrow> app" where
  "user_acts lc now i u s =
     (let handlers = live (App lc now s)
      in if i < length handlers
         then case fire (handlers ! i) u of Some e \<Rightarrow> ui_step now e s | None \<Rightarrow> s
         else s)"

datatype app_event =
    UserActs time nat user_input
  | SessionCreated "failure option"
  | IdentityLoaded "failure + AuthenticatedUser option"
  | HealthChecked "failure + BackendHealth"
  | CallAnswered account_call account_answer
  | ReloadAnswered time identity_change "failure + JobRecord list"
  | PageAnswered page_event
  | PollingEvent availability_event

text \<open>The events of the page that are answers to its own requests or arrive from the backend.\<close>

fun from_backend :: "page_event \<Rightarrow> bool" where
  "from_backend (HistoryAnswers now AtStartup answer) = True"
| "from_backend (UpdateArrives now job) = True"
| "from_backend (StatusArrives m) = True"
| "from_backend (UrlsAnswer jobId answer) = True"
| "from_backend (PresignAnswers file ct answer) = True"
| "from_backend (UploadAnswers file url key outcome) = True"
| "from_backend (CreateAnswers now file key answer) = True"
| "from_backend (CancelAnswers now jobId answer) = True"
| "from_backend _ = False"

fun polling :: "availability_event \<Rightarrow> bool" where
  "polling (IntervalElapsed k) = True"
| "polling (AvailabilityAnswers k answer) = True"
| "polling _ = False"

fun app_handler :: "browser_locale \<Rightarrow> app_event \<Rightarrow> app \<Rightarrow> app" where
  "app_handler lc (UserActs now i u) s = user_acts lc now i u s"
| "app_handler lc (SessionCreated outcome) s = session_created outcome s"
| "app_handler lc (IdentityLoaded answer) s = identity_loaded answer s"
| "app_handler lc (HealthChecked answer) s = health_checked answer s"
| "app_handler lc (CallAnswered c a) s = call_answered c a s"
| "app_handler lc (ReloadAnswered now change answer) s = reload_answered now change answer s"
| "app_handler lc (PageAnswered e) s = (if from_backend e then on_page (page_step e) s else s)"
| "app_handler lc (PollingEvent e) s =
     (if polling e then s\<lparr>availability_of := availability_step e (availability_of s)\<rparr> else s)"

definition app_step :: "browser_locale \<Rightarrow> app_event \<Rightarrow> app \<Rightarrow> app" where
  "app_step lc e s = render_effects (app_handler lc e s)"

definition opened_app :: app where
  "opened_app = \<lparr>page_of = empty_page, account_of = no_account, availability_of = mounted_hook,
     panel_of = fresh_panel, settings_of = None, settings_count = 0, backendHealth = None,
     startup_of = AwaitSession, calls = [], reloads = []\<rparr>"

section \<open>What the page offers\<close>

text \<open>The controls that the page means to offer, read off its state.\<close>

definition identity_free :: "app \<Rightarrow> bool" where
  "identity_free s \<longleftrightarrow> \<not> isAuthenticating (account_of s) \<and> \<not> identityChangeDisabled s"

definition settings_shown :: "app \<Rightarrow> bool" where
  "settings_shown s \<longleftrightarrow> currentUser (account_of s) \<noteq> None \<and> settingsOpen (panel_of s)"

definition settings_free :: "app \<Rightarrow> bool" where
  "settings_free s \<longleftrightarrow> settings_shown s \<and> \<not> isManagingAccount (account_of s)"

definition shown_settings :: "app \<Rightarrow> account_settings" where
  "shown_settings s = (case settings_of s of Some st \<Rightarrow> st | None \<Rightarrow> fresh_settings 0)"

fun offered :: "app \<Rightarrow> ui_event \<Rightarrow> bool" where
  "offered s (ChangeMode m) = (currentUser (account_of s) = None)"
| "offered s (SetUsername t) = (currentUser (account_of s) = None \<and> identity_free s)"
| "offered s (SetPassword t) = (currentUser (account_of s) = None \<and> identity_free s)"
| "offered s (SetConfirmedPassword t) =
     (currentUser (account_of s) = None \<and> identity_free s \<and> panelMode (panel_of s) = RegisterMode)"
| "offered s SubmitAccountForm = (currentUser (account_of s) = None \<and> identity_free s)"
| "offered s ToggleSettings = (currentUser (account_of s) \<noteq> None \<and> identity_free s)"
| "offered s SignOut = (currentUser (account_of s) \<noteq> None \<and> identity_free s)"
| "offered s CloseSettings = settings_shown s"
| "offered s RevokeOtherSessions =
     (settings_free s \<and> (\<exists>x \<in> set (accountSessions (account_of s)). \<not> isCurrent x))"
| "offered s SubmitAccountDeletion =
     (settings_free s \<and>
      Some (deleteConfirmation (shown_settings s)) = map_option auth_username (currentUser (account_of s)))"
| "offered s (FileSelected f) = True"
| "offered s StartProcessing =
     (selectedFile (page_of s) \<noteq> None \<and> \<not> isUploading (page_of s) \<and> sessionReady (page_of s))"
| "offered s CancelJob =
     ((case pg_job (page_of s) of Some job \<Rightarrow> isActiveJob job | None \<Rightarrow> False) \<and> \<not> isCancelling (page_of s))"
| "offered s (JobSelected job) =
     (backendHealth s \<noteq> None \<and> \<not> isJobHistoryLoading (page_of s) \<and> job \<in> set (jobHistory (page_of s)))"
| "offered s _ = settings_free s"

definition fires_of :: "node list \<Rightarrow> ui_event set" where
  "fires_of ns = (\<Union>n \<in> set ns. fires n)"

lemma fires_of_simps [simp]:
  "fires_of [] = {}" "fires_of (n # ns) = fires n \<union> fires_of ns"
  "fires_of (ns @ ms) = fires_of ns \<union> fires_of ms" "fires_of (only_if c ns) = (if c then fires_of ns else {})"
  by (simp_all add: fires_of_def)

lemma fires_container: "fires (El tag [class_name c] ns) = fires_of ns"
  by (simp add: fires_El fires_of_def disabled_def class_name_def)

lemma fires_AccountPanel:
  "fires_of (AccountPanel lc au off pl st) =
     (case currentUser au of
        Some u \<Rightarrow> fires (account_bar au off pl (auth_username u)) \<union>
          (if settingsOpen pl
           then fires (AccountSettings lc (accountManagementError au) (isManagingAccount au) (accountSessions au)
                  (auth_username u) (case st of Some x \<Rightarrow> x | None \<Rightarrow> fresh_settings 0))
           else {})
      | None \<Rightarrow> fires (visitor_panel au off pl))"
  by (cases "currentUser au") (simp_all add: AccountPanel_def del: fires_account_bar fires_AccountSettings fires_visitor_panel)

text \<open>The events of the page as a set, component by component.\<close>

lemma fires_App:
  "fires (App lc now s) =
     fires_of (AccountPanel lc (account_of s) (identityChangeDisabled s) (panel_of s) (settings_of s)) \<union>
     (fires (UploadPanel (isUploading (page_of s)) (pg_message (page_of s)) (selectedFile (page_of s))
       (sessionReady (page_of s))) \<union>
     ((case pg_job (page_of s) of Some job \<Rightarrow> fires (JobDetails lc now (isCancelling (page_of s)) job) | None \<Rightarrow> {}) \<union>
     (if backendHealth s \<noteq> None
      then fires (JobHistory lc now (isJobHistoryLoading (page_of s)) (jobHistory (page_of s))
             (map_option job_id (pg_job (page_of s))))
      else {})))"
  unfolding App_def Let_def fires_container
  by (cases "pg_job (page_of s)"; cases "pg_downloadUrls (page_of s)")
    (simp_all del: fires_UploadPanel fires_JobDetails fires_JobHistory)

lemma mem_if: "x \<in> (if c then A else B) \<longleftrightarrow> c \<and> x \<in> A \<or> \<not> c \<and> x \<in> B"
  by simp

lemma either_mode: "m = LoginMode \<or> m = RegisterMode"
  by (cases m) simp_all

lemma causes_App: "causes (live (App lc now s)) = fires (App lc now s)"
  by (simp add: fires_def)

lemma offers_iff: "e \<in> causes (live (App lc now s)) \<longleftrightarrow> offered s e"
proof (cases "currentUser (account_of s)")
  case None
  then show ?thesis
    by (cases e; cases "pg_job (page_of s)")
      (simp_all add: causes_App fires_App fires_AccountPanel identity_free_def settings_free_def settings_shown_def
        image_iff mem_if either_mode split del: if_split)
next
  case (Some u)
  then show ?thesis
    by (cases e; cases "pg_job (page_of s)")
      (simp_all add: causes_App fires_App fires_AccountPanel identity_free_def settings_free_def settings_shown_def
        shown_settings_def image_iff mem_if split del: if_split)
qed

text \<open>
  C34: The rendered page offers exactly these controls: a live handler of the tree causes an
  event exactly when the state allows it, whatever the locale and the time.
\<close>

theorem ui_offers_exactly: "e \<in> causes (live (App lc now s)) \<longleftrightarrow> offered s e"
  by (rule offers_iff)

end
