(* ===== verification/Interaction.thy ===== *)
theory Interaction
  imports Application
begin

text \<open>
  What runs of the browser application can do, when the user acts through the rendered page only:
  at most one upload, one cancellation and one change of identity under way, with flags that say
  exactly that, deletion only after the typed name, nothing of a
  password in the rendered tree outside its own input. Two runs show where the page's guards
  leave a gap between uploads and changes of identity.
\<close>

section \<open>Actions of the user\<close>

text \<open>An action of the user is one of the offered events, or nothing.\<close>

lemma user_acts_offered: "user_acts lc now i u s = s \<or> (\<exists>e. offered s e \<and> user_acts lc now i u s = ui_step now e s)"
proof -
  let ?hs = "live (App lc now s)"
  have "offered s e" if "i < length ?hs" "fire (?hs ! i) u = Some e" for e
    using that nth_mem[of i ?hs] by (auto simp: offers_iff[of e lc now s, symmetric] causes_def)
  then show ?thesis by (auto simp: user_acts_def Let_def split: option.split)
qed

lemma user_acts_inv:
  assumes "P s" and "\<And>e. offered s e \<Longrightarrow> P (ui_step now e s)"
  shows "P (user_acts lc now i u s)"
  using user_acts_offered[of lc now i u s] assms by auto

text \<open>Every offered event is an action on some handler.\<close>

lemma offered_action:
  assumes "offered s e"
  obtains i u where "user_acts lc now i u s = ui_step now e s"
proof -
  obtain h u where h: "h \<in> set (live (App lc now s))" "fire h u = Some e"
    using assms unfolding offers_iff[of e lc now s, symmetric] causes_def by blast
  obtain i where "i < length (live (App lc now s))" "live (App lc now s) ! i = h"
    using h(1) by (auto simp: in_set_conv_nth)
  then have "user_acts lc now i u s = ui_step now e s" using h(2) by (simp add: user_acts_def)
  then show thesis by (rule that)
qed

text \<open>So runs of the application pass through every sequence of offered events and answers.\<close>

definition possible :: "browser_locale \<Rightarrow> app \<Rightarrow> bool" where
  "possible lc s \<longleftrightarrow> (\<exists>es. s = run_events (app_step lc) es opened_app)"

lemma possible_start: "possible lc opened_app"
  unfolding possible_def by (rule exI[of _ "[]"]) simp

lemma possible_step: "possible lc s \<Longrightarrow> possible lc (app_step lc e s)"
  unfolding possible_def by (metis run_events.simps run_events_append)

lemma possible_action: "possible lc s \<Longrightarrow> offered s e \<Longrightarrow> possible lc (render_effects (ui_step now e s))"
  by (metis offered_action possible_step app_step_def app_handler.simps(1))

section \<open>One thing at a time\<close>

text \<open>Uploads under way, and the flag that disables their button.\<close>

definition one_upload :: "page \<Rightarrow> bool" where
  "one_upload pg \<longleftrightarrow> length (pg_flows pg) = (if isUploading pg then 1 else 0)"

lemma one_upload_rest [simp]:
  "one_upload (pg\<lparr>pg_message := a\<rparr>) = one_upload pg" "one_upload (pg\<lparr>pg_log := b\<rparr>) = one_upload pg"
  "one_upload (pg\<lparr>jobHistory := c\<rparr>) = one_upload pg" "one_upload (pg\<lparr>pg_awaiting_urls := d\<rparr>) = one_upload pg"
  "one_upload (pg\<lparr>isJobHistoryLoading := e\<rparr>) = one_upload pg" "one_upload (pg\<lparr>pg_loading := f\<rparr>) = one_upload pg"
  "one_upload (pg\<lparr>selectedFile := g\<rparr>) = one_upload pg" "one_upload (pg\<lparr>sessionReady := e\<rparr>) = one_upload pg"
  "one_upload (pg\<lparr>pg_job := h\<rparr>) = one_upload pg" "one_upload (pg\<lparr>pg_downloadUrls := i\<rparr>) = one_upload pg"
  "one_upload (pg\<lparr>selectedJobIdRef := j\<rparr>) = one_upload pg" "one_upload (pg\<lparr>subscribedJobId := j\<rparr>) = one_upload pg"
  "one_upload (pg\<lparr>isCancelling := e\<rparr>) = one_upload pg" "one_upload (pg\<lparr>pg_cancels := k\<rparr>) = one_upload pg"
  by (simp_all add: one_upload_def)

lemma one_upload_helpers [simp]:
  "one_upload (setMessage m pg) = one_upload pg" "one_upload (issue r pg) = one_upload pg"
  "one_upload (loadJobHistory p pg) = one_upload pg" "one_upload (clearSelectedJob pg) = one_upload pg"
  "one_upload (handleJobUpdate now job pg) = one_upload pg" "one_upload (selectJob now job pg) = one_upload pg"
  by (simp_all add: setMessage_def issue_def loadJobHistory_def clearSelectedJob_def handleJobUpdate_def
      selectJob_def Let_def)

lemma one_upload_ended:
  "one_upload pg \<Longrightarrow> f \<in> set (pg_flows pg) \<Longrightarrow>
    one_upload (pg\<lparr>pg_flows := remove1 f (pg_flows pg), isUploading := False\<rparr>)"
  by (cases "pg_flows pg") (auto simp: one_upload_def split: if_splits)

lemma one_upload_moved:
  "one_upload pg \<Longrightarrow> f \<in> set (pg_flows pg) \<Longrightarrow> one_upload (pg\<lparr>pg_flows := g # remove1 f (pg_flows pg)\<rparr>)"
  by (cases "pg_flows pg") (auto simp: one_upload_def split: if_splits)

lemma flow_failed_eq: "flow_failed f pg = setMessage (failure_text f ''Something went wrong.'') (pg\<lparr>isUploading := False\<rparr>)"
  by (simp add: flow_failed_def setMessage_def)

lemma uploading_swap [simp]:
  "(setMessage m pg)\<lparr>isUploading := b\<rparr> = setMessage m (pg\<lparr>isUploading := b\<rparr>)"
  "(selectJob now job pg)\<lparr>isUploading := b\<rparr> = selectJob now job (pg\<lparr>isUploading := b\<rparr>)"
  by (simp_all add: setMessage_def selectJob_def handleJobUpdate_def issue_def Let_def)

lemma one_upload_step:
  assumes u: "one_upload pg" and e: "e = StartClicked \<Longrightarrow> \<not> isUploading pg"
  shows "one_upload (page_step e pg)"
proof (cases e)
  case StartClicked
  have "one_upload (pg\<lparr>isUploading := True, pg_flows := f # pg_flows pg\<rparr>)" for f
    using u e StartClicked by (simp add: one_upload_def)
  then show ?thesis using u StartClicked by (simp add: startProcessing_def Let_def split: option.split)
next
  case (PresignAnswers fl ct answer)
  then show ?thesis using u one_upload_moved[OF u] one_upload_ended[OF u]
    by (simp add: presign_answered_def flow_failed_eq Let_def split: sum.split prod.split)
next
  case (UploadAnswers fl url key outcome)
  then show ?thesis using u one_upload_moved[OF u] one_upload_ended[OF u]
    by (simp add: upload_answered_def flow_failed_eq Let_def split: option.split)
next
  case (CreateAnswers now fl key answer)
  then show ?thesis using u one_upload_ended[OF u]
    by (simp add: create_answered_def flow_failed_eq Let_def split: sum.split)
next
  case (HistoryAnswers now p answer)
  show ?thesis using u unfolding HistoryAnswers
    by (simp add: history_answered_def Let_def split: sum.split option.split history_purpose.split)
qed (use u in \<open>simp_all add: initialization_failed_def reloadJobsAfterIdentityChange_def selectFile_def
  urls_answered_def cancelJob_clicked_def cancel_answered_def Let_def split: option.split sum.split\<close>)

text \<open>Cancellations under way, and the flag that disables their button.\<close>

definition one_cancel :: "page \<Rightarrow> bool" where
  "one_cancel pg \<longleftrightarrow> length (pg_cancels pg) = (if isCancelling pg then 1 else 0)"

text \<open>
  Histories being loaded, the flag that disables the list of jobs, and the flag of the session that
  upload and account controls wait for: it is missing only while the history of the start-up is
  being loaded, or with \<open>b\<close> (start-up is not over, or has failed).
\<close>

definition loads_ok :: "bool \<Rightarrow> page \<Rightarrow> bool" where
  "loads_ok b pg \<longleftrightarrow> (isJobHistoryLoading pg \<longrightarrow> pg_loading pg \<noteq> []) \<and>
     (\<not> sessionReady pg \<longrightarrow> b \<or> AtStartup \<in> set (pg_loading pg))"

lemma page_flags_rest [simp]:
  "one_cancel (pg\<lparr>pg_message := a\<rparr>) = one_cancel pg" "one_cancel (pg\<lparr>pg_log := b\<rparr>) = one_cancel pg"
  "one_cancel (pg\<lparr>jobHistory := c\<rparr>) = one_cancel pg" "one_cancel (pg\<lparr>pg_awaiting_urls := d\<rparr>) = one_cancel pg"
  "one_cancel (pg\<lparr>isJobHistoryLoading := e\<rparr>) = one_cancel pg" "one_cancel (pg\<lparr>pg_loading := f\<rparr>) = one_cancel pg"
  "one_cancel (pg\<lparr>selectedFile := g\<rparr>) = one_cancel pg" "one_cancel (pg\<lparr>sessionReady := e\<rparr>) = one_cancel pg"
  "one_cancel (pg\<lparr>pg_job := h\<rparr>) = one_cancel pg" "one_cancel (pg\<lparr>pg_downloadUrls := i\<rparr>) = one_cancel pg"
  "one_cancel (pg\<lparr>selectedJobIdRef := j\<rparr>) = one_cancel pg" "one_cancel (pg\<lparr>subscribedJobId := j\<rparr>) = one_cancel pg"
  "one_cancel (pg\<lparr>isUploading := e\<rparr>) = one_cancel pg" "one_cancel (pg\<lparr>pg_flows := k\<rparr>) = one_cancel pg"
  "loads_ok x (pg\<lparr>pg_message := a\<rparr>) = loads_ok x pg" "loads_ok x (pg\<lparr>pg_log := b\<rparr>) = loads_ok x pg"
  "loads_ok x (pg\<lparr>jobHistory := c\<rparr>) = loads_ok x pg" "loads_ok x (pg\<lparr>pg_awaiting_urls := d\<rparr>) = loads_ok x pg"
  "loads_ok x (pg\<lparr>selectedFile := g\<rparr>) = loads_ok x pg"
  "loads_ok x (pg\<lparr>pg_job := h\<rparr>) = loads_ok x pg" "loads_ok x (pg\<lparr>pg_downloadUrls := i\<rparr>) = loads_ok x pg"
  "loads_ok x (pg\<lparr>selectedJobIdRef := j\<rparr>) = loads_ok x pg" "loads_ok x (pg\<lparr>subscribedJobId := j\<rparr>) = loads_ok x pg"
  "loads_ok x (pg\<lparr>isUploading := e\<rparr>) = loads_ok x pg" "loads_ok x (pg\<lparr>pg_flows := k\<rparr>) = loads_ok x pg"
  "loads_ok x (pg\<lparr>isCancelling := e\<rparr>) = loads_ok x pg" "loads_ok x (pg\<lparr>pg_cancels := l\<rparr>) = loads_ok x pg"
  by (simp_all add: one_cancel_def loads_ok_def)

lemma page_flags_helpers [simp]:
  "one_cancel (setMessage m pg) = one_cancel pg" "one_cancel (issue r pg) = one_cancel pg"
  "one_cancel (loadJobHistory p pg) = one_cancel pg" "one_cancel (clearSelectedJob pg) = one_cancel pg"
  "one_cancel (handleJobUpdate now job pg) = one_cancel pg" "one_cancel (selectJob now job pg) = one_cancel pg"
  "loads_ok x (setMessage m pg) = loads_ok x pg" "loads_ok x (issue r pg) = loads_ok x pg"
  "loads_ok x (clearSelectedJob pg) = loads_ok x pg" "loads_ok x (handleJobUpdate now job pg) = loads_ok x pg"
  "loads_ok x (selectJob now job pg) = loads_ok x pg"
  by (simp_all add: setMessage_def issue_def loadJobHistory_def clearSelectedJob_def handleJobUpdate_def
      selectJob_def Let_def)

lemma cancelling_swap [simp]:
  "(setMessage m pg)\<lparr>isCancelling := b\<rparr> = setMessage m (pg\<lparr>isCancelling := b\<rparr>)"
  "(selectJob now job pg)\<lparr>isCancelling := b\<rparr> = selectJob now job (pg\<lparr>isCancelling := b\<rparr>)"
  by (simp_all add: setMessage_def selectJob_def handleJobUpdate_def issue_def Let_def)

lemma one_cancel_ended:
  "one_cancel pg \<Longrightarrow> k \<in> set (pg_cancels pg) \<Longrightarrow>
    one_cancel (pg\<lparr>pg_cancels := remove1 k (pg_cancels pg), isCancelling := False\<rparr>)"
  by (cases "pg_cancels pg") (auto simp: one_cancel_def split: if_splits)

lemma one_cancel_step:
  assumes u: "one_cancel pg"
  shows "one_cancel (page_step e pg)"
proof (cases e)
  case CancelClicked
  have "\<not> isCancelling pg \<Longrightarrow> one_cancel (pg\<lparr>isCancelling := True, pg_cancels := k # pg_cancels pg\<rparr>)" for k
    using u by (simp add: one_cancel_def)
  then show ?thesis using u CancelClicked by (simp add: cancelJob_clicked_def split: option.split)
next
  case (CancelAnswers now k answer)
  then show ?thesis using u one_cancel_ended[OF u] by (simp add: cancel_answered_def Let_def split: sum.split)
next
  case (HistoryAnswers now p answer)
  show ?thesis using u unfolding HistoryAnswers
    by (simp add: history_answered_def Let_def split: sum.split option.split history_purpose.split)
qed (use u in \<open>simp_all add: initialization_failed_def reloadJobsAfterIdentityChange_def selectFile_def
  urls_answered_def startProcessing_def presign_answered_def upload_answered_def create_answered_def flow_failed_eq
  Let_def split: option.split sum.split prod.split\<close>)

lemma loads_started: "loads_ok x pg \<Longrightarrow> loads_ok x (loadJobHistory p pg)"
  by (simp add: loadJobHistory_def) (auto simp: loads_ok_def)

lemma loads_begun: "loads_ok x (loadJobHistory AtStartup pg)"
  by (simp add: loadJobHistory_def) (simp add: loads_ok_def)

lemma loads_answered:
  assumes "loads_ok x pg"
  shows "loads_ok x (history_answered now p answer pg)"
proof (cases "p \<in> set (pg_loading pg)")
  case True
  define s where "s = pg\<lparr>pg_loading := remove1 p (pg_loading pg), isJobHistoryLoading := False\<rparr>"
  have "loads_ok x (s\<lparr>sessionReady := True\<rparr>)" by (simp add: loads_ok_def s_def)
  moreover have "loads_ok x s" if "p = AfterIdentityChange m" for m
    using assms that by (auto simp: loads_ok_def s_def)
  ultimately have r: "loads_ok x (case p of AtStartup \<Rightarrow> (s\<lparr>jobHistory := js\<rparr>)\<lparr>sessionReady := True\<rparr>
      | AfterIdentityChange m \<Rightarrow> s\<lparr>jobHistory := js\<rparr>)"
    "loads_ok x (case p of AtStartup \<Rightarrow> s\<lparr>sessionReady := True\<rparr> | AfterIdentityChange m \<Rightarrow> s)" for js
  proof -
    assume a: "loads_ok x (s\<lparr>sessionReady := True\<rparr>)" "\<And>m. p = AfterIdentityChange m \<Longrightarrow> loads_ok x s"
    have "(s\<lparr>jobHistory := js\<rparr>)\<lparr>sessionReady := True\<rparr> = (s\<lparr>sessionReady := True\<rparr>)\<lparr>jobHistory := js\<rparr>" by simp
    then show "loads_ok x (case p of AtStartup \<Rightarrow> (s\<lparr>jobHistory := js\<rparr>)\<lparr>sessionReady := True\<rparr>
        | AfterIdentityChange m \<Rightarrow> s\<lparr>jobHistory := js\<rparr>)"
      using a by (cases p) (simp_all only: history_purpose.case page_flags_rest)
    show "loads_ok x (case p of AtStartup \<Rightarrow> s\<lparr>sessionReady := True\<rparr> | AfterIdentityChange m \<Rightarrow> s)"
      using a by (cases p) simp_all
  qed
  show ?thesis
    using True r unfolding history_answered_def Let_def s_def[symmetric]
    by (simp split: sum.split option.split)
qed (use assms in \<open>simp add: history_answered_def\<close>)

lemma loads_step:
  assumes u: "loads_ok x pg" and e: "e \<noteq> InitializationFails"
  shows "loads_ok x (page_step e pg)"
  using u e by (cases e)
    (simp_all add: loads_answered loads_started reloadJobsAfterIdentityChange_def selectFile_def urls_answered_def
      startProcessing_def presign_answered_def upload_answered_def create_answered_def flow_failed_eq
      cancelJob_clicked_def cancel_answered_def Let_def split: option.split sum.split prod.split)

text \<open>Account requests under way, and the two flags that disable the account's controls.\<close>

fun identity_call :: "account_call \<Rightarrow> bool" where
  "identity_call (LoginCall name p) = True"
| "identity_call (RegisterCall name p) = True"
| "identity_call LogoutCall = True"
| "identity_call _ = False"

definition one_identity :: "account_state \<Rightarrow> account_call list \<Rightarrow> bool" where
  "one_identity au cs \<longleftrightarrow> length (filter identity_call cs) = (if isAuthenticating au then 1 else 0)"

definition managed :: "account_state \<Rightarrow> account_call list \<Rightarrow> bool" where
  "managed au cs \<longleftrightarrow> (isManagingAccount au \<longrightarrow> (\<exists>c \<in> set cs. \<not> identity_call c))"

definition starting :: "app \<Rightarrow> bool" where
  "starting s \<longleftrightarrow> startup_of s \<noteq> StartupOver \<or> backendHealth s = None"

definition startup_ok :: "app \<Rightarrow> bool" where
  "startup_ok s \<longleftrightarrow> (startup_of s \<noteq> StartupOver \<longrightarrow> backendHealth s = None) \<and>
     loads_ok (starting s) (page_of s)"

lemma startup_rest [simp]:
  "startup_ok (s\<lparr>availability_of := a\<rparr>) = startup_ok s" "startup_ok (s\<lparr>settings_of := st\<rparr>) = startup_ok s"
  "startup_ok (s\<lparr>settings_count := n\<rparr>) = startup_ok s" "startup_ok (s\<lparr>account_of := au\<rparr>) = startup_ok s"
  "startup_ok (s\<lparr>calls := cs\<rparr>) = startup_ok s" "startup_ok (s\<lparr>reloads := r\<rparr>) = startup_ok s"
  "startup_ok (s\<lparr>panel_of := pl\<rparr>) = startup_ok s"
  by (simp_all add: startup_ok_def starting_def)

lemma startup_page:
  "startup_ok s \<Longrightarrow> e \<noteq> InitializationFails \<Longrightarrow> startup_ok (s\<lparr>page_of := page_step e (page_of s)\<rparr>)"
  using loads_step[of "starting s" "page_of s" e] by (simp add: startup_ok_def starting_def)

lemma startup_message [simp]: "startup_ok (s\<lparr>page_of := setMessage m (page_of s)\<rparr>) = startup_ok s"
  by (simp add: startup_ok_def starting_def)

definition busy_ok :: "app \<Rightarrow> bool" where
  "busy_ok s \<longleftrightarrow> one_upload (page_of s) \<and> one_identity (account_of s) (calls s) \<and>
     managed (account_of s) (calls s) \<and> one_cancel (page_of s) \<and> startup_ok s"

lemma busy_rest [simp]:
  "busy_ok (on_panel f s) = busy_ok s" "busy_ok (on_settings k g s) = busy_ok s"
  "busy_ok (s\<lparr>availability_of := a\<rparr>) = busy_ok s" "busy_ok (s\<lparr>settings_of := st\<rparr>) = busy_ok s"
  "busy_ok (s\<lparr>settings_count := n\<rparr>) = busy_ok s" "busy_ok (s\<lparr>reloads := r\<rparr>) = busy_ok s"
  by (simp_all add: busy_ok_def on_panel_def on_settings_def)

lemma busy_page:
  "busy_ok s \<Longrightarrow> e \<noteq> StartClicked \<or> \<not> isUploading (page_of s) \<Longrightarrow> e \<noteq> InitializationFails \<Longrightarrow>
    busy_ok (on_page (page_step e) s)"
  by (auto simp: busy_ok_def on_page_def intro: one_upload_step one_cancel_step startup_page
      simp del: page_step.simps)

lemma busy_message [simp]: "busy_ok (on_page (setMessage m) s) = busy_ok s"
  by (simp add: busy_ok_def on_page_def)

lemma busy_identity:
  "busy_ok s \<Longrightarrow> identity_call c \<Longrightarrow> \<not> isAuthenticating (account_of s) \<Longrightarrow>
    busy_ok (send_call c (on_account authentication_begins s))"
  by (auto simp: busy_ok_def send_call_def on_account_def authentication_begins_def one_identity_def managed_def)

lemma busy_management:
  "busy_ok s \<Longrightarrow> \<not> identity_call c \<Longrightarrow> busy_ok (send_call c (on_account management_begins s))"
  by (auto simp: busy_ok_def send_call_def on_account_def management_begins_def one_identity_def managed_def)

lemma identity_kept [simp]:
  "isAuthenticating (account_of (on_settings k g s)) = isAuthenticating (account_of s)"
  "isAuthenticating (account_of (on_panel f s)) = isAuthenticating (account_of s)"
  "calls (on_settings k g s) = calls s" "calls (on_panel f s) = calls s"
  "account_of (on_settings k g s) = account_of s" "account_of (on_panel f s) = account_of s"
  by (simp_all add: on_settings_def on_panel_def)

lemma busy_ui:
  assumes s: "busy_ok s" and e: "offered s e"
  shows "busy_ok (ui_step now e s)"
proof (cases e)
  case SubmitAccountForm
  show ?thesis using s e unfolding SubmitAccountForm
    by (simp add: submitAccountForm_def Let_def identity_free_def busy_identity)
next
  case SignOut
  then show ?thesis using s e by (simp add: signOut_def identity_free_def busy_identity)
qed (use s e in \<open>simp_all add: changeMode_def toggleSettings_def submitPasswordChange_def revokeOtherSessions_def
  submitAccountDeletion_def type_setting_def with_settings_def Let_def busy_management busy_page
  split: option.split\<close>)

lemma busy_answered:
  assumes s: "busy_ok s" and c: "c \<in> set (calls s)"
  shows "\<not> identity_call c \<Longrightarrow> isManagingAccount au = False \<Longrightarrow> isAuthenticating au = isAuthenticating (account_of s) \<Longrightarrow>
      busy_ok (s\<lparr>calls := remove1 c (calls s), account_of := au\<rparr>)"
    and "identity_call c \<Longrightarrow> isAuthenticating au = False \<Longrightarrow> isManagingAccount au = isManagingAccount (account_of s) \<Longrightarrow>
      busy_ok (s\<lparr>calls := remove1 c (calls s), account_of := au\<rparr>)"
proof -
  assume "\<not> identity_call c" "isManagingAccount au = False" "isAuthenticating au = isAuthenticating (account_of s)"
  then show "busy_ok (s\<lparr>calls := remove1 c (calls s), account_of := au\<rparr>)"
    using s by (simp add: busy_ok_def one_identity_def managed_def filter_remove1 remove1_idem)
next
  assume i: "identity_call c" and au: "isAuthenticating au = False" "isManagingAccount au = isManagingAccount (account_of s)"
  have "isAuthenticating (account_of s)"
    using s c i by (auto simp: busy_ok_def one_identity_def filter_empty_conv split: if_splits)
  moreover have "d \<in> set (remove1 c (calls s))" if "d \<in> set (calls s)" "\<not> identity_call d" for d
    using that i by (metis in_set_remove1)
  ultimately show "busy_ok (s\<lparr>calls := remove1 c (calls s), account_of := au\<rparr>)"
    using s au i c by (auto simp: busy_ok_def one_identity_def managed_def filter_remove1 length_remove1)
qed

lemma busy_next:
  "busy_ok s \<Longrightarrow> \<not> identity_call c \<Longrightarrow> \<not> identity_call d \<Longrightarrow>
    busy_ok (send_call d (s\<lparr>calls := remove1 c (calls s)\<rparr>))"
  by (auto simp: busy_ok_def send_call_def one_identity_def managed_def filter_remove1 remove1_idem)

lemma busy_changed: "busy_ok s \<Longrightarrow> busy_ok (identity_changed change s)"
  by (simp add: identity_changed_def busy_page)

lemmas account_answer_defs = identity_answered_def signed_out_def sessions_loaded_def on_account_def
  password_changed_def password_listed_def others_revoked_def account_deleted_def
  runAuthentication_answered_def logout_answered_def loadAccountSessions_answered_def changePassword_answered_def
  changePassword_listed_def revokeOtherSessions_answered_def deleteAccount_answered_def management_fails_def

lemma busy_call:
  assumes s: "busy_ok s"
  shows "busy_ok (call_answered c a s)"
proof (cases "c \<in> set (calls s) \<and> fits c a")
  case True
  have ends: "c \<in> set (calls s)" using True by simp
  have fits: "fits c a" using True by simp
  have "busy_ok (account_answered c a (s\<lparr>calls := remove1 c (calls s)\<rparr>))"
    using fits ends by (cases c; cases a)
      (simp_all add: account_answer_defs forget_passwords_def busy_changed busy_answered(1)[OF s]
        busy_answered(2)[OF s] busy_next[OF s] split: sum.split)
  then show ?thesis using True by (simp add: call_answered_def)
qed (use s in \<open>auto simp: call_answered_def\<close>)

lemma busy_reload: "busy_ok s \<Longrightarrow> busy_ok (reload_answered now change answer s)"
  by (cases change) (simp_all add: reload_answered_def forget_passwords_def busy_page)

lemma busy_startup:
  "busy_ok s \<Longrightarrow> busy_ok (session_created outcome s)"
  "busy_ok s \<Longrightarrow> busy_ok (identity_loaded user s)"
  "busy_ok s \<Longrightarrow> busy_ok (health_checked health s)"
proof -
  assume s: "busy_ok s"
  have w: "loads_ok True (page_of s)" "loads_ok True ((page_of s)\<lparr>sessionReady := False\<rparr>)"
    using s by (auto simp: busy_ok_def startup_ok_def loads_ok_def)
  have f: "busy_ok (startup_fails s)" if "startup_of s \<noteq> StartupOver"
    using s w that by (simp add: startup_fails_def busy_ok_def on_page_def startup_ok_def starting_def
        initialization_failed_def)
  have n: "busy_ok (s\<lparr>startup_of := AwaitIdentity\<rparr>)" if "startup_of s \<noteq> StartupOver"
    using s w that by (simp add: busy_ok_def startup_ok_def starting_def)
  have l: "busy_ok (on_account (loadAuthentication_answered u) (s\<lparr>startup_of := AwaitHealth\<rparr>))"
    if "startup_of s \<noteq> StartupOver" for u
    using s w that by (simp add: busy_ok_def on_account_def loadAuthentication_answered_def one_identity_def
        managed_def startup_ok_def starting_def)
  have h: "busy_ok (on_page (page_step ApplicationStarts) (s\<lparr>startup_of := StartupOver, backendHealth := Some h\<rparr>))" for h
    using s loads_begun[of False] by (simp add: busy_ok_def on_page_def startup_ok_def starting_def)
  show "busy_ok (session_created outcome s)" "busy_ok (identity_loaded user s)" "busy_ok (health_checked health s)"
    using s f n l h by (simp_all add: session_created_def identity_loaded_def health_checked_def
        split: option.split sum.split del: page_step.simps)
qed

lemma busy_render [simp]: "busy_ok (render_effects s) = busy_ok s"
  by (simp add: render_effects_def mount_settings_def)

lemma from_backend_not_started: "from_backend e \<Longrightarrow> e \<noteq> StartClicked"
  by auto

lemma busy_step: "busy_ok s \<Longrightarrow> busy_ok (app_step lc e s)"
  by (cases e) (auto simp: app_step_def busy_call busy_reload busy_startup from_backend_not_started
      intro!: busy_page user_acts_inv[where P = busy_ok] busy_ui)

interpretation app_machine: handler_invariant "app_step lc" busy_ok for lc
  by unfold_locales (rule busy_step)

lemma opened_busy: "busy_ok opened_app"
  by (simp add: busy_ok_def opened_app_def one_upload_def one_identity_def managed_def empty_page_def no_account_def
      one_cancel_def startup_ok_def starting_def loads_ok_def)

text \<open>No request, no busy settings: their controls do not stay disabled.\<close>

lemma settings_not_stuck:
  assumes "isManagingAccount (account_of (run_events (app_step lc) es opened_app))"
  shows "\<exists>c \<in> set (calls (run_events (app_step lc) es opened_app)). \<not> identity_call c"
  using app_machine.run_inv[OF opened_busy, of lc es] assms by (simp add: busy_ok_def managed_def)

text \<open>
  C35: A control that a request disables comes back. In every run of the page at most one upload, at
  most one sign-in, registration or sign-out and at most one cancellation is under way, and the
  flag that disables the controls of its kind is set exactly meanwhile. The settings are busy only
  while one of their own requests is under way, the list of jobs only while a history is being
  loaded, and the controls that wait for the session are without it only until the first
  history has been answered, unless the start-up fails.
\<close>

theorem ui_one_at_a_time:
  assumes "s = run_events (app_step lc) es opened_app"
  shows "length (pg_flows (page_of s)) = (if isUploading (page_of s) then 1 else 0) \<and>
    length (filter identity_call (calls s)) = (if isAuthenticating (account_of s) then 1 else 0) \<and>
    length (pg_cancels (page_of s)) = (if isCancelling (page_of s) then 1 else 0) \<and>
    (isManagingAccount (account_of s) \<longrightarrow> filter (\<lambda>c. \<not> identity_call c) (calls s) \<noteq> []) \<and>
    (isJobHistoryLoading (page_of s) \<longrightarrow> pg_loading (page_of s) \<noteq> []) \<and>
    (\<not> sessionReady (page_of s) \<longrightarrow> startup_of s \<noteq> StartupOver \<or> AtStartup \<in> set (pg_loading (page_of s)) \<or>
       (startup_of s = StartupOver \<and> backendHealth s = None))"
  using app_machine.run_inv[OF opened_busy, of lc es] unfolding assms[symmetric]
  by (auto simp: busy_ok_def one_upload_def one_identity_def one_cancel_def managed_def startup_ok_def starting_def
      loads_ok_def filter_empty_conv)

section \<open>Deleting an account\<close>

lemma calls_rest [simp]:
  "calls (on_page f s) = calls s" "calls (on_account g s) = calls s" "calls (render_effects s) = calls s"
  "calls (identity_changed change s) = calls s" "calls (send_call c s) = calls s @ [c]"
  "calls (reload_answered now change answer s) = calls s" "calls (session_created outcome s) = calls s"
  "calls (identity_loaded user s) = calls s" "calls (health_checked health s) = calls s"
  by (cases change; auto simp: on_page_def on_account_def render_effects_def mount_settings_def identity_changed_def
      send_call_def reload_answered_def session_created_def identity_loaded_def health_checked_def
      startup_fails_def forget_passwords_def split: option.split sum.split)+

lemma answer_sends:
  "set (calls (call_answered c a s)) \<subseteq> set (calls s) \<union> {d. \<exists>k. d = PasswordListCall k}"
proof -
  have "set (calls (account_answered c a t)) \<subseteq> set (calls t) \<union> {d. \<exists>k. d = PasswordListCall k}" for t
    by (cases c; cases a) (auto simp: account_answer_defs forget_passwords_def split: sum.split)
  from this[of "s\<lparr>calls := remove1 c (calls s)\<rparr>"] show ?thesis
    using set_remove1_subset[of c "calls s"] by (auto simp: call_answered_def)
qed

lemma ui_sends_deletion:
  assumes "DeleteCall k p \<in> set (calls (ui_step now e s))" "DeleteCall k p \<notin> set (calls s)"
  shows "e = SubmitAccountDeletion \<and> (\<exists>st. settings_of s = Some st \<and> instance_of st = k \<and> deletePassword st = p)"
  using assms by (cases e)
    (auto simp: changeMode_def submitAccountForm_def toggleSettings_def signOut_def submitPasswordChange_def
      revokeOtherSessions_def submitAccountDeletion_def type_setting_def with_settings_def Let_def
      split: option.splits if_splits)

lemma deletion_sent:
  assumes "DeleteCall k p \<in> set (calls (app_step lc e s))" "DeleteCall k p \<notin> set (calls s)"
  shows "offered s SubmitAccountDeletion \<and> (\<exists>now i u. e = UserActs now i u) \<and>
    (\<exists>st. settings_of s = Some st \<and> instance_of st = k \<and> deletePassword st = p)"
proof (cases e)
  case (UserActs now i u)
  then obtain x where "offered s x" "calls (app_step lc e s) = calls (ui_step now x s)"
    using user_acts_offered[of lc now i u s] assms by (auto simp: app_step_def)
  then show ?thesis using ui_sends_deletion[of k p now x s] assms UserActs by auto
next
  case (CallAnswered c a)
  then show ?thesis using assms answer_sends[of c a s] by (auto simp: app_step_def)
qed (use assms in \<open>simp_all add: app_step_def split: if_splits\<close>)

text \<open>
  An account is deleted only deliberately: the request is sent only when a signed-in user acts in
  the open settings while none of their requests is under way, the confirmation field holds
  exactly the name of the account, and the password sent is the one typed there.
\<close>

theorem deletion_confirmed:
  assumes "DeleteCall k p \<in> set (calls (app_step lc e s))" "DeleteCall k p \<notin> set (calls s)"
  shows "\<exists>st user now i u. e = UserActs now i u \<and> settings_of s = Some st \<and> currentUser (account_of s) = Some user \<and>
    settingsOpen (panel_of s) \<and> \<not> isManagingAccount (account_of s) \<and>
    deleteConfirmation st = auth_username user \<and> deletePassword st = p \<and> instance_of st = k"
  using deletion_sent[OF assms] by (auto simp: settings_free_def settings_shown_def shown_settings_def)

definition demo_user :: AuthenticatedUser where
  "demo_user = \<lparr>auth_id = ''u'', auth_username = ''alice''\<rparr>"

definition demo_settings :: app where
  "demo_settings = opened_app
     \<lparr>account_of := no_account\<lparr>currentUser := Some demo_user\<rparr>,
      panel_of := fresh_panel\<lparr>settingsOpen := True\<rparr>,
      settings_of := Some ((fresh_settings 1)\<lparr>deleteConfirmation := ''alice'', deletePassword := ''secret''\<rparr>)\<rparr>"

theorem deletion_confirmed_witness:
  "\<forall>lc. \<exists>i u. DeleteCall 1 ''secret'' \<in> set (calls (app_step lc (UserActs 0 i u) demo_settings)) \<and>
     (\<exists>st user. settings_of demo_settings = Some st \<and> currentUser (account_of demo_settings) = Some user \<and>
        deleteConfirmation st = auth_username user)"
proof
  fix lc
  have "offered demo_settings SubmitAccountDeletion"
    by (simp add: demo_settings_def demo_user_def settings_free_def settings_shown_def shown_settings_def no_account_def)
  then obtain i u where "user_acts lc 0 i u demo_settings = ui_step 0 SubmitAccountDeletion demo_settings"
    by (rule offered_action)
  then have d: "DeleteCall 1 ''secret'' \<in> set (calls (app_step lc (UserActs 0 i u) demo_settings))"
    by (simp add: app_step_def with_settings_def submitAccountDeletion_def demo_settings_def demo_user_def
        fresh_settings_def)
  have n: "DeleteCall 1 ''secret'' \<notin> set (calls demo_settings)"
    by (simp add: demo_settings_def opened_app_def)
  show "\<exists>i u. DeleteCall 1 ''secret'' \<in> set (calls (app_step lc (UserActs 0 i u) demo_settings)) \<and>
     (\<exists>st user. settings_of demo_settings = Some st \<and> currentUser (account_of demo_settings) = Some user \<and>
        deleteConfirmation st = auth_username user)"
    using d deletion_confirmed[OF d n] by blast
qed

section \<open>Passwords on the screen\<close>

text \<open>
  What can be read off a tree: everything but the values of password inputs, which browsers mask.
\<close>

definition masked :: "string \<Rightarrow> (string \<times> attr) list \<Rightarrow> (string \<times> attr) list" where
  "masked tag attrs =
     (if tag = ''input'' \<and> map_of attrs ''type'' = Some (Text ''password'')
      then filter (\<lambda>a. fst a \<noteq> ''value'') attrs else attrs)"

fun readable :: "node \<Rightarrow> node" where
  "readable (Txt t) = Txt t"
| "readable (El tag attrs ns) = El tag (masked tag attrs) (map readable ns)"

definition other_secrets :: "string \<times> string \<times> string \<times> string \<Rightarrow> account_settings \<Rightarrow> account_settings" where
  "other_secrets sp st = st\<lparr>currentPassword := fst sp, newPassword := fst (snd sp),
     confirmedNewPassword := fst (snd (snd sp)), deletePassword := snd (snd (snd sp))\<rparr>"

definition with_passwords :: "(string \<times> string) \<Rightarrow> (string \<times> string \<times> string \<times> string) \<Rightarrow> app \<Rightarrow> app" where
  "with_passwords pw sp s =
     s\<lparr>panel_of := (panel_of s)\<lparr>typedPassword := fst pw, confirmedPassword := snd pw\<rparr>,
       settings_of := map_option (other_secrets sp) (settings_of s)\<rparr>"

lemma readable_password_input:
  "readable (password_input c off v f []) = readable (password_input c off w f [])"
  "readable (password_input c off v f [(''name'', Text t)]) = readable (password_input c off w f [(''name'', Text t)])"
  by (simp_all add: password_input_def masked_def)

lemma readable_labelled: "readable (labelled_field label n) = El ''label'' [] [El ''span'' [] [Txt label], readable n]"
  by (simp add: labelled_field_def masked_def)

lemma readable_account_form:
  "readable (account_form a off (pl\<lparr>typedPassword := p, confirmedPassword := q\<rparr>)) = readable (account_form a off pl)"
  unfolding account_form_def
  by (simp add: readable_labelled only_if_def
      readable_password_input(2)[of _ _ p _ _ "typedPassword pl"] readable_password_input(2)[of _ _ q _ _ "confirmedPassword pl"])

lemma readable_visitor_panel:
  "readable (visitor_panel au off (pl\<lparr>typedPassword := p, confirmedPassword := q\<rparr>)) = readable (visitor_panel au off pl)"
  unfolding visitor_panel_def by (simp add: readable_account_form)

lemma readable_account_bar:
  "account_bar au off (pl\<lparr>typedPassword := p, confirmedPassword := q\<rparr>) name = account_bar au off pl name"
  by (simp add: account_bar_def)

lemma readable_password_section:
  "readable (password_section busy (other_secrets sp st)) = readable (password_section busy st)"
  unfolding password_section_def other_secrets_def
  by (simp add: readable_labelled readable_password_input(1)[of _ _ "fst sp" _ "currentPassword st"]
      readable_password_input(1)[of _ _ "fst (snd sp)" _ "newPassword st"]
      readable_password_input(1)[of _ _ "fst (snd (snd sp))" _ "confirmedNewPassword st"])

lemma readable_deletion_section:
  "readable (deletion_section busy name (other_secrets sp st)) = readable (deletion_section busy name st)"
  unfolding deletion_section_def other_secrets_def
  by (simp add: readable_labelled readable_password_input(1)[of _ _ "snd (snd (snd sp))" _ "deletePassword st"])

lemma readable_AccountSettings:
  "readable (AccountSettings lc err busy rows name (other_secrets sp st)) =
     readable (AccountSettings lc err busy rows name st)"
proof -
  have "localError (other_secrets sp st) = localError st" "localMessage (other_secrets sp st) = localMessage st"
    by (simp_all add: other_secrets_def)
  then show ?thesis unfolding AccountSettings_def
    by (simp add: readable_password_section readable_deletion_section)
qed

lemma readable_AccountPanel:
  "map readable (AccountPanel lc au off (pl\<lparr>typedPassword := p, confirmedPassword := q\<rparr>) (map_option (other_secrets sp) st)) =
     map readable (AccountPanel lc au off pl st)"
  by (cases "currentUser au"; cases st)
    (simp_all add: AccountPanel_def readable_visitor_panel readable_account_bar only_if_def readable_AccountSettings)

text \<open>
  C37: Passwords cannot be read off the page: two states that differ only in the password fields of the
  account form and of the settings render the same tree, up to the values of password inputs.
\<close>

theorem passwords_unreadable:
  "readable (App lc now (with_passwords pw sp s)) = readable (App lc now s)"
proof -
  let ?t = "with_passwords pw sp s"
  have "page_of ?t = page_of s" "account_of ?t = account_of s" "backendHealth ?t = backendHealth s"
    "availability_of ?t = availability_of s" "identityChangeDisabled ?t = identityChangeDisabled s"
    by (simp_all add: with_passwords_def identityChangeDisabled_def)
  moreover have "map readable (AccountPanel lc au off (panel_of ?t) (settings_of ?t)) =
      map readable (AccountPanel lc au off (panel_of s) (settings_of s))" for au off
    by (simp add: with_passwords_def readable_AccountPanel)
  ultimately show ?thesis unfolding App_def Let_def by (simp only: readable.simps map_append)
qed

section \<open>Uploads and changes of identity\<close>

lemma rendered_parts [simp]:
  "page_of (render_effects s) = page_of s" "account_of (render_effects s) = account_of s"
  "panel_of (render_effects s) = panel_of s" "startup_of (render_effects s) = startup_of s"
  "backendHealth (render_effects s) = backendHealth s" "reloads (render_effects s) = reloads s"
  by (simp_all add: render_effects_def mount_settings_def)

text \<open>The page after a start as a visitor without jobs.\<close>

definition visitor_start :: "app_event list" where
  "visitor_start = [SessionCreated None, IdentityLoaded (Inr None),
     HealthChecked (Inr \<lparr>health_service = ''backend'', health_status = ''ok''\<rparr>),
     PageAnswered (HistoryAnswers 0 AtStartup (Inr []))]"

definition visitor_page :: "browser_locale \<Rightarrow> app" where
  "visitor_page lc = run_events (app_step lc) visitor_start opened_app"

lemma visitor_page_parts:
  "sessionReady (page_of (visitor_page lc))" "\<not> isUploading (page_of (visitor_page lc))"
  "pg_flows (page_of (visitor_page lc)) = []" "account_of (visitor_page lc) = no_account"
  "panel_of (visitor_page lc) = fresh_panel" "calls (visitor_page lc) = []"
  by (simp_all add: visitor_page_def visitor_start_def app_step_def session_created_def identity_loaded_def
      health_checked_def on_account_def on_page_def loadAuthentication_answered_def no_account_def
      loadJobHistory_def history_answered_def setMessage_def issue_def Let_def opened_app_def empty_page_def)

text \<open>A visitor has chosen a file, submits the sign-in form and, before the answer, starts the upload.\<close>

definition visitor_uploads :: "browser_locale \<Rightarrow> app" where
  "visitor_uploads lc =
     foldl (\<lambda>s e. render_effects (ui_step 0 e s)) (visitor_page lc)
       [FileSelected (Some demo_file), SetUsername ''alice'', SetPassword ''correct-horse'', SubmitAccountForm,
        StartProcessing]"

lemma demo_file_type: "getAudioContentType demo_file = Text_value ''audio/mpeg''"
  by code_simp

lemma visitor_uploads_parts:
  "possible lc (visitor_uploads lc)" "currentUser (account_of (visitor_uploads lc)) = None"
  "pg_flows (page_of (visitor_uploads lc)) = [Presigning demo_file ''audio/mpeg'']"
  "calls (visitor_uploads lc) = [LoginCall ''alice'' ''correct-horse'']"
proof -
  have start: "possible lc (visitor_page lc)" unfolding possible_def visitor_page_def by blast
  note free = identity_free_def identityChangeDisabled_def no_account_def fresh_panel_def on_page_def
    on_panel_def on_account_def selectFile_def clearSelectedJob_def setMessage_def submitAccountForm_def
    send_call_def authentication_begins_def startProcessing_def issue_def demo_file_type
  show "possible lc (visitor_uploads lc)"
    unfolding visitor_uploads_def foldl.simps
    by (intro possible_action start) (simp_all add: visitor_page_parts free Let_def)
  show "currentUser (account_of (visitor_uploads lc)) = None"
    "pg_flows (page_of (visitor_uploads lc)) = [Presigning demo_file ''audio/mpeg'']"
    "calls (visitor_uploads lc) = [LoginCall ''alice'' ''correct-horse'']"
    by (simp_all add: visitor_uploads_def visitor_page_parts free Let_def)
qed

text \<open>
  While an upload is under way the page sends no sign-in, registration or sign-out: their controls
  are off. (The form that deletes the account stays on.)
\<close>

lemma upload_holds_identity:
  assumes "isUploading (page_of s)" "offered s e"
  shows "filter identity_call (calls (ui_step now e s)) = filter identity_call (calls s)"
  using assms by (cases e)
    (auto simp: identity_free_def identityChangeDisabled_def changeMode_def toggleSettings_def
      submitPasswordChange_def revokeOtherSessions_def submitAccountDeletion_def type_setting_def
      with_settings_def Let_def on_account_def split: option.splits)

text \<open>The visitor's upload is granted, then the sign-in takes effect, then the upload ends.\<close>

definition upload_granted :: "browser_locale \<Rightarrow> string \<Rightarrow> string \<Rightarrow> app" where
  "upload_granted lc url key =
     app_step lc (PageAnswered (PresignAnswers demo_file ''audio/mpeg'' (Inr (url, key)))) (visitor_uploads lc)"

definition signed_in_meanwhile :: "browser_locale \<Rightarrow> string \<Rightarrow> string \<Rightarrow> AuthenticatedUser \<Rightarrow> app" where
  "signed_in_meanwhile lc url key user =
     app_step lc (CallAnswered (LoginCall ''alice'' ''correct-horse'') (UserAnswer (Inr user)))
       (upload_granted lc url key)"

definition upload_ended :: "browser_locale \<Rightarrow> string \<Rightarrow> string \<Rightarrow> AuthenticatedUser \<Rightarrow> app" where
  "upload_ended lc url key user =
     app_step lc (PageAnswered (UploadAnswers demo_file url key None)) (signed_in_meanwhile lc url key user)"

fun asks_for_job :: "page_request \<Rightarrow> bool" where
  "asks_for_job (CreateRequest n k) = True"
| "asks_for_job _ = False"

lemma visitor_log: "filter asks_for_job (pg_log (page_of (visitor_uploads lc))) = []"
proof -
  have "filter asks_for_job (pg_log (page_of (visitor_page lc))) = []"
    by (simp add: visitor_page_def visitor_start_def app_step_def session_created_def identity_loaded_def
      health_checked_def on_account_def on_page_def loadAuthentication_answered_def no_account_def
      loadJobHistory_def history_answered_def setMessage_def issue_def Let_def opened_app_def empty_page_def)
  then show ?thesis
    by (simp add: visitor_uploads_def visitor_page_parts on_page_def on_panel_def on_account_def selectFile_def
        clearSelectedJob_def setMessage_def submitAccountForm_def send_call_def authentication_begins_def
        startProcessing_def issue_def demo_file_type fresh_panel_def Let_def)
qed

lemma granted_parts:
  "currentUser (account_of (upload_granted lc url key)) = None"
  "pg_flows (page_of (upload_granted lc url key)) = [Uploading demo_file url key]"
  "calls (upload_granted lc url key) = [LoginCall ''alice'' ''correct-horse'']"
  "filter asks_for_job (pg_log (page_of (upload_granted lc url key))) = []"
  by (simp_all add: upload_granted_def app_step_def visitor_uploads_parts visitor_log on_page_def presign_answered_def
      setMessage_def issue_def Let_def)

lemma signed_in_parts:
  "currentUser (account_of (signed_in_meanwhile lc url key user)) = Some user"
  "pg_flows (page_of (signed_in_meanwhile lc url key user)) = [Uploading demo_file url key]"
  "filter asks_for_job (pg_log (page_of (signed_in_meanwhile lc url key user))) = []"
  by (simp_all add: signed_in_meanwhile_def app_step_def call_answered_def granted_parts identity_answered_def
      runAuthentication_answered_def identity_changed_def on_page_def reloadJobsAfterIdentityChange_def
      clearSelectedJob_def loadJobHistory_def issue_def Let_def)

text \<open>
  C36: The page keeps a sign-in from starting during an upload, but not an upload from starting during
  a sign-in. While an upload is under way no control that the page offers sends a sign-in, a
  registration or a sign-out. Yet there is a run in which a visitor's upload is granted while the
  visitor's sign-in is under way, the sign-in then takes effect, no job having been asked for,
  and when the upload ends the page, now the account's, asks for a job on the object that was
  granted to the visitor.
\<close>

theorem upload_spans_sign_in:
  "(\<forall>s e now. isUploading (page_of s) \<and> offered s e \<longrightarrow>
      filter identity_call (calls (ui_step now e s)) = filter identity_call (calls s)) \<and>
   possible lc (upload_ended lc url key user) \<and>
   (currentUser (account_of (upload_granted lc url key)) = None \<and>
    pg_flows (page_of (upload_granted lc url key)) = [Uploading demo_file url key] \<and>
    calls (upload_granted lc url key) = [LoginCall ''alice'' ''correct-horse'']) \<and>
   (currentUser (account_of (signed_in_meanwhile lc url key user)) = Some user \<and>
    pg_flows (page_of (signed_in_meanwhile lc url key user)) = [Uploading demo_file url key] \<and>
    filter asks_for_job (pg_log (page_of (signed_in_meanwhile lc url key user))) = []) \<and>
   (currentUser (account_of (upload_ended lc url key user)) = Some user \<and>
    filter asks_for_job (pg_log (page_of (upload_ended lc url key user))) = [CreateRequest ''a.mp3'' key])"
proof -
  have f: "file_name demo_file = ''a.mp3''" by (simp add: demo_file_def)
  have "possible lc (upload_ended lc url key user)"
    unfolding upload_ended_def signed_in_meanwhile_def upload_granted_def
    by (intro possible_step visitor_uploads_parts)
  moreover have "currentUser (account_of (upload_ended lc url key user)) = Some user \<and>
      filter asks_for_job (pg_log (page_of (upload_ended lc url key user))) = [CreateRequest ''a.mp3'' key]"
    by (simp add: upload_ended_def app_step_def signed_in_parts on_page_def upload_answered_def setMessage_def
        issue_def Let_def f)
  ultimately show ?thesis
    using upload_holds_identity granted_parts[of lc url key] signed_in_parts[of lc url key user] by auto
qed

text \<open>The example of the first half: a visitor's upload is under way and a control is offered.\<close>

theorem upload_spans_sign_in_witness:
  "\<forall>lc. isUploading (page_of (upload_granted lc ''u'' ''k'')) \<and>
     offered (upload_granted lc ''u'' ''k'') (FileSelected None) \<and>
     filter identity_call (calls (ui_step 0 (FileSelected None) (upload_granted lc ''u'' ''k''))) =
       [LoginCall ''alice'' ''correct-horse'']"
proof
  fix lc
  let ?s = "upload_granted lc ''u'' ''k''"
  obtain es where "?s = run_events (app_step lc) es opened_app"
    using possible_step[OF visitor_uploads_parts(1)] unfolding upload_granted_def possible_def by blast
  then have "isUploading (page_of ?s)"
    using app_machine.run_inv[OF opened_busy, of lc es] granted_parts(2)[of lc "''u''" "''k''"]
    by (simp add: busy_ok_def one_upload_def split: if_splits)
  moreover have "offered ?s (FileSelected None)" by simp
  ultimately show "isUploading (page_of ?s) \<and> offered ?s (FileSelected None) \<and>
      filter identity_call (calls (ui_step 0 (FileSelected None) ?s)) = [LoginCall ''alice'' ''correct-horse'']"
    using upload_spans_sign_in[of lc "''u''" "''k''" demo_user] granted_parts(3)[of lc "''u''" "''k''"]
    by simp
qed

text \<open>A signed-in user opens the settings: their controls are off while the sessions are listed.\<close>

definition member_page :: "browser_locale \<Rightarrow> app" where
  "member_page lc = run_events (app_step lc) [SessionCreated None, IdentityLoaded (Inr (Some demo_user)),
     HealthChecked (Inr \<lparr>health_service = ''backend'', health_status = ''ok''\<rparr>),
     PageAnswered (HistoryAnswers 0 AtStartup (Inr []))] opened_app"

definition member_settings :: "browser_locale \<Rightarrow> app" where
  "member_settings lc = render_effects (ui_step 0 ToggleSettings (member_page lc))"

lemma member_parts:
  "possible lc (member_settings lc)" "isManagingAccount (account_of (member_settings lc))"
proof -
  have p: "sessionReady (page_of (member_page lc))" "\<not> isUploading (page_of (member_page lc))"
    "account_of (member_page lc) = no_account\<lparr>currentUser := Some demo_user\<rparr>" "panel_of (member_page lc) = fresh_panel"
    by (simp_all add: member_page_def app_step_def session_created_def identity_loaded_def
      health_checked_def on_account_def on_page_def loadAuthentication_answered_def no_account_def
      loadJobHistory_def history_answered_def setMessage_def issue_def Let_def opened_app_def empty_page_def)
  have "possible lc (member_page lc)" unfolding possible_def member_page_def by blast
  moreover have "offered (member_page lc) ToggleSettings"
    by (simp add: p identity_free_def identityChangeDisabled_def no_account_def)
  ultimately show "possible lc (member_settings lc)"
    unfolding member_settings_def by (rule possible_action)
  show "isManagingAccount (account_of (member_settings lc))"
    by (simp add: member_settings_def toggleSettings_def p fresh_panel_def on_account_def on_panel_def
        send_call_def management_begins_def Let_def)
qed

theorem ui_one_at_a_time_witness:
  "\<forall>lc. isManagingAccount (account_of (member_settings lc)) \<and>
     filter (\<lambda>c. \<not> identity_call c) (calls (member_settings lc)) \<noteq> []"
proof
  fix lc
  obtain es where es: "member_settings lc = run_events (app_step lc) es opened_app"
    using member_parts(1)[of lc] unfolding possible_def by blast
  show "isManagingAccount (account_of (member_settings lc)) \<and>
      filter (\<lambda>c. \<not> identity_call c) (calls (member_settings lc)) \<noteq> []"
    using ui_one_at_a_time[OF es] member_parts(2)[of lc] by blast
qed

end
