(* ===== verification/JobSocket.thy ===== *)
theory JobSocket
  imports Interaction
begin

text \<open>
  The browser with its realtime connections. The hook useJobWebSocket.ts starts a subscription
  (RealtimeClient) for the job that the page is subscribed to and ends it when that changes; the
  callbacks of its caller useSelectedJob.ts lead back into the application (Application). React
  renders, and so runs the effects, at any time after a change.
\<close>

section \<open>useJobWebSocket.ts\<close>

text \<open>
  The hook keeps the callbacks of the last render. Every run of the second effect that starts a
  subscription is kept in \<open>started\<close>; the one whose cleanup function React still has to
  call has the number \<open>pending_cleanup\<close>, and \<open>effect_jobId\<close> is the dependency of the last run.
\<close>

record 's callbacks =
  cb_onJobUpdate :: "time \<Rightarrow> JobRecord \<Rightarrow> 's \<Rightarrow> 's"
  cb_onStatusMessage :: "string \<Rightarrow> 's \<Rightarrow> 's"

record 's socket_hook =
  callbacksRef :: "'s callbacks"
  started :: "realtime list"
  pending_cleanup :: "nat option"
  effect_jobId :: "uuid option"

definition refresh_callbacks :: "'s callbacks \<Rightarrow> 's socket_hook \<Rightarrow> 's socket_hook" where
  "refresh_callbacks c h = h\<lparr>callbacksRef := c\<rparr>"

definition run_cleanup :: "'s socket_hook \<Rightarrow> 's socket_hook" where
  "run_cleanup h =
     (case pending_cleanup h of
        None \<Rightarrow> h
      | Some i \<Rightarrow>
          h\<lparr>started := (started h)[i := realtime_step CleanupRuns (started h ! i)], pending_cleanup := None\<rparr>)"

definition subscription_effect :: "uuid option \<Rightarrow> 's socket_hook \<Rightarrow> 's socket_hook" where
  "subscription_effect subscribed h =
     (if subscribed = effect_jobId h then h
      else let h1 = (run_cleanup h)\<lparr>effect_jobId := subscribed\<rparr>
      in case subscribed of
           None \<Rightarrow> h1
         | Some jobId \<Rightarrow>
             if jobId = [] then h1
             else h1\<lparr>started := started h1 @ [startJobSubscription jobId],
                     pending_cleanup := Some (length (started h1))\<rparr>)"

text \<open>
  An event of subscription \<open>i\<close>: what it delivers and reports goes to the callbacks that
  the ref holds at that time.
\<close>

definition socket_event ::
    "nat \<Rightarrow> time \<Rightarrow> realtime_event \<Rightarrow> 's socket_hook \<Rightarrow> 's \<Rightarrow> 's socket_hook \<times> 's" where
  "socket_event i now e h s =
     (if i < length (started h) \<and> e \<noteq> CleanupRuns then
        let r = started h ! i; r' = realtime_step e r; cb = callbacksRef h
        in (h\<lparr>started := (started h)[i := r']\<rparr>,
            fold (cb_onStatusMessage cb) (drop (length (rc_messages r)) (rc_messages r'))
              (fold (cb_onJobUpdate cb now) (drop (length (rc_delivered r)) (rc_delivered r')) s))
      else (h, s))"

section \<open>The browser\<close>

text \<open>The callbacks that useSelectedJob.ts passes: updates and messages are events of the page.\<close>

definition page_callbacks :: "browser_locale \<Rightarrow> app callbacks" where
  "page_callbacks lc =
     \<lparr>cb_onJobUpdate = (\<lambda>now job. app_step lc (PageAnswered (UpdateArrives now job))),
      cb_onStatusMessage = (\<lambda>m. app_step lc (PageAnswered (StatusArrives m)))\<rparr>"

record watched_app =
  app_in :: app
  hook_in :: "app socket_hook"

datatype browser_event =
    AppEvent app_event
  | SocketEvent nat time realtime_event
  | Renders

fun from_socket :: "app_event \<Rightarrow> bool" where
  "from_socket (PageAnswered (UpdateArrives now job)) = True"
| "from_socket (PageAnswered (StatusArrives m)) = True"
| "from_socket _ = False"

fun browser_step :: "browser_locale \<Rightarrow> browser_event \<Rightarrow> watched_app \<Rightarrow> watched_app" where
  "browser_step lc (AppEvent e) b =
     (if from_socket e then b else b\<lparr>app_in := app_step lc e (app_in b)\<rparr>)"
| "browser_step lc (SocketEvent i now e) b =
     (case socket_event i now e (hook_in b) (app_in b) of (h, s) \<Rightarrow> \<lparr>app_in = s, hook_in = h\<rparr>)"
| "browser_step lc Renders b =
     b\<lparr>hook_in := subscription_effect (subscribedJobId (page_of (app_in b)))
         (refresh_callbacks (page_callbacks lc) (hook_in b))\<rparr>"

definition opened_browser :: "browser_locale \<Rightarrow> watched_app" where
  "opened_browser lc = \<lparr>app_in = opened_app, hook_in =
     \<lparr>callbacksRef = page_callbacks lc, started = [], pending_cleanup = None, effect_jobId = None\<rparr>\<rparr>"

section \<open>One live subscription\<close>

text \<open>
  Only the subscription whose cleanup is still to come is not stopped, and it belongs to the job
  of the last effect.
\<close>

definition hook_ok :: "'s socket_hook \<Rightarrow> bool" where
  "hook_ok h \<longleftrightarrow>
     (\<forall>i < length (started h). realtime_ok (started h ! i) \<and>
        (rc_stopped (started h ! i) \<longleftrightarrow> pending_cleanup h \<noteq> Some i)) \<and>
     (case pending_cleanup h of
        None \<Rightarrow> effect_jobId h = None \<or> effect_jobId h = Some []
      | Some i \<Rightarrow> i < length (started h) \<and> effect_jobId h = Some (rc_jobId (started h ! i)) \<and>
                  rc_jobId (started h ! i) \<noteq> [])"

lemma timers_keep [simp]:
  "rc_jobId (clearTimer t s) = rc_jobId s" "rc_jobId (stopFallbackPolling s) = rc_jobId s"
  "rc_jobId (close_current s) = rc_jobId s" "rc_jobId (send_current m s) = rc_jobId s"
  "rc_jobId (openSocket s) = rc_jobId s" "rc_stopped (openSocket s) = rc_stopped s"
  "rc_jobId (scheduleReconnect s) = rc_jobId s" "rc_stopped (scheduleReconnect s) = rc_stopped s"
  by (simp_all add: clearTimer_def stopFallbackPolling_def close_current_def send_current_def openSocket_def
      new_timer_def scheduleReconnect_def startFallbackPolling_def onStatusMessage_def pollJobStatus_def Let_def
      split: option.split)

lemma realtime_step_keeps:
  "rc_jobId (realtime_step e s) = rc_jobId s"
  "rc_stopped (realtime_step e s) = (rc_stopped s \<or> e = CleanupRuns)"
  by (cases e; simp add: socket_opens_def socket_message_def createJobMessageHandler_def socket_closes_def
      timer_fires_def poll_answers_def callback_returns_def stop_subscription_def sendSubscription_def
      send_current_def onSubscribed_def onStatusMessage_def deliverJobUpdate_def pollJobStatus_def Let_def
      split: option.split sum.split server_message.split timer_kind.split)+

lemma new_subscription: "realtime_ok (startJobSubscription jobId)" "\<not> rc_stopped (startJobSubscription jobId)"
  "rc_jobId (startJobSubscription jobId) = jobId"
  by (rule start_ok) (simp_all add: startJobSubscription_def)

lemma run_cleanup_ok:
  assumes "hook_ok h"
  shows "\<forall>i < length (started h). realtime_ok (started (run_cleanup h) ! i) \<and> rc_stopped (started (run_cleanup h) ! i)"
    "length (started (run_cleanup h)) = length (started h)" "pending_cleanup (run_cleanup h) = None"
  using assms realtime_step_ok[of _ CleanupRuns]
  by (auto simp: hook_ok_def run_cleanup_def nth_list_update realtime_step_keeps simp del: realtime_step.simps
      split: option.splits)

lemma effect_ok:
  assumes "hook_ok h"
  shows "hook_ok (subscription_effect subscribed h)"
  using assms run_cleanup_ok[OF assms] new_subscription
  by (auto simp: hook_ok_def subscription_effect_def Let_def nth_append less_Suc_eq split: option.splits)

lemma refresh_callbacks_ok [simp]: "hook_ok (refresh_callbacks c h) = hook_ok h"
  by (simp add: hook_ok_def refresh_callbacks_def cong: option.case_cong)

lemma event_ok: "hook_ok h \<Longrightarrow> hook_ok (fst (socket_event i now e h s))"
  using realtime_step_ok[of "started h ! i" e] realtime_step_keeps[of e "started h ! i"]
  by (auto simp: hook_ok_def socket_event_def Let_def nth_list_update simp del: realtime_step.simps split: option.splits)

interpretation browser_hook: handler_invariant "browser_step lc" "\<lambda>b. hook_ok (hook_in b)"
  for lc
proof
  fix b :: watched_app and e assume "hook_ok (hook_in b)"
  then show "hook_ok (hook_in (browser_step lc e b))"
    using event_ok[of "hook_in b"] by (cases e) (simp_all add: effect_ok split: prod.split, metis fst_conv)
qed

lemma opened_hook: "hook_ok (hook_in (opened_browser lc))"
  by (simp add: hook_ok_def opened_browser_def)

lemma reached_hook: "hook_ok (hook_in (run_events (browser_step lc) es (opened_browser lc)))"
  by (rule browser_hook.run_inv[OF opened_hook])

text \<open>A subscription works when it holds a socket that can deliver or a timer.\<close>

definition open_sockets :: "realtime \<Rightarrow> nat" where
  "open_sockets r = length (filter (\<lambda>x. x = CONNECTING \<or> x = OPEN) (rc_sockets r))"

definition working :: "realtime \<Rightarrow> bool" where
  "working r \<longleftrightarrow> 0 < open_sockets r \<or> rc_timers r \<noteq> (\<lambda>_. None)"

lemma stopped_idle:
  assumes "realtime_ok r" "rc_stopped r"
  shows "open_sockets r = 0" "\<not> working r"
proof -
  show "open_sockets r = 0" using ended_sockets[OF assms] by (auto simp: open_sockets_def filter_empty_conv)
  then show "\<not> working r" using ended_timers[OF assms] by (simp add: working_def)
qed

lemma open_at_most_one:
  assumes "realtime_ok r"
  shows "open_sockets r \<le> 1"
proof -
  have "filter (\<lambda>x. x = CONNECTING \<or> x = OPEN) xs = filter (\<lambda>x. x = CONNECTING \<or> x = OPEN) (filter (\<lambda>x. x \<noteq> CLOSED) xs)"
    for xs by (induction xs) auto
  then have "open_sockets r \<le> live_sockets r"
    unfolding open_sockets_def live_sockets_def by (metis length_filter_le)
  then show ?thesis using live_newest ok_conjuncts(1)[OF assms] by (auto split: if_splits)
qed

text \<open>Sums over a list with one entry that may differ from zero.\<close>

lemma sum_list_single:
  assumes "\<And>j. j < length xs \<Longrightarrow> j \<noteq> i \<Longrightarrow> xs ! j = (0 :: nat)" "\<And>j. j < length xs \<Longrightarrow> xs ! j \<le> 1"
  shows "sum_list xs \<le> 1"
proof -
  have "sum_list xs = (\<Sum>j<length xs. xs ! j)" by (simp add: sum_list_sum_nth atLeast0LessThan)
  also have "\<dots> \<le> (\<Sum>j<length xs. if j = i then 1 else 0)"
    using assms by (intro sum_mono) (auto simp: less_Suc_eq)
  also have "\<dots> \<le> 1" by simp
  finally show ?thesis .
qed

lemma one_working:
  assumes "hook_ok h"
  shows "(\<Sum>r\<leftarrow>started h. open_sockets r) \<le> 1" "(\<Sum>r\<leftarrow>started h. if working r then 1 else (0 :: nat)) \<le> 1"
proof -
  have ok: "realtime_ok (started h ! j)" if "j < length (started h)" for j
    using assms that by (simp add: hook_ok_def)
  have st: "rc_stopped (started h ! j)" if "j < length (started h)" "j \<noteq> the (pending_cleanup h)" for j
    using assms that by (auto simp: hook_ok_def)
  show "(\<Sum>r\<leftarrow>started h. open_sockets r) \<le> 1"
    using stopped_idle(1)[OF ok st] open_at_most_one[OF ok]
    by (intro sum_list_single[of _ "the (pending_cleanup h)"]) auto
  show "(\<Sum>r\<leftarrow>started h. if working r then 1 else (0 :: nat)) \<le> 1"
    using stopped_idle(2)[OF ok st] by (intro sum_list_single[of _ "the (pending_cleanup h)"]) auto
qed

text \<open>
  C30: one realtime connection per browser. Whatever the user does, the backend answers and the network
  does, at most one of all sockets that the page has ever created is connecting or open, and at
  most one of all subscriptions it has ever started holds a socket or a timer.
\<close>

theorem page_one_connection:
  "(\<Sum>r\<leftarrow>started (hook_in (run_events (browser_step lc) es (opened_browser lc))). open_sockets r) \<le> 1 \<and>
   (\<Sum>r\<leftarrow>started (hook_in (run_events (browser_step lc) es (opened_browser lc))).
      if working r then 1 else (0 :: nat)) \<le> 1"
  using one_working[OF reached_hook] by blast

section \<open>The subscribed job is watched\<close>

lemma effect_done:
  "effect_jobId (subscription_effect subscribed h) = subscribed"
  by (simp add: subscription_effect_def Let_def split: option.split)

text \<open>
  A subscription that is not stopped and has not seen the end of its job keeps a way to learn of it,
  and only one: its newest socket is open, or connecting with the timeout running, or closed with a
  reconnect timer running, or closing, and then the close event starts that timer.
\<close>

definition watching :: "uuid \<Rightarrow> realtime \<Rightarrow> bool" where
  "watching jobId r \<longleftrightarrow> rc_jobId r = jobId \<and> \<not> rc_stopped r \<and>
     (terminalJobReached r \<or>
      (live_sockets r + reconnects_waiting r = 1 \<and>
       (case last_state r of
          OPEN \<Rightarrow> True
        | CONNECTING \<Rightarrow> pending ConnectionTimer r
        | CLOSED \<Rightarrow> pending ReconnectTimer r
        | CLOSING \<Rightarrow> pending ReconnectTimer
            (realtime_step (SocketCloses (length (rc_sockets r) - 1)) r))))"

lemma schedule_keeps:
  "rc_sockets (scheduleReconnect s) = rc_sockets s" "rc_stopped (scheduleReconnect s) = rc_stopped s"
  "terminalJobReached (scheduleReconnect s) = terminalJobReached s"
  by (simp_all add: scheduleReconnect_def Let_def new_timer_def onStatusMessage_def startFallbackPolling_def
      pollJobStatus_def)

lemma close_reconnects:
  assumes "realtime_ok r" "\<not> rc_stopped r" "\<not> terminalJobReached r" "last_state r = CLOSING"
  shows "pending ReconnectTimer (socket_closes (length (rc_sockets r) - 1) r)"
proof -
  let ?n = "length (rc_sockets r) - 1" and ?t = "socket_closes (length (rc_sockets r) - 1) r"
  have n: "?n < length (rc_sockets r)" "rc_sockets r ! ?n \<noteq> CLOSED"
    using ok_conjuncts(1)[OF assms(1)] assms(4) by (auto simp: sockets_ok_def last_state_def)
  have ok: "realtime_ok ?t" by (rule closes_ok[OF assms(1)])
  have "last_state ?t = CLOSED" "\<not> rc_stopped ?t" "\<not> terminalJobReached ?t"
    using n assms(2,3) by (simp_all add: socket_closes_def last_state_def schedule_keeps)
  then show ?thesis using ok_conjuncts(5)[OF ok] by (simp add: recovering_def)
qed

lemma unstopped_watching:
  assumes "realtime_ok r" "\<not> rc_stopped r"
  shows "watching (rc_jobId r) r"
proof (cases "terminalJobReached r")
  case False
  have "live_sockets r + reconnects_waiting r = 1"
    using ok_conjuncts[OF assms(1)] assms(2) False live_newest[of r]
    by (auto simp: reconnects_waiting_def recovering_def phases_ok_def)
  then show ?thesis
    using ok_conjuncts(3,5)[OF assms(1)] close_reconnects[OF assms False] assms(2) False
    by (cases "last_state r") (simp_all add: watching_def phases_ok_def recovering_def)
qed (use assms in \<open>simp add: watching_def\<close>)

lemma working_current:
  assumes "hook_ok h" "r \<in> set (started h)" "working r"
  shows "effect_jobId h = Some (rc_jobId r)"
proof -
  obtain i where i: "i < length (started h)" "r = started h ! i" using assms(2) by (auto simp: in_set_conv_nth)
  then have "\<not> rc_stopped r" using assms(1,3) stopped_idle(2)[of r] by (auto simp: hook_ok_def)
  then have "pending_cleanup h = Some i" using i assms(1) by (auto simp: hook_ok_def)
  then show ?thesis using i assms(1) by (simp add: hook_ok_def)
qed

lemma current_watching:
  assumes "hook_ok h" "effect_jobId h = Some jobId" "jobId \<noteq> []"
  shows "\<exists>r \<in> set (started h). watching jobId r"
proof -
  obtain i where i: "pending_cleanup h = Some i" "i < length (started h)" "jobId = rc_jobId (started h ! i)"
    using assms by (auto simp: hook_ok_def split: option.splits)
  then have "watching jobId (started h ! i)"
    using assms(1) unstopped_watching[of "started h ! i"] by (simp add: hook_ok_def)
  then show ?thesis using i(2) by (auto intro: bexI[of _ "started h ! i"])
qed

text \<open>
  C29: the subscribed job is watched, and no other. Whenever React has rendered, a job that the page is
  subscribed to has a subscription that, unless it has seen the job end, is connected, or connecting
  with the connection timeout running, or waiting for its reconnect timer, or closing its socket,
  whose close event then starts the reconnect timer; and whatever subscription still holds a
  connecting or open socket or a timer is for that job.
\<close>

theorem subscribed_job_watched:
  assumes "b = run_events (browser_step lc) (es @ [Renders]) (opened_browser lc)"
  shows "(\<forall>r \<in> set (started (hook_in b)). working r \<longrightarrow> subscribedJobId (page_of (app_in b)) = Some (rc_jobId r)) \<and>
    (subscribedJobId (page_of (app_in b)) = Some jobId \<and> jobId \<noteq> [] \<longrightarrow>
       (\<exists>r \<in> set (started (hook_in b)). watching jobId r))"
proof -
  have "hook_ok (hook_in b)" unfolding assms by (rule reached_hook)
  moreover have "effect_jobId (hook_in b) = subscribedJobId (page_of (app_in b))"
    by (simp add: assms run_events_append effect_done)
  ultimately show ?thesis using working_current[of "hook_in b"] current_watching[of "hook_in b"] by simp
qed

section \<open>Changes of identity\<close>

text \<open>A subscription that was stopped stays so.\<close>

definition ended_run :: "nat \<Rightarrow> nat \<Rightarrow> client_message list \<Rightarrow> 's socket_hook \<Rightarrow> bool" where
  "ended_run i n cs h \<longleftrightarrow> hook_ok h \<and> i < length (started h) \<and> stopped_at n cs (started h ! i)"

lemma ended_run_effect:
  assumes "ended_run i n cs h"
  shows "ended_run i n cs (subscription_effect subscribed h)"
proof -
  have k: "hook_ok h" "i < length (started h)" "stopped_at n cs (started h ! i)" "pending_cleanup h \<noteq> Some i"
    using assms by (auto simp: ended_run_def hook_ok_def stopped_at_def)
  then have "started (run_cleanup h) ! i = started h ! i"
    by (auto simp: run_cleanup_def nth_list_update split: option.split)
  then show ?thesis using k effect_ok[OF k(1)] run_cleanup_ok(2)[OF k(1)]
    by (auto simp: ended_run_def subscription_effect_def Let_def nth_append split: option.split)
qed

lemma ended_run_event:
  "ended_run i n cs h \<Longrightarrow> ended_run i n cs (fst (socket_event k now e h s))"
  using event_ok[of h k now e s] ended_step[of n cs "started h ! i" e]
  by (auto simp: ended_run_def socket_event_def Let_def nth_list_update simp del: realtime_step.simps)

lemma ended_run_refresh [simp]: "ended_run i n cs (refresh_callbacks c h) = ended_run i n cs h"
  by (simp add: ended_run_def) (simp add: refresh_callbacks_def)

interpretation ended_runs: handler_invariant "browser_step lc" "\<lambda>b. ended_run i n cs (hook_in b)"
  for lc i n cs
proof
  fix b :: watched_app and e assume "ended_run i n cs (hook_in b)"
  then show "ended_run i n cs (hook_in (browser_step lc e b))"
    using ended_run_event[of i n cs "hook_in b"]
    by (cases e) (simp_all add: ended_run_effect split: prod.split, metis fst_conv)
qed

text \<open>The answers that change who the browser is for the backend.\<close>

fun changes_identity :: "account_call \<Rightarrow> account_answer \<Rightarrow> bool" where
  "changes_identity (LoginCall name p) (UserAnswer (Inr u)) = True"
| "changes_identity (RegisterCall name p) (UserAnswer (Inr u)) = True"
| "changes_identity LogoutCall (DoneAnswer (Inr u)) = True"
| "changes_identity (DeleteCall k p) (DoneAnswer (Inr u)) = True"
| "changes_identity _ _ = False"

lemma identity_unsubscribes:
  assumes "c \<in> set (calls s)" "changes_identity c a"
  shows "subscribedJobId (page_of (app_step lc (CallAnswered c a) s)) = None"
  using assms
  by (cases "(c, a)" rule: changes_identity.cases)
    (auto simp: app_step_def call_answered_def identity_answered_def runAuthentication_answered_def signed_out_def
      logout_answered_def account_deleted_def deleteAccount_answered_def identity_changed_def on_page_def
      reloadJobsAfterIdentityChange_def clearSelectedJob_def loadJobHistory_def issue_def)

lemma effect_stops:
  assumes "hook_ok h" "i < length (started h)"
  shows "rc_stopped (started (subscription_effect None h) ! i)"
proof (cases "effect_jobId h = None")
  case True
  then have "pending_cleanup h = None" using assms(1) by (auto simp: hook_ok_def split: option.splits)
  then show ?thesis using assms True by (simp add: hook_ok_def subscription_effect_def)
next
  case False
  then show ?thesis using assms run_cleanup_ok(1)[OF assms(1)] by (auto simp: subscription_effect_def)
qed

text \<open>
  C31: no connection outlives the identity it was opened for. When a sign-in, registration, sign-out or
  account deletion has succeeded and React has rendered, every socket of every subscription
  started before is closing or closed, no timer of theirs is left, and whatever happens later none
  of them opens a socket or sends a command.
\<close>

theorem no_connection_outlives_identity:
  assumes "b = run_events (browser_step lc) es (opened_browser lc)"
    "c \<in> set (calls (app_in b))" "changes_identity c a" "i < length (started (hook_in b))"
    and b1: "b1 = run_events (browser_step lc) [AppEvent (CallAnswered c a), Renders] b"
    and "b2 = run_events (browser_step lc) later b1"
  shows "set (rc_sockets (started (hook_in b2) ! i)) \<subseteq> {CLOSING, CLOSED} \<and>
    rc_timers (started (hook_in b2) ! i) = (\<lambda>_. None) \<and>
    length (rc_sockets (started (hook_in b2) ! i)) = length (rc_sockets (started (hook_in b1) ! i)) \<and>
    rc_commands (started (hook_in b2) ! i) = rc_commands (started (hook_in b1) ! i)"
proof -
  let ?r = "started (hook_in b1) ! i"
  have ok: "hook_ok (hook_in b)" using assms(1) reached_hook by simp
  have h1: "hook_in b1 = subscription_effect None (refresh_callbacks (page_callbacks lc) (hook_in b))"
    using identity_unsubscribes[OF assms(2,3)] b1 by simp
  have i: "i < length (started (refresh_callbacks (page_callbacks lc) (hook_in b)))"
    using assms(4) by (simp add: refresh_callbacks_def)
  have "hook_ok (hook_in b1)" using ok by (simp add: h1 effect_ok)
  moreover have len: "i < length (started (hook_in b1))"
    using i run_cleanup_ok(2)[of "refresh_callbacks (page_callbacks lc) (hook_in b)"] ok
    by (simp add: h1 subscription_effect_def)
  moreover have "rc_stopped ?r" using effect_stops[OF _ i] ok by (simp add: h1)
  ultimately have "ended_run i (length (rc_sockets ?r)) (rc_commands ?r) (hook_in b1)"
    by (simp add: ended_run_def stopped_at_def hook_ok_def)
  then have "ended_run i (length (rc_sockets ?r)) (rc_commands ?r) (hook_in b2)"
    unfolding assms(6) by (rule ended_runs.run_inv)
  then show ?thesis using ended_sockets ended_timers by (auto simp: ended_run_def stopped_at_def)
qed

section \<open>The application inside\<close>

text \<open>
  What reaches the application from the sockets are two of its events, so its part of the browser
  is always in a state that the application alone can reach.
\<close>

definition app_possible :: "browser_locale \<Rightarrow> watched_app \<Rightarrow> bool" where
  "app_possible lc b \<longleftrightarrow> possible lc (app_in b) \<and> callbacksRef (hook_in b) = page_callbacks lc"

lemma callbacks_kept [simp]:
  "callbacksRef (subscription_effect subscribed h) = callbacksRef h"
  "callbacksRef (fst (socket_event i now e h s)) = callbacksRef h"
  "callbacksRef (refresh_callbacks c h) = c"
  by (simp_all add: subscription_effect_def run_cleanup_def socket_event_def refresh_callbacks_def Let_def
      split: option.split)

lemma possible_socket:
  assumes "possible lc s" "callbacksRef h = page_callbacks lc"
  shows "possible lc (snd (socket_event i now e h s))"
proof -
  have u: "possible lc t \<Longrightarrow> possible lc (fold (cb_onJobUpdate (page_callbacks lc) now) js t)" for js t
    by (induction js arbitrary: t) (simp_all add: page_callbacks_def possible_step)
  have m: "possible lc t \<Longrightarrow> possible lc (fold (cb_onStatusMessage (page_callbacks lc)) ms t)" for ms t
    by (induction ms arbitrary: t) (simp_all add: page_callbacks_def possible_step)
  show ?thesis using assms by (simp add: socket_event_def Let_def u m del: realtime_step.simps)
qed

interpretation app_inside: handler_invariant "browser_step lc" "app_possible lc" for lc
proof
  fix b e assume b: "app_possible lc b"
  show "app_possible lc (browser_step lc e b)"
  proof (cases e)
    case (SocketEvent i now e')
    then show ?thesis using b possible_socket[of lc "app_in b" "hook_in b" i now e']
        callbacks_kept(2)[of i now e' "hook_in b" "app_in b"]
      by (simp add: app_possible_def split_beta)
  qed (use b in \<open>simp_all add: app_possible_def possible_step\<close>)
qed

text \<open>
  The browser refines the application. Whatever its sockets do, the application inside it is in a
  state that a run of the application machine reaches, with the job updates and messages of the
  sockets as answers of the backend; so what every such run guarantees holds in the browser.
\<close>

theorem browser_refines_application:
  "\<exists>es'. app_in (run_events (browser_step lc) es (opened_browser lc)) = run_events (app_step lc) es' opened_app"
proof -
  have "app_possible lc (opened_browser lc)"
    by (simp add: app_possible_def opened_browser_def possible_start)
  then have "app_possible lc (run_events (browser_step lc) es (opened_browser lc))"
    by (rule app_inside.run_inv)
  then show ?thesis unfolding app_possible_def possible_def by blast
qed

section \<open>The answer to the former owner\<close>

definition reachable :: "browser_locale \<Rightarrow> watched_app \<Rightarrow> bool" where
  "reachable lc b \<longleftrightarrow> (\<exists>es. b = run_events (browser_step lc) es (opened_browser lc))"

lemma reachable_action:
  assumes "reachable lc b" "offered (app_in b) e"
  shows "reachable lc (b\<lparr>app_in := render_effects (ui_step now e (app_in b))\<rparr>)"
proof -
  obtain i u where "user_acts lc now i u (app_in b) = ui_step now e (app_in b)"
    using offered_action[OF assms(2)] by metis
  then have "browser_step lc (AppEvent (UserActs now i u)) b = b\<lparr>app_in := render_effects (ui_step now e (app_in b))\<rparr>"
    by (simp add: app_step_def)
  then show ?thesis using assms(1) unfolding reachable_def by (metis run_events.simps run_events_append)
qed

text \<open>Events on which a subscription delivers nothing change of the application only its message.\<close>

fun quiet_event :: "realtime_event \<Rightarrow> bool" where
  "quiet_event (MessageArrives n m) = False"
| "quiet_event (PollAnswers a) = False"
| "quiet_event CleanupRuns = False"
| "quiet_event _ = True"

definition behind_message :: "app \<Rightarrow> account_state \<times> account_call list \<times> identity_change list \<times> page" where
  "behind_message s = (account_of s, calls s, reloads s, setMessage [] (page_of s))"

lemma quiet_keeps: "quiet_event e \<Longrightarrow> rc_delivered (realtime_step e s) = rc_delivered s"
  by (cases e) (simp_all add: socket_opens_def socket_closes_def timer_fires_def callback_returns_def openSocket_def
      new_timer_def scheduleReconnect_def startFallbackPolling_def onStatusMessage_def pollJobStatus_def Let_def
      split: option.split timer_kind.split)

lemma status_behind: "behind_message (fold (cb_onStatusMessage (page_callbacks lc)) ms s) = behind_message s"
  by (induction ms arbitrary: s)
    (simp_all add: page_callbacks_def behind_message_def app_step_def on_page_def setMessage_def)

lemma quiet_run:
  assumes "callbacksRef (hook_in b) = page_callbacks lc" "i < length (started (hook_in b))" "list_all quiet_event es"
  shows "hook_in (run_events (browser_step lc) (map (SocketEvent i now) es) b) =
      (hook_in b)\<lparr>started := (started (hook_in b))[i := run_events realtime_step es (started (hook_in b) ! i)]\<rparr> \<and>
    behind_message (app_in (run_events (browser_step lc) (map (SocketEvent i now) es) b)) = behind_message (app_in b)"
  using assms
proof (induction es arbitrary: b)
  case (Cons e es)
  define b' where "b' = browser_step lc (SocketEvent i now e) b"
  have "e \<noteq> CleanupRuns" using Cons.prems(3) by auto
  then have "hook_in b' = (hook_in b)\<lparr>started := (started (hook_in b))[i := realtime_step e (started (hook_in b) ! i)]\<rparr>"
    "behind_message (app_in b') = behind_message (app_in b)"
    using Cons.prems quiet_keeps
    by (simp_all add: b'_def socket_event_def Let_def status_behind del: realtime_step.simps)
  then show ?case using Cons.IH[of b'] Cons.prems by (simp add: b'_def del: realtime_step.simps browser_step.simps)
qed simp

text \<open>A member returns while a job is active, and the realtime connection fails three times.\<close>

definition member_start :: "AuthenticatedUser \<Rightarrow> JobRecord \<Rightarrow> browser_event list" where
  "member_start user job = [AppEvent (SessionCreated None), AppEvent (IdentityLoaded (Inr (Some user))),
     AppEvent (HealthChecked (Inr \<lparr>health_service = ''backend'', health_status = ''ok''\<rparr>)),
     AppEvent (PageAnswered (HistoryAnswers 0 AtStartup (Inr [job]))), Renders]"

definition member_polls :: "browser_locale \<Rightarrow> AuthenticatedUser \<Rightarrow> JobRecord \<Rightarrow> watched_app" where
  "member_polls lc user job =
     run_events (browser_step lc) (member_start user job @ map (SocketEvent 0 0) outage) (opened_browser lc)"

lemma member_start_parts:
  assumes "isActiveJob job" "job_id job \<noteq> []" "b = run_events (browser_step lc) (member_start user job) (opened_browser lc)"
  shows "account_of (app_in b) = no_account\<lparr>currentUser := Some user\<rparr>" "calls (app_in b) = []" "reloads (app_in b) = []"
    "jobHistory (page_of (app_in b)) = [job]" "sessionReady (page_of (app_in b))" "\<not> isUploading (page_of (app_in b))"
    "subscribedJobId (page_of (app_in b)) = Some (job_id job)"
    "hook_in b = \<lparr>callbacksRef = page_callbacks lc, started = [startJobSubscription (job_id job)],
       pending_cleanup = Some 0, effect_jobId = Some (job_id job)\<rparr>"
  using assms(1,2) unfolding assms(3)
  by (simp_all add: member_start_def opened_browser_def app_step_def session_created_def identity_loaded_def
      health_checked_def on_account_def on_page_def loadAuthentication_answered_def no_account_def loadJobHistory_def
      history_answered_def selectJob_def handleJobUpdate_def upsertHistoryJob_def isActiveJob_def activeStatuses_def
      setMessage_def issue_def opened_app_def empty_page_def subscription_effect_def run_cleanup_def
      refresh_callbacks_def Let_def)

text \<open>The member signs out while the answer of the poll is under way.\<close>

definition member_signs_out :: "browser_locale \<Rightarrow> AuthenticatedUser \<Rightarrow> JobRecord \<Rightarrow> watched_app" where
  "member_signs_out lc user job =
     (let b = member_polls lc user job in b\<lparr>app_in := render_effects (ui_step 0 SignOut (app_in b))\<rparr>)"

definition signed_out_events :: "browser_event list" where
  "signed_out_events = [AppEvent (CallAnswered LogoutCall (DoneAnswer (Inr ()))), Renders,
     AppEvent (ReloadAnswered 0 LogoutChange (Inr [])), Renders]"

lemma render_calls [simp]: "calls (render_effects s) = calls s"
  by (simp add: render_effects_def mount_settings_def)

lemma member_polls_parts:
  assumes "isActiveJob job" "job_id job \<noteq> []" "b = member_polls lc user job"
  shows "account_of (app_in b) = no_account\<lparr>currentUser := Some user\<rparr>" "calls (app_in b) = []" "reloads (app_in b) = []"
    "jobHistory (page_of (app_in b)) = [job]" "sessionReady (page_of (app_in b))" "\<not> isUploading (page_of (app_in b))"
    "hook_in b = \<lparr>callbacksRef = page_callbacks lc,
       started = [run_events realtime_step outage (startJobSubscription (job_id job))],
       pending_cleanup = Some 0, effect_jobId = Some (job_id job)\<rparr>"
proof -
  define a where "a = run_events (browser_step lc) (member_start user job) (opened_browser lc)"
  note parts = member_start_parts[OF assms(1,2) a_def]
  have b: "b = run_events (browser_step lc) (map (SocketEvent 0 0) outage) a"
    by (simp add: assms(3) member_polls_def a_def run_events_append)
  have "list_all quiet_event outage" by (simp add: outage_def)
  then have q: "hook_in b = (hook_in a)\<lparr>started := (started (hook_in a))[0 := run_events realtime_step outage (started (hook_in a) ! 0)]\<rparr>"
    "behind_message (app_in b) = behind_message (app_in a)"
    using quiet_run[of a lc 0 outage 0] parts(8) by (simp_all add: b)
  show "hook_in b = \<lparr>callbacksRef = page_callbacks lc,
      started = [run_events realtime_step outage (startJobSubscription (job_id job))],
      pending_cleanup = Some 0, effect_jobId = Some (job_id job)\<rparr>"
    using q(1) parts(8) by simp
  have pg: "setMessage [] (page_of (app_in b)) = setMessage [] (page_of (app_in a))"
    using q(2) by (simp add: behind_message_def)
  have "jobHistory (page_of (app_in b)) = jobHistory (page_of (app_in a))"
    "sessionReady (page_of (app_in b)) = sessionReady (page_of (app_in a))"
    "isUploading (page_of (app_in b)) = isUploading (page_of (app_in a))"
    using arg_cong[OF pg, of jobHistory] arg_cong[OF pg, of sessionReady] arg_cong[OF pg, of isUploading]
    by (simp_all add: setMessage_def)
  then show "jobHistory (page_of (app_in b)) = [job]" "sessionReady (page_of (app_in b))"
    "\<not> isUploading (page_of (app_in b))" using parts by simp_all
  show "account_of (app_in b) = no_account\<lparr>currentUser := Some user\<rparr>" "calls (app_in b) = []" "reloads (app_in b) = []"
    using q(2) parts by (simp_all add: behind_message_def)
qed

lemma outage_polls:
  "polls_pending (stop_subscription (run_events realtime_step outage (startJobSubscription jobId))) = 1"
  "previousJobPayload (stop_subscription (run_events realtime_step outage (startJobSubscription jobId))) = None"
  by (simp_all add: outage_def demo_defs stop_subscription_def send_current_def current_state_def)

lemma member_signs_out_parts:
  assumes "isActiveJob job" "job_id job \<noteq> []"
  shows "reachable lc (member_signs_out lc user job)" "calls (app_in (member_signs_out lc user job)) = [LogoutCall]"
    "length (started (hook_in (member_signs_out lc user job))) = 1"
proof -
  define m where "m = member_polls lc user job"
  note parts = member_polls_parts[OF assms m_def]
  have "reachable lc m" unfolding reachable_def m_def member_polls_def by blast
  moreover have "offered (app_in m) SignOut"
    using parts by (simp add: identity_free_def identityChangeDisabled_def no_account_def)
  ultimately show "reachable lc (member_signs_out lc user job)"
    using reachable_action[of lc m SignOut 0] by (simp add: member_signs_out_def m_def Let_def)
  show "calls (app_in (member_signs_out lc user job)) = [LogoutCall]"
    "length (started (hook_in (member_signs_out lc user job))) = 1"
    using parts by (simp_all add: member_signs_out_def m_def[symmetric] signOut_def send_call_def on_account_def Let_def)
qed

text \<open>
  C32: a poll that is under way at a sign-out still delivers. A member whose realtime connection fails
  signs out while the HTTP request for the job's status is under way; the visitor's
  empty history has been loaded and shown, nobody is signed in, and then the answer puts the
  former member's job, with the name of the file, into the visitor's history.
\<close>

theorem former_owner_job_reappears:
  assumes "isActiveJob job" "job_id job \<noteq> []"
    and "b = run_events (browser_step lc) signed_out_events (member_signs_out lc user job)"
  shows "reachable lc b \<and> currentUser (account_of (app_in (member_polls lc user job))) = Some user \<and>
    currentUser (account_of (app_in b)) = None \<and> calls (app_in b) = [] \<and> reloads (app_in b) = [] \<and>
    jobHistory (page_of (app_in b)) = [] \<and>
    jobHistory (page_of (app_in (browser_step lc (SocketEvent 0 now (PollAnswers (Inr job))) b))) = [job]"
proof -
  define r where "r = stop_subscription (run_events realtime_step outage (startJobSubscription (job_id job)))"
  define m where "m = member_polls lc user job"
  note parts = member_polls_parts[OF assms(1,2) m_def]
  have "reachable lc b"
    using member_signs_out_parts(1)[OF assms(1,2)] unfolding assms(3) reachable_def by (metis run_events_append)
  moreover have b: "currentUser (account_of (app_in b)) = None" "calls (app_in b) = []" "reloads (app_in b) = []"
    "jobHistory (page_of (app_in b)) = []" "started (hook_in b) = [r]" "callbacksRef (hook_in b) = page_callbacks lc"
    using parts
    by (simp_all add: assms(3) signed_out_events_def member_signs_out_def m_def[symmetric] signOut_def send_call_def
        on_account_def authentication_begins_def app_step_def call_answered_def signed_out_def logout_answered_def
        identity_changed_def on_page_def reloadJobsAfterIdentityChange_def clearSelectedJob_def loadJobHistory_def
        issue_def reload_answered_def history_answered_def setMessage_def on_panel_def subscription_effect_def
        run_cleanup_def refresh_callbacks_def r_def Let_def)
  moreover have "rc_delivered (realtime_step (PollAnswers (Inr job)) r) = rc_delivered r @ [job]"
    "rc_messages (realtime_step (PollAnswers (Inr job)) r) = rc_messages r"
    using outage_polls[of "job_id job"] by (simp_all add: r_def poll_answers_def deliverJobUpdate_def Let_def)
  then have "jobHistory (page_of (app_in (browser_step lc (SocketEvent 0 now (PollAnswers (Inr job))) b))) = [job]"
    using b by (simp add: socket_event_def Let_def page_callbacks_def app_step_def on_page_def handleJobUpdate_def
        upsertHistoryJob_def setMessage_def issue_def del: realtime_step.simps)
  ultimately show ?thesis using parts(1) by (simp add: m_def)
qed

section \<open>Examples\<close>

definition demo_member :: AuthenticatedUser where
  "demo_member = \<lparr>auth_id = ''u'', auth_username = ''alice''\<rparr>"

lemma demo_active: "isActiveJob (demo_update PROCESSING)" "job_id (demo_update PROCESSING) = ''j''"
  by (simp_all add: isActiveJob_def activeStatuses_def demo_update_def)

theorem subscribed_job_watched_witness:
  "\<forall>lc. \<exists>r. r \<in> set (started (hook_in (run_events (browser_step lc)
     (member_start demo_member (demo_update PROCESSING) @ [Renders]) (opened_browser lc)))) \<and> watching ''j'' r"
proof
  fix lc
  define b where "b = run_events (browser_step lc)
    (member_start demo_member (demo_update PROCESSING) @ [Renders]) (opened_browser lc)"
  have "subscribedJobId (page_of (app_in b)) = Some ''j''"
    using member_start_parts(7)[OF demo_active(1), of _ lc demo_member] demo_active(2)
    by (simp add: b_def run_events_append)
  then show "\<exists>r. r \<in> set (started (hook_in (run_events (browser_step lc)
     (member_start demo_member (demo_update PROCESSING) @ [Renders]) (opened_browser lc)))) \<and> watching ''j'' r"
    using subscribed_job_watched[OF b_def, of "''j''"] b_def by auto
qed

theorem no_connection_outlives_identity_witness:
  "\<forall>lc. set (rc_sockets (started (hook_in (run_events (browser_step lc) signed_out_events
     (member_signs_out lc demo_member (demo_update PROCESSING)))) ! 0)) \<subseteq> {CLOSING, CLOSED}"
proof
  fix lc
  define b where "b = member_signs_out lc demo_member (demo_update PROCESSING)"
  define b1 where "b1 = run_events (browser_step lc) [AppEvent (CallAnswered LogoutCall (DoneAnswer (Inr ()))), Renders] b"
  define b2 where "b2 = run_events (browser_step lc) [AppEvent (ReloadAnswered 0 LogoutChange (Inr [])), Renders] b1"
  have parts: "reachable lc b" "LogoutCall \<in> set (calls (app_in b))" "0 < length (started (hook_in b))"
    using member_signs_out_parts[OF demo_active(1), of lc demo_member] demo_active(2) by (simp_all add: b_def)
  obtain es where es: "b = run_events (browser_step lc) es (opened_browser lc)"
    using parts(1) unfolding reachable_def by (rule exE)
  have run: "run_events (browser_step lc) signed_out_events b = b2"
    unfolding b2_def b1_def signed_out_events_def run_events.simps by (rule refl)
  have change: "changes_identity LogoutCall (DoneAnswer (Inr ()))" by simp
  show "set (rc_sockets (started (hook_in (run_events (browser_step lc) signed_out_events
     (member_signs_out lc demo_member (demo_update PROCESSING)))) ! 0)) \<subseteq> {CLOSING, CLOSED}"
    unfolding b_def[symmetric] run
    using no_connection_outlives_identity[OF es parts(2) change parts(3) b1_def b2_def] by blast
qed

theorem former_owner_job_reappears_witness:
  "\<forall>lc. jobHistory (page_of (app_in (browser_step lc (SocketEvent 0 0 (PollAnswers (Inr (demo_update PROCESSING))))
     (run_events (browser_step lc) signed_out_events (member_signs_out lc demo_member (demo_update PROCESSING)))))) =
     [demo_update PROCESSING]"
proof
  fix lc
  have "job_id (demo_update PROCESSING) \<noteq> []" by (simp add: demo_active(2))
  from former_owner_job_reappears[OF demo_active(1) this refl, of lc demo_member 0]
  show "jobHistory (page_of (app_in (browser_step lc (SocketEvent 0 0 (PollAnswers (Inr (demo_update PROCESSING))))
     (run_events (browser_step lc) signed_out_events (member_signs_out lc demo_member (demo_update PROCESSING)))))) =
     [demo_update PROCESSING]"
    by blast
qed

end
