(* ===== verification/Tooling.thy ===== *)
theory Tooling
  imports Http JsNumber "HOL-Library.Sublist"
begin

text \<open>
  What the integration programs under scripts/integration/ build on: commands.mjs, docker.mjs and
  safety.mjs. A program runs commands and sends requests; what they answer, and how long they take,
  is a parameter that may depend on everything done before. Errors are their messages. Lines for
  the terminal are left out.
\<close>

section \<open>Programs\<close>

record command =
  cmd_program :: string
  cmd_arguments :: "string list"
  cmd_capture :: bool
  cmd_environment :: "(string \<times> string) list"

datatype tool_body = NoBody | JsonBody json | BytesBody "nat list"

record tool_request =
  tq_method :: string
  tq_url :: string
  tq_headers :: "(string \<times> string) list"
  tq_body :: tool_body

record tool_reply =
  tp_status :: nat
  tp_text :: string
  tp_set_cookie :: "string option"

text \<open>
  A WebSocket of a program, as websocket-client.mjs wraps it: the parsed messages, the waits under
  way with their predicate (which may throw) and description, the settled waits with their result,
  whether it is closed or closing, and what was sent.
\<close>

record client_socket =
  cs_messages :: "json list"
  cs_waiting :: "(nat \<times> (json \<Rightarrow> string + bool) \<times> string) list"
  cs_settled :: "(nat \<times> (string + json)) list"
  cs_next :: nat
  cs_closing :: bool
  cs_sent :: "json list"

text \<open>Every wait is under way or settled, once.\<close>

definition client_ok :: "client_socket \<Rightarrow> bool" where
  "client_ok s \<longleftrightarrow> distinct (map fst (cs_waiting s) @ map fst (cs_settled s)) \<and>
     fst ` set (cs_waiting s) \<union> fst ` set (cs_settled s) \<subseteq> {..<cs_next s}"

text \<open>Sockets are never removed and lose no message.\<close>

definition evolves :: "client_socket list \<Rightarrow> client_socket list \<Rightarrow> bool" where
  "evolves cs ds \<longleftrightarrow> length cs \<le> length ds \<and>
     (\<forall>i < length cs. prefix (cs_messages (cs ! i)) (cs_messages (ds ! i))) \<and>
     ((\<forall>c \<in> set cs. client_ok c) \<longrightarrow> (\<forall>d \<in> set ds. client_ok d))"

datatype client_event = TextArrives string | SocketFails string | SocketEnds nat string

datatype tool_action =
    Ran command
  | Requested tool_request
  | Connected string string
  | SentMessage nat nat json
  | Awaited

text \<open>
  The surroundings: the output of a command or the message of the error it throws, the reply to a
  request, what reaches the sockets during a wait, the duration of each, how late a timer is,
  \<open>JSON.parse\<close>, \<open>String\<close> of what is not a string, protocol and host of a URL, and random
  identifiers.
\<close>

record tool_world =
  tw_output :: "tool_action list \<Rightarrow> command \<Rightarrow> string + string"
  tw_reply :: "tool_action list \<Rightarrow> tool_request \<Rightarrow> string + tool_reply"
  tw_events :: "tool_action list \<Rightarrow> (nat \<times> client_event) list"
  tw_duration :: "tool_action list \<Rightarrow> nat"
  tw_late :: "nat \<Rightarrow> nat"
  tw_json :: "string \<Rightarrow> json option"
  tw_string :: "json option \<Rightarrow> string"
  tw_url :: "string \<Rightarrow> (string \<times> string) option"
  tw_uuid :: "nat \<Rightarrow> string"

record tool_session =
  ts_apiBaseUrl :: string
  ts_cookie :: string

text \<open>
  What was done, the clock in milliseconds, the identity that docker.mjs keeps, the sockets ever
  connected, and the variables of the running program that outlive its \<open>try\<close> block.
\<close>

record tools =
  actions :: "tool_action list"
  clock :: nat
  postgresIdentity :: "(string \<times> string) option"
  sockets :: "client_socket list"
  session :: "tool_session option"
  jobIds :: "string list"
  removedWorkerId :: "string option"
  jobSockets :: "nat list"

type_synonym 'a tool = "tool_world \<Rightarrow> tools \<Rightarrow> (string + 'a) \<times> tools"

definition returnT :: "'a \<Rightarrow> 'a tool" where
  "returnT a w s = (Inr a, s)"

definition throwT :: "string \<Rightarrow> 'a tool" where
  "throwT m w s = (Inl m, s)"

definition bindT :: "'a tool \<Rightarrow> ('a \<Rightarrow> 'b tool) \<Rightarrow> 'b tool" where
  "bindT m f w s = (case m w s of (Inl e, s1) \<Rightarrow> (Inl e, s1) | (Inr a, s1) \<Rightarrow> f a w s1)"

definition liftT :: "string + 'a \<Rightarrow> 'a tool" where
  "liftT r w s = (r, s)"

text \<open>\<open>try { m } catch (error) { report }\<close>: the error is printed and the program goes on.\<close>

definition reportedT :: "unit tool \<Rightarrow> unit tool" where
  "reportedT m w s = (Inr (), snd (m w s))"

fun eachT :: "('a \<Rightarrow> 'b tool) \<Rightarrow> 'a list \<Rightarrow> 'b list tool" where
  "eachT f [] = returnT []"
| "eachT f (x # xs) = bindT (f x) (\<lambda>y. bindT (eachT f xs) (\<lambda>ys. returnT (y # ys)))"

definition sleep :: "nat \<Rightarrow> unit tool" where
  "sleep ms w s = (Inr (), s\<lparr>clock := clock s + ms + tw_late w (clock s)\<rparr>)"

section \<open>commands.mjs\<close>

definition runCommand :: "string \<Rightarrow> string list \<Rightarrow> bool \<Rightarrow> (string \<times> string) list \<Rightarrow> string tool" where
  "runCommand prog args capture env w s =
     (let c = \<lparr>cmd_program = prog, cmd_arguments = args, cmd_capture = capture, cmd_environment = env\<rparr>;
          s1 = s\<lparr>actions := actions s @ [Ran c], clock := clock s + tw_duration w (actions s)\<rparr>
      in case tw_output w (actions s) c of
           Inl m \<Rightarrow> (Inl m, s1)
         | Inr output \<Rightarrow> (Inr (if capture then js_trim output else []), s1))"

definition compose :: "string list \<Rightarrow> bool \<Rightarrow> (string \<times> string) list \<Rightarrow> string tool" where
  "compose args = runCommand ''docker'' (''compose'' # args)"

section \<open>docker.mjs: workers and queries\<close>

definition newline :: char where "newline = CHR 0x0A"

definition apostrophe :: char where "apostrophe = CHR 0x27"

definition startMockWorkers :: "nat \<Rightarrow> nat \<Rightarrow> nat \<Rightarrow> nat \<Rightarrow> unit tool" where
  "startMockWorkers count delaySeconds leaseSeconds jobHeartbeatSeconds =
     bindT (compose [''up'', ''-d'', ''--build'', ''--scale'', ''worker='' @ show_nat count, ''worker''] False
         [(''PROCESSING_MODE'', ''mock''),
          (''MOCK_PROCESSING_DELAY_SECONDS'', show_nat delaySeconds),
          (''JOB_LEASE_TIMEOUT_SECONDS'', show_nat leaseSeconds),
          (''JOB_HEARTBEAT_INTERVAL_SECONDS'', show_nat jobHeartbeatSeconds)])
       (\<lambda>_. returnT ())"

text \<open>The identity is read once; an error leaves it unread.\<close>

definition getPostgresIdentity :: "(string \<times> string) tool" where
  "getPostgresIdentity w s =
     (case postgresIdentity s of
        Some i \<Rightarrow> (Inr i, s)
      | None \<Rightarrow>
          bindT (compose [''exec'', ''-T'', ''postgres'', ''printenv'', ''POSTGRES_USER''] True []) (\<lambda>user.
            bindT (compose [''exec'', ''-T'', ''postgres'', ''printenv'', ''POSTGRES_DB''] True []) (\<lambda>database.
              (\<lambda>w s. (Inr (user, database), s\<lparr>postgresIdentity := Some (user, database)\<rparr>)))) w s)"

definition psql_arguments :: "string \<times> string \<Rightarrow> string \<Rightarrow> string list" where
  "psql_arguments i sql = [''exec'', ''-T'', ''postgres'', ''psql'', ''--username'', fst i, ''--dbname'', snd i,
     ''--tuples-only'', ''--no-align'', ''--field-separator'', ''|'', ''--command'', sql]"

definition queryDatabase :: "string \<Rightarrow> string tool" where
  "queryDatabase sql = bindT getPostgresIdentity (\<lambda>i. compose (psql_arguments i sql) True [])"

definition nonempty_lines :: "string \<Rightarrow> string list" where
  "nonempty_lines output = filter (\<lambda>l. l \<noteq> []) (js_split newline output)"

definition normal_worker :: "unit tool" where
  "normal_worker =
     bindT (queryDatabase ''DELETE FROM worker_instances;'') (\<lambda>_.
       bindT (compose [''up'', ''-d'', ''--scale'', ''worker=1'', ''worker''] False
           [(''PROCESSING_MODE'', ''demucs''), (''DEMUCS_MODEL'', ''htdemucs_6s''),
            (''MOCK_PROCESSING_DELAY_SECONDS'', ''3.5''), (''JOB_LEASE_TIMEOUT_SECONDS'', ''300''),
            (''JOB_HEARTBEAT_INTERVAL_SECONDS'', ''30'')])
         (\<lambda>_. returnT ()))"

definition restoreNormalWorker :: "unit tool" where
  "restoreNormalWorker =
     bindT (compose [''ps'', ''--all'', ''--quiet'', ''worker''] True []) (\<lambda>output.
       let workerContainerIds = nonempty_lines output
       in bindT (if workerContainerIds \<noteq> []
                 then runCommand ''docker'' ([''container'', ''rm'', ''--force''] @ workerContainerIds) False []
                 else returnT [])
            (\<lambda>_. normal_worker))"

section \<open>docker.mjs: identifiers in SQL\<close>

definition is_hex :: "char \<Rightarrow> bool" where
  "is_hex c \<longleftrightarrow> c \<in> set ''0123456789abcdefABCDEF''"

definition uuid_shaped :: "string \<Rightarrow> bool" where
  "uuid_shaped u \<longleftrightarrow>
     (case js_split (CHR ''-'') u of
        [a, b, c, d, e] \<Rightarrow>
          map length [a, b, c, d, e] = [8, 4, 4, 4, 12] \<and> list_all is_hex (a @ b @ c @ d @ e) \<and>
          hd c \<in> set ''12345'' \<and> hd d \<in> set ''89abAB''
      | _ \<Rightarrow> False)"

definition quoteUuid :: "string \<Rightarrow> string + string" where
  "quoteUuid u =
     (if \<not> uuid_shaped u then Inl (''Invalid UUID received by integration tooling: '' @ u)
      else Inr ([apostrophe] @ u @ [apostrophe] @ ''::uuid''))"

definition container_shaped :: "string \<Rightarrow> bool" where
  "container_shaped x \<longleftrightarrow> 12 \<le> length x \<and> length x \<le> 64 \<and> list_all is_hex x"

definition comma_list :: "string list \<Rightarrow> string" where
  "comma_list xs = concat (map (\<lambda>(i, x). if i = 0 then x else '', '' @ x) (enumerate 0 xs))"

definition attempts_sql :: "string \<Rightarrow> string" where
  "attempts_sql idList = js_join newline [''SELECT id, processing_attempts'', ''     FROM jobs'',
     ''     WHERE id IN ('' @ idList @ '')'', ''     ORDER BY id;'']"

text \<open>A later row of the same job replaces an earlier one, as in a Map.\<close>

definition attempts_row :: "string \<Rightarrow> string \<times> js_number" where
  "attempts_row line =
     (case js_split (CHR ''|'') line of
        jobId # count # rest \<Rightarrow> (jobId, js_Number count)
      | jobId # [] \<Rightarrow> (jobId, NaN)
      | [] \<Rightarrow> ([], NaN))"

definition readJobAttempts :: "string list \<Rightarrow> (string \<Rightarrow> js_number option) tool" where
  "readJobAttempts ids =
     bindT (liftT (mapE quoteUuid ids)) (\<lambda>quoted.
       bindT (queryDatabase (attempts_sql (comma_list quoted))) (\<lambda>output.
         returnT (map_of (rev (map attempts_row (nonempty_lines output))))))"

definition expiry_sql :: "string \<Rightarrow> string" where
  "expiry_sql idList = js_join newline [''UPDATE jobs'', ''     SET storage_expires_at = NOW()'',
     ''     WHERE id IN ('' @ idList @ '')'',
     ''       AND status IN ('COMPLETED', 'FAILED', 'CANCELLED');'']"

definition expireTestJobs :: "string list \<Rightarrow> unit tool" where
  "expireTestJobs ids =
     (if ids = [] then returnT ()
      else bindT (liftT (mapE quoteUuid ids)) (\<lambda>quoted.
        bindT (queryDatabase (expiry_sql (comma_list quoted))) (\<lambda>_. returnT ())))"

definition forceRemoveWorker :: "string \<Rightarrow> unit tool" where
  "forceRemoveWorker workerId =
     (if \<not> container_shaped workerId
      then throwT (''Refusing to remove unexpected worker ID: '' @ workerId)
      else bindT (runCommand ''docker'' [''container'', ''rm'', ''--force'', workerId] False []) (\<lambda>_. returnT ()))"

definition removal_sql :: "string \<Rightarrow> string" where
  "removal_sql workerId =
     ''DELETE FROM worker_instances WHERE worker_id = '' @ [apostrophe] @ workerId @ [apostrophe] @ '';''"

definition removeWorkerRegistryRow :: "string option \<Rightarrow> unit tool" where
  "removeWorkerRegistryRow worker =
     (case worker of
        None \<Rightarrow> returnT ()
      | Some workerId \<Rightarrow>
          if workerId = [] then returnT ()
          else if \<not> container_shaped workerId
          then throwT (''Refusing to delete unexpected worker ID: '' @ workerId)
          else bindT (queryDatabase (removal_sql workerId)) (\<lambda>_. returnT ()))"

definition readWorkerEvents :: "string list \<Rightarrow> json list tool" where
  "readWorkerEvents ids =
     bindT (compose [''logs'', ''--no-log-prefix'', ''worker''] True []) (\<lambda>output w s.
       (Inr (filter (\<lambda>event. \<exists>j \<in> set ids. json_field ''jobId'' event = Some (JString j))
          (List.map_filter (tw_json w) (js_split newline output))), s))"

section \<open>docker.mjs: waiting\<close>

text \<open>
  The three waiting functions have one shape: until the deadline, ask, return when the answer is
  the one waited for, and sleep. The fuel is the number of rounds; \<open>rounds\<close> of the timeout
  and the pause are enough, since every round that does not return sleeps.
\<close>

fun poll_until :: "nat \<Rightarrow> nat \<Rightarrow> nat \<Rightarrow> 'a option tool \<Rightarrow> string \<Rightarrow> 'a tool" where
  "poll_until 0 deadline pause ask message = throwT message"
| "poll_until (Suc n) deadline pause ask message = (\<lambda>w s.
     if clock s < deadline
     then bindT ask (\<lambda>found. case found of
            Some x \<Rightarrow> returnT x
          | None \<Rightarrow> bindT (sleep pause) (\<lambda>_. poll_until n deadline pause ask message)) w s
     else (Inl message, s))"

definition rounds :: "nat \<Rightarrow> nat \<Rightarrow> nat" where
  "rounds timeout pause = Suc (timeout div pause)"

definition poll_for :: "nat \<Rightarrow> nat \<Rightarrow> 'a option tool \<Rightarrow> string \<Rightarrow> 'a tool" where
  "poll_for timeout pause ask message w s =
     poll_until (rounds timeout pause) (clock s + timeout) pause ask message w s"

definition active_workers_sql :: string where
  "active_workers_sql = js_join newline [''SELECT COUNT(*) FROM worker_instances'',
     ''         WHERE last_heartbeat_at >= NOW() - ('',
     ''           heartbeat_timeout_seconds * INTERVAL '' @ [apostrophe] @ ''1 second'' @ [apostrophe], ''         );'']"

definition waitForActiveWorkerCount :: "nat \<Rightarrow> nat \<Rightarrow> unit tool" where
  "waitForActiveWorkerCount expected timeout =
     poll_for timeout 500
       (bindT (queryDatabase active_workers_sql) (\<lambda>output.
         returnT (if js_Number output = Finite (of_nat expected) then Some () else None)))
       (''Did not observe '' @ show_nat expected @ '' active workers before timeout'')"

definition busy_worker_sql :: "string \<Rightarrow> string" where
  "busy_worker_sql quoted = js_join newline [''SELECT worker_id'', ''       FROM worker_instances'',
     ''       WHERE status = '' @ [apostrophe] @ ''BUSY'' @ [apostrophe], ''         AND current_job_id = '' @ quoted,
     ''         AND EXISTS ('', ''           SELECT 1 FROM jobs'', ''           WHERE id = '' @ quoted,
     ''             AND processing_attempts >= 1'', ''         )'', ''       LIMIT 1;'']"

definition waitForBusyWorker :: "string \<Rightarrow> nat \<Rightarrow> string tool" where
  "waitForBusyWorker jobId timeout =
     bindT (liftT (quoteUuid jobId)) (\<lambda>quoted.
       poll_for timeout 250
         (bindT (queryDatabase (busy_worker_sql quoted)) (\<lambda>workerId.
           returnT (if workerId \<noteq> [] then Some workerId else None)))
         (''No busy worker was found for job '' @ jobId))"

definition owner_sql :: "string \<Rightarrow> string" where
  "owner_sql quoted = js_join newline [''SELECT processing_worker_id'', ''       FROM jobs'',
     ''       WHERE id = '' @ quoted @ '';'']"

definition waitForReplacementWorker :: "string \<Rightarrow> string \<Rightarrow> nat \<Rightarrow> string tool" where
  "waitForReplacementWorker jobId removed timeout =
     bindT (liftT (quoteUuid jobId)) (\<lambda>quoted.
       poll_for timeout 500
         (bindT (queryDatabase (owner_sql quoted)) (\<lambda>workerId.
           returnT (if workerId \<noteq> [] \<and> workerId \<noteq> removed then Some workerId else None)))
         (''Job '' @ jobId @ '' was not reclaimed before timeout''))"

section \<open>safety.mjs\<close>

text \<open>\<open>split(/\s+/)\<close> of a text without white space at its ends.\<close>

fun columns_of :: "string \<Rightarrow> string list" where
  "columns_of [] = [[]]"
| "columns_of (c # cs) =
     (if is_js_space c
      then (if cs \<noteq> [] \<and> is_js_space (hd cs) then columns_of cs else [] # columns_of cs)
      else (case columns_of cs of [] \<Rightarrow> [[c]] | x # xs \<Rightarrow> (c # x) # xs))"

fun js_add :: "js_number \<Rightarrow> js_number \<Rightarrow> js_number" where
  "js_add (Finite a) (Finite b) = to_double (a + b)"
| "js_add NaN y = NaN"
| "js_add x NaN = NaN"
| "js_add Infinity NegInfinity = NaN"
| "js_add NegInfinity Infinity = NaN"
| "js_add Infinity y = Infinity"
| "js_add NegInfinity y = NegInfinity"
| "js_add x Infinity = Infinity"
| "js_add x NegInfinity = NegInfinity"

definition lag_of_line :: "string \<Rightarrow> js_number option" where
  "lag_of_line line =
     (let columns = columns_of (js_trim line)
      in case columns of
           g # t # rest \<Rightarrow>
             if g = ''audio-worker'' \<and> t = ''audio.jobs.created'' \<and> 5 < length columns
             then (case js_Number (columns ! 5) of Finite x \<Rightarrow> Some (Finite x) | _ \<Rightarrow> None)
             else None
         | _ \<Rightarrow> None)"

definition total_lag :: "string \<Rightarrow> js_number" where
  "total_lag output = foldl js_add (Finite 0) (List.map_filter lag_of_line (js_split newline output))"

definition readKafkaJobLag :: "js_number tool" where
  "readKafkaJobLag =
     bindT (compose [''exec'', ''-T'', ''kafka'', ''/opt/kafka/bin/kafka-consumer-groups.sh'', ''--bootstrap-server'',
         ''kafka:29092'', ''--describe'', ''--group'', ''audio-worker''] True [])
       (\<lambda>output. returnT (total_lag output))"

definition active_jobs_sql :: string where
  "active_jobs_sql = js_join newline [''SELECT COUNT(*) FROM jobs'',
     ''       WHERE status IN ('PROCESSING', 'RETRYING');'']"

definition busy_workers_sql :: string where
  "busy_workers_sql = ''SELECT COUNT(*) FROM worker_instances WHERE status = 'BUSY';''"

definition pending_events_sql :: string where
  "pending_events_sql = js_join newline [''SELECT COUNT(*) FROM outbox_events'',
     ''       WHERE status = 'PENDING' AND topic = 'audio.jobs.created';'']"

text \<open>The error is raised with the four readings; \<open>tw_string\<close> writes numbers that are not whole.\<close>

definition reading :: "tool_world \<Rightarrow> js_number \<Rightarrow> string" where
  "reading w x = tw_string w (Some (JNumber x))"

definition not_idle_message :: "tool_world \<Rightarrow> js_number \<Rightarrow> js_number \<Rightarrow> js_number \<Rightarrow> js_number \<Rightarrow> string" where
  "not_idle_message w activeJobs busyWorkers pendingJobEvents kafkaLag =
     ''Integration verification requires an idle system. Active jobs: '' @ reading w activeJobs @
     ''; busy workers: '' @ reading w busyWorkers @ ''; pending job events: '' @ reading w pendingJobEvents @
     ''; Kafka lag: '' @ reading w kafkaLag @ ''.''"

definition assertProcessingEnvironmentIsIdle :: "unit tool" where
  "assertProcessingEnvironmentIsIdle =
     bindT (queryDatabase active_jobs_sql) (\<lambda>a.
       bindT (queryDatabase busy_workers_sql) (\<lambda>b.
         bindT (queryDatabase pending_events_sql) (\<lambda>p.
           bindT readKafkaJobLag (\<lambda>kafkaLag w.
             if list_ex (\<lambda>x. js_truthy (Some (JNumber x))) [js_Number a, js_Number b, js_Number p, kafkaLag]
             then throwT (not_idle_message w (js_Number a) (js_Number b) (js_Number p) kafkaLag) w
             else returnT () w))))"

section \<open>What every tool keeps\<close>

text \<open>
  A relation between the states before and after that holds for a recorded action, the passing of
  time and the identity read from the container holds for every program built from these tools.
\<close>

definition keeps :: "(tools \<Rightarrow> tools \<Rightarrow> bool) \<Rightarrow> 'a tool \<Rightarrow> bool" where
  "keeps R m \<longleftrightarrow> (\<forall>w s. R s (snd (m w s)))"

locale tool_relation =
  fixes R :: "tools \<Rightarrow> tools \<Rightarrow> bool"
  assumes kept: "R s s"
    and chained: "R s t \<Longrightarrow> R t u \<Longrightarrow> R s u"
    and acted: "R s (s\<lparr>actions := actions s @ [a], clock := clock s + d\<rparr>)"
    and waited: "R s (s\<lparr>clock := clock s + d\<rparr>)"
    and learnt: "R s (s\<lparr>postgresIdentity := i\<rparr>)"
begin

lemma keeps_unchanged: "(\<And>w s. snd (m w s) = s) \<Longrightarrow> keeps R m"
  by (simp add: keeps_def kept)

lemma keeps_basic [intro]:
  "keeps R (returnT a)" "keeps R (throwT e)" "keeps R (liftT r)" "keeps R (sleep n)"
  using waited by (auto simp: keeps_def returnT_def throwT_def liftT_def sleep_def kept add.assoc)

lemma kept_bind [intro]:
  assumes "keeps R m" "\<And>a. keeps R (f a)"
  shows "keeps R (bindT m f)"
  unfolding keeps_def
proof (intro allI)
  fix w s
  obtain r s1 where "m w s = (r, s1)" by fastforce
  moreover have "R s s1" using assms(1) calculation by (metis keeps_def snd_conv)
  ultimately show "R s (snd (bindT m f w s))"
    using assms(2) chained by (cases r) (auto simp: bindT_def keeps_def)
qed

lemma keeps_cases:
  "keeps R m \<Longrightarrow> keeps R n \<Longrightarrow> keeps R (if b then m else n)"
  "keeps R m \<Longrightarrow> (\<And>x. keeps R (f x)) \<Longrightarrow> keeps R (case v of None \<Rightarrow> m | Some x \<Rightarrow> f x)"
  "keeps R m \<Longrightarrow> (\<And>c cs. keeps R (g c cs)) \<Longrightarrow> keeps R (case l of [] \<Rightarrow> m | c # cs \<Rightarrow> g c cs)"
  by (auto split: option.split list.split)

lemma keeps_reported [intro]: "keeps R m \<Longrightarrow> keeps R (reportedT m)"
  by (simp add: keeps_def reportedT_def)

lemma keeps_compose [intro]: "keeps R (runCommand p args capture env)" "keeps R (compose args capture env)"
  by (auto simp: keeps_def compose_def runCommand_def Let_def acted split: sum.split)

lemma keeps_query [intro]: "keeps R (queryDatabase sql)"
proof -
  have "keeps R (\<lambda>w s. (Inr (u, d), s\<lparr>postgresIdentity := Some (u, d)\<rparr>))" for u d
    by (simp add: keeps_def learnt)
  then have "keeps R (bindT (compose a True []) (\<lambda>user. bindT (compose b True []) (\<lambda>database.
      (\<lambda>w s. (Inr (user, database), s\<lparr>postgresIdentity := Some (user, database)\<rparr>)))))" for a b
    by (intro kept_bind keeps_compose)
  then have "keeps R getPostgresIdentity"
    by (simp add: keeps_def getPostgresIdentity_def kept split: option.split)
  then show ?thesis unfolding queryDatabase_def by (intro kept_bind keeps_compose)
qed

lemmas keeps_rules = kept_bind keeps_compose keeps_query keeps_basic keeps_cases keeps_reported

lemma keeps_normal: "keeps R normal_worker"
  unfolding normal_worker_def by (intro keeps_rules)

lemma keeps_docker [intro]:
  "keeps R (startMockWorkers n d l h)" "keeps R restoreNormalWorker" "keeps R (readJobAttempts ids)"
  "keeps R (expireTestJobs ids)" "keeps R (forceRemoveWorker x)" "keeps R (removeWorkerRegistryRow r)"
  unfolding startMockWorkers_def restoreNormalWorker_def normal_worker_def readJobAttempts_def expireTestJobs_def
    forceRemoveWorker_def removeWorkerRegistryRow_def Let_def
  by (intro keeps_rules)+

lemma keeps_poll:
  assumes "keeps R ask"
  shows "keeps R (poll_until n deadline pause ask message)"
proof (induction n)
  case (Suc n)
  have "keeps R (bindT ask (\<lambda>found. case found of Some x \<Rightarrow> returnT x
      | None \<Rightarrow> bindT (sleep pause) (\<lambda>_. poll_until n deadline pause ask message)))"
    by (intro keeps_rules assms Suc.IH)
  then show ?case by (simp add: keeps_def kept)
qed (simp add: keeps_basic)

lemma keeps_poll_for [intro]: "keeps R ask \<Longrightarrow> keeps R (poll_for timeout pause ask message)"
  using keeps_poll[of ask] by (simp add: keeps_def poll_for_def)

lemma keeps_waiting [intro]:
  "keeps R (waitForActiveWorkerCount n t)" "keeps R (waitForBusyWorker j t)"
  "keeps R (waitForReplacementWorker j x t)"
  unfolding waitForActiveWorkerCount_def waitForBusyWorker_def waitForReplacementWorker_def
  by (intro keeps_rules keeps_poll_for)+

lemma keeps_idle_check [intro]: "keeps R assertProcessingEnvironmentIsIdle"
proof -
  have "keeps R (\<lambda>w. if P then throwT (m w) w else returnT () w)" for P m
    by (simp add: keeps_def throwT_def returnT_def kept)
  then show ?thesis
    unfolding assertProcessingEnvironmentIsIdle_def readKafkaJobLag_def
    by (intro kept_bind keeps_query keeps_compose keeps_basic)
qed

end

text \<open>With what the sockets do as well, it holds for the programs that use them.\<close>

locale socket_relation = tool_relation +
  assumes heard: "evolves (sockets s) cs \<Longrightarrow> R s (s\<lparr>sockets := cs\<rparr>)"
begin

lemma keeps_sockets: "(\<And>w s. \<exists>cs. evolves (sockets s) cs \<and> snd (m w s) = s\<lparr>sockets := cs\<rparr>) \<Longrightarrow> keeps R m"
  unfolding keeps_def using heard by metis

end

text \<open>
  Time passes, actions are added, and the program's variables stay; commands and requests leave
  the sockets alone.
\<close>

definition same_variables :: "tools \<Rightarrow> tools \<Rightarrow> bool" where
  "same_variables s t \<longleftrightarrow> session t = session s \<and> jobIds t = jobIds s \<and> removedWorkerId t = removedWorkerId s \<and>
     jobSockets t = jobSockets s"

definition later :: "tools \<Rightarrow> tools \<Rightarrow> bool" where
  "later s t \<longleftrightarrow> clock s \<le> clock t \<and> (\<exists>as. actions t = actions s @ as)"

interpretation time: socket_relation later
  by unfold_locales (auto simp: later_def)

interpretation variables: socket_relation same_variables
  by unfold_locales (auto simp: same_variables_def)

definition messages_kept :: "tools \<Rightarrow> tools \<Rightarrow> bool" where
  "messages_kept s t \<longleftrightarrow> evolves (sockets s) (sockets t) \<and> prefix (actions s) (actions t)"

lemma evolves_refl [simp]: "evolves cs cs"
  by (simp add: evolves_def)

lemma evolves_trans: "evolves cs ds \<Longrightarrow> evolves ds es \<Longrightarrow> evolves cs es"
  by (auto simp: evolves_def) (meson order_less_le_trans prefix_order.trans)+

interpretation listening: socket_relation messages_kept
  by unfold_locales (auto simp: messages_kept_def intro: evolves_trans prefix_order.trans)

definition same_sockets :: "tools \<Rightarrow> tools \<Rightarrow> bool" where
  "same_sockets s t \<longleftrightarrow> sockets t = sockets s"

interpretation still: tool_relation same_sockets
  by unfold_locales (auto simp: same_sockets_def)

lemma later_clock: "keeps later m \<Longrightarrow> m w s = (r, t) \<Longrightarrow> clock s \<le> clock t"
  unfolding keeps_def later_def by (metis snd_conv)

section \<open>Waiting ends\<close>

lemma poll_enough:
  assumes "keeps later ask" "deadline - clock s \<le> n * pause" "n \<le> m"
  shows "poll_until m deadline pause ask message w s = poll_until n deadline pause ask message w s"
  using assms(2,3)
proof (induction n arbitrary: m s)
  case 0
  then show ?case by (cases m) (simp_all add: throwT_def)
next
  case (Suc n)
  obtain k where m: "m = Suc k" "n \<le> k" using Suc.prems(2) by (cases m) auto
  obtain r s1 where ask: "ask w s = (r, s1)" by fastforce
  have "clock s \<le> clock s1" using assms(1) ask by (rule later_clock)
  then show ?case
    using Suc.prems(1) Suc.IH[of _ k] m ask by (cases r) (auto simp: bindT_def sleep_def returnT_def split: option.split)
qed

lemma enough_rounds: "0 < pause \<Longrightarrow> timeout \<le> rounds timeout pause * pause"
  unfolding rounds_def using dividend_less_div_times[of pause timeout] by simp

lemma poll_for_enough:
  assumes "keeps later ask" "0 < pause"
  shows "poll_until (rounds timeout pause + k) (clock s + timeout) pause ask message w s =
    poll_for timeout pause ask message w s"
  unfolding poll_for_def using enough_rounds[OF assms(2)] by (intro poll_enough[OF assms(1)]) auto

end
