(* ===== verification/ApiClient.thy ===== *)
theory ApiClient
  imports Tooling "HOL-Library.AList"
begin

text \<open>
  client.mjs: the HTTP workflow of the integration programs. A request that gets no reply throws;
  the text of a reply is parsed as JSON. \<open>Promise.all\<close> over a list runs its members in the order of
  the list, all of them before the first error is looked at.
\<close>

section \<open>Requests\<close>

definition defaultApiBaseUrl :: string where "defaultApiBaseUrl = ''http://localhost:4000''"

definition defaultOrigin :: string where "defaultOrigin = ''http://localhost:5173''"

definition client_terminal :: "string list" where
  "client_terminal = [''COMPLETED'', ''FAILED'', ''CANCELLED'']"

definition send :: "tool_request \<Rightarrow> tool_reply tool" where
  "send rq w s =
     (tw_reply w (actions s) rq,
      s\<lparr>actions := actions s @ [Requested rq], clock := clock s + tw_duration w (actions s)\<rparr>)"

definition reply_ok :: "tool_reply \<Rightarrow> bool" where
  "reply_ok r \<longleftrightarrow> 200 \<le> tp_status r \<and> tp_status r \<le> 299"

text \<open>Reading a property of \<open>null\<close> or of an undefined value throws.\<close>

definition member_of :: "json option \<Rightarrow> string \<Rightarrow> string + json option" where
  "member_of v k =
     (case v of
        None \<Rightarrow> Inl (''Cannot read properties of undefined (reading '' @ [apostrophe] @ k @ [apostrophe] @ '')'')
      | Some j \<Rightarrow>
          if j = JNull then Inl (''Cannot read properties of null (reading '' @ [apostrophe] @ k @ [apostrophe] @ '')'')
          else Inr (json_field k j))"

definition property :: "json \<Rightarrow> string \<Rightarrow> json option tool" where
  "property v k = liftT (member_of (Some v) k)"

definition failure_line :: "string \<Rightarrow> tool_reply \<Rightarrow> json option \<Rightarrow> string" where
  "failure_line operation r e =
     (let serverMessage = (case e of Some (JString t) \<Rightarrow> t | _ \<Rightarrow> js_trim (tp_text r))
      in operation @ '' failed with HTTP '' @ show_nat (tp_status r) @ '': '' @
           (if serverMessage = [] then ''No response message'' else serverMessage))"

definition reply_data :: "tool_world \<Rightarrow> tool_reply \<Rightarrow> json" where
  "reply_data w r =
     (if tp_text r = [] then JObject []
      else case tw_json w (tp_text r) of Some v \<Rightarrow> v | None \<Rightarrow> JObject [])"

definition readResponseJson :: "tool_reply \<Rightarrow> string \<Rightarrow> json tool" where
  "readResponseJson r operation w =
     (if reply_ok r then returnT (reply_data w r) w
      else bindT (property (reply_data w r) ''error'') (\<lambda>e. throwT (failure_line operation r e)) w)"

definition apiHeaders :: "string \<Rightarrow> bool \<Rightarrow> (string \<times> string) list" where
  "apiHeaders sessionCookie includeJson =
     [(''Origin'', defaultOrigin)] @
     (if sessionCookie \<noteq> [] then [(''Cookie'', sessionCookie)] else []) @
     (if includeJson then [(''Content-Type'', ''application/json'')] else [])"

section \<open>Sessions and uploads\<close>

definition createSession :: "string \<Rightarrow> tool_session tool" where
  "createSession apiBaseUrl =
     bindT (send \<lparr>tq_method = ''POST'', tq_url = apiBaseUrl @ ''/api/session'',
         tq_headers = apiHeaders [] False, tq_body = NoBody\<rparr>) (\<lambda>response.
       bindT (readResponseJson response ''Session creation'') (\<lambda>_.
         case map_option (\<lambda>c. hd (js_split (CHR '';'') c)) (tp_set_cookie response) of
           Some (c # cs) \<Rightarrow> returnT \<lparr>ts_apiBaseUrl = apiBaseUrl, ts_cookie = c # cs\<rparr>
         | _ \<Rightarrow> throwT ''Session creation did not return a signed cookie''))"

text \<open>Undefined members are left out of the JSON text.\<close>

definition defined :: "(string \<times> json option) list \<Rightarrow> json" where
  "defined kvs = JObject (List.map_filter (\<lambda>(k, v). map_option (Pair k) v) kvs)"

definition post_json :: "tool_session \<Rightarrow> string \<Rightarrow> json \<Rightarrow> tool_request" where
  "post_json ses path body =
     \<lparr>tq_method = ''POST'', tq_url = ts_apiBaseUrl ses @ path,
      tq_headers = apiHeaders (ts_cookie ses) True, tq_body = JsonBody body\<rparr>"

definition get_from :: "tool_session \<Rightarrow> string \<Rightarrow> tool_request" where
  "get_from ses path =
     \<lparr>tq_method = ''GET'', tq_url = ts_apiBaseUrl ses @ path,
      tq_headers = apiHeaders (ts_cookie ses) False, tq_body = NoBody\<rparr>"

definition requestUploadPermission :: "tool_session \<Rightarrow> string \<Rightarrow> string \<Rightarrow> nat \<Rightarrow> json tool" where
  "requestUploadPermission ses fileName contentType fileSize =
     bindT (send (post_json ses ''/api/uploads/presign''
         (JObject [(''fileName'', JString fileName), (''contentType'', JString contentType),
           (''fileSize'', JNumber (Finite (of_nat fileSize)))]))) (\<lambda>presignResponse.
       readResponseJson presignResponse ''Presigned upload permission'')"

definition uploadBytesToStorage :: "json \<Rightarrow> string \<Rightarrow> nat list \<Rightarrow> unit tool" where
  "uploadBytesToStorage permission contentType audioBytes =
     bindT (property permission ''uploadUrl'') (\<lambda>url w.
       bindT (send \<lparr>tq_method = ''PUT'',
           tq_url = (case url of Some (JString t) \<Rightarrow> t | _ \<Rightarrow> tw_string w url),
           tq_headers = [(''Content-Type'', contentType)], tq_body = BytesBody audioBytes\<rparr>) (\<lambda>uploadResponse.
         if reply_ok uploadResponse then returnT ()
         else throwT (''Direct storage upload failed with HTTP '' @ show_nat (tp_status uploadResponse))) w)"

definition createJobForUpload :: "tool_session \<Rightarrow> string \<Rightarrow> json option \<Rightarrow> json tool" where
  "createJobForUpload ses originalFileName inputObjectKey =
     bindT (send (post_json ses ''/api/jobs''
         (defined [(''originalFileName'', Some (JString originalFileName)),
           (''inputObjectKey'', inputObjectKey)]))) (\<lambda>jobResponse.
       readResponseJson jobResponse ''Job creation'')"

definition submitAudioBytes :: "tool_session \<Rightarrow> string \<Rightarrow> string \<Rightarrow> nat list \<Rightarrow> json tool" where
  "submitAudioBytes ses fileName contentType audioBytes =
     bindT (requestUploadPermission ses fileName contentType (length audioBytes)) (\<lambda>permission.
       bindT (uploadBytesToStorage permission contentType audioBytes) (\<lambda>_.
         bindT (property permission ''objectKey'') (\<lambda>key.
           createJobForUpload ses fileName key)))"

text \<open>The bytes of ASCII text.\<close>

definition text_bytes :: "string \<Rightarrow> nat list" where
  "text_bytes = map of_char"

definition createSmallAudioObject :: "nat \<Rightarrow> string \<Rightarrow> nat list" where
  "createSmallAudioObject index uuid =
     text_bytes (js_join newline [''ID3'', ''Distributed integration test '' @ show_nat index, uuid, []])"

definition submitTestJob :: "tool_session \<Rightarrow> nat \<Rightarrow> json tool" where
  "submitTestJob ses index w s =
     submitAudioBytes ses
       (''distributed-test-'' @ show_nat (clock s) @ ''-'' @ show_nat index @ ''.mp3'') ''audio/mpeg''
       (createSmallAudioObject index (tw_uuid w (length (actions s)))) w s"

text \<open>
  \<open>Promise.all\<close>: every member runs, then the first error of the list is thrown.
\<close>

fun allT :: "('a \<Rightarrow> 'b tool) \<Rightarrow> 'a list \<Rightarrow> 'b list tool" where
  "allT f [] = returnT []"
| "allT f (x # xs) = (\<lambda>w s.
     case f x w s of (r, s1) \<Rightarrow>
       (case allT f xs w s1 of (rs, s2) \<Rightarrow> (bindE r (\<lambda>y. bindE rs (\<lambda>ys. Inr (y # ys))), s2)))"

definition submitTestJobs :: "tool_session \<Rightarrow> nat \<Rightarrow> json list tool" where
  "submitTestJobs ses count = allT (submitTestJob ses) [1..<Suc count]"

section \<open>Jobs\<close>

definition client_fetchJob :: "tool_session \<Rightarrow> string \<Rightarrow> json tool" where
  "client_fetchJob ses jobId =
     bindT (send (get_from ses (''/api/jobs/'' @ jobId))) (\<lambda>response.
       readResponseJson response (''Job '' @ jobId @ '' lookup''))"

definition client_fetchDownloadUrls :: "tool_session \<Rightarrow> string \<Rightarrow> json tool" where
  "client_fetchDownloadUrls ses jobId =
     bindT (send (get_from ses (''/api/jobs/'' @ jobId @ ''/downloads''))) (\<lambda>response.
       readResponseJson response (''Job '' @ jobId @ '' download-link request''))"

definition is_terminal :: "json option \<Rightarrow> bool" where
  "is_terminal v \<longleftrightarrow> (\<exists>t \<in> set client_terminal. v = Some (JString t))"

definition cancelJobIfActive :: "tool_session \<Rightarrow> string \<Rightarrow> unit tool" where
  "cancelJobIfActive ses jobId =
     reportedT (bindT (client_fetchJob ses jobId) (\<lambda>job.
       bindT (property job ''status'') (\<lambda>status.
         if is_terminal status then returnT ()
         else bindT (send \<lparr>tq_method = ''POST'', tq_url = ts_apiBaseUrl ses @ ''/api/jobs/'' @ jobId @ ''/cancel'',
                 tq_headers = apiHeaders (ts_cookie ses) False, tq_body = NoBody\<rparr>) (\<lambda>response.
           if \<not> reply_ok response \<and> tp_status response \<noteq> 409
           then bindT (readResponseJson response (''Job '' @ jobId @ '' cancellation'')) (\<lambda>_. returnT ())
           else returnT ()))))"

text \<open>
  \<open>waitForJobs\<close>. The map of finished jobs is an association list in the order of insertion; its
  keys are the identifiers of the answers. A round that leaves jobs unfinished sleeps, so fuel of
  \<open>rounds\<close> is enough.
\<close>

type_synonym final_jobs = "(json option \<times> json) list"

fun record_terminals :: "json list \<Rightarrow> final_jobs \<Rightarrow> final_jobs tool" where
  "record_terminals [] final = returnT final"
| "record_terminals (job # snapshots) final =
     bindT (property job ''id'') (\<lambda>i. bindT (property job ''status'') (\<lambda>st.
       record_terminals snapshots (if is_terminal st then AList.update i job final else final)))"

definition unfinished :: "final_jobs \<Rightarrow> string list \<Rightarrow> string list" where
  "unfinished final ids = filter (\<lambda>j. map_of final (Some (JString j)) = None) ids"

fun wait_rounds :: "nat \<Rightarrow> tool_session \<Rightarrow> string list \<Rightarrow> nat \<Rightarrow> nat \<Rightarrow> final_jobs \<Rightarrow> final_jobs tool" where
  "wait_rounds 0 ses ids deadline pause final = returnT final"
| "wait_rounds (Suc n) ses ids deadline pause final = (\<lambda>w s.
     if length final < length ids \<and> clock s < deadline
     then bindT (allT (client_fetchJob ses) (unfinished final ids)) (\<lambda>snapshots.
            bindT (record_terminals snapshots final) (\<lambda>final'.
              if length final' < length ids
              then bindT (sleep pause) (\<lambda>_. wait_rounds n ses ids deadline pause final')
              else returnT final')) w s
     else (Inr final, s))"

definition waitForJobs :: "tool_session \<Rightarrow> string list \<Rightarrow> nat \<Rightarrow> nat \<Rightarrow> json option list tool" where
  "waitForJobs ses ids timeout pause w s =
     bindT (wait_rounds (rounds timeout pause) ses ids (clock s + timeout) pause []) (\<lambda>final.
       if length final \<noteq> length ids
       then throwT (''Timed out waiting for jobs: '' @ comma_list (unfinished final ids))
       else returnT (map (\<lambda>j. map_of final (Some (JString j))) ids)) w s"

section \<open>What the client keeps\<close>

context tool_relation
begin

lemma kept_send [intro]: "keeps R (send rq)"
  by (simp add: keeps_def send_def acted)

lemma keeps_property [intro]: "keeps R (property v k)"
  unfolding property_def by (rule keeps_basic)

lemma keeps_response [intro]: "keeps R (readResponseJson r operation)"
proof -
  have "keeps R (bindT (property v ''error'') (\<lambda>e. throwT (failure_line operation r e)))" for v
    by (intro keeps_rules keeps_property)
  then have "R s (snd (bindT (property v ''error'') (\<lambda>e. throwT (failure_line operation r e)) w s))" for v w s
    unfolding keeps_def by blast
  then show ?thesis by (auto simp: keeps_def readResponseJson_def returnT_def kept)
qed

lemma keeps_session [intro]: "keeps R (createSession url)"
  unfolding createSession_def by (intro keeps_rules kept_send keeps_response)

lemma keeps_upload [intro]:
  "keeps R (requestUploadPermission ses n t z)" "keeps R (uploadBytesToStorage p t b)"
  "keeps R (createJobForUpload ses n k)"
proof -
  show "keeps R (requestUploadPermission ses n t z)" "keeps R (createJobForUpload ses n k)"
    unfolding requestUploadPermission_def createJobForUpload_def by (intro keeps_rules kept_send keeps_response)+
  have "keeps R (bindT (send rq) (\<lambda>r. if reply_ok r then returnT () else throwT (m r)))" for rq m
    by (intro keeps_rules kept_send)
  then show "keeps R (uploadBytesToStorage p t b)"
    unfolding uploadBytesToStorage_def by (intro kept_bind keeps_property) (simp add: keeps_def)
qed

lemma keeps_submit [intro]: "keeps R (submitAudioBytes ses n t b)" "keeps R (submitTestJob ses i)"
proof -
  show s: "keeps R (submitAudioBytes ses n t b)" for n t b
    unfolding submitAudioBytes_def by (intro kept_bind keeps_upload keeps_property)
  show "keeps R (submitTestJob ses i)" using s by (simp add: keeps_def submitTestJob_def)
qed

lemma keeps_all [intro]:
  assumes "\<And>x. keeps R (f x)"
  shows "keeps R (allT f xs)"
proof (induction xs)
  case (Cons x xs)
  then show ?case using assms chained
    unfolding keeps_def by (simp add: split_beta) blast
qed (simp add: keeps_basic)

lemma keeps_jobs [intro]: "keeps R (client_fetchJob ses j)" "keeps R (client_fetchDownloadUrls ses j)"
  "keeps R (cancelJobIfActive ses j)" "keeps R (submitTestJobs ses n)"
  unfolding client_fetchJob_def client_fetchDownloadUrls_def cancelJobIfActive_def submitTestJobs_def
  by (intro keeps_rules kept_send keeps_response keeps_property keeps_all keeps_submit)+

lemma keeps_record [intro]: "keeps R (record_terminals js final)"
proof (induction js arbitrary: final)
  case (Cons job js)
  show ?case unfolding record_terminals.simps by (intro keeps_rules keeps_property Cons.IH)
qed (simp add: keeps_basic)

lemma keeps_wait_rounds: "keeps R (wait_rounds n ses ids deadline pause final)"
proof (induction n arbitrary: final)
  case (Suc n)
  have "keeps R (bindT (allT (client_fetchJob ses) (unfinished final ids)) (\<lambda>snapshots.
      bindT (record_terminals snapshots final) (\<lambda>final'.
        if length final' < length ids
        then bindT (sleep pause) (\<lambda>_. wait_rounds n ses ids deadline pause final')
        else returnT final')))"
    by (intro keeps_rules keeps_all keeps_jobs keeps_record Suc.IH)
  then show ?case by (simp add: keeps_def kept)
qed (simp add: keeps_basic)

lemma keeps_wait [intro]: "keeps R (waitForJobs ses ids timeout pause)"
proof -
  have "keeps R (bindT (wait_rounds n ses ids d pause []) (\<lambda>final.
      if length final \<noteq> length ids then throwT (m final) else returnT (v final)))" for n d m
    and v :: "final_jobs \<Rightarrow> json option list"
    by (intro keeps_rules keeps_wait_rounds)
  then show ?thesis by (simp add: keeps_def waitForJobs_def)
qed

end

section \<open>Waiting for jobs\<close>

text \<open>More fuel than the rounds changes nothing.\<close>

lemma wait_rounds_enough:
  assumes "deadline - clock s \<le> n * pause" "n \<le> m"
  shows "wait_rounds m ses ids deadline pause final w s = wait_rounds n ses ids deadline pause final w s"
  using assms
proof (induction n arbitrary: m s final)
  case 0
  then show ?case by (cases m) (simp_all add: returnT_def)
next
  case (Suc n)
  obtain k where m: "m = Suc k" "n \<le> k" using Suc.prems(2) by (cases m) auto
  obtain r s1 where f: "allT (client_fetchJob ses) (unfinished final ids) w s = (r, s1)" by fastforce
  have s1: "clock s \<le> clock s1"
    by (rule later_clock[OF time.keeps_all[OF time.keeps_jobs(1)] f])
  show ?case
  proof (cases r)
    case (Inr snapshots)
    obtain r2 s2 where g: "record_terminals snapshots final w s1 = (r2, s2)" by fastforce
    have "clock s1 \<le> clock s2" by (rule later_clock[OF time.keeps_record g])
    then show ?thesis
      using Suc.prems(1) Suc.IH[of _ k] m f g s1 Inr by (cases r2) (auto simp: bindT_def sleep_def returnT_def)
  qed (simp add: m f bindT_def)
qed

lemma bindT_Inr:
  "bindT m f w s = (Inr b, t) \<longleftrightarrow> (\<exists>a u. m w s = (Inr a, u) \<and> f a w u = (Inr b, t))"
  by (auto simp: bindT_def split: prod.splits sum.splits)

lemma property_Inr: "property v k w s = (Inr x, t) \<longleftrightarrow> v \<noteq> JNull \<and> x = json_field k v \<and> t = s"
  by (auto simp: property_def member_of_def liftT_def)

lemma allT_member:
  assumes "allT f xs w s = (Inr ys, t)" "y \<in> set ys"
  shows "\<exists>x \<in> set xs. \<exists>u v. f x w u = (Inr y, v)"
  using assms
proof (induction xs arbitrary: s ys)
  case (Cons x xs)
  then show ?case by (fastforce simp: bindE_Inr split: prod.splits)
qed (simp add: returnT_def)

text \<open>A lookup that succeeds answers with the job asked for.\<close>

definition honest :: "tool_world \<Rightarrow> tool_session \<Rightarrow> bool" where
  "honest w ses \<longleftrightarrow> (\<forall>h j r. tw_reply w h (get_from ses (''/api/jobs/'' @ j)) = Inr r \<longrightarrow> reply_ok r \<longrightarrow>
     json_field ''id'' (reply_data w r) = Some (JString j))"

lemma fetched_id:
  assumes "honest w ses" "client_fetchJob ses j w s = (Inr v, t)"
  shows "json_field ''id'' v = Some (JString j)"
proof -
  obtain r u where r: "send (get_from ses (''/api/jobs/'' @ j)) w s = (Inr r, u)"
    "readResponseJson r (''Job '' @ j @ '' lookup'') w u = (Inr v, t)"
    using assms(2) by (auto simp: client_fetchJob_def bindT_Inr)
  have "reply_ok r" "v = reply_data w r"
    using r(2) by (auto simp: readResponseJson_def returnT_def bindT_Inr throwT_def split: if_splits)
  then show ?thesis using r(1) assms(1) by (auto simp: send_def honest_def)
qed

text \<open>Finished jobs under their identifiers, each of them asked for.\<close>

definition final_ok :: "string list \<Rightarrow> final_jobs \<Rightarrow> bool" where
  "final_ok ids final \<longleftrightarrow> distinct (map fst final) \<and>
     (\<forall>(i, job) \<in> set final. i = json_field ''id'' job \<and> is_terminal (json_field ''status'' job) \<and>
        i \<in> (\<lambda>j. Some (JString j)) ` set ids)"

lemma final_ok_update:
  assumes "final_ok ids final" "is_terminal (json_field ''status'' job)"
    "json_field ''id'' job \<in> (\<lambda>j. Some (JString j)) ` set ids"
  shows "final_ok ids (AList.update (json_field ''id'' job) job final)"
proof -
  have "x \<in> set final \<or> x = (k, v)" if "x \<in> set (AList.update k v final)" for x k v
    using that by (induction final) (auto split: if_splits)
  then show ?thesis using assms distinct_update[of final] unfolding final_ok_def by fast
qed

lemma record_ok:
  assumes "final_ok ids final" "\<forall>job \<in> set js. json_field ''id'' job \<in> (\<lambda>j. Some (JString j)) ` set ids"
    "record_terminals js final w s = (Inr final', t)"
  shows "final_ok ids final'"
  using assms
proof (induction js arbitrary: final s)
  case (Cons job js)
  then show ?case using final_ok_update[of ids final job]
    by (auto simp: bindT_Inr property_Inr split: if_splits)
qed (simp add: returnT_def)

lemma wait_rounds_Suc:
  assumes "wait_rounds (Suc n) ses ids deadline pause final w s = (Inr final', t)"
    "length final < length ids \<and> clock s < deadline"
  obtains js u f v where "allT (client_fetchJob ses) (unfinished final ids) w s = (Inr js, u)"
    "record_terminals js final w u = (Inr f, v)"
    "(if length f < length ids then bindT (sleep pause) (\<lambda>_. wait_rounds n ses ids deadline pause f)
      else returnT f) w v = (Inr final', t)"
proof -
  have "bindT (allT (client_fetchJob ses) (unfinished final ids)) (\<lambda>snapshots.
      bindT (record_terminals snapshots final) (\<lambda>final'.
        if length final' < length ids
        then bindT (sleep pause) (\<lambda>_. wait_rounds n ses ids deadline pause final')
        else returnT final')) w s = (Inr final', t)"
    using assms by simp
  then show thesis unfolding bindT_Inr[of "allT f xs" for f xs] bindT_Inr[of "record_terminals js g" for js g]
    using that by blast
qed

lemma wait_rounds_ok:
  assumes "honest w ses" "final_ok ids final" "wait_rounds n ses ids deadline pause final w s = (Inr final', t)"
  shows "final_ok ids final'"
  using assms(2,3)
proof (induction n arbitrary: final s)
  case (Suc n)
  show ?case
  proof (cases "length final < length ids \<and> clock s < deadline")
    case True
    obtain js u f v where run: "allT (client_fetchJob ses) (unfinished final ids) w s = (Inr js, u)"
      "record_terminals js final w u = (Inr f, v)"
      "(if length f < length ids then bindT (sleep pause) (\<lambda>_. wait_rounds n ses ids deadline pause f)
        else returnT f) w v = (Inr final', t)"
      by (rule wait_rounds_Suc[OF Suc.prems(2) True])
    have "\<forall>job \<in> set js. json_field ''id'' job \<in> (\<lambda>j. Some (JString j)) ` set ids"
    proof
      fix job assume "job \<in> set js"
      then obtain j u v where "j \<in> set (unfinished final ids)" "client_fetchJob ses j w u = (Inr job, v)"
        using allT_member[OF run(1)] by blast
      then show "json_field ''id'' job \<in> (\<lambda>j. Some (JString j)) ` set ids"
        using fetched_id[OF assms(1)] by (auto simp: unfinished_def)
    qed
    then have "final_ok ids f" by (rule record_ok[OF Suc.prems(1) _ run(2)])
    then show ?thesis using run(3) Suc.IH[of f] by (auto simp: bindT_Inr returnT_def split: if_splits)
  qed (use Suc.prems in auto)
qed (auto simp: returnT_def)

lemma final_complete:
  assumes "final_ok ids final" "length final = length ids" "j \<in> set ids"
  obtains job where "map_of final (Some (JString j)) = Some job" "json_field ''id'' job = Some (JString j)"
    "is_terminal (json_field ''status'' job)"
proof -
  let ?K = "fst ` set final" and ?I = "(\<lambda>j. Some (JString j)) ` set ids"
  have d: "distinct (map fst final)" "?K \<subseteq> ?I" using assms(1) by (auto simp: final_ok_def)
  have "card ?K = length ids" using distinct_card[OF d(1)] assms(2) by simp
  moreover have "card ?I \<le> length ids" using card_image_le[of "set ids"] card_length[of ids] le_trans by blast
  ultimately have "?K = ?I" using d(2) by (intro card_seteq) auto
  then have "Some (JString j) \<in> ?K" using assms(3) by auto
  then obtain job where "(Some (JString j), job) \<in> set final" by auto
  then have "map_of final (Some (JString j)) = Some job" "json_field ''id'' job = Some (JString j)"
    "is_terminal (json_field ''status'' job)"
    using d(1) assms(1) by (auto simp: final_ok_def)
  then show thesis by (rule that)
qed

text \<open>Jobs are missing only when the deadline has passed.\<close>

lemma wait_rounds_late:
  assumes "wait_rounds n ses ids deadline pause final w s = (Inr final', t)" "deadline - clock s \<le> n * pause"
    "length final' < length ids"
  shows "deadline \<le> clock t"
  using assms
proof (induction n arbitrary: final s)
  case (Suc n)
  show ?case
  proof (cases "length final < length ids \<and> clock s < deadline")
    case True
    obtain js u f v where run: "allT (client_fetchJob ses) (unfinished final ids) w s = (Inr js, u)"
      "record_terminals js final w u = (Inr f, v)"
      "(if length f < length ids then bindT (sleep pause) (\<lambda>_. wait_rounds n ses ids deadline pause f)
        else returnT f) w v = (Inr final', t)"
      by (rule wait_rounds_Suc[OF Suc.prems(1) True])
    have "clock s \<le> clock u" by (rule later_clock[OF time.keeps_all[OF time.keeps_jobs(1)] run(1)])
    moreover have "clock u \<le> clock v" by (rule later_clock[OF time.keeps_record run(2)])
    ultimately have uv: "clock s \<le> clock v" by simp
    show ?thesis
    proof (cases "length f < length ids")
      case less: True
      define x where "x = snd (sleep pause w v)"
      have "wait_rounds n ses ids deadline pause f w x = (Inr final', t)"
        using run(3) less by (simp add: bindT_def sleep_def x_def)
      moreover have "deadline - clock x \<le> n * pause" using Suc.prems(2) uv by (simp add: x_def sleep_def)
      ultimately show ?thesis using Suc.prems(3) by (rule Suc.IH)
    qed (use run(3) Suc.prems(3) in \<open>simp add: returnT_def\<close>)
  qed (use Suc.prems in auto)
qed (auto simp: returnT_def)

text \<open>
  What waitForJobs returns. When it returns, its result has, for every job asked for and in that order,
  the answer about that job, and each of them is completed, failed or cancelled.
\<close>

theorem waitForJobs_truthful:
  assumes "honest w ses" "waitForJobs ses ids timeout pause w s = (Inr rs, t)"
  shows "list_all2 (\<lambda>j r. \<exists>job. r = Some job \<and> json_field ''id'' job = Some (JString j) \<and>
    is_terminal (json_field ''status'' job)) ids rs"
proof -
  obtain final u where final: "wait_rounds (rounds timeout pause) ses ids (clock s + timeout) pause [] w s = (Inr final, u)"
    "length final = length ids" "rs = map (\<lambda>j. map_of final (Some (JString j))) ids"
    using assms(2) by (auto simp: waitForJobs_def bindT_Inr throwT_def returnT_def split: if_splits)
  have "final_ok ids []" by (simp add: final_ok_def)
  then have "final_ok ids final" by (rule wait_rounds_ok[OF assms(1) _ final(1)])
  then have "\<exists>job. map_of final (Some (JString j)) = Some job \<and> json_field ''id'' job = Some (JString j) \<and>
      is_terminal (json_field ''status'' job)" if "j \<in> set ids" for j
    using final_complete[OF _ final(2) that] by blast
  then show ?thesis by (simp add: final(3) list_all2_map2 list.rel_refl_strong)
qed

text \<open>
  WaitForJobs ends. The rounds that fit into the timeout are enough, more of them change nothing,
  and jobs are left over only when the deadline has passed.
\<close>

theorem waitForJobs_ends:
  assumes "0 < pause"
  shows "wait_rounds (rounds timeout pause + k) ses ids (clock s + timeout) pause [] w s =
      wait_rounds (rounds timeout pause) ses ids (clock s + timeout) pause [] w s \<and>
    (wait_rounds (rounds timeout pause) ses ids (clock s + timeout) pause [] w s = (Inr final, t) \<and>
      length final < length ids \<longrightarrow> clock s + timeout \<le> clock t)"
  using enough_rounds[OF assms, of timeout] wait_rounds_late[of "rounds timeout pause" ses ids "clock s + timeout" pause "[]" w s]
    wait_rounds_enough[of "clock s + timeout" s "rounds timeout pause" pause "rounds timeout pause + k" ses ids "[]" w]
  by auto

section \<open>Examples\<close>

text \<open>A world where every job is completed, and one where no request is ever answered with an error.\<close>

definition finished_world :: tool_world where
  "finished_world = \<lparr>tw_output = (\<lambda>h c. Inr []),
     tw_reply = (\<lambda>h rq. Inr \<lparr>tp_status = 200, tp_text = tq_url rq, tp_set_cookie = None\<rparr>),
     tw_events = (\<lambda>h. []), tw_duration = (\<lambda>h. 5), tw_late = (\<lambda>t. 1),
     tw_json = (\<lambda>t. Some (JObject [(''id'', JString (drop 10 t)), (''status'', JString ''COMPLETED'')])),
     tw_string = (\<lambda>v. ''undefined''), tw_url = (\<lambda>u. None), tw_uuid = (\<lambda>n. ''u'')\<rparr>"

definition local_session :: tool_session where
  "local_session = \<lparr>ts_apiBaseUrl = [], ts_cookie = ''c''\<rparr>"

definition started_tools :: tools where
  "started_tools = \<lparr>actions = [], clock = 0, postgresIdentity = None, sockets = [], session = None,
     jobIds = [], removedWorkerId = None, jobSockets = []\<rparr>"

theorem waitForJobs_truthful_witness:
  "\<exists>rs t. waitForJobs local_session [''a'', ''b''] 1000 500 finished_world started_tools = (Inr rs, t) \<and>
     list_all2 (\<lambda>j r. \<exists>job. r = Some job \<and> json_field ''id'' job = Some (JString j) \<and>
       is_terminal (json_field ''status'' job)) [''a'', ''b''] rs"
proof -
  have h: "honest finished_world local_session"
    by (simp add: honest_def finished_world_def local_session_def get_from_def reply_ok_def reply_data_def json_field_def)
  have r: "rounds 1000 500 = Suc (Suc (Suc 0))" by (simp add: rounds_def)
  obtain rs t where run: "waitForJobs local_session [''a'', ''b''] 1000 500 finished_world started_tools = (Inr rs, t)"
    by (simp add: waitForJobs_def r bindT_def unfinished_def client_fetchJob_def send_def get_from_def
        readResponseJson_def reply_ok_def reply_data_def finished_world_def local_session_def started_tools_def
        returnT_def bindE_def property_def member_of_def liftT_def json_field_def is_terminal_def client_terminal_def)
  show ?thesis using waitForJobs_truthful[OF h run] run by blast
qed

theorem waitForJobs_ends_witness:
  "wait_rounds (rounds 1000 500 + 7) local_session [''a''] 1000 500 [] finished_world started_tools =
   wait_rounds (rounds 1000 500) local_session [''a''] 1000 500 [] finished_world started_tools"
proof -
  have now: "clock started_tools + 1000 = 1000" "0 < (500 :: nat)" by (simp_all add: started_tools_def)
  show ?thesis by (rule waitForJobs_ends[OF now(2), where timeout = 1000 and s = started_tools, unfolded now(1), THEN conjunct1])
qed

end
