(* ===== verification/SocketClient.thy ===== *)
theory SocketClient
  imports ApiClient
begin

text \<open>
  websocket-client.mjs: the WebSocket of an integration program as a machine over what its socket
  reports, with waits that look through the retained messages first and then listen; and the two
  operations that programs await, connecting and waiting, over the sockets of a program.
\<close>

section \<open>One socket\<close>

type_synonym waiter = "nat \<times> (json \<Rightarrow> string + bool) \<times> string"

definition new_socket :: client_socket where
  "new_socket = \<lparr>cs_messages = [], cs_waiting = [], cs_settled = [], cs_next = 0, cs_closing = False, cs_sent = []\<rparr>"

text \<open>\<open>cleanup\<close> followed by \<open>resolve\<close> or \<open>reject\<close> of one wait, and the rejection of all of them.\<close>

definition settle_wait :: "nat \<Rightarrow> string + json \<Rightarrow> client_socket \<Rightarrow> client_socket" where
  "settle_wait k r s =
     s\<lparr>cs_waiting := filter (\<lambda>x. fst x \<noteq> k) (cs_waiting s), cs_settled := cs_settled s @ [(k, r)]\<rparr>"

definition reject_all :: "(string \<Rightarrow> string) \<Rightarrow> client_socket \<Rightarrow> client_socket" where
  "reject_all message s =
     s\<lparr>cs_waiting := [], cs_settled := cs_settled s @ map (\<lambda>(k, p, d). (k, Inl (message d))) (cs_waiting s)\<rparr>"

text \<open>
  The listeners of a message are called in the order of their registration, until a predicate
  throws.
\<close>

fun offer :: "json \<Rightarrow> waiter list \<Rightarrow> client_socket \<Rightarrow> string option \<times> client_socket" where
  "offer m [] s = (None, s)"
| "offer m ((k, p, d) # ws) s =
     (case p m of
        Inl e \<Rightarrow> (Some e, s)
      | Inr b \<Rightarrow> offer m ws (if b then settle_wait k (Inr m) s else s))"

text \<open>
  \<open>parse\<close> is \<open>JSON.parse\<close>. A text that is not JSON, and an error thrown by a listener, reject every
  wait.
\<close>

definition parseServerMessage :: "(string \<Rightarrow> json option) \<Rightarrow> string \<Rightarrow> string + json" where
  "parseServerMessage parse messageText =
     (case parse messageText of
        None \<Rightarrow> Inl (''Backend sent a non-JSON WebSocket message: '' @ messageText)
      | Some m \<Rightarrow> Inr m)"

definition text_arrives :: "(string \<Rightarrow> json option) \<Rightarrow> string \<Rightarrow> client_socket \<Rightarrow> client_socket" where
  "text_arrives parse raw s =
     (case parseServerMessage parse raw of
        Inl e \<Rightarrow> reject_all (\<lambda>d. e) s
      | Inr m \<Rightarrow>
          (case offer m (cs_waiting s) (s\<lparr>cs_messages := cs_messages s @ [m]\<rparr>) of
             (None, s2) \<Rightarrow> s2
           | (Some e, s2) \<Rightarrow> reject_all (\<lambda>d. e) s2))"

definition ended_message :: "nat \<Rightarrow> string \<Rightarrow> string \<Rightarrow> string" where
  "ended_message code reason d =
     ''WebSocket closed while waiting for '' @ d @ '': code '' @ show_nat code @
       (if reason \<noteq> [] then '', reason '' @ reason else [])"

fun client_step :: "(string \<Rightarrow> json option) \<Rightarrow> client_event \<Rightarrow> client_socket \<Rightarrow> client_socket" where
  "client_step parse (TextArrives raw) s = text_arrives parse raw s"
| "client_step parse (SocketFails e) s =
     reject_all (\<lambda>d. ''WebSocket failed while waiting for '' @ d @ '': '' @ e) s"
| "client_step parse (SocketEnds code reason) s =
     reject_all (ended_message code reason) (s\<lparr>cs_closing := True\<rparr>)"

text \<open>
  \<open>waitForMessage\<close> up to its promise: an answer from the retained messages, which \<open>find\<close> looks
  through until a predicate holds or throws, or the number of a new wait.
\<close>

fun find_message :: "(json \<Rightarrow> string + bool) \<Rightarrow> json list \<Rightarrow> string + json option" where
  "find_message p [] = Inr None"
| "find_message p (m # ms) =
     (case p m of Inl e \<Rightarrow> Inl e | Inr b \<Rightarrow> if b then Inr (Some m) else find_message p ms)"

datatype wait_start = Answered json | Waiting nat

definition waitForMessage ::
    "(json \<Rightarrow> string + bool) \<Rightarrow> string \<Rightarrow> nat \<Rightarrow> client_socket \<Rightarrow> (string + wait_start) \<times> client_socket" where
  "waitForMessage p d startIndex s =
     (case find_message p (drop startIndex (cs_messages s)) of
        Inl e \<Rightarrow> (Inl e, s)
      | Inr found \<Rightarrow>
          if js_truthy found then (Inr (Answered (the found)), s)
          else (Inr (Waiting (cs_next s)),
                s\<lparr>cs_waiting := cs_waiting s @ [(cs_next s, p, d)], cs_next := Suc (cs_next s)\<rparr>))"

definition wait_times_out :: "nat \<Rightarrow> client_socket \<Rightarrow> client_socket" where
  "wait_times_out k s =
     (case map_of (cs_waiting s) k of
        None \<Rightarrow> s
      | Some (p, d) \<Rightarrow> settle_wait k (Inl (''Timed out waiting for '' @ d)) s)"

definition close_client :: "client_socket \<Rightarrow> client_socket" where
  "close_client s = s\<lparr>cs_closing := True\<rparr>"

text \<open>The index is taken before the message is sent; a socket that is closing sends nothing.\<close>

definition subscribe_client :: "string \<Rightarrow> client_socket \<Rightarrow> nat \<times> client_socket" where
  "subscribe_client jobId s =
     (length (cs_messages s),
      if cs_closing s then s
      else s\<lparr>cs_sent := cs_sent s @ [JObject [(''type'', JString ''subscribe''), (''jobId'', JString jobId)]]\<rparr>)"

section \<open>Waiting misses nothing\<close>

datatype socket_use =
    Reports client_event
  | StartsWait "json \<Rightarrow> string + bool" string nat
  | TimesOut nat
  | Closes
  | Subscribes string

fun use_step :: "(string \<Rightarrow> json option) \<Rightarrow> socket_use \<Rightarrow> client_socket \<Rightarrow> client_socket" where
  "use_step parse (Reports e) s = client_step parse e s"
| "use_step parse (StartsWait p d start) s = snd (waitForMessage p d start s)"
| "use_step parse (TimesOut k) s = wait_times_out k s"
| "use_step parse Closes s = close_client s"
| "use_step parse (Subscribes j) s = snd (subscribe_client j s)"

text \<open>
  What holds of wait \<open>k\<close>, registered with predicate \<open>p\<close> and index \<open>start\<close>: while it listens no
  message from the index on was the one it waits for, and a message that resolved it was.
\<close>

definition registered_ok :: "nat \<Rightarrow> (json \<Rightarrow> string + bool) \<Rightarrow> nat \<Rightarrow> client_socket \<Rightarrow> bool" where
  "registered_ok k p start s \<longleftrightarrow> client_ok s \<and> k < cs_next s \<and> start \<le> length (cs_messages s) \<and>
     k \<in> fst ` set (cs_waiting s) \<union> fst ` set (cs_settled s) \<and>
     (\<forall>q d. (k, q, d) \<in> set (cs_waiting s) \<longrightarrow> q = p) \<and>
     (\<forall>m. (k, Inr m) \<in> set (cs_settled s) \<longrightarrow> m \<in> set (drop start (cs_messages s)) \<and> p m = Inr True)"

definition nothing_missed :: "nat \<Rightarrow> (json \<Rightarrow> string + bool) \<Rightarrow> nat \<Rightarrow> client_socket \<Rightarrow> bool" where
  "nothing_missed k p start s \<longleftrightarrow> (k \<in> fst ` set (cs_waiting s) \<longrightarrow>
     (\<forall>m \<in> set (drop start (cs_messages s)). p m = Inr False))"

text \<open>Waits that a message resolves, and the state after resolving them.\<close>

definition hits :: "json \<Rightarrow> waiter list \<Rightarrow> waiter list" where
  "hits m ws = filter (\<lambda>x. fst (snd x) m = Inr True) ws"

definition moved :: "waiter list \<Rightarrow> (waiter \<Rightarrow> string + json) \<Rightarrow> client_socket \<Rightarrow> client_socket" where
  "moved ws f s =
     s\<lparr>cs_waiting := filter (\<lambda>x. fst x \<notin> fst ` set ws) (cs_waiting s),
       cs_settled := cs_settled s @ map (\<lambda>x. (fst x, f x)) ws\<rparr>"

lemma moved_Nil [simp]: "moved [] f s = s"
  by (simp add: moved_def)

lemma moved_Cons: "moved (x # ws) f s = moved ws f (settle_wait (fst x) (f x) s)"
  by (simp add: moved_def settle_wait_def conj_commute)

lemma offer_eq:
  assumes "offer m ws s = (r, s')"
  shows "\<exists>pre post. ws = pre @ post \<and> (\<forall>x \<in> set pre. \<exists>b. fst (snd x) m = Inr b) \<and> (r = None \<longrightarrow> post = []) \<and>
    s' = moved (hits m pre) (\<lambda>x. Inr m) s"
  using assms
proof (induction m ws s arbitrary: r s' rule: offer.induct)
  case (1 m s)
  then show ?case by (auto simp: hits_def)
next
  case (2 m k p d ws s)
  show ?case
  proof (cases "p m")
    case (Inl e)
    then show ?thesis using 2(2) by (intro exI[of _ "[]"] exI[of _ "(k, p, d) # ws"]) (auto simp: hits_def)
  next
    case (Inr b)
    obtain pre post where "ws = pre @ post" "\<forall>x \<in> set pre. \<exists>b. fst (snd x) m = Inr b" "r = None \<longrightarrow> post = []"
      "s' = moved (hits m pre) (\<lambda>x. Inr m) (if b then settle_wait k (Inr m) s else s)"
      using 2(1)[OF Inr, of r s'] 2(2) Inr by (simp, blast)
    then show ?thesis using Inr
      by (intro exI[of _ "(k, p, d) # pre"] exI[of _ post]) (simp add: hits_def moved_Cons)
  qed
qed

lemma reject_all_eq: "reject_all f s = moved (cs_waiting s) (\<lambda>x. Inl (f (snd (snd x)))) s"
  by (auto simp: reject_all_def moved_def split_beta filter_empty_conv)

lemma wait_times_out_eq:
  assumes "client_ok s"
  shows "\<exists>ws f. wait_times_out k s = moved ws f s \<and> distinct (map fst ws) \<and> set ws \<subseteq> set (cs_waiting s) \<and> (\<forall>x. \<exists>e. f x = Inl e)"
proof (cases "map_of (cs_waiting s) k")
  case (Some pd)
  then show ?thesis
    by (intro exI[of _ "[(k, pd)]"] exI[of _ "\<lambda>x. Inl (''Timed out waiting for '' @ snd (snd x))"])
      (auto simp: wait_times_out_def moved_Cons split: prod.split dest: map_of_SomeD)
qed (auto simp: wait_times_out_def intro!: exI[of _ "[]"])

lemma disjoint_moved: "W \<inter> S = {} \<Longrightarrow> D \<subseteq> W \<Longrightarrow> (W - D) \<inter> (S \<union> D) = {} \<and> S \<inter> D = {}"
  by auto

text \<open>Moving waits keeps what holds of them, when a result is an error or the awaited message.\<close>

lemma moved_socket:
  assumes "client_ok s" "set ws \<subseteq> set (cs_waiting s)" "distinct (map fst ws)"
  shows "client_ok (moved ws f s)"
    "fst ` set (cs_waiting (moved ws f s)) \<union> fst ` set (cs_settled (moved ws f s)) =
      fst ` set (cs_waiting s) \<union> fst ` set (cs_settled s)"
proof -
  have sub: "fst ` set ws \<subseteq> fst ` set (cs_waiting s)" using assms(2) by (rule image_mono)
  have ids: "map fst (cs_settled (moved ws f s)) = map fst (cs_settled s) @ map fst ws"
    "fst ` set (cs_waiting (moved ws f s)) = fst ` set (cs_waiting s) - fst ` set ws"
    "distinct (map fst (cs_waiting s)) \<Longrightarrow> distinct (map fst (cs_waiting (moved ws f s)))"
    by (auto simp: moved_def comp_def distinct_map_filter)
  have settled: "fst ` set (cs_settled (moved ws f s)) = fst ` set (cs_settled s) \<union> fst ` set ws"
    using arg_cong[OF ids(1), of set] by simp
  have next_same: "cs_next (moved ws f s) = cs_next s" by (simp add: moved_def)
  have ok: "distinct (map fst (cs_waiting s))" "distinct (map fst (cs_settled s))"
    "fst ` set (cs_waiting s) \<inter> fst ` set (cs_settled s) = {}"
    "fst ` set (cs_waiting s) \<union> fst ` set (cs_settled s) \<subseteq> {..<cs_next s}"
    using assms(1) by (auto simp: client_ok_def)
  have "fst ` set (cs_waiting (moved ws f s)) \<union> fst ` set (cs_settled (moved ws f s)) \<subseteq> {..<cs_next s}"
    unfolding ids(2) settled Un_subset_iff using ok(4) sub Diff_subset by (meson Un_subset_iff subset_trans)
  moreover have "distinct (map fst (cs_waiting (moved ws f s)) @ map fst (cs_settled (moved ws f s)))"
  proof -
    have "fst ` set (cs_waiting (moved ws f s)) \<inter> (fst ` set (cs_settled s) \<union> fst ` set ws) = {}"
      "fst ` set (cs_settled s) \<inter> fst ` set ws = {}"
      unfolding ids(2) using disjoint_moved[OF ok(3) sub] by simp_all
    then show ?thesis using ids(3)[OF ok(1)] ok(2) assms(3) by (simp add: ids(1) settled)
  qed
  ultimately show "client_ok (moved ws f s)" by (simp only: client_ok_def next_same)
  show "fst ` set (cs_waiting (moved ws f s)) \<union> fst ` set (cs_settled (moved ws f s)) =
      fst ` set (cs_waiting s) \<union> fst ` set (cs_settled s)"
    unfolding ids(2) settled using sub by auto
qed

lemma moved_ok:
  assumes "registered_ok k p start s" "set ws \<subseteq> set (cs_waiting s)" "distinct (map fst ws)"
    "\<And>q d m. (k, q, d) \<in> set ws \<Longrightarrow> f (k, q, d) = Inr m \<Longrightarrow> m \<in> set (drop start (cs_messages s)) \<and> q m = Inr True"
  shows "registered_ok k p start (moved ws f s)"
proof -
  have "client_ok s" using assms(1) by (simp add: registered_ok_def)
  note socket = moved_socket[OF this assms(2,3), of f]
  have "(k, Inr m) \<in> set (cs_settled (moved ws f s)) \<longrightarrow> m \<in> set (drop start (cs_messages s)) \<and> p m = Inr True" for m
  proof
    assume "(k, Inr m) \<in> set (cs_settled (moved ws f s))"
    then consider "(k, Inr m) \<in> set (cs_settled s)" | q d where "(k, q, d) \<in> set ws" "f (k, q, d) = Inr m"
      by (auto simp: moved_def)
    then show "m \<in> set (drop start (cs_messages s)) \<and> p m = Inr True"
    proof cases
      case (2 q d)
      then have "q = p" using assms(1,2) by (auto simp: registered_ok_def)
      then show ?thesis using assms(4)[OF 2] by simp
    qed (use assms(1) in \<open>simp add: registered_ok_def\<close>)
  qed
  then show ?thesis
    using assms(1) socket unfolding registered_ok_def by (simp add: moved_def)
qed

lemma moved_missed: "nothing_missed k p start s \<Longrightarrow> nothing_missed k p start (moved ws f s)"
  by (auto simp: nothing_missed_def moved_def)

lemma registered_grows:
  "registered_ok k p start s \<Longrightarrow> registered_ok k p start (s\<lparr>cs_messages := cs_messages s @ [m]\<rparr>)"
  by (auto simp: registered_ok_def client_ok_def)

lemma registered_rest [simp]:
  "registered_ok k p start (s\<lparr>cs_closing := b\<rparr>) = registered_ok k p start s"
  "registered_ok k p start (s\<lparr>cs_sent := ms\<rparr>) = registered_ok k p start s"
  "nothing_missed k p start (s\<lparr>cs_closing := b\<rparr>) = nothing_missed k p start s"
  "nothing_missed k p start (s\<lparr>cs_sent := ms\<rparr>) = nothing_missed k p start s"
  by (simp_all add: registered_ok_def client_ok_def nothing_missed_def)

lemma reject_ok: "registered_ok k p start s \<Longrightarrow> registered_ok k p start (reject_all f s)"
  unfolding reject_all_eq by (rule moved_ok) (auto simp: registered_ok_def client_ok_def)

lemma reject_missed [simp]: "nothing_missed k p start (reject_all f s)"
  by (simp add: nothing_missed_def reject_all_def)

definition wait_ok :: "nat \<Rightarrow> (json \<Rightarrow> string + bool) \<Rightarrow> nat \<Rightarrow> client_socket \<Rightarrow> bool" where
  "wait_ok k p start s \<longleftrightarrow> registered_ok k p start s \<and> nothing_missed k p start s"

lemma text_ok:
  assumes "wait_ok k p start s"
  shows "wait_ok k p start (text_arrives parse raw s)"
proof (cases "parse raw")
  case None
  then show ?thesis using assms reject_ok by (simp add: text_arrives_def parseServerMessage_def wait_ok_def)
next
  case (Some m)
  define s0 where "s0 = s\<lparr>cs_messages := cs_messages s @ [m]\<rparr>"
  obtain r s2 where offer: "offer m (cs_waiting s) s0 = (r, s2)" by fastforce
  obtain pre post where pre: "cs_waiting s = pre @ post" "\<forall>x \<in> set pre. \<exists>b. fst (snd x) m = Inr b"
    "r = None \<longrightarrow> post = []" "s2 = moved (hits m pre) (\<lambda>x. Inr m) s0"
    using offer_eq[OF offer] by blast
  have reg: "registered_ok k p start s0" using assms registered_grows by (simp add: wait_ok_def s0_def)
  have le: "start \<le> length (cs_messages s)" and "distinct (map fst (cs_waiting s))"
    using assms by (auto simp: wait_ok_def registered_ok_def client_ok_def)
  then have two: "registered_ok k p start s2" unfolding pre(4)
    by (intro moved_ok[OF reg]) (auto simp: s0_def hits_def pre(1) distinct_map_filter)
  show ?thesis
  proof (cases r)
    case (Some e)
    then show ?thesis using two reject_ok \<open>parse raw = Some m\<close> offer by (simp add: text_arrives_def parseServerMessage_def wait_ok_def s0_def)
  next
    case None
    have "nothing_missed k p start s2"
      unfolding nothing_missed_def
    proof (intro impI ballI)
      fix x assume k: "k \<in> fst ` set (cs_waiting s2)" and x: "x \<in> set (drop start (cs_messages s2))"
      have w: "cs_waiting s = pre" using pre(1,3) None by simp
      have k2: "k \<in> fst ` set (cs_waiting s)" "k \<notin> fst ` set (hits m pre)"
        using k by (auto simp: pre(4) moved_def s0_def)
      then obtain q d where q: "(k, q, d) \<in> set pre" by (auto simp: w)
      then have "q = p" using assms w by (auto simp: wait_ok_def registered_ok_def)
      moreover have "(k, q, d) \<notin> set (hits m pre)" using k2(2) by force
      ultimately have "p m = Inr False" using q pre(2) by (force simp: hits_def)
      moreover have "x \<in> set (drop start (cs_messages s)) \<or> x = m"
        using x le by (auto simp: pre(4) moved_def s0_def)
      ultimately show "p x = Inr False"
        using assms k2(1) by (auto simp: wait_ok_def nothing_missed_def)
    qed
    then show ?thesis using two \<open>parse raw = Some m\<close> offer None by (simp add: text_arrives_def parseServerMessage_def wait_ok_def s0_def)
  qed
qed

lemma new_wait_ok:
  assumes "wait_ok k p start s"
  shows "wait_ok k p start (snd (waitForMessage q d n s))"
  using assms by (auto simp: waitForMessage_def wait_ok_def registered_ok_def client_ok_def nothing_missed_def
      less_Suc_eq split: sum.split)

lemma use_ok: "wait_ok k p start s \<Longrightarrow> wait_ok k p start (use_step parse u s)"
proof (cases u)
  case (Reports e)
  then show "wait_ok k p start s \<Longrightarrow> ?thesis" using text_ok reject_ok by (cases e) (auto simp: wait_ok_def)
next
  case (TimesOut j)
  assume s: "wait_ok k p start s"
  then have "client_ok s" by (simp add: wait_ok_def registered_ok_def)
  then obtain ws f where "wait_times_out j s = moved ws f s" "distinct (map fst ws)"
    "set ws \<subseteq> set (cs_waiting s)" "\<forall>x. \<exists>e. f x = Inl e"
    using wait_times_out_eq by blast
  then show ?thesis using s TimesOut moved_missed moved_ok[of k p start s ws f]
    by (simp add: wait_ok_def) (metis Inr_not_Inl)
next
  case (StartsWait q d n)
  then show "wait_ok k p start s \<Longrightarrow> ?thesis" using new_wait_ok by simp
qed (auto simp: close_client_def subscribe_client_def wait_ok_def)

interpretation client_waits: handler_invariant "use_step parse" "wait_ok k p start"
  for parse k p start by unfold_locales (rule use_ok)

lemma socket_rest [simp]:
  "client_ok (s\<lparr>cs_closing := b\<rparr>) = client_ok s" "client_ok (s\<lparr>cs_sent := ms\<rparr>) = client_ok s"
  "client_ok (s\<lparr>cs_messages := ns\<rparr>) = client_ok s"
  by (simp_all add: client_ok_def)

lemma reject_socket_ok: "client_ok s \<Longrightarrow> client_ok (reject_all f s)"
  unfolding reject_all_eq by (rule moved_socket(1)) (auto simp: client_ok_def)

lemma socket_use_ok: "client_ok s \<Longrightarrow> client_ok (use_step parse u s)"
proof -
  assume s: "client_ok s"
  have arrives: "client_ok (text_arrives parse raw s)" for raw
  proof (cases "parse raw")
    case (Some m)
    obtain r s2 where offer: "offer m (cs_waiting s) (s\<lparr>cs_messages := cs_messages s @ [m]\<rparr>) = (r, s2)" by fastforce
    then obtain pre post where pre: "cs_waiting s = pre @ post"
      "s2 = moved (hits m pre) (\<lambda>x. Inr m) (s\<lparr>cs_messages := cs_messages s @ [m]\<rparr>)"
      using offer_eq by blast
    have "distinct (map fst (cs_waiting s))" using s by (simp add: client_ok_def)
    then have "client_ok s2" unfolding pre(2)
      using s by (intro moved_socket(1)) (auto simp: hits_def pre(1) distinct_map_filter)
    then show ?thesis using Some offer reject_socket_ok
      by (simp add: text_arrives_def parseServerMessage_def split: option.split)
  qed (use s reject_socket_ok in \<open>simp add: text_arrives_def parseServerMessage_def\<close>)
  show ?thesis
  proof (cases u)
    case (Reports e)
    then show ?thesis using s arrives reject_socket_ok by (cases e) simp_all
  next
    case (StartsWait q d n)
    then show ?thesis using s by (auto simp: waitForMessage_def client_ok_def less_Suc_eq split: sum.split)
  next
    case (TimesOut j)
    then show ?thesis using wait_times_out_eq[OF s, of j] moved_socket(1)[OF s] by (metis use_step.simps(3))
  qed (use s in \<open>simp_all add: close_client_def subscribe_client_def\<close>)
qed

interpretation client_sockets: handler_invariant "use_step parse" client_ok
  for parse by unfold_locales (rule socket_use_ok)

lemma find_message_None: "find_message p ms = Inr None \<Longrightarrow> m \<in> set ms \<Longrightarrow> p m = Inr False"
  by (induction ms) (auto split: sum.splits if_splits)

lemma find_message_Some: "find_message p ms = Inr (Some x) \<Longrightarrow> p x = Inr True"
  by (induction ms) (auto split: sum.splits if_splits)

lemma find_message_member: "find_message p ms = Inr (Some x) \<Longrightarrow> x \<in> set ms"
  by (induction ms) (auto split: sum.splits if_splits)

lemma registration:
  assumes "\<forall>m. p m = Inr True \<longrightarrow> js_truthy (Some m)" "client_ok s" "start \<le> length (cs_messages s)"
    "waitForMessage p d start s = (Inr (Waiting k), s1)"
  shows "wait_ok k p start s1"
proof -
  have f: "find_message p (drop start (cs_messages s)) = Inr None"
    "s1 = s\<lparr>cs_waiting := cs_waiting s @ [(k, p, d)], cs_next := Suc k\<rparr>" "k = cs_next s"
    using assms(1,4) find_message_Some
    by (auto simp: waitForMessage_def split: sum.splits if_splits option.splits) (metis not_None_eq)
  then have "\<forall>m \<in> set (drop start (cs_messages s)). p m = Inr False" using find_message_None by blast
  moreover have "k \<notin> fst ` set (cs_waiting s) \<union> fst ` set (cs_settled s)"
    "fst ` set (cs_waiting s) \<union> fst ` set (cs_settled s) \<subseteq> {..<k}"
    using assms(2) f(3) by (auto simp: client_ok_def)
  moreover have "client_ok s1"
    using socket_use_ok[OF assms(2), of _ "StartsWait p d start"] assms(4) by simp
  ultimately show ?thesis using assms(3) f(2)
    by (auto simp: wait_ok_def registered_ok_def nothing_missed_def rev_image_eqI)
qed

text \<open>
  C24: waiting misses nothing. A wait registered after any use of a socket is, whatever happens then,
  either still listening, and then no message from its index on was the awaited one, or it was
  settled exactly once, and a message that resolved it came at or after its index and is one that its
  predicate accepts.
\<close>

theorem waits_miss_nothing:
  assumes "\<forall>m. p m = Inr True \<longrightarrow> js_truthy (Some m)"
    and "s = run_events (use_step parse) before new_socket" "start \<le> length (cs_messages s)"
    and "waitForMessage p d start s = (Inr (Waiting k), s1)" "t = run_events (use_step parse) afterwards s1"
  shows "(k \<in> fst ` set (cs_waiting t) \<and> (\<forall>m \<in> set (drop start (cs_messages t)). p m = Inr False) \<and>
      filter (\<lambda>x. fst x = k) (cs_settled t) = []) \<or>
    (k \<notin> fst ` set (cs_waiting t) \<and> (\<exists>r. filter (\<lambda>x. fst x = k) (cs_settled t) = [(k, r)] \<and>
      (\<forall>m. r = Inr m \<longrightarrow> m \<in> set (drop start (cs_messages t)) \<and> p m = Inr True)))"
proof -
  have "client_ok new_socket" by (simp add: client_ok_def new_socket_def)
  then have "client_ok s" unfolding assms(2) by (rule client_sockets.run_inv)
  then have "wait_ok k p start s1" by (rule registration[OF assms(1) _ assms(3,4)])
  then have "wait_ok k p start t" unfolding assms(5) by (rule client_waits.run_inv)
  then have t: "registered_ok k p start t" "nothing_missed k p start t" by (simp_all add: wait_ok_def)
  then have d: "distinct (map fst (cs_settled t))" "fst ` set (cs_waiting t) \<inter> fst ` set (cs_settled t) = {}"
    by (auto simp: registered_ok_def client_ok_def)
  show ?thesis
  proof (cases "k \<in> fst ` set (cs_waiting t)")
    case True
    then have "k \<notin> fst ` set (cs_settled t)" using d(2) by blast
    then show ?thesis using True t(2) by (auto simp: nothing_missed_def filter_empty_conv image_iff)
  next
    case False
    then obtain r where r: "(k, r) \<in> set (cs_settled t)" using t(1) by (auto simp: registered_ok_def)
    then have "filter (\<lambda>x. fst x = k) (cs_settled t) = [(k, r)]" using filter_key_unique[OF d(1) r] by simp
    then show ?thesis using False r t(1) by (auto simp: registered_ok_def)
  qed
qed

section \<open>The sockets of a program\<close>

definition frontendOrigin :: string where "frontendOrigin = ''http://localhost:5173''"

text \<open>\<open>tw_url\<close> yields protocol and host of an address of the Web; otherwise the URL constructor throws.\<close>

definition createWebSocketUrl :: "string \<Rightarrow> string tool" where
  "createWebSocketUrl apiBaseUrl w =
     (case tw_url w apiBaseUrl of
        None \<Rightarrow> throwT ''Invalid URL'' w
      | Some (scheme, host) \<Rightarrow>
          returnT ((if scheme = ''https:'' then ''wss:'' else ''ws:'') @ ''//'' @ host @ ''/ws/jobs'') w)"

definition on_socket :: "nat \<Rightarrow> (client_socket \<Rightarrow> 'a \<times> client_socket) \<Rightarrow> 'a tool" where
  "on_socket j f w s =
     (case f (sockets s ! j) of (r, c) \<Rightarrow> (Inr r, s\<lparr>sockets := (sockets s)[j := c]\<rparr>))"

text \<open>
  A wait runs over what reaches the sockets until it is over. \<open>pending\<close> are the waits it awaits
  together, each with its socket; the first rejection ends it, and otherwise it ends when all have
  their message. When nothing more arrives, the timeouts fire.
\<close>

definition result_of :: "tools \<Rightarrow> nat \<times> wait_start \<Rightarrow> (string + json) option" where
  "result_of s x =
     (case snd x of
        Answered m \<Rightarrow> Some (Inr m)
      | Waiting k \<Rightarrow> map_of (cs_settled (sockets s ! fst x)) k)"

definition is_rejected :: "(string + json) option \<Rightarrow> bool" where
  "is_rejected r \<longleftrightarrow> (case r of Some (Inl e) \<Rightarrow> True | _ \<Rightarrow> False)"

definition progress_of :: "tools \<Rightarrow> (nat \<times> wait_start) list \<Rightarrow> (string + json list) option" where
  "progress_of s pending =
     (let results = map (result_of s) pending
      in case List.find is_rejected results of
           Some (Some (Inl e)) \<Rightarrow> Some (Inl e)
         | _ \<Rightarrow> if list_all (\<lambda>r. r \<noteq> None) results
                then Some (Inr (map (\<lambda>r. projr (the r)) results)) else None)"

definition hears :: "tool_world \<Rightarrow> nat \<times> client_event \<Rightarrow> tools \<Rightarrow> tools" where
  "hears w e s =
     (if fst e < length (sockets s)
      then s\<lparr>sockets := (sockets s)[fst e := client_step (tw_json w) (snd e) (sockets s ! fst e)]\<rparr> else s)"

definition time_out :: "nat \<times> wait_start \<Rightarrow> tools \<Rightarrow> tools" where
  "time_out x s =
     (case snd x of
        Answered m \<Rightarrow> s
      | Waiting k \<Rightarrow> s\<lparr>sockets := (sockets s)[fst x := wait_times_out k (sockets s ! fst x)]\<rparr>)"

fun listen :: "(nat \<times> wait_start) list \<Rightarrow> nat \<Rightarrow> (nat \<times> client_event) list \<Rightarrow> json list tool" where
  "listen pending timeout [] = (\<lambda>w s.
     case progress_of s pending of
       Some r \<Rightarrow> (r, s)
     | None \<Rightarrow>
         (let s1 = fold time_out pending (s\<lparr>clock := clock s + timeout\<rparr>)
          in (case progress_of s1 pending of Some r \<Rightarrow> r | None \<Rightarrow> Inr [], s1)))"
| "listen pending timeout (e # es) = (\<lambda>w s.
     case progress_of s pending of
       Some r \<Rightarrow> (r, s)
     | None \<Rightarrow> listen pending timeout es w (hears w e s))"

definition start_wait :: "nat \<times> (json \<Rightarrow> string + bool) \<times> string \<times> nat \<Rightarrow> (nat \<times> wait_start) tool" where
  "start_wait = (\<lambda>(j, p, d, n).
     bindT (on_socket j (waitForMessage p d n)) (\<lambda>r. liftT (bindE r (\<lambda>x. Inr (j, x)))))"

definition await_messages ::
    "(nat \<times> (json \<Rightarrow> string + bool) \<times> string \<times> nat) list \<Rightarrow> nat \<Rightarrow> json list tool" where
  "await_messages waits timeout =
     bindT (eachT start_wait waits) (\<lambda>pending w s.
       listen pending timeout (tw_events w (actions s)) w
         (s\<lparr>actions := actions s @ [Awaited], clock := clock s + tw_duration w (actions s)\<rparr>))"

definition await_message :: "nat \<Rightarrow> (json \<Rightarrow> string + bool) \<Rightarrow> string \<Rightarrow> nat \<Rightarrow> nat \<Rightarrow> json tool" where
  "await_message j p d n timeout = bindT (await_messages [(j, p, d, n)] timeout) (\<lambda>ms. returnT (hd ms))"

section \<open>Connecting and subscribing\<close>

definition has_type :: "string \<Rightarrow> json \<Rightarrow> string + bool" where
  "has_type t m = bindE (member_of (Some m) ''type'') (\<lambda>v. Inr (v = Some (JString t)))"

definition open_socket :: "tool_session \<Rightarrow> nat tool" where
  "open_socket ses =
     bindT (createWebSocketUrl (ts_apiBaseUrl ses)) (\<lambda>url w s.
       (Inr (length (sockets s)), s\<lparr>sockets := sockets s @ [new_socket],
          actions := actions s @ [Connected url (ts_cookie ses)]\<rparr>))"

definition ready_wait :: "nat \<Rightarrow> nat \<times> (json \<Rightarrow> string + bool) \<times> string \<times> nat" where
  "ready_wait j = (j, has_type ''connection_ready'', ''the authenticated connection-ready message'', 0)"

text \<open>Several connections are opened before the first wait.\<close>

definition connect_all :: "tool_session list \<Rightarrow> nat list tool" where
  "connect_all sess =
     bindT (eachT open_socket sess) (\<lambda>js.
       bindT (await_messages (map ready_wait js) 15000) (\<lambda>_. returnT js))"

definition connectJobWebSocket :: "tool_session \<Rightarrow> nat tool" where
  "connectJobWebSocket ses = bindT (connect_all [ses]) (\<lambda>js. returnT (hd js))"

text \<open>The action records, beside the socket and the message, how many messages had been received by then.\<close>

definition subscribe_socket :: "nat \<Rightarrow> string \<Rightarrow> nat tool" where
  "subscribe_socket j jobId =
     bindT (on_socket j (subscribe_client jobId)) (\<lambda>startIndex w s.
       (Inr startIndex, s\<lparr>actions := actions s @
          [SentMessage j startIndex (JObject [(''type'', JString ''subscribe''), (''jobId'', JString jobId)])]\<rparr>))"

definition close_job_socket :: "nat \<Rightarrow> unit tool" where
  "close_job_socket j = on_socket j (\<lambda>c. ((), close_client c))"

definition messages_from :: "nat \<Rightarrow> nat \<Rightarrow> json list tool" where
  "messages_from j n w s = (Inr (drop n (cs_messages (sockets s ! j))), s)"

section \<open>Sockets only grow\<close>

lemma use_grows: "prefix (cs_messages c) (cs_messages (use_step parse u c))"
proof -
  have "prefix (cs_messages c) (cs_messages (text_arrives parse raw c))" for raw
  proof (cases "parse raw")
    case (Some m)
    obtain r c2 where offer: "offer m (cs_waiting c) (c\<lparr>cs_messages := cs_messages c @ [m]\<rparr>) = (r, c2)" by fastforce
    then have "cs_messages c2 = cs_messages c @ [m]" using offer_eq by (fastforce simp: moved_def)
    then show ?thesis using Some offer
      by (auto simp: text_arrives_def parseServerMessage_def reject_all_def split: option.split)
  qed (simp add: text_arrives_def parseServerMessage_def reject_all_def)
  then show ?thesis
  proof (cases u)
    case (Reports e)
    then show "(\<And>raw. prefix (cs_messages c) (cs_messages (text_arrives parse raw c))) \<Longrightarrow> ?thesis"
      by (cases e) (simp_all add: reject_all_def)
  qed (auto simp: waitForMessage_def wait_times_out_def settle_wait_def close_client_def subscribe_client_def
      split: sum.split option.split)
qed

definition socket_safe :: "(client_socket \<Rightarrow> client_socket) \<Rightarrow> bool" where
  "socket_safe f \<longleftrightarrow> (\<forall>c. prefix (cs_messages c) (cs_messages (f c)) \<and> (client_ok c \<longrightarrow> client_ok (f c)))"

lemma safe_use: "socket_safe (use_step parse u)"
  by (simp add: socket_safe_def use_grows socket_use_ok)

lemma safe_uses [simp]:
  "socket_safe (client_step parse e)" "socket_safe (\<lambda>c. snd (waitForMessage p d n c))"
  "socket_safe (wait_times_out k)" "socket_safe close_client" "socket_safe (\<lambda>c. snd (subscribe_client j c))"
  using safe_use[of parse "Reports e"] safe_use[of parse "StartsWait p d n"] safe_use[of parse "TimesOut k"]
    safe_use[of parse Closes] safe_use[of parse "Subscribes j"]
  by (simp_all add: socket_safe_def)

lemma evolves_update: "socket_safe f \<Longrightarrow> evolves cs (cs[j := f (cs ! j)])"
proof (cases "j < length cs")
  case True
  assume "socket_safe f"
  then show ?thesis using True
    using set_update_subset_insert[of cs j "f (cs ! j)"] nth_mem[OF True]
    by (auto simp: evolves_def socket_safe_def nth_list_update)
qed (simp add: list_update_beyond)

lemma evolves_new: "evolves cs (cs @ [new_socket])"
  by (auto simp: evolves_def new_socket_def client_ok_def nth_append)

context socket_relation
begin

lemma keeps_socket: "socket_safe (\<lambda>c. snd (f c)) \<Longrightarrow> keeps R (on_socket j f)"
  using evolves_update[of "\<lambda>c. snd (f c)"] by (intro keeps_sockets) (auto simp: on_socket_def split_beta)

lemma kept_hears: "R s (hears w e s)"
  using heard[OF evolves_update[OF safe_uses(1)]] kept by (simp add: hears_def)

lemma kept_time_out: "R s (time_out x s)"
  using heard[OF evolves_update[OF safe_uses(3)]] kept by (simp add: time_out_def split: wait_start.split)

lemma kept_fold: "R s (fold time_out xs s)"
proof (induction xs arbitrary: s)
  case (Cons x xs)
  then show ?case using kept_time_out chained by (metis fold_simps(2))
qed (simp add: kept)

lemma kept_listen: "R s (snd (listen pending timeout es w s))"
proof (induction es arbitrary: s)
  case Nil
  have "R s (fold time_out pending (s\<lparr>clock := clock s + timeout\<rparr>))" using waited kept_fold chained by blast
  then show ?case by (simp add: Let_def kept split: option.split)
next
  case (Cons e es)
  then have "R s (snd (listen pending timeout es w (hears w e s)))" using chained[OF kept_hears] by blast
  then show ?case by (simp add: kept split: option.split)
qed

lemma keeps_each [intro]: "(\<And>x. keeps R (f x)) \<Longrightarrow> keeps R (eachT f xs)"
  by (induction xs) (auto intro!: keeps_rules)

lemma keeps_start: "keeps R (start_wait x)"
  unfolding start_wait_def by (cases x) (auto intro!: keeps_rules keeps_socket)

lemma keeps_await [intro]: "keeps R (await_messages waits timeout)" "keeps R (await_message j p d n timeout)"
proof -
  have step: "keeps R (\<lambda>w s. listen pending timeout (tw_events w (actions s)) w
      (s\<lparr>actions := actions s @ [Awaited], clock := clock s + tw_duration w (actions s)\<rparr>))" for pending timeout
    unfolding keeps_def using acted kept_listen chained by blast
  show a: "keeps R (await_messages waits timeout)" for waits timeout
    unfolding await_messages_def by (intro kept_bind keeps_each keeps_start step)
  show "keeps R (await_message j p d n timeout)" unfolding await_message_def by (intro kept_bind a keeps_basic)
qed

lemma keeps_connecting [intro]: "keeps R (connect_all sess)" "keeps R (connectJobWebSocket ses)"
proof -
  have "keeps R (\<lambda>w s. (Inr (length (sockets s)), s\<lparr>sockets := sockets s @ [new_socket],
      actions := actions s @ [Connected url c]\<rparr>))" for url c
  proof -
    have "R s (s\<lparr>sockets := sockets s @ [new_socket], actions := actions s @ [Connected url c]\<rparr>)" for s
      using chained[OF heard[OF evolves_new] acted[where d = 0], of s "Connected url c"] by simp
    then show ?thesis by (simp add: keeps_def)
  qed
  moreover have "keeps R (createWebSocketUrl u)" for u
    by (simp add: keeps_def createWebSocketUrl_def throwT_def returnT_def kept split: option.split prod.split)
  ultimately have "keeps R (open_socket ses)" for ses unfolding open_socket_def by (intro kept_bind)
  then show c: "keeps R (connect_all sess)" for sess
    unfolding connect_all_def by (intro kept_bind keeps_each keeps_await keeps_basic)
  show "keeps R (connectJobWebSocket ses)" unfolding connectJobWebSocket_def by (intro kept_bind c keeps_basic)
qed

lemma keeps_subscribe [intro]: "keeps R (subscribe_socket j jobId)"
proof -
  have "keeps R (\<lambda>w s. (Inr (n :: nat), s\<lparr>actions := actions s @ [a]\<rparr>))" for n a
    using acted[where d = 0] by (simp add: keeps_def)
  then show ?thesis unfolding subscribe_socket_def by (intro kept_bind keeps_socket) simp_all
qed

lemma keeps_close [intro]: "keeps R (close_job_socket j)"
  unfolding close_job_socket_def by (rule keeps_socket) simp

lemma keeps_messages [intro]: "keeps R (messages_from j n)"
  by (simp add: keeps_def messages_from_def kept)

end

section \<open>What awaiting returns\<close>

type_synonym socket_wait = "nat \<times> (json \<Rightarrow> string + bool) \<times> string \<times> nat"

fun asked :: "tools \<Rightarrow> socket_wait \<Rightarrow> nat \<times> wait_start \<Rightarrow> bool" where
  "asked s (j, p, d, n) x \<longleftrightarrow> fst x = j \<and> j < length (sockets s) \<and>
     (case snd x of
        Answered m \<Rightarrow> p m = Inr True \<and> m \<in> set (drop n (cs_messages (sockets s ! j)))
      | Waiting k \<Rightarrow> wait_ok k p n (sockets s ! j))"

fun received :: "tools \<Rightarrow> socket_wait \<Rightarrow> json \<Rightarrow> bool" where
  "received s (j, p, d, n) m \<longleftrightarrow> p m = Inr True \<and> m \<in> set (drop n (cs_messages (sockets s ! j)))"

lemma dropped_prefix: "prefix xs ys \<Longrightarrow> m \<in> set (drop n xs) \<Longrightarrow> m \<in> set (drop n ys)"
  by (auto simp: prefix_def)

lemma asked_use:
  assumes "asked s a x" "sockets t = (sockets s)[i := use_step parse u (sockets s ! i)]"
  shows "asked t a x"
  using assms use_ok[of _ _ _ "sockets s ! i" parse u] use_grows[of "sockets s ! i" parse u]
  by (cases a; cases "i < length (sockets s)"; cases "snd x")
    (auto simp: nth_list_update list_update_beyond intro: dropped_prefix)

lemma asked_hears: "asked s a x \<Longrightarrow> asked (hears w e s) a x"
  using asked_use[of s a x "hears w e s" "fst e" "tw_json w" "Reports (snd e)"] by (auto simp: hears_def)

lemma asked_time_out: "asked s a x \<Longrightarrow> asked (time_out y s) a x"
  using asked_use[of s a x "time_out y s" "fst y" "\<lambda>t. None" "TimesOut k" for k]
  by (auto simp: time_out_def split: wait_start.split)

lemma asked_fold: "asked s a x \<Longrightarrow> asked (fold time_out ys s) a x"
proof (induction ys arbitrary: s)
  case (Cons y ys)
  then show ?case by (metis asked_time_out fold_simps(2))
qed simp

lemma asked_rest [simp]:
  "asked (s\<lparr>clock := c\<rparr>) a x = asked s a x" "asked (s\<lparr>actions := as\<rparr>) a x = asked s a x"
  by (cases a, simp split: wait_start.split)+

text \<open>A wait that is over no longer listens.\<close>

definition over :: "tools \<Rightarrow> nat \<times> wait_start \<Rightarrow> bool" where
  "over s x \<longleftrightarrow> (case snd x of
     Answered m \<Rightarrow> True | Waiting k \<Rightarrow> k \<notin> fst ` set (cs_waiting (sockets s ! fst x)))"

lemma over_time_out: "fst y < length (sockets s) \<Longrightarrow> x = y \<or> over s x \<Longrightarrow> over (time_out y s) x"
  by (cases "fst x = fst y")
    (force simp: over_def time_out_def wait_times_out_def settle_wait_def map_of_eq_None_iff
       split: wait_start.split option.split)+

lemma over_fold:
  assumes "\<forall>y \<in> set ys. fst y < length (sockets s)" "x \<in> set ys \<or> over s x"
  shows "over (fold time_out ys s) x"
  using assms
proof (induction ys arbitrary: s)
  case (Cons y ys)
  have "length (sockets (time_out y s)) = length (sockets s)" by (simp add: time_out_def split: wait_start.split)
  then show ?case using Cons over_time_out[of y s x] by auto
qed simp

lemma over_result: "asked s a x \<Longrightarrow> over s x \<Longrightarrow> result_of s x \<noteq> None"
  by (cases a) (auto simp: over_def result_of_def wait_ok_def registered_ok_def map_of_eq_None_iff rev_image_eqI
      simp flip: not_None_eq split: wait_start.splits)

lemma progress_None: "progress_of s pending = None \<Longrightarrow> \<exists>x \<in> set pending. result_of s x = None"
  by (auto simp: progress_of_def Let_def find_Some_iff list_all_iff is_rejected_def split: option.splits sum.splits if_splits)

lemma progress_Inr:
  assumes "progress_of s pending = Some (Inr ms)"
  shows "map (result_of s) pending = map (\<lambda>m. Some (Inr m)) ms"
proof -
  let ?rs = "map (result_of s) pending"
  have "List.find is_rejected ?rs = None" "list_all (\<lambda>r. r \<noteq> None) ?rs" "ms = map (\<lambda>r. projr (the r)) ?rs"
    using assms by (auto simp: progress_of_def Let_def find_Some_iff is_rejected_def split: option.splits sum.splits if_splits)
  moreover have "Some (Inr (projr (the r))) = r" if "r \<noteq> None" "\<not> is_rejected r" for r :: "(string + json) option"
    using that by (cases r; cases "the r") (auto simp: is_rejected_def)
  ultimately show ?thesis by (auto simp: find_None_iff list_all_iff)
qed

lemma result_received: "asked s a x \<Longrightarrow> result_of s x = Some (Inr m) \<Longrightarrow> received s a m"
  by (cases a) (auto simp: result_of_def wait_ok_def registered_ok_def dest!: map_of_SomeD split: wait_start.splits)

lemma progress_received:
  assumes "list_all2 (asked s) waits pending" "progress_of s pending = Some (Inr ms)"
  shows "list_all2 (received s) waits ms"
  using assms(1) progress_Inr[OF assms(2)]
proof (induction waits pending arbitrary: ms rule: list_all2_induct)
  case (Cons a as x xs)
  then show ?case by (cases ms) (auto intro: result_received)
qed simp

lemma asked_length: "asked s a x \<Longrightarrow> fst x < length (sockets s)"
  by (cases a) simp

lemma asked_bound: "list_all2 (asked s) waits pending \<Longrightarrow> x \<in> set pending \<Longrightarrow> \<exists>a. asked s a x \<and> fst x < length (sockets s)"
  using asked_length by (metis in_set_conv_nth list_all2_conv_all_nth)

lemma listen_received:
  assumes "list_all2 (asked s) waits pending" "listen pending timeout es w s = (Inr ms, t)"
  shows "list_all2 (received t) waits ms"
  using assms
proof (induction es arbitrary: s)
  case Nil
  define u where "u = fold time_out pending (s\<lparr>clock := clock s + timeout\<rparr>)"
  have asked: "list_all2 (asked u) waits pending"
    unfolding u_def by (rule list_all2_mono[OF Nil.prems(1)]) (rule asked_fold, simp)
  have "result_of u x \<noteq> None" if x: "x \<in> set pending" for x
  proof -
    have "over u x" unfolding u_def
      using x asked_bound[OF Nil.prems(1)] by (intro over_fold) auto
    then show ?thesis using asked_bound[OF asked x] over_result by blast
  qed
  then have "progress_of u pending \<noteq> None" using progress_None by blast
  then show ?case
    using Nil.prems progress_received[OF Nil.prems(1)] progress_received[OF asked]
    by (auto simp: Let_def u_def split: option.splits)
next
  case (Cons e es)
  have "list_all2 (asked (hears w e s)) waits pending"
    by (rule list_all2_mono[OF Cons.prems(1)]) (rule asked_hears)
  then show ?case using Cons progress_received[OF Cons.prems(1)] by (auto split: option.splits)
qed

text \<open>A wait that may be started: on a socket there is, from an index in range, for a message that counts as true.\<close>

fun startable :: "tools \<Rightarrow> socket_wait \<Rightarrow> bool" where
  "startable s (j, p, d, n) \<longleftrightarrow> j < length (sockets s) \<and> n \<le> length (cs_messages (sockets s ! j)) \<and>
     (\<forall>m. p m = Inr True \<longrightarrow> js_truthy (Some m))"

lemma start_eq:
  assumes "start_wait (j, p, d, n) w s = (Inr x, t)"
  shows "\<exists>st c. waitForMessage p d n (sockets s ! j) = (Inr st, c) \<and> x = (j, st) \<and> t = s\<lparr>sockets := (sockets s)[j := c]\<rparr>"
  using assms by (auto simp: start_wait_def bindT_Inr on_socket_def liftT_def bindE_Inr split: prod.splits)

lemma start_asked:
  assumes "start_wait a w s = (Inr x, t)" "startable s a" "\<forall>c \<in> set (sockets s). client_ok c"
  shows "asked t a x"
proof -
  obtain j p d n where a: "a = (j, p, d, n)" by (cases a)
  obtain st c where st: "waitForMessage p d n (sockets s ! j) = (Inr st, c)" "x = (j, st)"
    "t = s\<lparr>sockets := (sockets s)[j := c]\<rparr>" using start_eq assms(1) unfolding a by blast
  have j: "j < length (sockets s)" "n \<le> length (cs_messages (sockets s ! j))" "\<forall>m. p m = Inr True \<longrightarrow> js_truthy (Some m)"
    using assms(2) a by auto
  then have ok: "client_ok (sockets s ! j)" using assms(3) by simp
  show ?thesis
  proof (cases st)
    case (Answered m)
    have "c = sockets s ! j" "find_message p (drop n (cs_messages (sockets s ! j))) = Inr (Some m)"
      using st(1) Answered by (auto simp: waitForMessage_def split: sum.splits if_splits) (metis js_truthy.simps(1) option.collapse)
    then show ?thesis using a st(2,3) j Answered find_message_Some find_message_member by auto
  next
    case (Waiting k)
    then show ?thesis using a st j registration[OF j(3) ok j(2)] by auto
  qed
qed

lemma start_kept:
  assumes "start_wait b w s = (Inr y, t)"
  shows "asked s a x \<Longrightarrow> asked t a x" "startable s a \<Longrightarrow> startable t a"
    "\<forall>c \<in> set (sockets s). client_ok c \<Longrightarrow> \<forall>c \<in> set (sockets t). client_ok c"
proof -
  obtain j p d n where b: "b = (j, p, d, n)" by (cases b)
  obtain st c where c: "waitForMessage p d n (sockets s ! j) = (Inr st, c)" "t = s\<lparr>sockets := (sockets s)[j := c]\<rparr>"
    using start_eq assms unfolding b by blast
  then have t: "sockets t = (sockets s)[j := use_step (\<lambda>r. None) (StartsWait p d n) (sockets s ! j)]" by simp
  then show "asked s a x \<Longrightarrow> asked t a x" using asked_use by blast
  have "cs_messages c = cs_messages (sockets s ! j)"
    using c(1) by (auto simp: waitForMessage_def split: sum.splits if_splits)
  then show "startable s a \<Longrightarrow> startable t a"
    by (cases a; cases "j < length (sockets s)") (auto simp: c(2) nth_list_update list_update_beyond)
  show "\<forall>c \<in> set (sockets s). client_ok c \<Longrightarrow> \<forall>c \<in> set (sockets t). client_ok c"
    using evolves_update[OF safe_use] unfolding t evolves_def by blast
qed

lemma each_asked: "eachT start_wait as w s = (Inr ys, t) \<Longrightarrow> asked s a x \<Longrightarrow> asked t a x"
proof (induction as arbitrary: s ys)
  case (Cons b as)
  obtain y u xs where x: "start_wait b w s = (Inr y, u)" "eachT start_wait as w u = (Inr xs, t)"
    using Cons.prems(1) by (auto simp: bindT_Inr returnT_def)
  show ?case by (rule Cons.IH[OF x(2) start_kept(1)[OF x(1) Cons.prems(2)]])
qed (simp add: returnT_def)

lemma each_start_asked:
  assumes "eachT start_wait waits w s = (Inr pending, t)" "\<forall>a \<in> set waits. startable s a"
    "\<forall>c \<in> set (sockets s). client_ok c"
  shows "list_all2 (asked t) waits pending"
  using assms
proof (induction waits arbitrary: s pending)
  case (Cons a as)
  obtain x u xs where x: "start_wait a w s = (Inr x, u)" "eachT start_wait as w u = (Inr xs, t)" "pending = x # xs"
    using Cons.prems(1) by (auto simp: bindT_Inr returnT_def)
  have "asked u a x" using start_asked[OF x(1)] Cons.prems(2,3) by simp
  then have "asked t a x" by (rule each_asked[OF x(2)])
  moreover have "list_all2 (asked t) as xs"
    using Cons.IH[OF x(2)] Cons.prems(2,3) start_kept(2,3)[OF x(1)] by simp
  ultimately show ?case by (simp add: x(3))
qed (simp add: returnT_def)

lemma await_all_received:
  assumes "await_messages waits timeout w s = (Inr ms, t)" "\<forall>a \<in> set waits. startable s a"
    and "\<forall>c \<in> set (sockets s). client_ok c"
  shows "list_all2 (\<lambda>(j, p, d, n) m. p m = Inr True \<and> m \<in> set (drop n (cs_messages (sockets t ! j)))) waits ms"
proof -
  obtain pending u where u: "eachT start_wait waits w s = (Inr pending, u)"
    "listen pending timeout (tw_events w (actions u)) w
       (u\<lparr>actions := actions u @ [Awaited], clock := clock u + tw_duration w (actions u)\<rparr>) = (Inr ms, t)"
    using assms(1) by (auto simp: await_messages_def bindT_Inr)
  have "list_all2 (asked (u\<lparr>actions := actions u @ [Awaited], clock := clock u + tw_duration w (actions u)\<rparr>)) waits pending"
    by (rule list_all2_mono[OF each_start_asked[OF u(1) assms(2,3)]]) simp
  then have "list_all2 (received t) waits ms" by (rule listen_received[OF _ u(2)])
  then show ?thesis by (rule list_all2_mono) auto
qed

text \<open>
  Awaiting returns what was asked for. When waits on several sockets, started together, all
  return, then each of them returns a message that its own predicate accepts and that its own
  socket received at or after its index, whatever else arrives on the sockets, whichever order it
  arrives in and however the other waits end.
\<close>

theorem await_messages_truthful:
  assumes "await_messages waits timeout w s = (Inr ms, t)" "\<forall>a \<in> set waits. startable s a"
    and "\<forall>c \<in> set (sockets s). client_ok c"
  shows "list_all2 (\<lambda>(j, p, d, n) m. p m = Inr True \<and> m \<in> set (drop n (cs_messages (sockets t ! j)))) waits ms"
  by (rule await_all_received[OF assms])

section \<open>Examples\<close>

lemma field_truthy: "json_field k m = Some v \<Longrightarrow> js_truthy (Some m)"
  by (cases m) (simp_all add: json_field_def)

lemma has_type_field: "has_type t m = Inr True \<Longrightarrow> json_field ''type'' m = Some (JString t)"
  by (auto simp: has_type_def member_of_def bindE_Inr split: if_splits)

lemma has_type_truthy: "has_type t m = Inr True \<Longrightarrow> js_truthy (Some m)"
  using has_type_field field_truthy by blast

text \<open>Every text is the type of the message; two arrive during every wait.\<close>

definition talking_world :: tool_world where
  "talking_world = finished_world\<lparr>tw_json := (\<lambda>t. Some (JObject [(''type'', JString t)])),
     tw_events := (\<lambda>h. [(0, TextArrives ''hello''), (0, TextArrives ''ready'')])\<rparr>"

definition connected_tools :: tools where
  "connected_tools = started_tools\<lparr>sockets := [new_socket]\<rparr>"

theorem waits_miss_nothing_witness:
  "\<exists>k s1. waitForMessage (has_type ''ready'') ''ready'' 0 new_socket = (Inr (Waiting k), s1) \<and>
    filter (\<lambda>x. fst x = k) (cs_settled (run_events (use_step (tw_json talking_world))
      [Reports (TextArrives ''ready''), TimesOut k] s1)) = [(k, Inr (JObject [(''type'', JString ''ready'')]))]"
proof -
  have p: "\<forall>m. has_type ''ready'' m = Inr True \<longrightarrow> js_truthy (Some m)" using has_type_truthy by blast
  have b: "new_socket = run_events (use_step (tw_json talking_world)) [] new_socket" by simp
  define s1 where "s1 = new_socket\<lparr>cs_waiting := [(0, has_type ''ready'', ''ready'')], cs_next := 1\<rparr>"
  have w: "waitForMessage (has_type ''ready'') ''ready'' 0 new_socket = (Inr (Waiting 0), s1)"
    by (simp add: waitForMessage_def new_socket_def s1_def)
  define t where "t = run_events (use_step (tw_json talking_world)) [Reports (TextArrives ''ready''), TimesOut 0] s1"
  have e: "cs_waiting t = [] \<and> cs_settled t = [(0, Inr (JObject [(''type'', JString ''ready'')]))]"
    by (simp add: t_def s1_def new_socket_def talking_world_def text_arrives_def parseServerMessage_def has_type_def member_of_def bindE_def
        json_field_def settle_wait_def wait_times_out_def)
  from waits_miss_nothing[OF p b _ w t_def] e w show ?thesis unfolding t_def by auto
qed

theorem await_messages_truthful_witness:
  "\<exists>m t. await_messages [(0, has_type ''ready'', ''ready'', 0)] 1000 talking_world connected_tools = (Inr [m], t) \<and>
    has_type ''ready'' m = Inr True \<and> m \<in> set (cs_messages (sockets t ! 0))"
proof -
  obtain m t where run: "await_messages [(0, has_type ''ready'', ''ready'', 0)] 1000 talking_world connected_tools = (Inr [m], t)"
    by (simp add: await_messages_def start_wait_def bindT_def on_socket_def liftT_def returnT_def waitForMessage_def
        connected_tools_def new_socket_def talking_world_def started_tools_def progress_of_def result_of_def hears_def
        text_arrives_def parseServerMessage_def has_type_def member_of_def bindE_def json_field_def settle_wait_def Let_def is_rejected_def)
  have "\<forall>a \<in> set [(0, has_type ''ready'', ''ready'', 0)]. startable connected_tools a"
    using has_type_truthy by (simp add: connected_tools_def)
  moreover have "\<forall>c \<in> set (sockets connected_tools). client_ok c"
    by (simp add: connected_tools_def new_socket_def client_ok_def)
  ultimately show ?thesis using await_messages_truthful[OF run] run by auto
qed

end
