(* ===== verification/Wav.thy ===== *)
theory Wav
  imports Tooling "HOL-Library.Word"
begin

text \<open>
  The audio file of verify-real-demucs.mjs: createSyntheticWav writes a PCM WAV file into a buffer
  of bytes, assertWavFile checks the files that come back. The rounded values of the sine mixture
  (Math.sin is the language's) are a parameter \<open>wave\<close> from the number of a frame to the left and
  right sample.
\<close>

type_synonym byte = "8 word"

section \<open>Buffers\<close>

text \<open>\<open>Buffer.alloc\<close>, and writing inside a buffer; writing outside of it throws a RangeError (\<open>None\<close>).\<close>

definition buffer_alloc :: "nat \<Rightarrow> byte list" where
  "buffer_alloc n = replicate n 0"

definition put :: "nat \<Rightarrow> byte list \<Rightarrow> byte list \<Rightarrow> byte list option" where
  "put offset bs buf =
     (if offset + length bs \<le> length buf
      then Some (take offset buf @ bs @ drop (offset + length bs) buf) else None)"

text \<open>The \<open>n\<close> little-endian bytes of a number.\<close>

fun le_bytes :: "nat \<Rightarrow> nat \<Rightarrow> byte list" where
  "le_bytes 0 v = []"
| "le_bytes (Suc n) v = of_nat (v mod 256) # le_bytes n (v div 256)"

fun le_value :: "byte list \<Rightarrow> nat" where
  "le_value [] = 0"
| "le_value (b # bs) = unat b + 256 * le_value bs"

definition writeUInt :: "nat \<Rightarrow> nat \<Rightarrow> nat \<Rightarrow> byte list \<Rightarrow> byte list option" where
  "writeUInt n v offset buf = (if v < 256 ^ n then put offset (le_bytes n v) buf else None)"

definition writeInt16LE :: "int \<Rightarrow> nat \<Rightarrow> byte list \<Rightarrow> byte list option" where
  "writeInt16LE v offset buf =
     (if - 32768 \<le> v \<and> v \<le> 32767 then put offset (le_bytes 2 (unat (word_of_int v :: 16 word))) buf else None)"

definition ascii :: "string \<Rightarrow> byte list" where
  "ascii t = map of_char t"

definition writeText :: "string \<Rightarrow> nat \<Rightarrow> byte list \<Rightarrow> byte list option" where
  "writeText t offset buf = put offset (ascii t) buf"

definition readUInt :: "nat \<Rightarrow> nat \<Rightarrow> byte list \<Rightarrow> nat" where
  "readUInt n offset buf = le_value (take n (drop offset buf))"

definition readInt16LE :: "nat \<Rightarrow> byte list \<Rightarrow> int" where
  "readInt16LE offset buf = sint (of_nat (readUInt 2 offset buf) :: 16 word)"

section \<open>verify-real-demucs.mjs\<close>

definition write_header :: "nat \<Rightarrow> nat \<Rightarrow> byte list \<Rightarrow> byte list option" where
  "write_header sampleRate dataByteLength wav =
     Option.bind (writeText ''RIFF'' 0 wav) (\<lambda>w1.
     Option.bind (writeUInt 4 (36 + dataByteLength) 4 w1) (\<lambda>w2.
     Option.bind (writeText ''WAVE'' 8 w2) (\<lambda>w3.
     Option.bind (writeText ''fmt '' 12 w3) (\<lambda>w4.
     Option.bind (writeUInt 4 16 16 w4) (\<lambda>w5.
     Option.bind (writeUInt 2 1 20 w5) (\<lambda>w6.
     Option.bind (writeUInt 2 2 22 w6) (\<lambda>w7.
     Option.bind (writeUInt 4 sampleRate 24 w7) (\<lambda>w8.
     Option.bind (writeUInt 4 (sampleRate * 2 * 2) 28 w8) (\<lambda>w9.
     Option.bind (writeUInt 2 (2 * 2) 32 w9) (\<lambda>w10.
     Option.bind (writeUInt 2 (2 * 8) 34 w10) (\<lambda>w11.
     Option.bind (writeText ''data'' 36 w11) (\<lambda>w12.
     writeUInt 4 dataByteLength 40 w12))))))))))))"

definition write_frame :: "(nat \<Rightarrow> int \<times> int) \<Rightarrow> nat \<Rightarrow> byte list \<Rightarrow> byte list option" where
  "write_frame wave frame wav =
     (let frameOffset = 44 + frame * 2 * 2
      in Option.bind (writeInt16LE (fst (wave frame)) frameOffset wav) (\<lambda>w1.
           writeInt16LE (snd (wave frame)) (frameOffset + 2) w1))"

fun write_frames :: "(nat \<Rightarrow> int \<times> int) \<Rightarrow> nat list \<Rightarrow> byte list \<Rightarrow> byte list option" where
  "write_frames wave [] wav = Some wav"
| "write_frames wave (f # fs) wav = Option.bind (write_frame wave f wav) (write_frames wave fs)"

definition createSyntheticWav :: "nat \<Rightarrow> nat \<Rightarrow> (nat \<Rightarrow> int \<times> int) \<Rightarrow> byte list option" where
  "createSyntheticWav durationSeconds sampleRate wave =
     (let frameCount = durationSeconds * sampleRate; dataByteLength = frameCount * 2 * 2
      in Option.bind (write_header sampleRate dataByteLength (buffer_alloc (44 + dataByteLength)))
           (write_frames wave [0..<frameCount]))"

text \<open>\<open>toString("ascii")\<close> drops the highest bit of every byte.\<close>

definition ascii_text :: "byte list \<Rightarrow> string" where
  "ascii_text bs = map (\<lambda>b. char_of (unat b mod 128)) bs"

definition assertWavFile :: "string \<Rightarrow> byte list \<Rightarrow> string + unit" where
  "assertWavFile stemName bytes =
     (if length bytes \<le> 44 then Inl (stemName @ '' result is empty or missing WAV sample data'')
      else if ascii_text (take 4 bytes) \<noteq> ''RIFF'' \<or> ascii_text (take 4 (drop 8 bytes)) \<noteq> ''WAVE''
      then Inl (stemName @ '' result does not have a valid WAV signature'')
      else Inr ())"

section \<open>Reading back\<close>

lemma le_bytes_length [simp]: "length (le_bytes n v) = n"
  by (induction n arbitrary: v) auto

lemma le_value_bytes: "v < 256 ^ n \<Longrightarrow> le_value (le_bytes n v) = v"
proof (induction n arbitrary: v)
  case (Suc n)
  then have "v div 256 < 256 ^ n" by (simp add: less_mult_imp_div_less mult.commute)
  then show ?case using Suc.IH by (simp add: unat_of_nat)
qed simp

lemma put_Some:
  "put offset bs buf = Some buf' \<Longrightarrow> offset + length bs \<le> length buf \<and>
     buf' = take offset buf @ bs @ drop (offset + length bs) buf"
  by (auto simp: put_def split: if_splits)

text \<open>What a write leaves at its own place and elsewhere.\<close>

definition holds_at :: "nat \<Rightarrow> byte list \<Rightarrow> byte list \<Rightarrow> bool" where
  "holds_at offset bs buf \<longleftrightarrow> offset + length bs \<le> length buf \<and> take (length bs) (drop offset buf) = bs"

lemma put_length: "put offset bs buf = Some buf' \<Longrightarrow> length buf' = length buf"
  by (auto dest!: put_Some)

lemma put_at: "put offset bs buf = Some buf' \<Longrightarrow> holds_at offset bs buf'"
  by (auto simp: holds_at_def dest!: put_Some)

lemma put_elsewhere:
  assumes "put offset bs buf = Some buf'" "holds_at i cs buf" "i + length cs \<le> offset \<or> offset + length bs \<le> i"
  shows "holds_at i cs buf'"
proof -
  note b = put_Some[OF assms(1)]
  have "take (length cs) (drop i buf') = take (length cs) (drop i buf)"
    using assms(3)
  proof
    assume "i + length cs \<le> offset"
    then obtain k where k: "offset = i + length cs + k" using le_Suc_ex by blast
    then show ?thesis using b by (auto simp: drop_take min_def)
  next
    assume "offset + length bs \<le> i"
    then show ?thesis using b by simp
  qed
  then show ?thesis using assms(2) put_length[OF assms(1)] by (simp add: holds_at_def)
qed

lemma at_read: "holds_at offset (le_bytes n v) buf \<Longrightarrow> v < 256 ^ n \<Longrightarrow> readUInt n offset buf = v"
  by (simp add: holds_at_def readUInt_def le_value_bytes)

lemma at_text: "holds_at offset bs buf \<Longrightarrow> take (length bs) (drop offset buf) = bs"
  by (simp add: holds_at_def)

lemma put_fits: "offset + length bs \<le> length buf \<Longrightarrow> \<exists>buf'. put offset bs buf = Some buf'"
  by (simp add: put_def)

lemma int16_bytes:
  assumes "- 32768 \<le> v" "v \<le> 32767" "holds_at offset (le_bytes 2 (unat (word_of_int v :: 16 word))) buf"
  shows "readInt16LE offset buf = v"
proof -
  have "unat (word_of_int v :: 16 word) < 256 ^ 2" using unsigned_less[of "word_of_int v :: 16 word"] by simp
  then have "readUInt 2 offset buf = unat (word_of_int v :: 16 word)" using assms(3) at_read by blast
  then have "readInt16LE offset buf = sint (word_of_int v :: 16 word)" by (simp add: readInt16LE_def)
  also have "... = v" using assms(1,2) by (simp add: signed_of_int signed_take_bit_int_eq_self)
  finally show ?thesis .
qed

section \<open>Several writes\<close>

text \<open>Pieces with their offsets, written one after the other; each lies before the next ones.\<close>

fun puts :: "(nat \<times> byte list) list \<Rightarrow> byte list \<Rightarrow> byte list option" where
  "puts [] buf = Some buf"
| "puts (x # xs) buf = Option.bind (put (fst x) (snd x) buf) (puts xs)"

definition before :: "nat \<times> byte list \<Rightarrow> nat \<times> byte list \<Rightarrow> bool" where
  "before x y \<longleftrightarrow> fst x + length (snd x) \<le> fst y"

lemma puts_append: "puts (xs @ ys) buf = Option.bind (puts xs buf) (puts ys)"
  by (induction xs arbitrary: buf) (auto split: Option.bind_split)

lemma puts_keep:
  assumes "puts xs buf = Some buf'" "holds_at i cs buf" "\<forall>y \<in> set xs. before (i, cs) y"
  shows "holds_at i cs buf'"
  using assms
proof (induction xs arbitrary: buf)
  case (Cons x xs)
  obtain b1 where b1: "put (fst x) (snd x) buf = Some b1" "puts xs b1 = Some buf'"
    using Cons.prems(1) by (auto simp: bind_eq_Some_conv)
  have "holds_at i cs b1" using put_elsewhere[OF b1(1) Cons.prems(2)] Cons.prems(3) by (simp add: before_def)
  then show ?case using Cons.IH[OF b1(2)] Cons.prems(3) by simp
qed simp

lemma puts_hold:
  assumes "sorted_wrt before xs" "\<forall>x \<in> set xs. fst x + length (snd x) \<le> length buf"
  shows "\<exists>buf'. puts xs buf = Some buf' \<and> length buf' = length buf \<and> (\<forall>x \<in> set xs. holds_at (fst x) (snd x) buf')"
  using assms
proof (induction xs arbitrary: buf)
  case (Cons x xs)
  obtain b1 where b1: "put (fst x) (snd x) buf = Some b1" using put_fits Cons.prems(2) by (metis list.set_intros(1))
  have l: "length b1 = length buf" by (rule put_length[OF b1])
  obtain b2 where b2: "puts xs b1 = Some b2" "length b2 = length b1" "\<forall>y \<in> set xs. holds_at (fst y) (snd y) b2"
    using Cons.IH[of b1] Cons.prems l by auto
  have "holds_at (fst x) (snd x) b2"
    using puts_keep[OF b2(1) put_at[OF b1]] Cons.prems(1) by simp
  then show ?case using b1 b2 l by simp
qed simp

lemma puts_fun:
  "puts [] = Some" "puts (x # xs) = (\<lambda>buf. Option.bind (put (fst x) (snd x) buf) (puts xs))"
  by (auto simp: fun_eq_iff)

section \<open>The file\<close>

definition sample_bytes :: "int \<Rightarrow> byte list" where
  "sample_bytes v = le_bytes 2 (unat (word_of_int v :: 16 word))"

definition header_pieces :: "nat \<Rightarrow> nat \<Rightarrow> (nat \<times> byte list) list" where
  "header_pieces rate d =
     [(0, ascii ''RIFF''), (4, le_bytes 4 (36 + d)), (8, ascii ''WAVE''), (12, ascii ''fmt ''),
      (16, le_bytes 4 16), (20, le_bytes 2 1), (22, le_bytes 2 2), (24, le_bytes 4 rate),
      (28, le_bytes 4 (rate * 2 * 2)), (32, le_bytes 2 (2 * 2)), (34, le_bytes 2 (2 * 8)),
      (36, ascii ''data''), (40, le_bytes 4 d)]"

definition frame_pieces :: "(nat \<Rightarrow> int \<times> int) \<Rightarrow> nat \<Rightarrow> (nat \<times> byte list) list" where
  "frame_pieces wave f = [(44 + f * 4, sample_bytes (fst (wave f))), (44 + f * 4 + 2, sample_bytes (snd (wave f)))]"

definition sample_range :: "int \<times> int \<Rightarrow> bool" where
  "sample_range x \<longleftrightarrow> - 32768 \<le> fst x \<and> fst x \<le> 32767 \<and> - 32768 \<le> snd x \<and> snd x \<le> 32767"

lemma sample_length [simp]: "length (sample_bytes v) = 2"
  by (simp add: sample_bytes_def)

lemma ascii_length [simp]: "length (ascii t) = length t"
  by (simp add: ascii_def)

lemma header_eq:
  assumes "rate * 4 < 2 ^ 32" "36 + d < 2 ^ 32"
  shows "write_header rate d buf = puts (header_pieces rate d) buf"
  using assms by (simp add: write_header_def header_pieces_def writeText_def writeUInt_def puts_fun)

lemma frame_eq: "sample_range (wave f) \<Longrightarrow> write_frame wave f buf = puts (frame_pieces wave f) buf"
  by (simp add: write_frame_def frame_pieces_def writeInt16LE_def sample_range_def sample_bytes_def Let_def
      mult.assoc puts_fun)

lemma frames_eq:
  assumes "\<forall>f \<in> set fs. sample_range (wave f)"
  shows "write_frames wave fs buf = puts (concat (map (frame_pieces wave) fs)) buf"
  using assms
proof (induction fs arbitrary: buf)
  case (Cons f fs)
  then have "write_frames wave fs = puts (concat (map (frame_pieces wave) fs))" by (intro ext) simp
  then show ?case using Cons.prems by (simp add: frame_eq puts_append)
qed simp

definition wav_pieces :: "nat \<Rightarrow> nat \<Rightarrow> (nat \<Rightarrow> int \<times> int) \<Rightarrow> (nat \<times> byte list) list" where
  "wav_pieces rate n wave = header_pieces rate (n * 4) @ concat (map (frame_pieces wave) [0..<n])"

lemma frames_sorted: "sorted_wrt before (concat (map (frame_pieces wave) [0..<n]))"
proof (induction n)
  case (Suc n)
  have "before x y" if "x \<in> set (concat (map (frame_pieces wave) [0..<n]))" "y \<in> set (frame_pieces wave n)" for x y
    using that by (auto simp: frame_pieces_def before_def)
  moreover have "sorted_wrt before (frame_pieces wave n)" by (simp add: frame_pieces_def before_def)
  ultimately show ?case using Suc by (simp add: sorted_wrt_append)
qed simp

lemma wav_sorted: "sorted_wrt before (wav_pieces rate n wave)"
proof -
  have "sorted_wrt before (header_pieces rate (n * 4))" by (simp add: header_pieces_def before_def)
  moreover have "before x y" if "x \<in> set (header_pieces rate (n * 4))"
    "y \<in> set (concat (map (frame_pieces wave) [0..<n]))" for x y
    using that by (auto simp: header_pieces_def frame_pieces_def before_def)
  ultimately show ?thesis unfolding wav_pieces_def sorted_wrt_append using frames_sorted by blast
qed

lemma wav_fits: "x \<in> set (wav_pieces rate n wave) \<Longrightarrow> fst x + length (snd x) \<le> 44 + n * 4"
  by (auto simp: wav_pieces_def header_pieces_def frame_pieces_def)

lemma created_pieces:
  assumes "rate * 4 < 2 ^ 32" "36 + secs * rate * 4 < 2 ^ 32" "\<forall>f < secs * rate. sample_range (wave f)"
  shows "createSyntheticWav secs rate wave =
    puts (wav_pieces rate (secs * rate) wave) (buffer_alloc (44 + secs * rate * 4))"
proof -
  have "write_frames wave [0..<secs * rate] = puts (concat (map (frame_pieces wave) [0..<secs * rate]))"
    using assms(3) by (intro ext frames_eq) simp
  moreover have "secs * rate * 2 * 2 = secs * rate * 4" by simp
  ultimately show ?thesis
    using assms(1,2) by (simp add: createSyntheticWav_def Let_def header_eq wav_pieces_def puts_append mult.assoc)
qed

lemma byte_of_char: "unat (of_char c :: byte) = of_char c"
proof -
  have "(of_char c :: byte) = of_nat (of_char c)" by (rule of_nat_of_char[symmetric])
  then show ?thesis by (simp only: unat_of_nat) simp
qed

lemma ascii_back: "list_all (\<lambda>c. of_char c < (128 :: nat)) t \<Longrightarrow> ascii_text (ascii t) = t"
  by (induction t) (auto simp: ascii_def ascii_text_def byte_of_char)

lemma text_read:
  assumes "holds_at offset (ascii t) buf" "list_all (\<lambda>c. of_char c < (128 :: nat)) t" "n = length t"
  shows "ascii_text (take n (drop offset buf)) = t"
  using at_text[OF assms(1)] assms(2,3) by (simp add: ascii_back)

text \<open>
  C39: the generated audio file is a WAV file of its samples. When the samples fit into 16 bits and the
  sizes into 32, creating it succeeds; the header names the size of the rest, two channels, the rate
  and the size of the data; every sample of both channels is read back as it was
  written; and with at least one frame the program's own check of WAV files accepts it.
\<close>

theorem synthetic_wav_reads_back:
  assumes "rate * 4 < 2 ^ 32" "36 + secs * rate * 4 < 2 ^ 32" "\<forall>f < secs * rate. sample_range (wave f)"
  shows "\<exists>wav. createSyntheticWav secs rate wave = Some wav \<and> length wav = 44 + secs * rate * 4 \<and>
    readUInt 4 4 wav = length wav - 8 \<and> readUInt 2 22 wav = 2 \<and> readUInt 4 24 wav = rate \<and>
    readUInt 2 34 wav = 16 \<and> readUInt 4 40 wav = length wav - 44 \<and>
    (\<forall>f < secs * rate. readInt16LE (44 + f * 4) wav = fst (wave f) \<and>
       readInt16LE (44 + f * 4 + 2) wav = snd (wave f)) \<and>
    (0 < secs * rate \<longrightarrow> assertWavFile name wav = Inr ())"
proof -
  obtain wav where wav: "createSyntheticWav secs rate wave = Some wav" "length wav = 44 + secs * rate * 4"
    "\<forall>x \<in> set (wav_pieces rate (secs * rate) wave). holds_at (fst x) (snd x) wav"
    using puts_hold[OF wav_sorted[of rate "secs * rate" wave], of "buffer_alloc (44 + secs * rate * 4)"]
      wav_fits[of _ rate "secs * rate" wave] created_pieces[OF assms] by (auto simp: buffer_alloc_def)
  have held: "holds_at i bs wav" if "(i, bs) \<in> set (wav_pieces rate (secs * rate) wave)" for i bs
    using wav(3) that by force
  have header: "(i, bs) \<in> set (wav_pieces rate (secs * rate) wave)"
    if "(i, bs) \<in> set (header_pieces rate (secs * rate * 4))" for i bs
    using that by (simp add: wav_pieces_def)
  have fields: "readUInt 4 4 wav = 36 + secs * rate * 4" "readUInt 2 22 wav = 2" "readUInt 4 24 wav = rate"
    "readUInt 2 34 wav = 16" "readUInt 4 40 wav = secs * rate * 4"
    by (rule at_read, rule held, rule header, simp add: header_pieces_def, use assms(1,2) in simp)+
  have "ascii_text (take 4 (drop 0 wav)) = ''RIFF''" "ascii_text (take 4 (drop 8 wav)) = ''WAVE''"
    by (rule text_read, rule held, rule header, simp add: header_pieces_def, simp, simp)+
  then have texts: "ascii_text (take 4 wav) = ''RIFF''" "ascii_text (take 4 (drop 8 wav)) = ''WAVE''" by simp_all
  have "readInt16LE (44 + f * 4) wav = fst (wave f) \<and> readInt16LE (44 + f * 4 + 2) wav = snd (wave f)"
    if f: "f < secs * rate" for f
  proof -
    have "set (frame_pieces wave f) \<subseteq> set (wav_pieces rate (secs * rate) wave)"
      using f by (auto simp: wav_pieces_def)
    then have "holds_at (44 + f * 4) (sample_bytes (fst (wave f))) wav"
      "holds_at (44 + f * 4 + 2) (sample_bytes (snd (wave f))) wav"
      using held by (auto simp: frame_pieces_def)
    then show ?thesis using assms(3) f int16_bytes unfolding sample_bytes_def sample_range_def by blast
  qed
  then show ?thesis
    using wav(1,2) fields texts by (auto simp: assertWavFile_def)
qed

definition small_wave :: "nat \<Rightarrow> int \<times> int" where
  "small_wave f = (if f = 0 then (- 32768, 32767) else (- 1, 0))"

theorem synthetic_wav_reads_back_witness:
  "\<exists>wav. createSyntheticWav 1 2 small_wave = Some wav \<and> length wav = 52 \<and>
    readInt16LE 44 wav = - 32768 \<and> readInt16LE 50 wav = 0 \<and> assertWavFile ''vocals'' wav = Inr ()"
proof -
  have r: "\<forall>f < 1 * 2. sample_range (small_wave f)" by (simp add: sample_range_def small_wave_def)
  obtain wav where "createSyntheticWav 1 2 small_wave = Some wav" "length wav = 44 + 1 * 2 * 4"
    and read: "\<forall>f < 1 * 2. readInt16LE (44 + f * 4) wav = fst (small_wave f) \<and>
       readInt16LE (44 + f * 4 + 2) wav = snd (small_wave f)"
    and "0 < (1 :: nat) * 2 \<longrightarrow> assertWavFile ''vocals'' wav = Inr ()"
    using synthetic_wav_reads_back[of 2 1 small_wave "''vocals''", OF _ _ r] by auto
  moreover have "readInt16LE 44 wav = - 32768" "readInt16LE 50 wav = 0"
    using read[rule_format, of 0] read[rule_format, of 1] by (simp_all add: small_wave_def)
  ultimately show ?thesis by auto
qed

end
