(* ===== verification/Drills.thy ===== *)
theory Drills
  imports ApiClient
begin

text \<open>
  The integration programs verify-job-admission.mjs and verify-worker-recovery.mjs over the tools of
  Tooling and the client of ApiClient: a body in a \<open>try\<close>, and in the \<open>finally\<close> the cancellation and expiry
  of the program's own jobs and the return to the normal worker, whatever happened before.
\<close>

section \<open>The common frame\<close>

definition set_session :: "tool_session \<Rightarrow> unit tool" where
  "set_session ses w s = (Inr (), s\<lparr>session := Some ses\<rparr>)"

definition push_job :: "json option \<Rightarrow> string tool" where
  "push_job i w s =
     (let jobId = (case i of Some (JString t) \<Rightarrow> t | _ \<Rightarrow> tw_string w i)
      in (Inr jobId, s\<lparr>jobIds := jobIds s @ [jobId]\<rparr>))"

text \<open>The recovery program has one job, kept when it counts as true.\<close>

definition keep_job :: "json option \<Rightarrow> string tool" where
  "keep_job i w s =
     (let jobId = (case i of Some (JString t) \<Rightarrow> t | _ \<Rightarrow> tw_string w i)
      in (Inr jobId, s\<lparr>jobIds := (if js_truthy i then [jobId] else [])\<rparr>))"

definition set_removed :: "string \<Rightarrow> unit tool" where
  "set_removed workerId w s = (Inr (), s\<lparr>removedWorkerId := Some workerId\<rparr>)"

text \<open>The tests of jobs that the program created: only with a session there is something to cancel.\<close>

definition cancel_own_jobs :: "unit tool" where
  "cancel_own_jobs w s =
     (case session s of
        None \<Rightarrow> (Inr (), s)
      | Some ses \<Rightarrow> bindT (allT (cancelJobIfActive ses) (jobIds s)) (\<lambda>_. returnT ()) w s)"

definition expire_own_jobs :: "unit tool" where
  "expire_own_jobs w s = reportedT (expireTestJobs (jobIds s)) w s"

text \<open>
  \<open>drill body cleanup\<close>: the error of the body is kept, the cleanup and the return to the normal
  worker follow, and the first of both errors is thrown at the end.
\<close>

definition drill :: "unit tool \<Rightarrow> unit tool \<Rightarrow> unit tool" where
  "drill body cleanup w s =
     (case body w s of (testFailure, s1) \<Rightarrow>
        (case restoreNormalWorker w (snd (cleanup w s1)) of (back, s2) \<Rightarrow>
           (bindE testFailure (\<lambda>_. back), s2)))"

section \<open>verify-job-admission.mjs\<close>

fun js_includes :: "string \<Rightarrow> string \<Rightarrow> bool" where
  "js_includes [] part = (part = [])"
| "js_includes (c # cs) part = (startsWith (c # cs) part \<or> js_includes cs part)"

definition expectHttpConflict :: "string \<Rightarrow> string \<Rightarrow> string + unit" where
  "expectHttpConflict message expectedMessagePart =
     (if \<not> js_includes message ''HTTP 409'' \<or> \<not> js_includes message expectedMessagePart
      then Inl (''Expected HTTP 409 containing '' @ [CHR 0x22] @ expectedMessagePart @ [CHR 0x22] @
             '', received: '' @ message)
      else Inr ())"

text \<open>A request that has to fail with the conflict: its success is itself an error of that block.\<close>

definition expect_conflict :: "'a tool \<Rightarrow> string \<Rightarrow> string \<Rightarrow> unit tool" where
  "expect_conflict request unexpected part w s =
     (case request w s of
        (Inr _, s1) \<Rightarrow> (expectHttpConflict unexpected part, s1)
      | (Inl m, s1) \<Rightarrow> (expectHttpConflict m part, s1))"

definition now_text :: "string tool" where
  "now_text w s = (Inr (show_nat (clock s)), s)"

definition admission_body :: "unit tool" where
  "admission_body =
     bindT assertProcessingEnvironmentIsIdle (\<lambda>_.
     bindT (startMockWorkers 1 45 300 30) (\<lambda>_.
     bindT (waitForActiveWorkerCount 1 60000) (\<lambda>_.
     bindT (createSession defaultApiBaseUrl) (\<lambda>ses.
     bindT (set_session ses) (\<lambda>_.
     bindT now_text (\<lambda>now.
     let firstFileName = ''admission-test-'' @ now @ ''.mp3'' in
     bindT now_text (\<lambda>later.
     let firstAudioBytes = text_bytes (js_join newline [''ID3'', ''Admission integration test'', later, []]) in
     bindT (requestUploadPermission ses firstFileName ''audio/mpeg'' (length firstAudioBytes)) (\<lambda>firstPermission.
     bindT (uploadBytesToStorage firstPermission ''audio/mpeg'' firstAudioBytes) (\<lambda>_.
     bindT (property firstPermission ''objectKey'') (\<lambda>key.
     bindT (createJobForUpload ses firstFileName key) (\<lambda>firstJob.
     bindT (property firstJob ''id'') (\<lambda>i.
     bindT (push_job i) (\<lambda>_.
     bindT (expect_conflict (createJobForUpload ses firstFileName key)
       ''Duplicate job creation unexpectedly succeeded'' ''already has a processing job'') (\<lambda>_.
     bindT (submitTestJob ses 2) (\<lambda>secondJob.
     bindT (property secondJob ''id'') (\<lambda>i2.
     bindT (push_job i2) (\<lambda>_.
     bindT now_text (\<lambda>limit.
     expect_conflict
       (requestUploadPermission ses (''admission-over-limit-'' @ limit @ ''.mp3'') ''audio/mpeg'' 32)
       ''Upload permission above the active-job limit succeeded'' ''2 active jobs''))))))))))))))))))"

definition verify_job_admission :: "unit tool" where
  "verify_job_admission = drill admission_body (bindT cancel_own_jobs (\<lambda>_. expire_own_jobs))"

section \<open>verify-worker-recovery.mjs\<close>

definition stale_sql :: "string \<Rightarrow> string" where
  "stale_sql workerId = js_join newline [''SELECT last_heartbeat_at < NOW() - ('',
     ''       heartbeat_timeout_seconds * INTERVAL '' @ [apostrophe] @ ''1 second'' @ [apostrophe],
     ''     )'', ''     FROM worker_instances'',
     ''     WHERE worker_id = '' @ [apostrophe] @ workerId @ [apostrophe] @ '';'']"

definition removedWorkerIsStale :: "string \<Rightarrow> bool tool" where
  "removedWorkerIsStale workerId =
     (if \<not> container_shaped workerId then throwT (''Unexpected worker ID in stale check: '' @ workerId)
      else bindT (queryDatabase (stale_sql workerId)) (\<lambda>result. returnT (result = ''t'')))"

definition attempts_text :: "tool_world \<Rightarrow> js_number option \<Rightarrow> string" where
  "attempts_text w n = (case n of None \<Rightarrow> ''undefined'' | Some x \<Rightarrow> reading w x)"

definition recovery_body :: "unit tool" where
  "recovery_body =
     bindT assertProcessingEnvironmentIsIdle (\<lambda>_.
     bindT (startMockWorkers 3 30 60 10) (\<lambda>_.
     bindT (waitForActiveWorkerCount 3 60000) (\<lambda>_.
     bindT (createSession defaultApiBaseUrl) (\<lambda>ses.
     bindT (set_session ses) (\<lambda>_.
     bindT (submitTestJob ses 1) (\<lambda>createdJob.
     bindT (property createdJob ''id'') (\<lambda>i.
     bindT (keep_job i) (\<lambda>jobId.
     bindT (waitForBusyWorker jobId 30000) (\<lambda>removed.
     bindT (set_removed removed) (\<lambda>_.
     bindT (forceRemoveWorker removed) (\<lambda>_.
     bindT (waitForReplacementWorker jobId removed 150000) (\<lambda>replacement.
     bindT (removedWorkerIsStale removed) (\<lambda>stale.
     if \<not> stale then throwT ''Removed worker did not become stale in the registry'' else
     bindT (waitForJobs ses [jobId] 180000 500) (\<lambda>finals.
     bindT (liftT (member_of (hd finals) ''status'')) (\<lambda>status.
     if status \<noteq> Some (JString ''COMPLETED'')
     then (\<lambda>w. throwT (''Recovered job ended as '' @
             (case status of Some (JString t) \<Rightarrow> t | _ \<Rightarrow> tw_string w status)) w) else
     bindT (readJobAttempts [jobId]) (\<lambda>attempts w.
       if attempts jobId \<noteq> Some (Finite 2)
       then throwT (''Expected two processing attempts but PostgreSQL recorded '' @
              attempts_text w (attempts jobId)) w
       else returnT () w))))))))))))))))"

definition remove_own_worker :: "unit tool" where
  "remove_own_worker w s = reportedT (removeWorkerRegistryRow (removedWorkerId s)) w s"

definition verify_worker_recovery :: "unit tool" where
  "verify_worker_recovery =
     drill recovery_body (bindT cancel_own_jobs (\<lambda>_. bindT expire_own_jobs (\<lambda>_. remove_own_worker)))"

section \<open>What a refused drill does\<close>

definition list_workers :: command where
  "list_workers = \<lparr>cmd_program = ''docker'', cmd_arguments = [''compose'', ''ps'', ''--all'', ''--quiet'', ''worker''],
     cmd_capture = True, cmd_environment = []\<rparr>"

definition remove_workers :: "string list \<Rightarrow> command" where
  "remove_workers ids = \<lparr>cmd_program = ''docker'', cmd_arguments = [''container'', ''rm'', ''--force''] @ ids,
     cmd_capture = False, cmd_environment = []\<rparr>"

definition untouched :: "tools \<Rightarrow> bool" where
  "untouched s \<longleftrightarrow> session s = None \<and> jobIds s = [] \<and> removedWorkerId s = None \<and>
     jobSockets s = []"

lemma refusal_untouched:
  assumes "assertProcessingEnvironmentIsIdle w s = (r, s1)" "untouched s"
  shows "untouched s1"
  using variables.keeps_idle_check assms unfolding keeps_def same_variables_def untouched_def by (metis snd_conv)

lemma nothing_to_clean:
  assumes "untouched s"
  shows "snd (bindT cancel_own_jobs (\<lambda>_. expire_own_jobs) w s) = s"
    "snd (bindT cancel_own_jobs (\<lambda>_. bindT expire_own_jobs (\<lambda>_. remove_own_worker)) w s) = s"
  using assms by (simp_all add: untouched_def bindT_def cancel_own_jobs_def expire_own_jobs_def expireTestJobs_def
      remove_own_worker_def removeWorkerRegistryRow_def reportedT_def returnT_def)

lemma restore_removes:
  assumes "tw_output w (actions s) list_workers = Inr output" "nonempty_lines (js_trim output) = ids" "ids \<noteq> []"
  shows "Ran (remove_workers ids) \<in> set (actions (snd (restoreNormalWorker w s)))"
proof -
  define s1 where "s1 = s\<lparr>actions := actions s @ [Ran list_workers], clock := clock s + tw_duration w (actions s)\<rparr>"
  have ps: "compose [''ps'', ''--all'', ''--quiet'', ''worker''] True [] w s = (Inr (js_trim output), s1)"
    using assms(1) by (simp add: compose_def runCommand_def list_workers_def s1_def Let_def)
  have "\<exists>r s2. runCommand ''docker'' ([''container'', ''rm'', ''--force''] @ ids) False [] w s1 = (r, s2) \<and>
      Ran (remove_workers ids) \<in> set (actions s2)"
    by (auto simp: runCommand_def remove_workers_def Let_def split: sum.split)
  then obtain r s2 where rm: "runCommand ''docker'' ([''container'', ''rm'', ''--force''] @ ids) False [] w s1 = (r, s2)"
    "Ran (remove_workers ids) \<in> set (actions s2)" by blast
  have "later s2 (snd (normal_worker w s2))"
    using time.keeps_normal unfolding keeps_def by blast
  then have "Ran (remove_workers ids) \<in> set (actions (snd (normal_worker w s2)))"
    using rm(2) by (auto simp: later_def)
  then show ?thesis
    using ps rm assms(2,3) unfolding restoreNormalWorker_def Let_def by (cases r) (simp_all add: bindT_def)
qed

section \<open>What every drill leaves behind\<close>

definition normal_command :: command where
  "normal_command = \<lparr>cmd_program = ''docker'',
     cmd_arguments = [''compose'', ''up'', ''-d'', ''--scale'', ''worker=1'', ''worker''], cmd_capture = False,
     cmd_environment = [(''PROCESSING_MODE'', ''demucs''), (''DEMUCS_MODEL'', ''htdemucs_6s''),
       (''MOCK_PROCESSING_DELAY_SECONDS'', ''3.5''), (''JOB_LEASE_TIMEOUT_SECONDS'', ''300''),
       (''JOB_HEARTBEAT_INTERVAL_SECONDS'', ''30'')]\<rparr>"

lemma runs_fine:
  assumes "\<And>h c. \<exists>out. tw_output w h c = Inr out"
  shows "\<exists>out t. runCommand prog args capture env w s = (Inr out, t) \<and> actions t =
    actions s @ [Ran \<lparr>cmd_program = prog, cmd_arguments = args, cmd_capture = capture, cmd_environment = env\<rparr>]"
proof -
  obtain o1 where "tw_output w (actions s) \<lparr>cmd_program = prog, cmd_arguments = args, cmd_capture = capture,
      cmd_environment = env\<rparr> = Inr o1" using assms by blast
  then show ?thesis by (simp add: runCommand_def Let_def)
qed

lemma restore_ends:
  assumes "\<And>h c. \<exists>out. tw_output w h c = Inr out"
  shows "\<exists>as t. restoreNormalWorker w s = (Inr (), t) \<and> actions t = as @ [Ran normal_command]"
proof -
  have fine: "\<exists>out t. runCommand prog args capture env w u = (Inr out, t)" for prog args capture env u
    using runs_fine[OF assms] by blast
  have up: "\<exists>t. bindT (compose (drop 1 (cmd_arguments normal_command)) False (cmd_environment normal_command))
      (\<lambda>_. returnT ()) w u = (Inr (), t) \<and> (\<exists>as. actions t = as @ [Ran normal_command])" for u
    using runs_fine[OF assms, of "''docker''" "cmd_arguments normal_command" False "cmd_environment normal_command" u]
    by (auto simp: bindT_def compose_def returnT_def normal_command_def)
  have query: "\<exists>out t. queryDatabase sql w u = (Inr out, t)" for sql u
  proof -
    have "\<exists>i t. getPostgresIdentity w u = (Inr i, t)"
    proof (cases "postgresIdentity u")
      case None
      obtain a t1 where "runCommand ''docker'' [''compose'', ''exec'', ''-T'', ''postgres'', ''printenv'', ''POSTGRES_USER'']
        True [] w u = (Inr a, t1)" using fine by blast
      moreover obtain b t2 where "runCommand ''docker'' [''compose'', ''exec'', ''-T'', ''postgres'', ''printenv'', ''POSTGRES_DB'']
        True [] w t1 = (Inr b, t2)" using fine by blast
      ultimately show ?thesis using None by (simp add: getPostgresIdentity_def bindT_def compose_def)
    qed (simp add: getPostgresIdentity_def)
    then obtain i t where "getPostgresIdentity w u = (Inr i, t)" by blast
    then show ?thesis using fine by (simp add: queryDatabase_def bindT_def compose_def)
  qed
  have normal: "\<exists>t. normal_worker w u = (Inr (), t) \<and> (\<exists>as. actions t = as @ [Ran normal_command])" for u
  proof -
    obtain out t where "queryDatabase ''DELETE FROM worker_instances;'' w u = (Inr out, t)" using query by blast
    then show ?thesis using up[of t] by (simp add: normal_worker_def bindT_def normal_command_def)
  qed
  obtain out t where ps: "compose [''ps'', ''--all'', ''--quiet'', ''worker''] True [] w s = (Inr out, t)"
    unfolding compose_def using fine by blast
  have "\<exists>a u. (if nonempty_lines out \<noteq> []
      then runCommand ''docker'' ([''container'', ''rm'', ''--force''] @ nonempty_lines out) False [] else returnT []) w t =
    (Inr a, u)"
    using fine[of "''docker''" "[''container'', ''rm'', ''--force''] @ nonempty_lines out" False "[]" t]
    by (simp add: returnT_def)
  then obtain out2 t2 where "(if nonempty_lines out \<noteq> []
      then runCommand ''docker'' ([''container'', ''rm'', ''--force''] @ nonempty_lines out) False [] else returnT []) w t =
    (Inr out2, t2)" by blast
  then show ?thesis using ps normal[of t2] unfolding restoreNormalWorker_def Let_def bindT_def by auto
qed

section \<open>Identifiers in commands\<close>

lemma uuid_characters:
  assumes "uuid_shaped u"
  shows "list_all (\<lambda>c. is_hex c \<or> c = CHR ''-'') u" "length u = 36"
proof -
  obtain a b c d e where p: "js_split (CHR ''-'') u = [a, b, c, d, e]"
    "length a = 8" "length b = 4" "length c = 4" "length d = 4" "length e = 12" "list_all is_hex (a @ b @ c @ d @ e)"
    using assms by (auto simp: uuid_shaped_def split: list.splits)
  have u: "u = a @ CHR ''-'' # b @ CHR ''-'' # c @ CHR ''-'' # d @ CHR ''-'' # e"
    using js_join_split[of "CHR ''-''" u] p(1) by simp
  show "list_all (\<lambda>c. is_hex c \<or> c = CHR ''-'') u" using p(7) unfolding u by (auto simp: list_all_iff)
  show "length u = 36" using p(2-6) unfolding u by simp
qed

lemma quoted_ids:
  "mapE quoteUuid ids = (if list_all uuid_shaped ids
     then Inr (map (\<lambda>u. [apostrophe] @ u @ [apostrophe] @ ''::uuid'') ids)
     else Inl (''Invalid UUID received by integration tooling: '' @ the (List.find (\<lambda>u. \<not> uuid_shaped u) ids)))"
  by (induction ids) (auto simp: quoteUuid_def)

text \<open>
  Identifiers cannot change a command. When a list has an identifier that is not of the shape of a
  UUID, no query about it is run at all; in a UUID only hexadecimal digits and hyphens occur. Likewise
  nothing is removed unless the name consists of 12 to 64 hexadecimal digits, so that it is
  neither an option nor SQL.
\<close>

theorem interpolated_identifiers_safe:
  "(\<not> list_all uuid_shaped ids \<longrightarrow>
      snd (expireTestJobs ids w s) = s \<and> snd (readJobAttempts ids w s) = s) \<and>
   (list_all uuid_shaped ids \<longrightarrow> list_all (\<lambda>u. length u = 36 \<and> list_all (\<lambda>c. is_hex c \<or> c = CHR ''-'') u) ids) \<and>
   (forceRemoveWorker x w s \<noteq> throwT (''Refusing to remove unexpected worker ID: '' @ x) w s \<longrightarrow> list_all is_hex x) \<and>
   (snd (removeWorkerRegistryRow (Some x) w s) \<noteq> s \<longrightarrow> list_all is_hex x)"
proof -
  have "snd (expireTestJobs ids w s) = s \<and> snd (readJobAttempts ids w s) = s" if "\<not> list_all uuid_shaped ids"
    using that quoted_ids[of ids]
    by (auto simp: expireTestJobs_def readJobAttempts_def bindT_def liftT_def returnT_def)
  moreover have "list_all is_hex x" if "snd (removeWorkerRegistryRow (Some x) w s) \<noteq> s"
    using that by (auto simp: removeWorkerRegistryRow_def returnT_def throwT_def container_shaped_def split: if_splits)
  moreover have "list_all is_hex x"
    if "forceRemoveWorker x w s \<noteq> throwT (''Refusing to remove unexpected worker ID: '' @ x) w s"
    using that by (auto simp: forceRemoveWorker_def container_shaped_def split: if_splits)
  moreover have "list_all (\<lambda>u. length u = 36 \<and> list_all (\<lambda>c. is_hex c \<or> c = CHR ''-'') u) ids"
    if "list_all uuid_shaped ids"
    using that by (rule list.pred_mono_strong) (simp add: uuid_characters)
  ultimately show ?thesis by blast
qed

section \<open>Examples\<close>

text \<open>A system with one job in processing, on a worker in container \<open>c1\<close>.\<close>

definition busy_world :: tool_world where
  "busy_world = finished_world\<lparr>tw_output := (\<lambda>h c. Inr
     (if active_jobs_sql \<in> set (cmd_arguments c) then ''1'' else if c = list_workers then ''c1'' else ''0''))\<rparr>"

lemma busy_numbers: "js_Number ''1'' = Finite 1" "js_Number ''0'' = Finite 0" "js_trim ''1'' = ''1''" "js_trim ''0'' = ''0''"
  "total_lag ''0'' = Finite 0" "js_trim ''c1'' = ''c1''" "nonempty_lines ''c1'' = [''c1'']"
  by code_simp+

lemma busy_refused: "\<exists>m s1. assertProcessingEnvironmentIsIdle busy_world started_tools = (Inl m, s1)"
  by (simp add: assertProcessingEnvironmentIsIdle_def bindT_def queryDatabase_def getPostgresIdentity_def compose_def
      runCommand_def psql_arguments_def readKafkaJobLag_def busy_world_def started_tools_def returnT_def throwT_def
      busy_numbers Let_def list_workers_def)

theorem interpolated_identifiers_safe_witness:
  "list_all is_hex ''0123456789ab'' \<and> snd (expireTestJobs [''x' OR TRUE''] busy_world started_tools) = started_tools"
proof -
  have "\<not> list_all uuid_shaped [''x' OR TRUE'']" by code_simp
  moreover have "list_all is_hex ''0123456789ab''" by code_simp
  ultimately show ?thesis
    using interpolated_identifiers_safe[of "[''x' OR TRUE'']" busy_world started_tools "[]"] by blast
qed

end
