(* ===== verification/SocketDrills.thy ===== *)
theory SocketDrills
  imports SocketClient Wav Drills
begin

text \<open>
  The integration programs that watch jobs over WebSockets: verify-websocket-security.mjs,
  verify-distributed-processing.mjs and verify-real-demucs.mjs; and what all programs leave behind.
\<close>

section \<open>Values of messages\<close>

definition text_value :: "tool_world \<Rightarrow> json option \<Rightarrow> string" where
  "text_value w v = (case v of Some (JString t) \<Rightarrow> t | _ \<Rightarrow> tw_string w v)"

text \<open>\<open>v || {}\<close>, and the names and values of an object; a Set tells objects apart by identity.\<close>

definition or_object :: "json option \<Rightarrow> json" where
  "or_object v = (if js_truthy v then the v else JObject [])"

fun entries_of :: "json \<Rightarrow> (string \<times> json) list" where
  "entries_of (JObject kvs) = map (\<lambda>k. (k, the (map_of kvs k))) (remdups (map fst kvs))"
| "entries_of (JArray xs) = map (\<lambda>(i, x). (show_nat i, x)) (enumerate 0 xs)"
| "entries_of (JString t) = map (\<lambda>(i, c). (show_nat i, JString [c])) (enumerate 0 t)"
| "entries_of _ = []"

fun by_identity :: "json option \<Rightarrow> bool" where
  "by_identity (Some (JArray xs)) = True"
| "by_identity (Some (JObject kvs)) = True"
| "by_identity _ = False"

fun set_values :: "json option list \<Rightarrow> json option list \<Rightarrow> json option list" where
  "set_values seen [] = []"
| "set_values seen (v # vs) =
     (if v \<in> set seen \<and> \<not> by_identity v then set_values seen vs else v # set_values (v # seen) vs)"

text \<open>\<open>Number\<close> of any value, as the comparison with a number applies it.\<close>

fun json_number :: "tool_world \<Rightarrow> json option \<Rightarrow> js_number" where
  "json_number w None = NaN"
| "json_number w (Some JNull) = Finite 0"
| "json_number w (Some (JBool b)) = Finite (if b then 1 else 0)"
| "json_number w (Some (JNumber x)) = x"
| "json_number w (Some (JString t)) = js_Number t"
| "json_number w v = js_Number (tw_string w v)"

fun less_number :: "js_number \<Rightarrow> rat \<Rightarrow> bool" where
  "less_number (Finite x) b = (x < b)"
| "less_number NegInfinity b = True"
| "less_number _ b = False"

text \<open>\<open>filter\<close> and \<open>some\<close> with a callback that may throw, and \<open>join\<close>, which leaves out missing values.\<close>

fun filterE :: "('a \<Rightarrow> string + bool) \<Rightarrow> 'a list \<Rightarrow> string + 'a list" where
  "filterE p [] = Inr []"
| "filterE p (x # xs) = bindE (p x) (\<lambda>b. bindE (filterE p xs) (\<lambda>ys. Inr (if b then x # ys else ys)))"

fun someE :: "('a \<Rightarrow> string + bool) \<Rightarrow> 'a list \<Rightarrow> string + bool" where
  "someE p [] = Inr False"
| "someE p (x # xs) = bindE (p x) (\<lambda>b. if b then Inr True else someE p xs)"

definition joined :: "tool_world \<Rightarrow> json option list \<Rightarrow> string" where
  "joined w vs = comma_list (map (\<lambda>v. if v = None \<or> v = Some JNull then [] else text_value w v) vs)"

section \<open>What the programs wait for\<close>

definition subscribed_to :: "string \<Rightarrow> json \<Rightarrow> string + bool" where
  "subscribed_to jobId m =
     bindE (has_type ''subscribed'' m) (\<lambda>b. Inr (b \<and> json_field ''jobId'' m = Some (JString jobId)))"

definition job_update_of :: "string \<Rightarrow> (json option \<Rightarrow> bool) \<Rightarrow> json \<Rightarrow> string + bool" where
  "job_update_of jobId ok m =
     bindE (has_type ''job_update'' m) (\<lambda>b.
       if \<not> b then Inr False
       else bindE (member_of (json_field ''job'' m) ''id'') (\<lambda>i.
         if i \<noteq> Some (JString jobId) then Inr False
         else bindE (member_of (json_field ''job'' m) ''status'') (\<lambda>status. Inr (ok status))))"

definition any_update_of :: "string \<Rightarrow> json \<Rightarrow> string + bool" where
  "any_update_of jobId m =
     bindE (has_type ''job_update'' m) (\<lambda>b.
       if \<not> b then Inr False
       else bindE (member_of (json_field ''job'' m) ''id'') (\<lambda>i. Inr (i = Some (JString jobId))))"

definition private_message :: "json \<Rightarrow> string + bool" where
  "private_message m =
     bindE (has_type ''subscribed'' m) (\<lambda>b. if b then Inr True else has_type ''job_update'' m)"

definition is_completed :: "json option \<Rightarrow> bool" where
  "is_completed st \<longleftrightarrow> st = Some (JString ''COMPLETED'')"

section \<open>Sockets in the variables of a program\<close>

definition hold_sockets :: "nat list \<Rightarrow> unit tool" where
  "hold_sockets js w s = (Inr (), s\<lparr>jobSockets := js\<rparr>)"

definition close_held :: "unit tool" where
  "close_held w s = bindT (eachT close_job_socket (jobSockets s)) (\<lambda>_. returnT ()) w s"

section \<open>verify-websocket-security.mjs\<close>

definition denied_check :: "tool_session \<Rightarrow> string \<Rightarrow> unit tool" where
  "denied_check otherSession jobId =
     bindT (connectJobWebSocket otherSession) (\<lambda>otherSocket.
     bindT (hold_sockets [otherSocket]) (\<lambda>_.
     bindT (subscribe_socket otherSocket jobId) (\<lambda>deniedSubscriptionStart.
     bindT (await_message otherSocket (has_type ''error'') ''an ownership rejection'' deniedSubscriptionStart 15000) (\<lambda>deniedMessage.
     bindT (property deniedMessage ''error'') (\<lambda>e.
     if e \<noteq> Some (JString ''Job not found'')
     then (\<lambda>w. throwT (''Unexpected unauthorized-subscription response: '' @ text_value w e) w) else
     bindT (messages_from otherSocket deniedSubscriptionStart) (\<lambda>messagesAfterDeniedSubscription.
     bindT (liftT (someE private_message messagesAfterDeniedSubscription)) (\<lambda>privateMessageWasLeaked.
     if privateMessageWasLeaked then throwT ''An unrelated session received private job information'' else
     bindT (close_job_socket otherSocket) (\<lambda>_. hold_sockets []))))))))"

definition invalid_entry :: "string \<times> json \<Rightarrow> bool" where
  "invalid_entry e \<longleftrightarrow> fst e = [] \<or>
     (case snd e of JString url \<Rightarrow> \<not> startsWith url ''http'' | _ \<Rightarrow> True)"

definition check_links :: "json \<Rightarrow> unit tool" where
  "check_links downloadResponse =
     bindT (property downloadResponse ''downloadUrls'') (\<lambda>urls.
       let downloadEntries = entries_of (or_object urls)
       in if downloadEntries = [] then throwT ''Completed job returned no result download links''
          else if list_ex invalid_entry downloadEntries
          then throwT ''Completed job returned an invalid result download link''
          else returnT ())"

definition progress_in :: "json \<Rightarrow> string + json option" where
  "progress_in m = member_of (json_field ''job'' m) ''progress''"

definition progress_message :: "tool_world \<Rightarrow> json option list \<Rightarrow> string" where
  "progress_message w vs = ''Expected changing progress ending at 100; observed '' @ joined w vs"

definition owner_check :: "tool_session \<Rightarrow> string \<Rightarrow> unit tool" where
  "owner_check ownerSession jobId =
     bindT (connectJobWebSocket ownerSession) (\<lambda>ownerSocket.
     bindT (hold_sockets [ownerSocket]) (\<lambda>_.
     bindT (subscribe_socket ownerSocket jobId) (\<lambda>start.
     bindT (await_message ownerSocket (subscribed_to jobId) ''the owner's subscription confirmation'' start 15000) (\<lambda>_.
     bindT (await_message ownerSocket (job_update_of jobId is_completed) ''the completed job update'' start 60000) (\<lambda>completion.
     bindT (messages_from ownerSocket start) (\<lambda>messages.
     bindT (liftT (filterE (any_update_of jobId) messages)) (\<lambda>jobUpdates.
     bindT (liftT (mapE progress_in jobUpdates)) (\<lambda>progressValues.
     let observed = set_values [] progressValues in
     bindT (liftT (progress_in completion)) (\<lambda>final w.
     if \<not> list_ex (\<lambda>v. less_number (json_number w v) 100) observed \<or> final \<noteq> Some (JNumber (Finite 100))
     then throwT (progress_message w observed) w
     else bindT (client_fetchDownloadUrls ownerSession jobId) check_links w)))))))))"

definition websocket_body :: "unit tool" where
  "websocket_body =
     bindT assertProcessingEnvironmentIsIdle (\<lambda>_.
     bindT (startMockWorkers 1 8 300 30) (\<lambda>_.
     bindT (waitForActiveWorkerCount 1 60000) (\<lambda>_.
     bindT (createSession defaultApiBaseUrl) (\<lambda>ownerSession.
     bindT (set_session ownerSession) (\<lambda>_.
     bindT (createSession defaultApiBaseUrl) (\<lambda>otherSession.
     bindT (submitTestJob ownerSession 1) (\<lambda>createdJob.
     bindT (property createdJob ''id'') (\<lambda>i.
     bindT (keep_job i) (\<lambda>jobId.
     bindT (denied_check otherSession jobId) (\<lambda>_. owner_check ownerSession jobId))))))))))"

definition close_and_expire :: "unit tool" where
  "close_and_expire = bindT close_held (\<lambda>_. bindT cancel_own_jobs (\<lambda>_. expire_own_jobs))"

definition verify_websocket_security :: "unit tool" where
  "verify_websocket_security = drill websocket_body close_and_expire"

section \<open>verify-distributed-processing.mjs\<close>

definition readJobCount :: "string option \<Rightarrow> string + nat" where
  "readJobCount configured =
     (let configuredValue = (case configured of Some (c # cs) \<Rightarrow> c # cs | _ \<Rightarrow> ''9'')
      in case js_Number configuredValue of
           Finite x \<Rightarrow>
             if x \<noteq> of_int \<lfloor>x\<rfloor> \<or> x < 3 \<or> 30 < x
             then Inl ''INTEGRATION_JOB_COUNT must be an integer from 3 to 30'' else Inr (nat \<lfloor>x\<rfloor>)
         | _ \<Rightarrow> Inl ''INTEGRATION_JOB_COUNT must be an integer from 3 to 30'')"

definition set_jobs :: "json option list \<Rightarrow> string list tool" where
  "set_jobs idValues w s = (let ids = map (text_value w) idValues in (Inr ids, s\<lparr>jobIds := ids\<rparr>))"

definition subscription :: "nat \<times> string \<Rightarrow> (string \<times> nat \<times> nat) tool" where
  "subscription = (\<lambda>(j, jobId). bindT (subscribe_socket j jobId) (\<lambda>startIndex. returnT (jobId, j, startIndex)))"

definition confirmation_wait :: "string \<times> nat \<times> nat \<Rightarrow> socket_wait" where
  "confirmation_wait = (\<lambda>(jobId, j, startIndex).
     (j, subscribed_to jobId, ''the subscription for distributed test job '' @ jobId, startIndex))"

definition terminal_wait :: "string \<times> nat \<times> nat \<Rightarrow> socket_wait" where
  "terminal_wait = (\<lambda>(jobId, j, startIndex).
     (j, job_update_of jobId is_terminal, ''a terminal update for distributed test job '' @ jobId, startIndex))"

definition named_event :: "string \<Rightarrow> json list \<Rightarrow> json list" where
  "named_event name events = filter (\<lambda>event. json_field ''event'' event = Some (JString name)) events"

definition of_job :: "string \<Rightarrow> json list \<Rightarrow> nat" where
  "of_job jobId events = length (filter (\<lambda>event. json_field ''jobId'' event = Some (JString jobId)) events)"

definition check_job :: "json list \<Rightarrow> json list \<Rightarrow> (string \<Rightarrow> js_number option) \<Rightarrow> string \<Rightarrow> string + unit" where
  "check_job completions commits counts jobId =
     (if of_job jobId completions \<noteq> 1
      then Inl (''Job '' @ jobId @ '' has '' @ show_nat (of_job jobId completions) @ '' completion events'')
      else if of_job jobId commits \<noteq> 1
      then Inl (''Job '' @ jobId @ '' has '' @ show_nat (of_job jobId commits) @ '' offset commits'')
      else if counts jobId \<noteq> Some (Finite 1)
      then Inl (''Job '' @ jobId @ '' did not complete in exactly one attempt'')
      else Inr ())"

definition check_evidence :: "string list \<Rightarrow> json list \<Rightarrow> (string \<Rightarrow> js_number option) \<Rightarrow> string + unit" where
  "check_evidence ids events counts =
     (let completions = named_event ''job_completed'' events;
          commits = named_event ''kafka_offset_committed'' events;
          workerIds = set_values [] (map (json_field ''workerId'') completions)
      in bindE (mapE (check_job completions commits counts) ids) (\<lambda>_.
           if length workerIds < 2
           then Inl ''Kafka did not distribute test jobs to multiple workers'' else Inr ()))"

definition all_completed :: "json option list \<Rightarrow> unit tool" where
  "all_completed completedJobs =
     bindT (liftT (filterE (\<lambda>job. bindE (member_of job ''status'') (\<lambda>st. Inr (\<not> is_completed st))) completedJobs)) (\<lambda>nonCompletedJobs w.
       if nonCompletedJobs \<noteq> []
       then throwT (''Terminal jobs were not completed: '' @ comma_list (map (\<lambda>job.
              text_value w (json_field ''id'' (the job)) @ ''='' @ text_value w (json_field ''status'' (the job))) nonCompletedJobs)) w
       else returnT () w)"

definition distributed_body :: "nat \<Rightarrow> unit tool" where
  "distributed_body jobCount =
     bindT assertProcessingEnvironmentIsIdle (\<lambda>_.
     bindT (startMockWorkers 3 6 300 30) (\<lambda>_.
     bindT (waitForActiveWorkerCount 3 60000) (\<lambda>_.
     bindT (createSession defaultApiBaseUrl) (\<lambda>ses.
     bindT (set_session ses) (\<lambda>_.
     bindT (submitTestJobs ses jobCount) (\<lambda>createdJobs.
     bindT (eachT (\<lambda>job. property job ''id'') createdJobs) (\<lambda>idValues.
     bindT (set_jobs idValues) (\<lambda>ids.
     bindT (connect_all (replicate (length ids) ses)) (\<lambda>js.
     bindT (hold_sockets js) (\<lambda>_.
     bindT (eachT subscription (zip js ids)) (\<lambda>subscriptions.
     bindT (await_messages (map confirmation_wait subscriptions) 15000) (\<lambda>_.
     bindT (await_messages (map terminal_wait subscriptions) 120000) (\<lambda>terminalMessages.
     bindT (eachT (\<lambda>m. property m ''job'') terminalMessages) (\<lambda>completedJobs.
     bindT (all_completed completedJobs) (\<lambda>_.
     bindT (sleep 500) (\<lambda>_.
     bindT (readWorkerEvents ids) (\<lambda>events.
     bindT (readJobAttempts ids) (\<lambda>counts.
     liftT (check_evidence ids events counts)))))))))))))))))))"

definition verify_distributed_processing :: "string option \<Rightarrow> unit tool" where
  "verify_distributed_processing configured =
     bindT (liftT (readJobCount configured)) (\<lambda>jobCount. drill (distributed_body jobCount) close_and_expire)"

section \<open>verify-real-demucs.mjs\<close>

definition expectedStemNames :: "string list" where
  "expectedStemNames = [''vocals'', ''piano'', ''guitar'', ''drums'', ''bass'', ''other'']"

text \<open>The body of a reply is its text, byte by byte.\<close>

definition check_stem :: "json \<Rightarrow> string \<Rightarrow> unit tool" where
  "check_stem downloadResponse stemName =
     bindT (property downloadResponse ''downloadUrls'') (\<lambda>urls w.
       let url = Option.bind urls (json_field stemName)
       in if \<not> js_truthy url then throwT (''No temporary download URL was returned for '' @ stemName) w
          else bindT (send \<lparr>tq_method = ''GET'', tq_url = text_value w url, tq_headers = [], tq_body = NoBody\<rparr>) (\<lambda>response.
            if \<not> reply_ok response
            then throwT (stemName @ '' download failed with HTTP '' @ show_nat (tp_status response))
            else liftT (assertWavFile stemName (ascii (tp_text response)))) w)"

definition synthetic_audio :: "(nat \<Rightarrow> int \<times> int) \<Rightarrow> string + nat list" where
  "synthetic_audio wave =
     (case createSyntheticWav 3 44100 wave of
        None \<Rightarrow> Inl ''The value of a sample is out of range''
      | Some wav \<Rightarrow> Inr (map unat wav))"

definition demucs_failure :: "tool_world \<Rightarrow> json option \<Rightarrow> json option \<Rightarrow> string" where
  "demucs_failure w st e = ''Real Demucs job ended as '' @ text_value w st @ '': '' @
     (if js_truthy e then text_value w e else ''no worker error was reported'')"

definition check_completed_job :: "json option \<Rightarrow> unit tool" where
  "check_completed_job completedJob =
     bindT (liftT (member_of completedJob ''status'')) (\<lambda>status.
     bindT (liftT (member_of completedJob ''error_message'')) (\<lambda>e.
     if \<not> is_completed status then (\<lambda>w. throwT (demucs_failure w status e) w) else
     bindT (liftT (member_of completedJob ''result_object_keys'')) (\<lambda>keys.
     let resultNames = map fst (entries_of (or_object keys));
         missingStemNames = filter (\<lambda>stemName. stemName \<notin> set resultNames) expectedStemNames
     in if missingStemNames \<noteq> [] then throwT (''Demucs did not produce: '' @ comma_list missingStemNames)
        else returnT ())))"

definition demucs_body :: "(nat \<Rightarrow> int \<times> int) \<Rightarrow> unit tool" where
  "demucs_body wave =
     bindT assertProcessingEnvironmentIsIdle (\<lambda>_.
     bindT restoreNormalWorker (\<lambda>_.
     bindT (waitForActiveWorkerCount 1 60000) (\<lambda>_.
     bindT (createSession defaultApiBaseUrl) (\<lambda>ses.
     bindT (set_session ses) (\<lambda>_.
     bindT (liftT (synthetic_audio wave)) (\<lambda>audioBytes.
     bindT now_text (\<lambda>now.
     bindT (submitAudioBytes ses (''real-demucs-test-'' @ now @ ''.wav'') ''audio/wav'' audioBytes) (\<lambda>createdJob.
     bindT (property createdJob ''id'') (\<lambda>i.
     bindT (keep_job i) (\<lambda>jobId.
     bindT (connectJobWebSocket ses) (\<lambda>jobSocket.
     bindT (hold_sockets [jobSocket]) (\<lambda>_.
     bindT (subscribe_socket jobSocket jobId) (\<lambda>start.
     bindT (await_message jobSocket (subscribed_to jobId) ''the real Demucs job subscription'' start 15000) (\<lambda>_.
     bindT (await_message jobSocket (job_update_of jobId is_terminal) ''a terminal real Demucs job update'' start 900000) (\<lambda>completion.
     bindT (property completion ''job'') (\<lambda>completedJob.
     bindT (check_completed_job completedJob) (\<lambda>_.
     bindT (client_fetchDownloadUrls ses jobId) (\<lambda>downloadResponse.
     bindT (allT (check_stem downloadResponse) expectedStemNames) (\<lambda>_. returnT ())))))))))))))))))))"

text \<open>The normal worker is restored at the beginning, not at the end.\<close>

definition verify_real_demucs :: "(nat \<Rightarrow> int \<times> int) \<Rightarrow> unit tool" where
  "verify_real_demucs wave w s =
     (case demucs_body wave w s of (testFailure, s1) \<Rightarrow> (testFailure, snd (close_and_expire w s1)))"

section \<open>What a refused program does\<close>

lemma nothing_to_close: "untouched s \<Longrightarrow> snd (close_and_expire w s) = s"
  by (simp add: untouched_def close_and_expire_def bindT_def close_held_def returnT_def cancel_own_jobs_def
      expire_own_jobs_def expireTestJobs_def reportedT_def)

lemma refused_drill:
  assumes "body w s = (Inl refusal, s1)" "snd (cleanup w s1) = s1"
    and "tw_output w (actions s1) list_workers = Inr output" "nonempty_lines (js_trim output) \<noteq> []"
  shows "fst (drill body cleanup w s) = Inl refusal \<and>
    Ran (remove_workers (nonempty_lines (js_trim output))) \<in> set (actions (snd (drill body cleanup w s)))"
  using restore_removes[OF assms(3) refl assms(4)] assms(1,2) by (simp add: drill_def split_beta)

text \<open>
  C22: a refused program still removes the workers. When the safety check finds genuine work and
  refuses, the four programs that use mock workers throw its error, but only after their
  \<open>finally\<close> has removed, by force, every worker container that was listed, with the job that it was
  processing; the Demucs program, which restores in its body, changes nothing.
\<close>

theorem refused_drill_removes_workers:
  assumes "assertProcessingEnvironmentIsIdle w s = (Inl refusal, s1)" "untouched s" "readJobCount configured = Inr n"
    and "tw_output w (actions s1) list_workers = Inr output" "nonempty_lines (js_trim output) \<noteq> []"
  shows "(\<forall>verify \<in> {verify_job_admission, verify_worker_recovery, verify_websocket_security,
        verify_distributed_processing configured}.
      fst (verify w s) = Inl refusal \<and>
      Ran (remove_workers (nonempty_lines (js_trim output))) \<in> set (actions (snd (verify w s)))) \<and>
    verify_real_demucs wave w s = (Inl refusal, s1)"
proof -
  have body: "admission_body w s = (Inl refusal, s1)" "recovery_body w s = (Inl refusal, s1)"
    "websocket_body w s = (Inl refusal, s1)" "distributed_body n w s = (Inl refusal, s1)"
    "demucs_body wave w s = (Inl refusal, s1)"
    using assms(1) by (simp_all add: admission_body_def recovery_body_def websocket_body_def distributed_body_def
        demucs_body_def bindT_def)
  have u: "untouched s1" using refusal_untouched assms(1,2) by blast
  have "verify_distributed_processing configured w s = drill (distributed_body n) close_and_expire w s"
    by (simp add: verify_distributed_processing_def assms(3) bindT_def liftT_def)
  then show ?thesis
    using refused_drill[OF _ _ assms(4,5)] body nothing_to_clean[OF u] nothing_to_close[OF u]
    by (simp add: verify_job_admission_def verify_worker_recovery_def verify_websocket_security_def
        verify_real_demucs_def)
qed

text \<open>
  The normal worker comes back. Whatever the backend answers, whatever the queries and logs say,
  whatever the sockets receive and wherever the body of a program fails, as long as Docker carries
  out its commands the last command of the four programs that use mock workers starts one worker
  with the Demucs settings.
\<close>

theorem drill_restores_worker:
  assumes "\<forall>h c. \<exists>out. tw_output w h c = Inr out" "readJobCount configured = Inr n"
  shows "\<forall>verify \<in> {verify_job_admission, verify_worker_recovery, verify_websocket_security,
      verify_distributed_processing configured}. last (actions (snd (verify w s))) = Ran normal_command"
proof -
  have d: "last (actions (snd (drill body cleanup w s))) = Ran normal_command" for body cleanup
    using restore_ends[OF assms(1)[rule_format], of "snd (cleanup w (snd (body w s)))"] by (auto simp: drill_def split_beta)
  have "verify_distributed_processing configured w s = drill (distributed_body n) close_and_expire w s"
    by (simp add: verify_distributed_processing_def assms(2) bindT_def liftT_def)
  then show ?thesis
    by (simp add: verify_job_admission_def verify_worker_recovery_def verify_websocket_security_def d)
qed

section \<open>What a passed WebSocket check has seen\<close>

lemma someE_False: "someE p xs = Inr False \<Longrightarrow> x \<in> set xs \<Longrightarrow> p x = Inr False"
  by (induction xs) (auto simp: bindE_Inr split: if_splits)

lemma filterE_member: "filterE p xs = Inr ys \<Longrightarrow> x \<in> set ys \<Longrightarrow> x \<in> set xs \<and> p x = Inr True"
  by (induction xs arbitrary: ys) (auto simp: bindE_Inr split: if_splits)

lemma mapE_preimage: "mapE f xs = Inr ys \<Longrightarrow> y \<in> set ys \<Longrightarrow> \<exists>x \<in> set xs. f x = Inr y"
  by (induction xs arbitrary: ys) (auto simp: bindE_Inr)

lemma set_values_subset: "set (set_values seen vs) \<subseteq> set vs"
  by (induction seen vs rule: set_values.induct) auto

lemma kept_sockets: "keeps messages_kept m \<Longrightarrow> m w s = (r, t) \<Longrightarrow> evolves (sockets s) (sockets t)"
  unfolding keeps_def messages_kept_def by (metis snd_conv)

lemma kept_actions: "keeps messages_kept m \<Longrightarrow> m w s = (r, t) \<Longrightarrow> prefix (actions s) (actions t)"
  unfolding keeps_def messages_kept_def by (metis snd_conv)

lemma evolves_parts:
  assumes "evolves cs ds"
  shows "length cs \<le> length ds" "j < length cs \<Longrightarrow> prefix (cs_messages (cs ! j)) (cs_messages (ds ! j))"
    "\<forall>c \<in> set cs. client_ok c \<Longrightarrow> \<forall>d \<in> set ds. client_ok d"
  using assms by (auto simp: evolves_def)

lemma hold_keeps: "keeps messages_kept (hold_sockets js)"
  by (simp add: keeps_def hold_sockets_def messages_kept_def)

lemma await_message_truthful:
  assumes "await_message j p d n timeout w s = (Inr m, t)" "startable s (j, p, d, n)"
    "\<forall>c \<in> set (sockets s). client_ok c"
  shows "p m = Inr True \<and> m \<in> set (drop n (cs_messages (sockets t ! j)))"
proof -
  obtain ms where ms: "await_messages [(j, p, d, n)] timeout w s = (Inr ms, t)" "m = hd ms"
    using assms(1) by (auto simp: await_message_def bindT_Inr returnT_def)
  then have "list_all2 (\<lambda>(j, p, d, n) m. p m = Inr True \<and> m \<in> set (drop n (cs_messages (sockets t ! j)))) [(j, p, d, n)] ms"
    using await_all_received[OF ms(1)] assms(2,3) by simp
  then show ?thesis by (auto simp: ms(2) list_all2_Cons1)
qed

lemma connected_number:
  assumes "connectJobWebSocket ses w s = (Inr j, t)"
  shows "j = length (sockets s)" "j < length (sockets t)"
proof -
  obtain js where js: "connect_all [ses] w s = (Inr js, t)" "j = hd js"
    using assms by (auto simp: connectJobWebSocket_def bindT_Inr returnT_def)
  obtain u where u: "eachT open_socket [ses] w s = (Inr js, u)" "evolves (sockets u) (sockets t)"
    using js(1) kept_sockets[OF listening.keeps_await(1)] by (auto simp: connect_all_def bindT_Inr returnT_def)
  have "js = [length (sockets s)]" "length (sockets u) = Suc (length (sockets s))"
    using u(1) by (auto simp: open_socket_def bindT_Inr returnT_def createWebSocketUrl_def throwT_def
        split: option.splits prod.splits)
  then show "j = length (sockets s)" "j < length (sockets t)"
    using js(2) evolves_parts(1)[OF u(2)] by simp_all
qed

text \<open>The action of subscribing socket \<open>j\<close> to a job when \<open>n\<close> messages had been received.\<close>

definition subscription_sent :: "nat \<Rightarrow> nat \<Rightarrow> string \<Rightarrow> tool_action" where
  "subscription_sent j n jobId =
     SentMessage j n (JObject [(''type'', JString ''subscribe''), (''jobId'', JString jobId)])"

definition acts_between :: "tools \<Rightarrow> tools \<Rightarrow> tool_action list" where
  "acts_between s t = drop (length (actions s)) (actions t)"

lemma subscribed_from:
  assumes "subscribe_socket j jobId w s = (Inr n, t)" "j < length (sockets s)"
  shows "n = length (cs_messages (sockets t ! j))" "length (sockets t) = length (sockets s)"
    "actions t = actions s @ [subscription_sent j n jobId]"
  using assms by (auto simp: subscribe_socket_def bindT_Inr on_socket_def subscribe_client_def subscription_sent_def)

lemma messages_from_Inr: "messages_from j n w s = (Inr ms, t) \<longleftrightarrow> ms = drop n (cs_messages (sockets s ! j)) \<and> t = s"
  by (auto simp: messages_from_def)

lemma liftT_Inr: "liftT r w s = (Inr a, t) \<longleftrightarrow> r = Inr a \<and> t = s"
  by (auto simp: liftT_def)

lemma type_truthy:
  "subscribed_to jobId m = Inr True \<Longrightarrow> js_truthy (Some m)" "job_update_of jobId ok m = Inr True \<Longrightarrow> js_truthy (Some m)"
  using has_type_truthy by (auto simp: subscribed_to_def job_update_of_def bindE_Inr split: if_splits)

text \<open>After connecting and subscribing, waits on the new socket may be started.\<close>

lemma watching:
  assumes "connectJobWebSocket ses w s = (Inr j, s1)" "hold_sockets js w s1 = (Inr u, s2)"
    "subscribe_socket j jobId w s2 = (Inr n, s3)" "\<forall>c \<in> set (sockets s). client_ok c"
  shows "j = length (sockets s)" "j < length (sockets s3)" "n \<le> length (cs_messages (sockets s3 ! j))"
    "\<forall>c \<in> set (sockets s3). client_ok c" "subscription_sent j n jobId \<in> set (acts_between s s3)"
proof -
  have e: "evolves (sockets s) (sockets s1)" "sockets s2 = sockets s1" "evolves (sockets s2) (sockets s3)"
    using kept_sockets[OF listening.keeps_connecting(2) assms(1)] kept_sockets[OF listening.keeps_subscribe assms(3)] assms(2)
    by (auto simp: hold_sockets_def)
  note j = connected_number[OF assms(1)]
  then show "j = length (sockets s)" by simp
  have "j < length (sockets s2)" using j e(2) by simp
  from subscribed_from[OF assms(3) this] this
  show "j < length (sockets s3)" "n \<le> length (cs_messages (sockets s3 ! j))" by simp_all
  have "prefix (actions s) (actions s2)"
    using kept_actions[OF listening.keeps_connecting(2) assms(1)] assms(2) by (auto simp: hold_sockets_def)
  then show "subscription_sent j n jobId \<in> set (acts_between s s3)"
    using subscribed_from(3)[OF assms(3) \<open>j < length (sockets s2)\<close>] by (auto simp: acts_between_def prefix_def)
  show "\<forall>c \<in> set (sockets s3). client_ok c" using evolves_parts(3)[OF e(3)] evolves_parts(3)[OF e(1)] assms(4) e(2) by simp
qed

lemma acts_extended: "a \<in> set (acts_between s t) \<Longrightarrow> prefix (actions t) (actions u) \<Longrightarrow> a \<in> set (acts_between s u)"
  by (auto simp: acts_between_def prefix_def)

lemma acts_earlier: "a \<in> set (acts_between s t) \<Longrightarrow> prefix (actions r) (actions s) \<Longrightarrow> a \<in> set (acts_between r t)"
proof -
  assume a: "a \<in> set (acts_between s t)" and p: "prefix (actions r) (actions s)"
  have "length (actions r) \<le> length (actions s)" using p by (rule prefix_length_le)
  then show "a \<in> set (acts_between r t)"
    using a subsetD[OF set_drop_subset_set_drop] unfolding acts_between_def by metis
qed

lemma denied_check_saw:
  assumes "denied_check ses jobId w s = (Inr u, t)" "\<forall>c \<in> set (sockets s). client_ok c"
  shows "\<exists>n seen d. length (sockets s) < length (sockets t) \<and> prefix seen (cs_messages (sockets t ! length (sockets s))) \<and>
    d \<in> set (drop n seen) \<and> json_field ''type'' d = Some (JString ''error'') \<and>
    json_field ''error'' d = Some (JString ''Job not found'') \<and>
    (\<forall>x \<in> set (drop n seen). private_message x = Inr False) \<and>
    subscription_sent (length (sockets s)) n jobId \<in> set (acts_between s t)"
proof -
  obtain j s1 u1 s2 n s3 d s4 leaked u2 s5 where c: "connectJobWebSocket ses w s = (Inr j, s1)"
    and h: "hold_sockets [j] w s1 = (Inr u1, s2)" and b: "subscribe_socket j jobId w s2 = (Inr n, s3)"
    and a: "await_message j (has_type ''error'') ''an ownership rejection'' n 15000 w s3 = (Inr d, s4)"
    and e: "json_field ''error'' d = Some (JString ''Job not found'')"
    and l: "someE private_message (drop n (cs_messages (sockets s4 ! j))) = Inr leaked" "\<not> leaked"
    and f: "close_job_socket j w s4 = (Inr u2, s5)" "hold_sockets [] w s5 = (Inr u, t)"
    using assms(1) unfolding denied_check_def
    by (auto simp: bindT_Inr property_Inr messages_from_Inr liftT_Inr throwT_def split: if_splits)
  note w = watching[OF c h b assms(2)]
  have d: "has_type ''error'' d = Inr True" "d \<in> set (drop n (cs_messages (sockets s4 ! j)))"
    using await_message_truthful[OF a _ w(4)] w(2,3) has_type_truthy by auto
  have g: "evolves (sockets s3) (sockets s4)" "evolves (sockets s4) (sockets t)"
    using kept_sockets[OF listening.keeps_await(2) a] kept_sockets[OF listening.keeps_close f(1)] f(2)
    by (auto simp: hold_sockets_def)
  have "actions t = actions s5" using f(2) by (auto simp: hold_sockets_def)
  then have "prefix (actions s3) (actions t)"
    using prefix_order.trans[OF kept_actions[OF listening.keeps_await(2) a] kept_actions[OF listening.keeps_close f(1)]] by simp
  then have act: "subscription_sent j n jobId \<in> set (acts_between s t)" by (rule acts_extended[OF w(5)])
  have "j < length (sockets s4)" using w(2) evolves_parts(1)[OF g(1)] by simp
  then show ?thesis
    using act has_type_field[OF d(1)] d(2) e l someE_False[of private_message "drop n (cs_messages (sockets s4 ! j))"]
      evolves_parts(1,2)[OF g(2)] w(1) by (intro exI[of _ n] exI[of _ "cs_messages (sockets s4 ! j)"] exI[of _ d]) auto
qed

lemma owner_check_saw:
  assumes "owner_check ses jobId w s = (Inr u, t)" "\<forall>c \<in> set (sockets s). client_ok c"
  shows "\<exists>n c m x v. m \<in> set (drop n (cs_messages (sockets t ! length (sockets s)))) \<and>
    length (sockets s) < length (sockets t) \<and> subscription_sent (length (sockets s)) n jobId \<in> set (acts_between s t) \<and>
    c \<in> set (drop n (cs_messages (sockets t ! length (sockets s)))) \<and> subscribed_to jobId c = Inr True \<and>
    job_update_of jobId is_completed m = Inr True \<and> progress_in m = Inr (Some (JNumber (Finite 100))) \<and>
    x \<in> set (drop n (cs_messages (sockets t ! length (sockets s)))) \<and> any_update_of jobId x = Inr True \<and>
    progress_in x = Inr v \<and> less_number (json_number w v) 100"
proof -
  obtain j s1 u1 s2 n s3 d s4 m s5 us vs final where c: "connectJobWebSocket ses w s = (Inr j, s1)"
    and h: "hold_sockets [j] w s1 = (Inr u1, s2)" and b: "subscribe_socket j jobId w s2 = (Inr n, s3)"
    and a: "await_message j (subscribed_to jobId) ''the owner's subscription confirmation'' n 15000 w s3 = (Inr d, s4)"
    and k: "await_message j (job_update_of jobId is_completed) ''the completed job update'' n 60000 w s4 = (Inr m, s5)"
    and f: "filterE (any_update_of jobId) (drop n (cs_messages (sockets s5 ! j))) = Inr us" "mapE progress_in us = Inr vs"
    and p: "progress_in m = Inr final" "list_ex (\<lambda>v. less_number (json_number w v) 100) (set_values [] vs)"
      "final = Some (JNumber (Finite 100))"
    and g: "bindT (client_fetchDownloadUrls ses jobId) check_links w s5 = (Inr u, t)"
    using assms(1) unfolding owner_check_def Let_def
    by (auto simp: bindT_Inr[of _ "\<lambda>x. y x" for y] messages_from_Inr liftT_Inr throwT_def split: if_splits)
  note w = watching[OF c h b assms(2)]
  have e: "evolves (sockets s3) (sockets s4)" "evolves (sockets s4) (sockets s5)"
    using kept_sockets[OF listening.keeps_await(2) a] kept_sockets[OF listening.keeps_await(2) k] .
  have "keeps messages_kept (check_links r)" for r
    unfolding check_links_def Let_def by (intro listening.keeps_rules listening.keeps_property)
  then have "keeps messages_kept (bindT (client_fetchDownloadUrls ses jobId) check_links)"
    by (intro listening.kept_bind listening.keeps_jobs)
  then have e5: "evolves (sockets s5) (sockets t)" and p5: "prefix (actions s5) (actions t)"
    using g by (rule kept_sockets, rule kept_actions)
  have "prefix (actions s3) (actions t)"
    using prefix_order.trans[OF prefix_order.trans[OF kept_actions[OF listening.keeps_await(2) a]
        kept_actions[OF listening.keeps_await(2) k]] p5] .
  then have act: "subscription_sent j n jobId \<in> set (acts_between s t)" by (rule acts_extended[OF w(5)])
  have j: "j < length (sockets s4)" "j < length (sockets s5)"
    using w(2) evolves_parts(1)[OF e(1)] evolves_parts(1)[OF e(2)] by simp_all
  have "n \<le> length (cs_messages (sockets s4 ! j))"
    using w(3) prefix_length_le[OF evolves_parts(2)[OF e(1) w(2)]] by simp
  then have m: "job_update_of jobId is_completed m = Inr True" "m \<in> set (drop n (cs_messages (sockets s5 ! j)))"
    using await_message_truthful[OF k] j(1) type_truthy(2) evolves_parts(3)[OF e(1) w(4)] by auto
  obtain v where v: "v \<in> set vs" "less_number (json_number w v) 100"
    using p(2) set_values_subset[of "[]" vs] by (auto simp: list_ex_iff)
  then obtain x where x: "x \<in> set us" "progress_in x = Inr v"
    using mapE_preimage[OF f(2)] by blast
  note kept = dropped_prefix[OF evolves_parts(2)[OF e5 j(2)]]
  have "x \<in> set (drop n (cs_messages (sockets t ! j)))" "any_update_of jobId x = Inr True"
    using filterE_member[OF f(1) x(1)] kept by blast+
  moreover have "m \<in> set (drop n (cs_messages (sockets t ! j)))" using m(2) kept by blast
  moreover have "subscribed_to jobId d = Inr True" "d \<in> set (drop n (cs_messages (sockets t ! j)))"
    using await_message_truthful[OF a] w(2-4) type_truthy(1) kept dropped_prefix[OF evolves_parts(2)[OF e(2) j(1)]] by auto
  moreover have "j < length (sockets t)" using j(2) evolves_parts(1)[OF e5] by simp
  ultimately show ?thesis using act m(1) p(1,3) x(2) v(2) w(1) by blast
qed

lemma checks_keep: "keeps messages_kept (denied_check ses jobId)" "keeps messages_kept (owner_check ses jobId)"
proof -
  show "keeps messages_kept (denied_check ses jobId)"
    unfolding denied_check_def
    by (intro listening.keeps_rules listening.keeps_connecting hold_keeps listening.keeps_subscribe listening.keeps_await
        listening.keeps_property listening.keeps_messages listening.keeps_close)
      (simp add: keeps_def throwT_def messages_kept_def)
  have "keeps messages_kept (check_links r)" for r
    unfolding check_links_def Let_def by (intro listening.keeps_rules listening.keeps_property)
  then have "keeps messages_kept (bindT (client_fetchDownloadUrls ses jobId) check_links)"
    by (intro listening.kept_bind listening.keeps_jobs)
  then have last: "keeps messages_kept (\<lambda>w. if P w then throwT (m w) w else bindT (client_fetchDownloadUrls ses jobId) check_links w)" for P m
    by (simp add: keeps_def throwT_def messages_kept_def)
  show "keeps messages_kept (owner_check ses jobId)"
    unfolding owner_check_def Let_def
    by (intro listening.kept_bind listening.keeps_basic listening.keeps_connecting hold_keeps listening.keeps_subscribe
        listening.keeps_await listening.keeps_messages last)
qed

lemma cleanup_keeps: "keeps messages_kept close_and_expire"
proof -
  have "keeps messages_kept (bindT (eachT close_job_socket js) (\<lambda>_. returnT ()))" for js
    by (intro listening.keeps_rules listening.keeps_each listening.keeps_close)
  then have "keeps messages_kept close_held" by (simp add: keeps_def close_held_def)
  moreover have "keeps messages_kept (bindT (allT (cancelJobIfActive ses) js) (\<lambda>_. returnT ()))" for ses js
    by (intro listening.keeps_rules listening.keeps_all listening.keeps_jobs)
  then have "keeps messages_kept cancel_own_jobs" by (simp add: keeps_def cancel_own_jobs_def messages_kept_def split: option.split)
  moreover have "keeps messages_kept (reportedT (expireTestJobs js))" for js
    by (intro listening.keeps_reported listening.keeps_docker)
  then have "keeps messages_kept expire_own_jobs" by (simp add: keeps_def expire_own_jobs_def)
  ultimately show ?thesis unfolding close_and_expire_def by (intro listening.kept_bind)
qed

definition websocket_prelude :: "(tool_session \<times> tool_session \<times> string) tool" where
  "websocket_prelude = bindT assertProcessingEnvironmentIsIdle (\<lambda>_.
     bindT (startMockWorkers 1 8 300 30) (\<lambda>_. bindT (waitForActiveWorkerCount 1 60000) (\<lambda>_.
     bindT (createSession defaultApiBaseUrl) (\<lambda>ownerSession. bindT (set_session ownerSession) (\<lambda>_.
     bindT (createSession defaultApiBaseUrl) (\<lambda>otherSession. bindT (submitTestJob ownerSession 1) (\<lambda>createdJob.
     bindT (property createdJob ''id'') (\<lambda>i. bindT (keep_job i) (\<lambda>jobId.
       returnT (ownerSession, otherSession, jobId))))))))))"

lemma prelude_keeps: "keeps messages_kept websocket_prelude"
proof -
  have "keeps messages_kept (set_session x)" "keeps messages_kept (keep_job i)" for x i
    by (simp_all add: keeps_def set_session_def keep_job_def messages_kept_def Let_def)
  then show ?thesis unfolding websocket_prelude_def
    by (intro listening.kept_bind listening.keeps_basic listening.keeps_idle_check listening.keeps_docker
        listening.keeps_waiting listening.keeps_session listening.keeps_submit listening.keeps_property)
qed

lemma websocket_parts:
  assumes "verify_websocket_security w s = (Inr (), t)"
  obtains ses1 ses2 jobId s1 s2 s3 where "evolves (sockets s) (sockets s1)" "prefix (actions s) (actions s1)"
    "denied_check ses2 jobId w s1 = (Inr (), s2)" "owner_check ses1 jobId w s2 = (Inr (), s3)"
    "evolves (sockets s3) (sockets t)" "prefix (actions s3) (actions t)"
proof -
  obtain s3 where body: "websocket_body w s = (Inr (), s3)" "t = snd (restoreNormalWorker w (snd (close_and_expire w s3)))"
    using assms by (auto simp: verify_websocket_security_def drill_def bindE_Inr split: prod.splits)
  obtain ses1 ses2 jobId s1 s2 where parts: "websocket_prelude w s = (Inr (ses1, ses2, jobId), s1)"
    "denied_check ses2 jobId w s1 = (Inr (), s2)" "owner_check ses1 jobId w s2 = (Inr (), s3)"
    using body(1) unfolding websocket_body_def websocket_prelude_def bindT_Inr returnT_def by auto
  obtain u where u: "snd (close_and_expire w s3) = u" "evolves (sockets s3) (sockets u)" "prefix (actions s3) (actions u)"
    using kept_sockets[OF cleanup_keeps] kept_actions[OF cleanup_keeps] by (metis prod.collapse)
  have "evolves (sockets u) (sockets t)" "prefix (actions u) (actions t)"
    using kept_sockets[OF listening.keeps_docker(2)] kept_actions[OF listening.keeps_docker(2)] body(2) u(1)
    by (metis prod.collapse)+
  then show thesis
    using that kept_sockets[OF prelude_keeps parts(1)] kept_actions[OF prelude_keeps parts(1)] parts(2,3)
      evolves_trans[OF u(2)] prefix_order.trans[OF u(3)] by blast
qed

text \<open>
  C23: a passed WebSocket check has seen what it reports. When verify-websocket-security.mjs ends
  without an error, it has subscribed two different sockets to the same job, the first when it had
  received \<open>n\<close> messages and the second when it had received \<open>k\<close>, and both subscriptions are among what
  the program sent. Of the messages of the first socket from the \<open>n\<close>-th on, up to the moment it was
  checked, one was the rejection and none a confirmation or an update of a job. Of those of the second from
  the \<open>k\<close>-th on, one confirmed the subscription to that job, one was the completed job at 100
  percent, and one an update of the same job below that.
\<close>

theorem websocket_check_sound:
  assumes "verify_websocket_security w s = (Inr (), t)" "\<forall>c \<in> set (sockets s). client_ok c"
  shows "\<exists>jobId i n seen d j k c m x v. length (sockets s) \<le> i \<and> i < j \<and> j < length (sockets t) \<and>
    {subscription_sent i n jobId, subscription_sent j k jobId} \<subseteq> set (acts_between s t) \<and>
    prefix seen (cs_messages (sockets t ! i)) \<and> d \<in> set (drop n seen) \<and> has_type ''error'' d = Inr True \<and>
    json_field ''error'' d = Some (JString ''Job not found'') \<and>
    (\<forall>y \<in> set (drop n seen). private_message y = Inr False) \<and>
    {c, m, x} \<subseteq> set (drop k (cs_messages (sockets t ! j))) \<and> subscribed_to jobId c = Inr True \<and>
    job_update_of jobId is_completed m = Inr True \<and> progress_in m = Inr (Some (JNumber (Finite 100))) \<and>
    any_update_of jobId x = Inr True \<and> progress_in x = Inr v \<and> less_number (json_number w v) 100"
proof -
  obtain ses1 ses2 jobId s2 s3 s1 where e0: "evolves (sockets s) (sockets s2)" and p0: "prefix (actions s) (actions s2)"
    and denied: "denied_check ses2 jobId w s2 = (Inr (), s3)" and owner: "owner_check ses1 jobId w s3 = (Inr (), s1)"
    and e1t: "evolves (sockets s1) (sockets t)" and p1t: "prefix (actions s1) (actions t)"
    by (rule websocket_parts[OF assms(1)])
  have ok2: "\<forall>c \<in> set (sockets s2). client_ok c" using evolves_parts(3)[OF e0] assms(2) by blast
  have e23: "evolves (sockets s2) (sockets s3)" and e31: "evolves (sockets s3) (sockets s1)"
    using kept_sockets[OF checks_keep(1) denied] kept_sockets[OF checks_keep(2) owner] .
  obtain n seen d where one: "length (sockets s2) < length (sockets s3)"
    "prefix seen (cs_messages (sockets s3 ! length (sockets s2)))" "d \<in> set (drop n seen)"
    "json_field ''type'' d = Some (JString ''error'')" "json_field ''error'' d = Some (JString ''Job not found'')"
    "\<forall>y \<in> set (drop n seen). private_message y = Inr False"
    "subscription_sent (length (sockets s2)) n jobId \<in> set (acts_between s2 s3)"
    using denied_check_saw[OF denied ok2] by blast
  obtain k c m x v where two: "{c, m, x} \<subseteq> set (drop k (cs_messages (sockets s1 ! length (sockets s3))))"
    "length (sockets s3) < length (sockets s1)" "job_update_of jobId is_completed m = Inr True"
    "progress_in m = Inr (Some (JNumber (Finite 100)))" "any_update_of jobId x = Inr True" "progress_in x = Inr v"
    "less_number (json_number w v) 100" "subscribed_to jobId c = Inr True"
    "subscription_sent (length (sockets s3)) k jobId \<in> set (acts_between s3 s1)"
    using owner_check_saw[OF owner evolves_parts(3)[OF e23 ok2]] by blast
  have "prefix seen (cs_messages (sockets t ! length (sockets s2)))"
    using evolves_parts(2)[OF evolves_trans[OF e31 e1t] one(1)] one(2) prefix_order.trans by blast
  moreover have "{c, m, x} \<subseteq> set (drop k (cs_messages (sockets t ! length (sockets s3))))"
    using dropped_prefix[OF evolves_parts(2)[OF e1t two(2)]] two(1) by blast
  moreover have "length (sockets s3) < length (sockets t)" using two(2) evolves_parts(1)[OF e1t] by simp
  moreover have "has_type ''error'' d = Inr True"
    using one(4) by (auto simp: has_type_def member_of_def json_field_def)
  moreover have p23: "prefix (actions s2) (actions s3)" and p31: "prefix (actions s3) (actions s1)"
    using kept_actions[OF checks_keep(1) denied] kept_actions[OF checks_keep(2) owner] .
  have "{subscription_sent (length (sockets s2)) n jobId, subscription_sent (length (sockets s3)) k jobId} \<subseteq> set (acts_between s t)"
    using acts_extended[OF acts_earlier[OF one(7) p0] prefix_order.trans[OF p31 p1t]]
      acts_extended[OF acts_earlier[OF two(9) prefix_order.trans[OF p0 p23]] p1t] by simp
  moreover have "length (sockets s) \<le> length (sockets s2)" by (rule evolves_parts(1)[OF e0])
  ultimately show ?thesis using one(1,3,5,6) two(3-8) by blast
qed

section \<open>Examples\<close>

lemma default_count: "readJobCount None = Inr 9"
proof -
  have "js_Number ''9'' = Finite 9" by code_simp
  then show ?thesis by (simp add: readJobCount_def)
qed

theorem refused_drill_removes_workers_witness:
  "Ran (remove_workers [''c1'']) \<in> set (actions (snd (verify_websocket_security busy_world started_tools)))"
proof -
  obtain m s1 where r: "assertProcessingEnvironmentIsIdle busy_world started_tools = (Inl m, s1)"
    using busy_refused by blast
  have "untouched started_tools" by (simp add: untouched_def started_tools_def)
  moreover have "active_jobs_sql \<notin> set (cmd_arguments list_workers)"
    by (simp add: list_workers_def active_jobs_sql_def)
  then have "tw_output busy_world (actions s1) list_workers = Inr ''c1''" by (simp add: busy_world_def)
  ultimately show ?thesis
    using refused_drill_removes_workers[OF r _ default_count, of "''c1''"] by (simp add: busy_numbers)
qed

theorem drill_restores_worker_witness:
  "last (actions (snd (verify_distributed_processing None busy_world started_tools))) = Ran normal_command"
proof -
  have "\<forall>h c. \<exists>out. tw_output busy_world h c = Inr out" by (simp add: busy_world_def)
  from drill_restores_worker[OF this default_count] show ?thesis by blast
qed

text \<open>A world in which the WebSocket check passes.\<close>

definition good_job :: json where
  "good_job = JObject [(''id'', JString ''j1''), (''status'', JString ''COMPLETED''), (''progress'', JNumber (Finite 100)),
     (''uploadUrl'', JString ''http''), (''objectKey'', JString ''k''),
     (''downloadUrls'', JObject [(''vocals'', JString ''http://s'')])]"

definition typed :: "string \<Rightarrow> (string \<times> json) list \<Rightarrow> json" where
  "typed t rest = JObject ((''type'', JString t) # rest)"

definition good_json :: "string \<Rightarrow> json option" where
  "good_json t = Some (if t = ''r'' then typed ''connection_ready'' []
     else if t = ''e'' then typed ''error'' [(''error'', JString ''Job not found'')]
     else if t = ''s'' then typed ''subscribed'' [(''jobId'', JString ''j1'')]
     else if t = ''p'' then typed ''job_update'' [(''job'', JObject [(''id'', JString ''j1''), (''status'', JString ''PROCESSING''),
       (''progress'', JNumber (Finite 50))])]
     else if t = ''c'' then typed ''job_update'' [(''job'', good_job)]
     else good_job)"

definition good_events :: "(nat \<times> client_event) list" where
  "good_events = [(0, TextArrives ''r''), (0, TextArrives ''e''), (1, TextArrives ''r''), (1, TextArrives ''s''),
      (1, TextArrives ''p''), (1, TextArrives ''c'')]"

definition good_world :: tool_world where
  "good_world = finished_world\<lparr>
     tw_output := (\<lambda>h c. Inr (if last (cmd_arguments c) = active_workers_sql then ''1'' else ''0'')),
     tw_reply := (\<lambda>h rq. Inr \<lparr>tp_status = 200, tp_text = ''a'', tp_set_cookie = Some ''k=1''\<rparr>),
     tw_events := (\<lambda>h. good_events), tw_json := good_json, tw_url := (\<lambda>u. Some (''http:'', ''h''))\<rparr>"

lemma good_query: "fst (queryDatabase sql good_world s) = Inr (if sql = active_workers_sql then ''1'' else ''0'')"
  by (simp add: queryDatabase_def getPostgresIdentity_def bindT_def compose_def runCommand_def good_world_def Let_def
      psql_arguments_def busy_numbers split: option.split)

lemma step_good:
  assumes "fst (m w s) = Inr a" "keeps same_sockets m" "\<And>t. sockets t = sockets s \<Longrightarrow> fst (f a w t) = Inr b"
  shows "fst (bindT m f w s) = Inr b"
proof -
  obtain t where t: "m w s = (Inr a, t)" using assms(1) by (cases "m w s") auto
  then have "sockets t = sockets s" using assms(2) by (metis keeps_def same_sockets_def snd_conv)
  then show ?thesis using t assms(3) by (simp add: bindT_def)
qed

lemma good_idle: "fst (assertProcessingEnvironmentIsIdle good_world s) = Inr ()"
proof -
  have lag: "fst (readKafkaJobLag good_world t) = Inr (Finite 0)" for t
    by (simp add: readKafkaJobLag_def bindT_def compose_def runCommand_def good_world_def Let_def busy_numbers
        returnT_def active_workers_sql_def)
  have sql: "active_jobs_sql \<noteq> active_workers_sql" "busy_workers_sql \<noteq> active_workers_sql"
    "pending_events_sql \<noteq> active_workers_sql" by code_simp+
  have last: "fst (bindT readKafkaJobLag f good_world t) = Inr ()" if "\<And>u. fst (f (Finite 0) good_world u) = Inr ()" for f t
    using lag[of t] that by (cases "readKafkaJobLag good_world t") (simp add: bindT_def)
  show ?thesis unfolding assertProcessingEnvironmentIsIdle_def
    by (rule step_good, rule good_query, rule still.keeps_query, rule step_good, rule good_query, rule still.keeps_query,
        rule step_good, rule good_query, rule still.keeps_query, rule last) (simp add: sql busy_numbers returnT_def)
qed

lemma found_at_once:
  "ask w s = (Inr (Some x), t) \<Longrightarrow> 0 < timeout \<Longrightarrow> poll_for timeout pause ask message w s = (Inr x, t)"
  by (simp add: poll_for_def rounds_def bindT_def returnT_def)

lemma good_workers: "fst (waitForActiveWorkerCount 1 60000 good_world s) = Inr ()"
proof -
  obtain t where "queryDatabase active_workers_sql good_world s = (Inr ''1'', t)"
    using good_query[of active_workers_sql s] by (cases "queryDatabase active_workers_sql good_world s") auto
  then show ?thesis unfolding waitForActiveWorkerCount_def
    by (subst found_at_once[where x = "()" and t = t]) (simp_all add: bindT_def returnT_def busy_numbers)
qed

definition good_session :: tool_session where
  "good_session = \<lparr>ts_apiBaseUrl = defaultApiBaseUrl, ts_cookie = ''k=1''\<rparr>"

lemmas good_defs = bindT_def returnT_def liftT_def send_def reply_ok_def readResponseJson_def reply_data_def
  good_world_def good_json_def good_job_def json_field_def property_def member_of_def

lemma good_requests:
  "fst (startMockWorkers 1 8 300 30 good_world s) = Inr ()"
  "fst (createSession defaultApiBaseUrl good_world s) = Inr good_session"
  "fst (submitTestJob good_session 1 good_world s) = Inr good_job"
  "fst (set_session good_session good_world s) = Inr ()"
  "fst (property good_job ''id'' good_world s) = Inr (Some (JString ''j1''))"
  "fst (keep_job (Some (JString ''j1'')) good_world s) = Inr ''j1''"
proof -
  have "js_split (CHR '';'') ''k=1'' = [''k=1'']" by code_simp
  then show "fst (createSession defaultApiBaseUrl good_world s) = Inr good_session"
    by (simp add: createSession_def good_session_def good_defs)
  show "fst (startMockWorkers 1 8 300 30 good_world s) = Inr ()"
    by (simp add: startMockWorkers_def compose_def runCommand_def good_defs Let_def)
  show "fst (submitTestJob good_session 1 good_world s) = Inr good_job"
    by (simp add: submitTestJob_def submitAudioBytes_def requestUploadPermission_def uploadBytesToStorage_def
        createJobForUpload_def good_defs)
  show "fst (keep_job (Some (JString ''j1'')) good_world s) = Inr ''j1''" by (simp add: keep_job_def Let_def)
qed (simp_all add: set_session_def good_defs)

definition ready_socket :: client_socket where
  "ready_socket = new_socket\<lparr>cs_messages := [typed ''connection_ready'' []],
     cs_settled := [(0, Inr (typed ''connection_ready'' []))], cs_next := 1\<rparr>"

lemma good_connect:
  "sockets s = [] \<Longrightarrow> \<exists>t. connectJobWebSocket good_session good_world s = (Inr 0, t) \<and> sockets t = [ready_socket]"
  by (simp add: connectJobWebSocket_def connect_all_def open_socket_def createWebSocketUrl_def await_messages_def
      start_wait_def ready_wait_def waitForMessage_def has_type_def new_socket_def good_events_def progress_of_def
      result_of_def is_rejected_def hears_def text_arrives_def parseServerMessage_def settle_wait_def typed_def good_defs Let_def bindE_def
      on_socket_def ready_socket_def)

lemmas wait_defs = await_message_def await_messages_def start_wait_def waitForMessage_def has_type_def
  good_events_def progress_of_def result_of_def is_rejected_def hears_def text_arrives_def parseServerMessage_def settle_wait_def typed_def
  Let_def bindE_def on_socket_def

definition refusal :: json where "refusal = typed ''error'' [(''error'', JString ''Job not found'')]"

lemma good_error:
  assumes "sockets s = [c]" "cs_messages c = [typed ''connection_ready'' []]" "cs_waiting c = []"
    "cs_settled c = [(0, r)]" "cs_next c = 1"
  shows "\<exists>t c2. await_message 0 (has_type ''error'') ''an ownership rejection'' 1 15000 good_world s = (Inr refusal, t) \<and>
    sockets t = [c2] \<and> cs_messages c2 = [typed ''connection_ready'' [], typed ''connection_ready'' [], refusal]"
  using assms by (simp add: wait_defs good_defs refusal_def)

lemma good_denied:
  assumes "sockets s = []"
  shows "\<exists>c t. denied_check good_session ''j1'' good_world s = (Inr (), t) \<and> sockets t = [c]"
proof -
  obtain t1 where t1: "connectJobWebSocket good_session good_world s = (Inr 0, t1)" "sockets t1 = [ready_socket]"
    using good_connect[OF assms] by blast
  obtain t2 c2 where t2: "subscribe_socket 0 ''j1'' good_world (t1\<lparr>jobSockets := [0]\<rparr>) = (Inr 1, t2)" "sockets t2 = [c2]"
    "cs_messages c2 = [typed ''connection_ready'' []]" "cs_waiting c2 = []"
    "cs_settled c2 = [(0, Inr (typed ''connection_ready'' []))]" "cs_next c2 = 1"
    using t1(2) by (simp add: subscribe_socket_def on_socket_def subscribe_client_def bindT_def ready_socket_def new_socket_def)
  obtain t3 c3 where t3: "await_message 0 (has_type ''error'') ''an ownership rejection'' 1 15000 good_world t2 = (Inr refusal, t3)"
    "sockets t3 = [c3]" "cs_messages c3 = [typed ''connection_ready'' [], typed ''connection_ready'' [], refusal]"
    using good_error[OF t2(2-6)] by blast
  have m: "property refusal ''error'' good_world u = (Inr (Some (JString ''Job not found'')), u)"
    "someE private_message [typed ''connection_ready'' [], refusal] = Inr False" for u
    by (simp_all add: property_def member_of_def liftT_def refusal_def typed_def json_field_def private_message_def
        has_type_def bindE_def)
  show ?thesis unfolding denied_check_def
    using t1(1) t2(1) t3 m
    by (simp add: bindT_def hold_sockets_def messages_from_def liftT_def close_job_socket_def on_socket_def)
qed

definition watching_socket :: "client_socket \<Rightarrow> nat \<Rightarrow> json list \<Rightarrow> bool" where
  "watching_socket c k ms \<longleftrightarrow> cs_messages c = typed ''connection_ready'' [] # ms \<and> cs_waiting c = [] \<and>
     (if k = 1 then \<exists>r. cs_settled c = [(0, r)] else \<exists>r q. cs_settled c = [(0, r), (1, q)]) \<and> cs_next c = k"

lemma good_watch:
  assumes "sockets s = [c]"
  shows "\<exists>t c2 c3. connectJobWebSocket good_session good_world s = (Inr 1, t) \<and> sockets t = [c2, c3] \<and> watching_socket c3 1 []"
  using assms
  by (simp add: connectJobWebSocket_def connect_all_def open_socket_def createWebSocketUrl_def ready_wait_def
      new_socket_def watching_socket_def wait_defs good_defs)

definition confirmation :: json where "confirmation = typed ''subscribed'' [(''jobId'', JString ''j1'')]"

lemma good_confirmed:
  assumes "sockets s = [b, c]" "watching_socket c 1 []"
  shows "\<exists>m t c2 c3. await_message 1 (subscribed_to ''j1'') ''the owner's subscription confirmation'' 1 15000 good_world s = (Inr m, t) \<and>
    sockets t = [c2, c3] \<and> watching_socket c3 2 [typed ''connection_ready'' [], confirmation]"
  using assms by (auto simp: watching_socket_def confirmation_def subscribed_to_def wait_defs good_defs)

lemma good_finished:
  assumes "sockets s = [b, c]" "watching_socket c 2 [typed ''connection_ready'' [], confirmation]"
  shows "\<exists>t c2 c3. await_message 1 (job_update_of ''j1'' is_completed) ''the completed job update'' 1 60000 good_world s =
      (Inr (the (good_json ''c'')), t) \<and> sockets t = [c2, c3] \<and>
    drop 1 (cs_messages c3) = [typed ''connection_ready'' [], confirmation, typed ''connection_ready'' [], confirmation,
      the (good_json ''p''), the (good_json ''c'')]"
  using assms
  by (auto simp: watching_socket_def confirmation_def job_update_of_def is_completed_def wait_defs good_defs)

lemma good_links: "fst (bindT (client_fetchDownloadUrls good_session ''j1'') check_links good_world s) = Inr ()"
  by (simp add: client_fetchDownloadUrls_def check_links_def or_object_def invalid_entry_def startsWith_def good_defs)

lemma good_owner:
  assumes "sockets s = [c]"
  shows "fst (owner_check good_session ''j1'' good_world s) = Inr ()"
proof -
  obtain t1 c1 d1 where t1: "connectJobWebSocket good_session good_world s = (Inr 1, t1)" "sockets t1 = [c1, d1]"
    "watching_socket d1 1 []" using good_watch[OF assms] by blast
  obtain t2 c2 d2 where t2: "subscribe_socket 1 ''j1'' good_world (t1\<lparr>jobSockets := [1]\<rparr>) = (Inr 1, t2)"
    "sockets t2 = [c2, d2]" "watching_socket d2 1 []"
    using t1(2,3) by (simp add: subscribe_socket_def on_socket_def subscribe_client_def bindT_def watching_socket_def)
  obtain m t3 c3 d3 where t3: "await_message 1 (subscribed_to ''j1'') ''the owner's subscription confirmation'' 1 15000 good_world t2 = (Inr m, t3)"
    "sockets t3 = [c3, d3]" "watching_socket d3 2 [typed ''connection_ready'' [], confirmation]"
    using good_confirmed[OF t2(2,3)] by blast
  obtain t4 c4 d4 where t4: "await_message 1 (job_update_of ''j1'' is_completed) ''the completed job update'' 1 60000 good_world t3 =
      (Inr (the (good_json ''c'')), t4)" "sockets t4 = [c4, d4]"
    and ms: "drop 1 (cs_messages d4) = [typed ''connection_ready'' [], confirmation, typed ''connection_ready'' [], confirmation,
      the (good_json ''p''), the (good_json ''c'')]"
    using good_finished[OF t3(2,3)] by blast
  have f: "filterE (any_update_of ''j1'') [typed ''connection_ready'' [], confirmation, typed ''connection_ready'' [], confirmation,
      the (good_json ''p''), the (good_json ''c'')] = Inr [the (good_json ''p''), the (good_json ''c'')]"
    "mapE progress_in [the (good_json ''p''), the (good_json ''c'')] =
      Inr [Some (JNumber (Finite 50)), Some (JNumber (Finite 100))]"
    "progress_in (the (good_json ''c'')) = Inr (Some (JNumber (Finite 100)))"
    by (simp_all add: any_update_of_def confirmation_def progress_in_def has_type_def typed_def bindE_def good_defs)
  have "messages_from 1 1 good_world t4 = (Inr (drop 1 (cs_messages d4)), t4)" by (simp add: messages_from_def t4(2))
  then show ?thesis unfolding owner_check_def Let_def
    using t1(1) t2(1) t3(1) t4(1) ms f good_links[of t4]
    by (simp add: bindT_def[of _ "\<lambda>x. y x" for y] hold_sockets_def liftT_def)
qed

lemma good_body: "fst (websocket_body good_world started_tools) = Inr ()"
proof -
  have checks: "fst (bindT (denied_check good_session ''j1'') (\<lambda>_. owner_check good_session ''j1'') good_world t) = Inr ()"
    if none: "sockets t = []" for t
  proof -
    obtain c u where "denied_check good_session ''j1'' good_world t = (Inr (), u)" "sockets u = [c]"
      using good_denied[OF none] by blast
    then show ?thesis using good_owner by (simp add: bindT_def)
  qed
  have moves: "keeps same_sockets (set_session x)" "keeps same_sockets (keep_job i)" for x i
    by (simp_all add: keeps_def set_session_def keep_job_def same_sockets_def Let_def)
  show ?thesis unfolding websocket_body_def
    by (rule step_good, rule good_idle, rule still.keeps_idle_check, rule step_good, rule good_requests(1), rule still.keeps_docker,
        rule step_good, rule good_workers, rule still.keeps_waiting, rule step_good, rule good_requests(2), rule still.keeps_session,
        rule step_good, rule good_requests(4), rule moves, rule step_good, rule good_requests(2), rule still.keeps_session,
        rule step_good, rule good_requests(3), rule still.keeps_submit, rule step_good, rule good_requests(5), rule still.keeps_property,
        rule step_good, rule good_requests(6), rule moves, rule checks) (simp add: started_tools_def)
qed

lemma good_restored: "fst (restoreNormalWorker good_world s) = Inr ()"
proof -
  have "\<exists>out. tw_output good_world h c = Inr out" for h c by (simp add: good_world_def)
  then show ?thesis using restore_ends[of good_world s] by auto
qed

theorem websocket_check_sound_witness:
  "\<exists>jobId t j k m. verify_websocket_security good_world started_tools = (Inr (), t) \<and> 0 < j \<and>
    m \<in> set (drop k (cs_messages (sockets t ! j))) \<and> job_update_of jobId is_completed m = Inr True"
proof -
  have "fst (verify_websocket_security good_world started_tools) = Inr ()"
    using good_body good_restored by (simp add: verify_websocket_security_def drill_def split_beta)
  then obtain t where t: "verify_websocket_security good_world started_tools = (Inr (), t)"
    by (cases "verify_websocket_security good_world started_tools") auto
  have "\<forall>c \<in> set (sockets started_tools). client_ok c" by (simp add: started_tools_def)
  from websocket_check_sound[OF t this] t show ?thesis
    by (metis gr_zeroI insert_subset not_less_zero)
qed

end
