(* ===== verification/WireTypes.thy ===== *)
theory WireTypes
  imports Server WsSubscription
begin

text \<open>
  frontend/src/types.ts: the declared shapes of what the backend sends. The file is transcribed into
  a small language of types with a test whether a JSON value has a type, and the JSON bodies of the
  routes and messages are written out, so that what the compiler of the browser code only assumes
  is a theorem about the backend. \<open>stamp\<close> is the text of a time in JSON, \<open>lib\<close> a message of the
  validation library; the path in a 404 answer and the identifier in a 500 answer are left out.
\<close>

section \<open>Types\<close>

datatype ts_type =
    TsString
  | TsNumber
  | TsBoolean
  | TsNull
  | TsLiteral json
  | TsArray ts_type
  | TsRecord ts_type
  | TsObject "ts_field list"
  | TsUnion "ts_type list"
  | TsBoth ts_type ts_type
and ts_field = Required string ts_type | Optional string ts_type

fun conforms :: "ts_type \<Rightarrow> json \<Rightarrow> bool" and field_conforms :: "ts_field \<Rightarrow> (string \<times> json) list \<Rightarrow> bool" where
  "conforms TsString j = (case j of JString t \<Rightarrow> True | _ \<Rightarrow> False)"
| "conforms TsNumber j = (case j of JNumber x \<Rightarrow> True | _ \<Rightarrow> False)"
| "conforms TsBoolean j = (case j of JBool b \<Rightarrow> True | _ \<Rightarrow> False)"
| "conforms TsNull j = (j = JNull)"
| "conforms (TsLiteral v) j = (j = v)"
| "conforms (TsArray t) j = (case j of JArray xs \<Rightarrow> list_all (conforms t) xs | _ \<Rightarrow> False)"
| "conforms (TsRecord t) j = (case j of JObject kvs \<Rightarrow> list_all (\<lambda>kv. conforms t (snd kv)) kvs | _ \<Rightarrow> False)"
| "conforms (TsObject fs) j = (case j of JObject kvs \<Rightarrow> list_all (\<lambda>f. field_conforms f kvs) fs | _ \<Rightarrow> False)"
| "conforms (TsUnion ts) j = list_ex (\<lambda>t. conforms t j) ts"
| "conforms (TsBoth t u) j = (conforms t j \<and> conforms u j)"
| "field_conforms (Required k t) kvs = (case map_of kvs k of None \<Rightarrow> False | Some v \<Rightarrow> conforms t v)"
| "field_conforms (Optional k t) kvs = (case map_of kvs k of None \<Rightarrow> True | Some v \<Rightarrow> conforms t v)"

definition literals :: "string list \<Rightarrow> ts_type" where
  "literals ts = TsUnion (map (\<lambda>t. TsLiteral (JString t)) ts)"

definition nullable :: "ts_type \<Rightarrow> ts_type" where
  "nullable t = TsUnion [t, TsNull]"

section \<open>types.ts\<close>

definition HealthResponseType :: ts_type where
  "HealthResponseType = TsObject [Required ''status'' TsString, Required ''service'' TsString]"

definition WorkerAvailabilityType :: ts_type where
  "WorkerAvailabilityType = TsObject [Required ''status'' (literals [''available'', ''busy'', ''offline'']),
     Required ''onlineWorkers'' TsNumber, Required ''idleWorkers'' TsNumber, Required ''busyWorkers'' TsNumber]"

definition UserType :: ts_type where
  "UserType = TsObject [Required ''id'' TsString, Required ''username'' TsString]"

definition AuthenticationResponseType :: ts_type where
  "AuthenticationResponseType = TsUnion
     [TsObject [Required ''authenticated'' (TsLiteral (JBool True)), Required ''user'' UserType],
      TsObject [Required ''authenticated'' (TsLiteral (JBool False)), Required ''user'' TsNull]]"

definition AccountSessionType :: ts_type where
  "AccountSessionType = TsObject [Required ''id'' TsString, Required ''createdAt'' TsString,
     Required ''lastSeenAt'' TsString, Required ''expiresAt'' TsString, Required ''isCurrent'' TsBoolean]"

definition AccountSessionsResponseType :: ts_type where
  "AccountSessionsResponseType = TsObject [Required ''sessions'' (TsArray AccountSessionType)]"

definition RevokeSessionsResponseType :: ts_type where
  "RevokeSessionsResponseType = TsBoth AccountSessionsResponseType (TsObject [Required ''revokedCount'' TsNumber])"

definition PresignResponseType :: ts_type where
  "PresignResponseType = TsObject [Required ''uploadUrl'' TsString, Required ''objectKey'' TsString,
     Required ''bucket'' TsString, Required ''expiresInSeconds'' TsNumber, Required ''maxUploadBytes'' TsNumber]"

definition JobStatusType :: ts_type where
  "JobStatusType = literals [''PENDING'', ''PROCESSING'', ''RETRYING'', ''COMPLETED'', ''FAILED'', ''CANCELLED'']"

definition JobType :: ts_type where
  "JobType = TsObject [Required ''id'' TsString, Required ''original_file_name'' TsString,
     Required ''input_object_key'' TsString, Required ''status'' JobStatusType, Required ''progress'' TsNumber,
     Required ''result_object_keys'' (nullable (TsRecord TsString)), Required ''error_message'' (nullable TsString),
     Required ''storage_expires_at'' (nullable TsString), Required ''storage_deleted_at'' (nullable TsString),
     Required ''created_at'' TsString, Required ''updated_at'' TsString]"

definition JobHistoryResponseType :: ts_type where
  "JobHistoryResponseType = TsObject [Required ''jobs'' (TsArray JobType)]"

definition DownloadUrlsResponseType :: ts_type where
  "DownloadUrlsResponseType = TsObject [Required ''jobId'' TsString, Required ''downloadUrls'' (TsRecord TsString),
     Required ''expiresInSeconds'' TsNumber]"

definition ApiErrorResponseType :: ts_type where
  "ApiErrorResponseType = TsObject [Optional ''error'' TsString, Optional ''requestId'' TsString]"

definition JobWebSocketMessageType :: ts_type where
  "JobWebSocketMessageType = TsUnion
     [TsObject [Required ''type'' (TsLiteral (JString ''connection_ready'')), Required ''heartbeatIntervalSeconds'' TsNumber],
      TsObject [Required ''type'' (TsLiteral (JString ''subscribed'')), Required ''jobId'' TsString],
      TsObject [Required ''type'' (TsLiteral (JString ''unsubscribed''))],
      TsObject [Required ''type'' (TsLiteral (JString ''job_update'')), Required ''job'' JobType],
      TsObject [Required ''type'' (TsLiteral (JString ''error'')), Required ''error'' TsString]]"

lemmas wire_types = HealthResponseType_def WorkerAvailabilityType_def UserType_def AuthenticationResponseType_def
  AccountSessionsResponseType_def RevokeSessionsResponseType_def PresignResponseType_def
  JobStatusType_def JobHistoryResponseType_def DownloadUrlsResponseType_def ApiErrorResponseType_def
  JobWebSocketMessageType_def literals_def nullable_def

section \<open>What the backend sends\<close>

definition number_json :: "int \<Rightarrow> json" where
  "number_json i = JNumber (Finite (of_int i))"

definition or_null :: "('a \<Rightarrow> json) \<Rightarrow> 'a option \<Rightarrow> json" where
  "or_null f v = (case v of None \<Rightarrow> JNull | Some x \<Rightarrow> f x)"

definition texts_json :: "(string \<times> string) list \<Rightarrow> json" where
  "texts_json kvs = JObject (map (\<lambda>kv. (fst kv, JString (snd kv))) kvs)"

definition job_json :: "(time \<Rightarrow> string) \<Rightarrow> JobRecord \<Rightarrow> json" where
  "job_json stamp j = JObject [(''id'', JString (job_id j)), (''original_file_name'', JString (original_file_name j)),
     (''input_object_key'', JString (input_object_key j)), (''status'', JString (status_text (status j))),
     (''progress'', number_json (progress j)), (''result_object_keys'', or_null texts_json (result_object_keys j)),
     (''error_message'', or_null JString (error_message j)),
     (''storage_expires_at'', or_null (\<lambda>t. JString (stamp t)) (storage_expires_at j)),
     (''storage_deleted_at'', or_null (\<lambda>t. JString (stamp t)) (storage_deleted_at j)),
     (''created_at'', JString (stamp (created_at j))), (''updated_at'', JString (stamp (updated_at j)))]"

definition user_json :: "AuthenticatedUser \<Rightarrow> json" where
  "user_json u = JObject [(''id'', JString (auth_id u)), (''username'', JString (auth_username u))]"

definition account_session_json :: "(time \<Rightarrow> string) \<Rightarrow> AccountSession \<Rightarrow> json" where
  "account_session_json stamp s = JObject [(''id'', JString (account_session_id s)), (''createdAt'', JString (stamp (createdAt s))),
     (''lastSeenAt'', JString (stamp (lastSeenAt s))), (''expiresAt'', JString (stamp (sessionExpiresAt s))),
     (''isCurrent'', JBool (isCurrent s))]"

fun error_json :: "string \<Rightarrow> error_text \<Rightarrow> json" where
  "error_json lib (Text m) = JString m"
| "error_json lib LibraryText = JString lib"

text \<open>An answer without a body has no JSON.\<close>

fun body_json :: "(time \<Rightarrow> string) \<Rightarrow> string \<Rightarrow> response_body \<Rightarrow> json option" where
  "body_json stamp lib NoBody = None"
| "body_json stamp lib (ErrorJson e) = Some (JObject [(''error'', error_json lib e)])"
| "body_json stamp lib (AuthJson b u) = Some (JObject [(''authenticated'', JBool b), (''user'', or_null user_json u)])"
| "body_json stamp lib (SessionReadyJson b n) =
     Some (JObject [(''sessionReady'', JBool b), (''expiresInSeconds'', number_json (int n))])"
| "body_json stamp lib (SessionsJson ss) = Some (JObject [(''sessions'', JArray (map (account_session_json stamp) ss))])"
| "body_json stamp lib (RevokedJson n ss) =
     Some (JObject [(''revokedCount'', number_json (int n)), (''sessions'', JArray (map (account_session_json stamp) ss))])"
| "body_json stamp lib (DuplicateJson m i st) = Some (JObject [(''error'', JString m), (''existingJobId'', JString i),
     (''existingJobStatus'', JString (status_text st))])"
| "body_json stamp lib (LimitJson m n) = Some (JObject [(''error'', JString m), (''activeJobLimit'', number_json (int n))])"
| "body_json stamp lib (JobJson j) = Some (job_json stamp j)"
| "body_json stamp lib (JobsJson js) = Some (JObject [(''jobs'', JArray (map (job_json stamp) js))])"
| "body_json stamp lib (NotCompletedJson m st p) = Some (JObject [(''error'', JString m),
     (''status'', JString (status_text st)), (''progress'', number_json p)])"
| "body_json stamp lib (DownloadsJson i urls n) = Some (JObject [(''jobId'', JString i),
     (''downloadUrls'', texts_json urls), (''expiresInSeconds'', number_json (int n))])"
| "body_json stamp lib (PresignJson url key bucket n m) = Some (JObject [(''uploadUrl'', JString url),
     (''objectKey'', JString key), (''bucket'', JString bucket), (''expiresInSeconds'', number_json (int n)),
     (''maxUploadBytes'', number_json (int m))])"

fun capacity_text :: "capacity \<Rightarrow> string" where
  "capacity_text Available = ''available''"
| "capacity_text Busy = ''busy''"
| "capacity_text Offline = ''offline''"

definition availability_json :: "WorkerAvailability \<Rightarrow> json" where
  "availability_json a = JObject [(''status'', JString (capacity_text (capacity_status a))),
     (''onlineWorkers'', JNumber (onlineWorkers a)), (''idleWorkers'', JNumber (idleWorkers a)),
     (''busyWorkers'', JNumber (busyWorkers a))]"

definition health_json :: "string \<Rightarrow> string \<Rightarrow> json" where
  "health_json instanceId st = JObject [(''status'', JString st), (''service'', JString ''backend''),
     (''instanceId'', JString instanceId)]"

fun message_json :: "(time \<Rightarrow> string) \<Rightarrow> server_message \<Rightarrow> json" where
  "message_json stamp (ConnectionReady n) =
     JObject [(''type'', JString ''connection_ready''), (''heartbeatIntervalSeconds'', number_json (int n))]"
| "message_json stamp (SubscribedMessage i) = JObject [(''type'', JString ''subscribed''), (''jobId'', JString i)]"
| "message_json stamp UnsubscribedMessage = JObject [(''type'', JString ''unsubscribed'')]"
| "message_json stamp (JobUpdate j) = JObject [(''type'', JString ''job_update''), (''job'', job_json stamp j)]"
| "message_json stamp (ErrorMessage m) = JObject [(''type'', JString ''error''), (''error'', JString m)]"

section \<open>Which type each request is read with\<close>

text \<open>The types that the wrappers under frontend/src/api/ give to the answers of the API.\<close>

definition declared :: "string \<Rightarrow> string list \<Rightarrow> ts_type" where
  "declared m segs =
     (case map toLowerCase segs of
        [a] \<Rightarrow> if a = ''jobs'' then (if m = ''POST'' then JobType else JobHistoryResponseType) else TsObject []
      | [a, b] \<Rightarrow>
          if a = ''jobs'' then JobType
          else if a = ''uploads'' then PresignResponseType
          else if a = ''auth'' then (if b = ''sessions'' then AccountSessionsResponseType else AuthenticationResponseType)
          else TsObject []
      | [a, b, c] \<Rightarrow>
          if a = ''jobs'' then (if c = ''cancel'' then JobType else DownloadUrlsResponseType)
          else if a = ''auth'' then RevokeSessionsResponseType
          else TsObject []
      | _ \<Rightarrow> TsObject [])"

definition answered :: "(time \<Rightarrow> string) \<Rightarrow> string \<Rightarrow> ts_type \<Rightarrow> response \<Rightarrow> bool" where
  "answered stamp lib t r \<longleftrightarrow>
     (case body_json stamp lib (resp_body r) of
        None \<Rightarrow> resp_status r = 204
      | Some j \<Rightarrow> if resp_status r \<in> {200, 201} then conforms t j
                  else 400 \<le> resp_status r \<and> conforms ApiErrorResponseType j \<and> json_field ''error'' j \<noteq> None)"

fun well_answered :: "(time \<Rightarrow> string) \<Rightarrow> string \<Rightarrow> string \<Rightarrow> raw_request \<Rightarrow> server_response \<Rightarrow> bool" where
  "well_answered stamp lib i rq (ApiResponse r) \<longleftrightarrow>
     answered stamp lib (case below [''api''] (segments (rq_path rq)) of
         None \<Rightarrow> TsObject [] | Some segs \<Rightarrow> declared (rq_method rq) segs) r"
| "well_answered stamp lib i rq (AvailabilityResponse a) \<longleftrightarrow> conforms WorkerAvailabilityType (availability_json a)"
| "well_answered stamp lib i rq (OperationsResponse p) \<longleftrightarrow> True"
| "well_answered stamp lib i rq (HealthResponse n st) \<longleftrightarrow>
     route_at [''health''] (segments (rq_path rq)) \<longrightarrow> n = 200 \<and> conforms HealthResponseType (health_json i st)"

lemma job_conforms: "conforms JobType (job_json stamp j)"
proof -
  have "conforms (nullable (TsRecord TsString)) (or_null texts_json v)" for v
    by (cases v) (simp_all add: nullable_def or_null_def texts_json_def list_all_iff)
  moreover have "conforms (nullable TsString) (or_null JString v)" "conforms (nullable TsString) (or_null (\<lambda>t. JString (stamp t)) u)"
    for v u by (cases v; simp add: nullable_def or_null_def) (cases u; simp add: nullable_def or_null_def)
  moreover have "conforms JobStatusType (JString (status_text st))" for st
    by (cases st) (simp_all add: JobStatusType_def literals_def)
  ultimately show ?thesis by (simp add: JobType_def job_json_def number_json_def)
qed

lemma message_conforms: "conforms JobWebSocketMessageType (message_json stamp m)"
  by (cases m) (simp_all add: JobWebSocketMessageType_def job_conforms number_json_def)

section \<open>What routes can answer\<close>

definition yields :: "('a \<Rightarrow> bool) \<Rightarrow> 'a eff \<Rightarrow> bool" where
  "yields P m \<longleftrightarrow> (\<forall>w s a t. m w s = (Inr a, t) \<longrightarrow> P a)"

lemma yields_basic: "P a \<Longrightarrow> yields P (returnM a)" "yields P (throwM e)"
  by (simp_all add: yields_def returnM_def throwM_def)

lemma yields_bind: "(\<And>x. yields P (f x)) \<Longrightarrow> yields P (bindM m f)" "yields P n \<Longrightarrow> yields P (thenM m n)"
  by (auto simp: yields_def bindM_def thenM_def split: prod.splits sum.splits)

lemma yields_catch: "yields P m \<Longrightarrow> (\<And>e. yields P (h e)) \<Longrightarrow> yields P (catchM m h)"
  unfolding yields_def catchM_def by (fastforce split: prod.splits sum.splits)

lemma yields_if: "yields P m \<Longrightarrow> yields P n \<Longrightarrow> yields P (if b then m else n)"
  by simp

lemma yields_when: "(b \<Longrightarrow> yields P m) \<Longrightarrow> (\<not> b \<Longrightarrow> yields P n) \<Longrightarrow> yields P (if b then m else n)"
  by simp

lemmas yields_rules = yields_basic yields_bind yields_catch yields_if

fun api_ok :: "(time \<Rightarrow> string) \<Rightarrow> string \<Rightarrow> ts_type \<Rightarrow> server_response \<Rightarrow> bool" where
  "api_ok stamp lib t (ApiResponse r) \<longleftrightarrow> answered stamp lib t r"
| "api_ok stamp lib t (AvailabilityResponse a) \<longleftrightarrow> conforms WorkerAvailabilityType (availability_json a)"
| "api_ok stamp lib t _ \<longleftrightarrow> False"

lemma yields_api: "yields (answered stamp lib t) m \<Longrightarrow> yields (api_ok stamp lib t) (api m)"
  by (auto simp: yields_def api_def bindM_def returnM_def split: prod.splits sum.splits)

lemma answered_cookies [simp]: "answered stamp lib t (r\<lparr>resp_cookies := cs\<rparr>) = answered stamp lib t r"
  by (simp add: answered_def split: option.split)

lemma answered_errors [simp]:
  "400 \<le> st \<Longrightarrow> answered stamp lib t (fail_reply st m)" "400 \<le> st \<Longrightarrow> answered stamp lib t (reply st (ErrorJson e))"
  "answered stamp lib t (reply 409 (DuplicateJson m i js))" "answered stamp lib t (reply 409 (LimitJson m n))"
  "answered stamp lib t (reply 409 (NotCompletedJson m js p))" "answered stamp lib t (reply 204 NoBody)"
  by (cases e; simp add: answered_def ApiErrorResponseType_def json_field_def fail_reply_def reply_def)+

lemma session_conforms: "conforms AccountSessionType (account_session_json stamp s)"
  by (simp add: AccountSessionType_def account_session_json_def)

lemma answered_data [simp]:
  "answered stamp lib JobType (reply 200 (JobJson j))" "answered stamp lib JobType (reply 201 (JobJson j))"
  "answered stamp lib JobHistoryResponseType (reply 200 (JobsJson js))"
  "answered stamp lib DownloadUrlsResponseType (reply 200 (DownloadsJson i urls n))"
  "answered stamp lib PresignResponseType (reply 200 (PresignJson url key bucket n m))"
  "answered stamp lib AuthenticationResponseType (reply 200 (AuthJson False None))"
  "answered stamp lib AuthenticationResponseType (reply 200 (AuthJson True (Some u)))"
  "answered stamp lib AuthenticationResponseType (reply 201 (AuthJson True (Some u)))"
  "answered stamp lib AccountSessionsResponseType (reply 200 (SessionsJson ss))"
  "answered stamp lib RevokeSessionsResponseType (reply 200 (RevokedJson n ss))"
  by (simp_all add: answered_def reply_def job_conforms session_conforms wire_types number_json_def texts_json_def
      or_null_def user_json_def list_all_iff)

lemma job_routes_answered:
  "yields (answered stamp lib JobType) (post_job rt req)"
  "yields (answered stamp lib JobHistoryResponseType) (get_jobs req)"
  "yields (answered stamp lib JobType) (post_cancel rt i req)"
  "yields (answered stamp lib DownloadUrlsResponseType) (get_downloads rt i req)"
  "yields (answered stamp lib JobType) (get_job rt i req)"
  "yields (answered stamp lib PresignResponseType) (post_presign rt sign uuid req)"
  unfolding post_job_def get_jobs_def post_cancel_def get_downloads_def get_job_def post_presign_def Let_def
  by (auto intro!: yields_rules split: sum.split prod.split error.split option.split CancelJobResult.split)

lemma auth_routes_answered:
  "yields (answered stamp lib AuthenticationResponseType) (get_me req)"
  "yields (answered stamp lib AuthenticationResponseType) (post_register rt req)"
  "yields (answered stamp lib AuthenticationResponseType) (post_login rt req)"
  "yields (answered stamp lib t) (post_logout rt req)"
  "yields (answered stamp lib AccountSessionsResponseType) (require_account (get_sessions rt) req)"
  "yields (answered stamp lib RevokeSessionsResponseType) (require_account (post_revoke_others rt) req)"
  "yields (answered stamp lib t) (require_account (post_password rt) req)"
  "yields (answered stamp lib t) (require_account (post_account cfg rt) req)"
  "yields (answered stamp lib t) (require_account (\<lambda>_. returnM (reply 204 NoBody)) req)"
  unfolding get_me_def post_register_def post_login_def post_logout_def require_account_def get_sessions_def
    post_revoke_others_def post_password_def post_account_def with_current_def Let_def
  by (auto intro!: yields_rules split: sum.split prod.split option.split)

section \<open>Every answer has its declared type\<close>

lemma not_found_ok: "yields (api_ok stamp lib t) notFoundHandler"
  by (auto simp: notFoundHandler_def intro!: yields_rules)

lemma limited_ok: "yields (api_ok stamp lib t) m \<Longrightarrow> yields (api_ok stamp lib t) (with_limit sr l m)"
  by (auto simp: with_limit_def intro!: yields_rules)

lemma principal_ok:
  "(\<And>req. yields (api_ok stamp lib t) (router req)) \<Longrightarrow> yields (api_ok stamp lib t) (with_principal sr rq body router)"
  unfolding with_principal_def by (rule yields_bind) (auto split: guard_outcome.split intro!: yields_rules)

lemmas router_rules = yields_if not_found_ok limited_ok yields_api job_routes_answered auth_routes_answered

lemma jobs_router_ok:
  assumes "toLowerCase x = ''jobs''"
  shows "yields (api_ok stamp lib (declared m (x # segs))) (jobs_router sr m segs req)"
proof (cases segs)
  case Nil
  then show ?thesis using assms by (auto simp: jobs_router_def declared_def is_get_def intro: router_rules)
next
  case (Cons i rest)
  show ?thesis
  proof (cases rest)
    case Nil
    then show ?thesis using assms Cons by (auto simp: jobs_router_def declared_def intro: router_rules)
  next
    case (Cons a more)
    then show ?thesis using assms \<open>segs = i # rest\<close>
      by (cases more) (auto simp: jobs_router_def declared_def intro: router_rules)
  qed
qed

lemma uploads_router_ok:
  "toLowerCase x = ''uploads'' \<Longrightarrow> yields (api_ok stamp lib (declared m (x # segs))) (uploads_router sr m segs req)"
  by (auto simp: uploads_router_def declared_def route_at_def intro: router_rules)

lemma auth_router_ok:
  "toLowerCase x = ''auth'' \<Longrightarrow> yields (api_ok stamp lib (declared m (x # segs))) (auth_router sr m segs req)"
  unfolding auth_router_def account_router_def
  by (intro yields_when limited_ok yields_api not_found_ok)
    (auto simp: declared_def route_at_def intro: auth_routes_answered)

lemma session_router_ok:
  "toLowerCase x = ''session'' \<Longrightarrow> yields (api_ok stamp lib (declared m (x # segs))) (session_router sr m segs req)"
  by (auto simp: session_router_def declared_def post_session_def answered_def reply_def Let_def
      intro!: yields_rules not_found_ok split: prod.split)

lemma availability_conforms: "conforms WorkerAvailabilityType (availability_json a)"
  by (cases "capacity_status a") (simp_all add: wire_types availability_json_def)

lemma system_router_ok: "yields (api_ok stamp lib t) (system_router m segs)"
  by (auto simp: system_router_def availability_conforms intro!: yields_rules not_found_ok)

lemma below_one: "below [p] segs = Some rest \<longleftrightarrow> (\<exists>x. segs = x # rest \<and> toLowerCase x = p)"
  by (cases segs) auto

lemma api_routes_ok: "yields (api_ok stamp lib (declared (rq_method rq) segs)) (api_routes sr rq body segs)"
  unfolding api_routes_def
  by (auto simp: below_one split: option.split
      intro!: not_found_ok session_router_ok system_router_ok principal_ok auth_router_ok limited_ok uploads_router_ok jobs_router_ok)

text \<open>
  C6: every answer has the type that the browser code declares for it. For whatever request, state of
  the tables and failures of the database, an answer of the API with status 200 or 201 conforms to the
  type of types.ts that the browser's wrapper reads it with, one without a body has status 204, and
  every other one has an error status and is an object with an error text; the worker
  availability and the health check conform to theirs, and so does every WebSocket message.
\<close>

theorem answers_have_declared_types:
  assumes "handle_request sr rq w s = (Inr r, t)"
  shows "well_answered stamp lib i rq r \<and> conforms JobWebSocketMessageType (message_json stamp m)"
proof -
  have other: "yields (well_answered stamp lib i rq) (other_routes sr m segs)"
    if "below [''api''] (segments (rq_path rq)) = None" "segs = segments (rq_path rq)" for m segs
    using that unfolding other_routes_def ready_def db_health_def notFoundHandler_def
    by (auto simp: wire_types health_json_def route_at_def intro!: yields_rules split: option.split)
  have api: "yields (well_answered stamp lib i rq) m" if "yields (api_ok stamp lib (declared (rq_method rq) segs)) m"
    "below [''api''] (segments (rq_path rq)) = Some segs" for m segs
  proof -
    have "api_ok stamp lib (declared (rq_method rq) segs) x \<Longrightarrow> well_answered stamp lib i rq x" for x
      using that(2) by (cases x) simp_all
    then show ?thesis using that(1) by (auto simp: yields_def)
  qed
  have "yields (well_answered stamp lib i rq) (application sr rq)"
    unfolding application_def
    by (auto simp: requireAllowedOrigin_def split: sum.split option.split
        intro!: yields_rules other api[OF limited_ok[OF api_routes_ok]])
  then have "well_answered stamp lib i rq r"
    using assms unfolding handle_request_def yields_def
    by (auto split: prod.splits sum.splits option.split)
  then show ?thesis using message_conforms by blast
qed

theorem answers_have_declared_types_witness:
  "\<exists>r j. fst (handle_request sample_server (sample_get ''/api/jobs'' (Some sample_header)) quiet_world (idle_exec session_db)) =
      Inr (ApiResponse r) \<and> resp_status r = 200 \<and> body_json (\<lambda>t. []) [] (resp_body r) = Some j \<and>
    conforms JobHistoryResponseType j"
proof -
  let ?q = "sample_get ''/api/jobs'' (Some sample_header)"
  have "case fst (handle_request sample_server ?q quiet_world (idle_exec session_db)) of
      Inr (ApiResponse r) \<Rightarrow> resp_status r = 200 | _ \<Rightarrow> False" by code_simp
  then obtain r t where r: "handle_request sample_server ?q quiet_world (idle_exec session_db) = (Inr (ApiResponse r), t)"
    "resp_status r = 200"
    by (cases "handle_request sample_server ?q quiet_world (idle_exec session_db)")
      (auto split: sum.splits server_response.splits)
  have p: "below [''api''] (segments (rq_path ?q)) = Some [''jobs'']" "map toLowerCase [''jobs''] = [''jobs'']" by code_simp+
  then have "declared (rq_method ?q) [''jobs''] = JobHistoryResponseType" by (simp add: declared_def sample_get_def)
  then have "answered (\<lambda>t. []) [] JobHistoryResponseType r"
    using answers_have_declared_types[OF r(1), of "\<lambda>t. []" "[]" "[]" UnsubscribedMessage] p by simp
  then show ?thesis using r by (auto simp: answered_def split: option.splits)
qed

end
