(* ===== verification/RequestContext.thy ===== *)
theory RequestContext
  imports Operations
begin

text \<open>
  backend/src/observability/requestContext.ts: the request identifier that follows the asynchronous
  work of a request. Node's AsyncLocalStorage gives every piece of asynchronous work the store that
  was current where the work was scheduled, and \<open>run\<close> replaces it for its callback. What the
  backend does is an \<open>activity\<close> as far as that matters: log records, suspensions, and
  asynchronous calls that are not awaited; suspended activities resume in any order.
\<close>

section \<open>Activities\<close>

datatype activity =
    Ends
  | Logs log_level string activity
  | Awaits activity
  | Starts activity activity
  | RunWith string activity activity

text \<open>An activity in a context, up to its suspension: what it logs, and what goes on later.\<close>

type_synonym in_context = "string option \<times> activity"

record log_progress =
  logged :: "(string option \<times> log_level \<times> string) list"
  suspended :: "in_context list"

definition runWithRequestContext :: "(string option \<Rightarrow> log_progress \<Rightarrow> log_progress) \<Rightarrow> string \<Rightarrow> log_progress \<Rightarrow> log_progress" where
  "runWithRequestContext callback requestId p = callback (Some requestId) p"

definition getRequestContext :: "string option \<Rightarrow> string option" where
  "getRequestContext store = store"

fun proceed :: "activity \<Rightarrow> string option \<Rightarrow> log_progress \<Rightarrow> log_progress" where
  "proceed Ends c p = p"
| "proceed (Logs level event k) c p =
     proceed k c (p\<lparr>logged := logged p @ [(getRequestContext c, level, event)]\<rparr>)"
| "proceed (Awaits k) c p = p\<lparr>suspended := suspended p @ [(c, k)]\<rparr>"
| "proceed (Starts a k) c p = proceed k c (proceed a c p)"
| "proceed (RunWith requestId a k) c p = proceed k c (runWithRequestContext (proceed a) requestId p)"

text \<open>The suspended activity number \<open>n\<close> resumes, in the context it was suspended in.\<close>

definition resumes :: "nat \<Rightarrow> log_progress \<Rightarrow> log_progress" where
  "resumes n p =
     (if n < length (suspended p)
      then (case suspended p ! n of (c, k) \<Rightarrow>
              proceed k c (p\<lparr>suspended := take n (suspended p) @ drop (Suc n) (suspended p)\<rparr>))
      else p)"

text \<open>The record that \<open>writeLog\<close> makes of an entry.\<close>

definition written :: "log_context \<Rightarrow> string option \<times> log_level \<times> string \<Rightarrow> log_object" where
  "written cx e = log_record (cx\<lparr>log_requestId := fst e\<rparr>) (fst (snd e)) (snd (snd e)) [] None"

section \<open>No record of another request\<close>

text \<open>\<open>belongs who c a\<close>: inside \<open>c\<close>, the activity logs for the request that \<open>who\<close> assigns to the event.\<close>

fun belongs :: "(string \<Rightarrow> string option) \<Rightarrow> string option \<Rightarrow> activity \<Rightarrow> bool" where
  "belongs who c Ends = True"
| "belongs who c (Logs level event k) = (who event = c \<and> belongs who c k)"
| "belongs who c (Awaits k) = belongs who c k"
| "belongs who c (Starts a k) = (belongs who c a \<and> belongs who c k)"
| "belongs who c (RunWith i a k) = (belongs who (Some i) a \<and> belongs who c k)"

definition attributed :: "(string \<Rightarrow> string option) \<Rightarrow> log_progress \<Rightarrow> bool" where
  "attributed who p \<longleftrightarrow> (\<forall>(c, level, event) \<in> set (logged p). who event = c) \<and>
     (\<forall>(c, k) \<in> set (suspended p). belongs who c k)"

lemma attributed_more:
  "attributed who p \<Longrightarrow> who event = c \<Longrightarrow> attributed who (p\<lparr>logged := logged p @ [(c, level, event)]\<rparr>)"
  "attributed who p \<Longrightarrow> belongs who c k \<Longrightarrow> attributed who (p\<lparr>suspended := suspended p @ [(c, k)]\<rparr>)"
  by (auto simp: attributed_def)

lemma proceed_attributed: "belongs who c a \<Longrightarrow> attributed who p \<Longrightarrow> attributed who (proceed a c p)"
proof (induction a arbitrary: c p)
  case (Logs level event k)
  then show ?case using attributed_more(1) by (simp add: getRequestContext_def)
next
  case (Awaits k)
  then show ?case using attributed_more(2) by simp
next
  case (Starts a k)
  then show ?case by simp
next
  case (RunWith i a k)
  then show ?case by (simp add: runWithRequestContext_def)
qed simp

lemma resumes_attributed: "attributed who p \<Longrightarrow> attributed who (resumes n p)"
proof -
  assume p: "attributed who p"
  show ?thesis
  proof (cases "n < length (suspended p)")
    case True
    obtain c k where k: "suspended p ! n = (c, k)" by fastforce
    have "belongs who c k" using p True k nth_mem[OF True] by (auto simp: attributed_def)
    moreover have "attributed who (p\<lparr>suspended := take n (suspended p) @ drop (Suc n) (suspended p)\<rparr>)"
      using p by (auto simp: attributed_def dest!: in_set_takeD in_set_dropD)
    ultimately show ?thesis using True k proceed_attributed by (simp add: resumes_def)
  qed (use p in \<open>simp add: resumes_def\<close>)
qed

interpretation request_logs: handler_invariant resumes "attributed who"
  for who by unfold_locales (rule resumes_attributed)

definition idle_progress :: log_progress where
  "idle_progress = \<lparr>logged = [], suspended = []\<rparr>"

text \<open>
  Log records name their own request. However the activities of several requests interleave, every
  record carries the identifier of the request whose callback wrote it, and none when it was
  written outside of one.
\<close>

theorem records_name_own_request:
  assumes "belongs who None a" "(c, level, event) \<in> set (logged (run_events resumes ns (proceed a None idle_progress)))"
  shows "who event = c \<and>
    (\<forall>i. i \<noteq> [] \<longrightarrow> map_of (written cx (c, level, event)) ''requestId'' = Some (LogText i) \<longleftrightarrow> who event = Some i)"
proof -
  have "attributed who (proceed a None idle_progress)"
    by (rule proceed_attributed[OF assms(1)]) (simp add: attributed_def idle_progress_def)
  then have "attributed who (run_events resumes ns (proceed a None idle_progress))" by (rule request_logs.run_inv)
  then have w: "who event = c" using assms(2) by (auto simp: attributed_def)
  have "map_of (written cx (c, level, event)) ''requestId'' = Some (LogText i) \<longleftrightarrow> c = Some i" if "i \<noteq> []" for i
    using that by (auto simp: written_def log_record_def map_of_spread spread_def split: option.splits if_splits)
  then show ?thesis using w by blast
qed

text \<open>Two requests that suspend and resume in the other order.\<close>

definition two_requests :: activity where
  "two_requests = Starts (RunWith ''a'' (Awaits (Logs Info ''a'' Ends)) Ends)
     (RunWith ''b'' (Awaits (Logs Info ''b'' Ends)) (Logs Info [] Ends))"

theorem records_name_own_request_witness:
  "logged (run_events resumes [1, 0] (proceed two_requests None idle_progress)) =
     [(None, Info, []), (Some ''b'', Info, ''b''), (Some ''a'', Info, ''a'')] \<and>
   (\<forall>cx. map_of (written cx (Some ''b'', Info, ''b'')) ''requestId'' = Some (LogText ''b''))"
proof -
  have run: "logged (run_events resumes [1, 0] (proceed two_requests None idle_progress)) =
     [(None, Info, []), (Some ''b'', Info, ''b''), (Some ''a'', Info, ''a'')]"
    by (simp add: two_requests_def idle_progress_def resumes_def runWithRequestContext_def getRequestContext_def)
  have b: "belongs (\<lambda>e. if e = [] then None else Some e) None two_requests" by (simp add: two_requests_def)
  have "(Some ''b'', Info, ''b'') \<in> set (logged (run_events resumes [1, 0] (proceed two_requests None idle_progress)))"
    unfolding run by simp
  from records_name_own_request[OF b this] run show ?thesis by auto
qed

end
