(* ===== verification/Spec2Isabelle.thy ===== *)
theory Spec2Isabelle
  imports Admission Cleanup Processes Stems Integrity JobSocket SocketDrills WireTypes RequestContext
begin

text \<open>
  A verification library for an audio processing system: browsers upload audio to an object store
  under permissions signed by a backend, the backend turns uploads into jobs in PostgreSQL, an
  outbox publishes the jobs to Kafka for workers, and changes of a job travel back over Kafka and
  WebSockets to the browser. The library follows src/backend/src and src/frontend/src; the SQL
  schema of src/backend/sql is part of it as the invariant \<open>db_ok\<close>.

  \<^bold>\<open>Foundations.\<close> Prelude (reachability, invariant contracts, results, lists), JsString and
  JsNumber (the string and number operations of the language), Database (tables as records of
  lists, SQL statements as functions from a clock, fresh identifiers and tables to an error or a
  result with new tables, and the effect monad in which statements run: clients of the pool,
  transactions with rollback to the snapshot, queries that may fail at any point), Schema (what
  the constraints of the tables guarantee), Samples (concrete tables for witnesses).

  \<^bold>\<open>Backend services.\<close> JobService models services/jobService.ts; Admission interleaves its
  transactions with workers and cancellations, Visibility compares its runs on two databases that
  differ in the rows of other owners. Accounts and AccountLifecycle model the three
  services under auth/. Session models session.ts, authCookie.ts, authToken.ts and principal.ts;
  Password models password.ts and validation.ts. ObjectStore models audioStorage.ts and
  storageLifecycle.ts, Cleanup services/storageCleanup.ts, Config the modules under config/ with
  kafka/clientConfiguration.ts and the settings of storage/s3.ts, Outbox kafka/outboxPublisher.ts
  and kafka/producer.ts, Operations operationsService.ts with metrics, logging and the middleware
  of request observation and origin checks.

  \<^bold>\<open>Backend interfaces.\<close> Http holds JSON bodies, schemas and responses; AuthRoutes and JobRoutes the
  handlers under routes/; Server the pipeline of server.ts, which composes them in the order they
  are mounted, Integrity what requests, publisher passes and cleanup cycles keep of the schema.
  WireTypes transcribes the declared types of the browser code (types.ts) and shows that every
  answer has its type, RequestContext models requestContext.ts, WsSubscription the connections of
  websocket/, Processes the status consumer kafka/jobStatusConsumer.ts, the supervision and shutdown of server.ts and the loop of cleanup.ts.

  \<^bold>\<open>Frontend.\<close> RealtimeClient models realtime/, Page the hooks that hold the page's state with
  utils/jobs.ts and utils/audio.ts, Stems utils/stems.ts, and BrowserApi the requests of api/ with
  config.ts; there each request of the page is met with the route of Server that serves it.
  AccountState models useAuthentication.ts and the worker availability, View the components as
  functions from props to trees of elements, Application the composition of App.tsx, where the
  user acts on the live handlers of the rendered tree, Interaction what its runs can do. JobSocket
  models useJobWebSocket.ts and joins Application with its realtime subscriptions.

  \<^bold>\<open>Integration programs.\<close> Under scripts/integration/, Tooling models commands.mjs, docker.mjs and
  safety.mjs as functions from a world of answers and a state (\<open>tools\<close>) to an error or a result,
  ApiClient client.mjs, SocketClient websocket-client.mjs as a machine over what a socket reports
  and uses, with the awaiting of several sockets, Wav the audio files of verify-real-demucs.mjs byte
  by byte, Drills the programs verify-job-admission.mjs and verify-worker-recovery.mjs, SocketDrills
  the three programs that watch jobs over sockets. What every tool keeps is proved once in the
  locale \<open>tool_relation\<close>, extended by \<open>socket_relation\<close>, and interpreted for time, the variables of a
  program, and the sockets.

  \<^bold>\<open>How code is rendered.\<close> A handler that runs to its end in one go is a function; one that awaits
  while others may run is split where it awaits, and the pieces are the steps of a machine over
  events, so that a run is any list of events (\<open>run_events\<close>). Errors are values, with one
  constructor per exception class. Functions are executable. The only recursion that is not
  structural is over the pages of an object listing and in the polling loops of the integration
  programs, which are bounded by fuel; \<open>cleanup_returns\<close> shows that fuel of the number of pages
  suffices, \<open>poll_for_enough\<close> and \<open>waitForJobs_ends\<close> that fuel of the rounds that fit into the timeout does.

  \<^bold>\<open>What is shown.\<close> Admission: no interleaving exceeds the active-job limit. Server, JobRoutes,
  AuthRoutes, Session: requests reach and see only rows of the owner that their cookies prove, and
  every guard is in place. Accounts, AccountLifecycle, Password: what login, registration, password
  change and deletion do to the tables, and that credentials round-trip. Outbox, Cleanup:
  an event is marked only after delivery, a claim only completed by its holder, objects are gone
  before their row says so, whichever request to the store fails, and both drain. WsSubscription, RealtimeClient, Page: one reader and one
  timer per subscription, nothing after the end, and nothing of another owner or another job.
  JobSocket: one connection per browser, for the subscribed job, open, under way or about to be
  replaced, none of a former identity.
  Application, Interaction: the page offers exactly the controls that its state allows, at most one
  upload, one cancellation and one change of identity are under way, and each flag that disables a
  control says exactly that; no password in sight. SocketClient, Wav, SocketDrills: waits
  miss no message, a passed check has seen what it reports, the generated audio reads back, and what
  the programs leave behind when they are refused or fail. This theory: the way of a change through all of them.

  \<^bold>\<open>Parameters.\<close> HMAC, SHA-256, scrypt, random identifiers, URL and JSON parsing, cookie parsing,
  URL signing, the object store, Kafka, express-rate-limit and the browser's collation are
  arguments of the definitions; the theorems state as hypotheses what they need of them.

  \<^bold>\<open>Not modelled.\<close> The Python worker and the SQL of the worker; React itself (rendering is the
  function from state to tree, with mounting and effects written out), the browser's constraint
  validation of forms and the double effects of StrictMode; terminal output and Math.sin in
  the integration programs; nginx and container files; characters beyond code point 255.
\<close>

section \<open>From a cancellation to the browsers that watch the job\<close>

text \<open>
  The event that a cancellation leaves in the outbox is delivered by passes over a healthy broker,
  and its message starts a read on every connection that watches the job.
\<close>

lemma delivered_eventually:
  assumes "calm pw kw" "\<And>n m. send_result kw n m = Acked" "idle (px p)" "\<not> isPublishing p"
    "distinct (map event_id (outbox_events (db (px p))))"
    and e: "e \<in> set (outbox_events (db (px p)))" "event_status e = EvPENDING"
  shows "\<exists>n. message_of e \<in> set (broker ((publishPendingOutboxEvents pw kw ^^ n) p))"
proof -
  let ?b = "backlog (outbox_events (db (px p)))"
  have "e \<in> set ?b" using e by (simp add: backlog_def)
  then show ?thesis
    using passes_acked[OF assms(1-5), of "length ?b"] by (intro exI[of _ "length ?b"]) simp
qed

lemma eachMessage_current:
  "ws_current (eachMessage env raw [s] ! 0) = ws_current s"
  by (simp add: eachMessage_def notifyJobChanged_def job_changed_def refreshSubscription_def
      start_read_def Let_def split: option.splits sum.splits)

lemma status_event_accepted:
  "is_uuid jobId \<Longrightarrow> statusEventSchema is_uuid (JObject [(''jobId'', JString jobId)]) = Inr jobId"
  by (simp add: statusEventSchema_def uuid_schema_def strict_one_def string_field_def json_field_def
      unknown_keys_def is_object_def issues_of_def)

text \<open>
  C4: a cancellation reaches every browser that watches the job. When cancelJob has answered that a
  job was cancelled, then after enough passes of the publisher over a healthy database and broker
  the broker's log holds a message on the status topic such that the status consumer, on receiving
  it, makes every connection whose current subscription is that job read it afresh, in whatever
  state the connection is. That is: a read of the job is under way until it is answered; when one
  was under way before the message already, its answer (if it finds the job while the subscription
  lasts) starts another read; and the job that a read finds is then among the messages sent, as
  long as the connection is open. Whatever other events happen between these.
\<close>

theorem cancellation_reaches_browsers:
  assumes "idle x" "cancelJob cfg jobId owner w x = (Inr (cancelled row), px p)"
    and "calm pw kw" "\<forall>n m. send_result kw n m = Acked" "\<not> isPublishing p"
    and "distinct (map event_id (outbox_events (db (px p))))"
    and "we_parse env (stringify [(''jobId'', jobId)]) = Some (JObject [(''jobId'', JString jobId)])"
      "we_is_uuid env jobId"
    and "\<forall>s \<in> set conns. \<exists>env' es origin cookie.
      s = run_events (ws_step env') es (accept_connection env' origin cookie)"
  shows "\<exists>n. \<exists>m \<in> set (broker ((publishPendingOutboxEvents pw kw ^^ n) p)).
    msg_topic m = jobStatusTopic cfg \<and>
    (\<forall>k i. k < length conns \<and> ws_current (conns ! k) = Some i \<and>
         sub_jobId (ws_subs (conns ! k) i) = jobId \<longrightarrow>
       (\<forall>env'. served_afresh env' i (conns ! k)
          (eachMessage env (Some (stringify (msg_value m))) conns ! k)))"
proof -
  obtain ev now where d: "db (px p) = cancelled_db cfg jobId owner ev now (db x)" and i: "idle (px p)"
    using cancelJob_outcome[OF assms(1,2)] by auto
  define e where "e = new_event ev now (jobStatusTopic cfg) jobId [(''jobId'', jobId)]"
  have "e \<in> set (outbox_events (db (px p)))" "event_status e = EvPENDING"
    by (simp_all add: d cancelled_db_def e_def new_event_def)
  then obtain n where n: "message_of e \<in> set (broker ((publishPendingOutboxEvents pw kw ^^ n) p))"
    using delivered_eventually[OF assms(3) _ i assms(5,6)] assms(4) by blast
  have m: "msg_topic (message_of e) = jobStatusTopic cfg" "msg_value (message_of e) = [(''jobId'', jobId)]"
    by (simp_all add: message_of_def e_def new_event_def)
  have "eachMessage env (Some (stringify (msg_value (message_of e)))) conns = map (job_changed jobId) conns"
    using assms(7,8) by (simp add: eachMessage_def m(2) status_event_accepted notifyJobChanged_def)
  moreover have "socket_ok (conns ! k)" "payloads_sent (conns ! k)" if "k < length conns" for k
    using assms(9) that run_socket_ok payloads_run nth_mem by metis+
  ultimately show ?thesis using n m(1) changed_serves by (intro exI[of _ n] bexI[of _ "message_of e"]) auto
qed

definition demo_message_env :: ws_env where
  "demo_message_env = demo_ws\<lparr>we_parse := (\<lambda>raw. Some (JObject [(''jobId'', JString raw)]))\<rparr>"

definition demo_cancelled :: publisher where
  "demo_cancelled = (sample_publisher [])
     \<lparr>px := snd (cancelJob demo_config ''j1'' ''u1'' quiet_world (idle_exec session_db))\<rparr>"

text \<open>The example: a connection whose safety timer has started a read before the message arrives.\<close>

theorem cancellation_reaches_browsers_witness:
  "\<exists>n. \<exists>m \<in> set (broker ((publishPendingOutboxEvents quiet_world (sample_kafka []) ^^ n) demo_cancelled)).
     served_afresh demo_ws 0 (demo_run [demo_authenticated, ClientText ''j1'', demo_read, SafetyTick 0])
       (eachMessage demo_message_env (Some (snd (hd (msg_value m))))
          [demo_run [demo_authenticated, ClientText ''j1'', demo_read, SafetyTick 0]] ! 0) \<and>
     0 \<in> set (ws_reading (run_events (ws_step demo_ws) [RefreshRead 0 quiet_world (idle_exec session_db)]
       (eachMessage demo_message_env (Some (snd (hd (msg_value m))))
          [demo_run [demo_authenticated, ClientText ''j1'', demo_read, SafetyTick 0]] ! 0)))"
proof -
  let ?c = "demo_run [demo_authenticated, ClientText ''j1'', demo_read, SafetyTick 0]"
  define run where "run = cancelJob demo_config ''j1'' ''u1'' quiet_world (idle_exec session_db)"
  have "case fst run of Inr (cancelled row) \<Rightarrow> True | _ \<Rightarrow> False" unfolding run_def by code_simp
  then obtain row where f: "fst run = Inr (cancelled row)" by (auto split: sum.splits CancelJobResult.splits)
  have "px (q\<lparr>px := v\<rparr>) = v" for q :: publisher and v by simp
  then have "px demo_cancelled = snd run" by (simp only: demo_cancelled_def run_def)
  then have "run = (Inr (cancelled row), px demo_cancelled)" by (simp only: prod_eq_iff f fst_conv snd_conv)
  then have r: "cancelJob demo_config ''j1'' ''u1'' quiet_world (idle_exec session_db) =
      (Inr (cancelled row), px demo_cancelled)" by (simp only: run_def)
  have d: "distinct (map event_id (outbox_events (db (px demo_cancelled))))"
  proof -
    have "idle (idle_exec session_db)" "outbox_events session_db = []"
      by (simp_all add: session_db_def sample_db_def)
    then show ?thesis using cancelJob_outcome[OF _ r] by (auto simp: cancelled_db_def)
  qed
  have i: "idle (idle_exec session_db)" by simp
  have p: "\<not> isPublishing demo_cancelled" by (simp add: demo_cancelled_def sample_publisher_def)
  have e: "we_parse demo_message_env (snd (hd [(''jobId'', ''j1'')])) = Some (JObject [(''jobId'', JString ''j1'')])"
    "we_is_uuid demo_message_env ''j1''" by (simp_all add: demo_message_env_def demo_ws_def)
  have h: "\<forall>s \<in> set [?c]. \<exists>env' es origin cookie.
      s = run_events (ws_step env') es (accept_connection env' origin cookie)"
    unfolding demo_run_def by (simp only: list.set) blast
  have a: "\<forall>n m. send_result (sample_kafka []) n m = Acked" using sample_send by blast
  obtain n m where m: "m \<in> set (broker ((publishPendingOutboxEvents quiet_world (sample_kafka []) ^^ n) demo_cancelled))"
    and served: "served_afresh demo_ws 0 ?c (eachMessage demo_message_env (Some (snd (hd (msg_value m)))) [?c] ! 0)"
    using cancellation_reaches_browsers[where stringify = "\<lambda>v. snd (hd v)", OF i r sample_calm a p d e h]
      demo_reading by fastforce
  have st: "ws_current (eachMessage env raw [?c] ! 0) = Some 0" for env raw
    using demo_reading by (simp add: eachMessage_current)
  have "0 \<in> set (ws_reading (run_events (ws_step demo_ws) ([] @ [RefreshRead 0 quiet_world (idle_exec session_db)])
       (eachMessage demo_message_env (Some (snd (hd (msg_value m)))) [?c] ! 0)))"
    using served[unfolded served_afresh_def, THEN conjunct1, THEN spec[of _ "[]"]] st demo_reading
      demo_found by simp
  then show ?thesis using m served by auto
qed

end
